(* ===== verification/Prelude.thy ===== *)
theory Prelude
  imports Complex_Main "HOL-Library.Sublist"
begin

text \<open>
  Shared ground of the development: the collections of rewrite rules, facts on lists, options
  and association lists that several components use, decimal numerals, and the reading of
  JavaScript strings.

  A JavaScript string is modelled by its UTF-8 bytes, one \<open>char\<close> per byte, so that the ASCII
  strings of the source are ordinary literals. Equality, concatenation, emptiness and search
  for ASCII separators agree on both readings; what counts UTF-16 code units (\<open>length\<close>, the
  keys of a spread string) goes through \<open>code_units\<close>. Non-ASCII literals of the source are
  written as their code points with \<open>cps\<close>.
\<close>

named_theorems js_simps \<open>rewrite rules for the JavaScript primitives\<close>
named_theorems view_simps \<open>rewrite rules for the element trees the components render\<close>

subsection \<open>Association lists\<close>

lemma map_of_filter_ne:
  "map_of (filter (\<lambda>kv. fst kv \<noteq> k) ps) j = (if j = k then None else map_of ps j)"
  by (induction ps) auto

lemma map_of_Some_in_fst: "map_of ps k = Some v \<Longrightarrow> k \<in> fst ` set ps"
  by (induction ps) (auto split: if_splits)

lemma map_of_None_iff_fst: "map_of ps k = None \<longleftrightarrow> k \<notin> fst ` set ps"
  by (induction ps) auto

lemma distinct_fst_filter: "distinct (map fst ps) \<Longrightarrow> distinct (map fst (filter P ps))"
  by (induction ps) auto

lemma map_of_append_fresh:
  "k \<notin> fst ` set ps \<Longrightarrow> map_of (ps @ [(k, v)]) = (map_of ps)(k \<mapsto> v)"
  by (induction ps) (auto simp: fun_eq_iff)

lemma map_of_rev_distinct: "distinct (map fst ps) \<Longrightarrow> map_of (rev ps) = map_of ps"
proof (rule ext)
  fix k
  assume d: "distinct (map fst ps)"
  then have r: "distinct (map fst (rev ps))" by (metis distinct_rev rev_map)
  show "map_of (rev ps) k = map_of ps k"
  proof (cases "map_of ps k")
    case None
    then have "k \<notin> fst ` set (rev ps)" by (simp add: map_of_None_iff_fst)
    with None show ?thesis by (simp add: map_of_None_iff_fst [THEN iffD2])
  next
    case (Some v)
    then have "(k, v) \<in> set (rev ps)" by (simp add: map_of_SomeD)
    then show ?thesis using Some map_of_is_SomeI [OF r] by simp
  qed
qed

lemma map_of_replace:
  "map_of (map (\<lambda>(j, w). if j = k then (j, v) else (j, w)) ps) i =
     (if i = k then (if k \<in> fst ` set ps then Some v else None) else map_of ps i)"
  by (induction ps) (auto, force+)

lemma map_fst_replace:
  "map fst (map (\<lambda>(j, w). if j = k then (j, v) else (j, w)) ps) = map fst ps"
  by (induction ps) auto

lemma map_of_replace_existing:
  "k \<in> fst ` set ps \<Longrightarrow>
     map_of (map (\<lambda>(j, w). if j = k then (j, v) else (j, w)) ps) = (map_of ps)(k \<mapsto> v)"
  by (rule ext) (simp add: map_of_replace)

subsection \<open>Lists read and written by position\<close>

text \<open>
  \<open>xs.filter((_, idx) => idx !== i)\<close>: the list without its \<open>i\<close>-th element (unchanged when
  \<open>i\<close> is out of range), and \<open>xs.map((x, idx) => idx === i ? f(x) : x)\<close>.
\<close>

definition drop_nth :: "nat \<Rightarrow> 'a list \<Rightarrow> 'a list" where
  "drop_nth i xs = map snd (filter (\<lambda>(idx, _). idx \<noteq> i) (enumerate 0 xs))"

definition map_nth_with :: "nat \<Rightarrow> ('a \<Rightarrow> 'a) \<Rightarrow> 'a list \<Rightarrow> 'a list" where
  "map_nth_with i f xs = map (\<lambda>(idx, x). if idx = i then f x else x) (enumerate 0 xs)"

lemma filter_enumerate_ge:
  "i < n \<Longrightarrow> map snd (filter (\<lambda>(idx, _). idx \<noteq> i) (enumerate n xs)) = xs"
  by (induction xs arbitrary: n) auto

lemma drop_nth_enumerate:
  "map snd (filter (\<lambda>(idx, _). idx \<noteq> n + i) (enumerate n xs)) = take i xs @ drop (Suc i) xs"
proof (induction xs arbitrary: n i)
  case Nil
  then show ?case by simp
next
  case (Cons x xs)
  show ?case
  proof (cases i)
    case 0
    then show ?thesis by (simp add: filter_enumerate_ge)
  next
    case (Suc j)
    then show ?thesis using Cons.IH [of "Suc n" j] by simp
  qed
qed

lemma drop_nth_eq: "drop_nth i xs = take i xs @ drop (Suc i) xs"
  using drop_nth_enumerate [of 0 i xs] by (simp add: drop_nth_def)

lemma length_drop_nth: "i < length xs \<Longrightarrow> length (drop_nth i xs) = length xs - 1"
  by (simp add: drop_nth_eq)

lemma drop_nth_oob: "length xs \<le> i \<Longrightarrow> drop_nth i xs = xs"
  by (simp add: drop_nth_eq)

lemma set_drop_nth: "set (drop_nth i xs) \<subseteq> set xs"
  by (auto simp: drop_nth_eq dest: in_set_takeD in_set_dropD)

lemma map_drop_nth: "map f (drop_nth i xs) = drop_nth i (map f xs)"
  by (simp add: drop_nth_eq take_map drop_map)

lemma map_nth_with_eq:
  "map_nth_with i f xs = (if i < length xs then xs[i := f (xs ! i)] else xs)"
  by (rule nth_equalityI) (auto simp: map_nth_with_def nth_enumerate_eq nth_list_update)

lemma length_map_nth_with [simp]: "length (map_nth_with i f xs) = length xs"
  by (simp add: map_nth_with_eq)

subsection \<open>Decimal numerals\<close>

fun digit_chr :: "nat \<Rightarrow> char" where
  "digit_chr d = (char_of :: nat \<Rightarrow> char) (48 + d)"

fun nat_str :: "nat \<Rightarrow> string" where
  "nat_str n = (if n < 10 then [digit_chr n] else nat_str (n div 10) @ [digit_chr (n mod 10)])"

declare nat_str.simps [simp del]
declare digit_chr.simps [simp del]

definition int_str :: "int \<Rightarrow> string" where
  "int_str i = (if i < 0 then ''-'' @ nat_str (nat (- i)) else nat_str (nat i))"

fun str_nat_acc :: "nat \<Rightarrow> string \<Rightarrow> nat" where
  "str_nat_acc acc [] = acc"
| "str_nat_acc acc (c # cs) = str_nat_acc (10 * acc + (of_char c - 48)) cs"

definition is_digit :: "char \<Rightarrow> bool" where
  "is_digit c \<longleftrightarrow> 48 \<le> (of_char c :: nat) \<and> (of_char c :: nat) \<le> 57"

definition str_nat :: "string \<Rightarrow> nat" where
  "str_nat = str_nat_acc 0"

lemma of_char_digit_chr: "d < 10 \<Longrightarrow> (of_char (digit_chr d) :: nat) = 48 + d"
  by (simp add: digit_chr.simps)

lemma is_digit_digit_chr [simp]: "d < 10 \<Longrightarrow> is_digit (digit_chr d)"
  by (simp add: is_digit_def of_char_digit_chr)

lemma str_nat_acc_append:
  "str_nat_acc acc (xs @ ys) = str_nat_acc (str_nat_acc acc xs) ys"
  by (induction xs arbitrary: acc) auto

lemma str_nat_nat_str [simp]: "str_nat (nat_str n) = n"
proof (induction n rule: nat_str.induct)
  case (1 n)
  show ?case
  proof (cases "n < 10")
    case True
    then show ?thesis by (subst nat_str.simps) (simp add: str_nat_def of_char_digit_chr)
  next
    case False
    with "1.IH" have "str_nat_acc 0 (nat_str (n div 10)) = n div 10"
      by (simp add: str_nat_def)
    with False show ?thesis
      by (subst nat_str.simps) (simp add: str_nat_def str_nat_acc_append of_char_digit_chr)
  qed
qed

lemma nat_str_inject [simp]: "nat_str m = nat_str n \<longleftrightarrow> m = n"
  by (metis str_nat_nat_str)

lemma nat_str_digits: "\<forall>c \<in> set (nat_str n). is_digit c"
proof (induction n rule: nat_str.induct)
  case (1 n)
  show ?case
  proof (cases "n < 10")
    case True
    then show ?thesis by (subst nat_str.simps) simp
  next
    case False
    with 1 show ?thesis by (subst nat_str.simps) auto
  qed
qed

lemma nat_str_nonempty [simp]: "nat_str n \<noteq> []" "[] \<noteq> nat_str n"
  by (subst nat_str.simps, simp)+

text \<open>A digit string with no leading zero is the numeral of its value.\<close>

lemma digit_chr_of_digit: "is_digit c \<Longrightarrow> digit_chr (of_char c - 48) = c"
  by (auto simp: digit_chr.simps is_digit_def)

lemma nat_str_str_nat:
  "s \<noteq> [] \<Longrightarrow> \<forall>c \<in> set s. is_digit c \<Longrightarrow> hd s \<noteq> CHR ''0'' \<or> s = ''0'' \<Longrightarrow> nat_str (str_nat s) = s"
proof (induction s rule: rev_induct)
  case Nil
  then show ?case by simp
next
  case (snoc c t)
  define d where "d = (of_char c :: nat) - 48"
  have d: "d < 10" "digit_chr d = c"
    using snoc.prems(2) digit_chr_of_digit [of c] by (auto simp: d_def is_digit_def)
  have v: "str_nat (t @ [c]) = 10 * str_nat t + d"
    by (simp add: str_nat_def str_nat_acc_append d_def)
  show ?case
  proof (cases "t = []")
    case True
    then show ?thesis
      using d v by (subst nat_str.simps) (simp add: str_nat_def)
  next
    case False
    then have hd: "hd t \<noteq> CHR ''0''" using snoc.prems(3) by auto
    then have ih: "nat_str (str_nat t) = t" using snoc.IH snoc.prems(2) False by simp
    have "str_nat t \<noteq> 0"
    proof
      assume "str_nat t = 0"
      with ih have "t = nat_str 0" by simp
      then have "t = [digit_chr 0]" by (subst (asm) nat_str.simps) simp
      moreover have "digit_chr 0 = CHR ''0''" using digit_chr_of_digit [of "CHR ''0''"]
        by (simp add: is_digit_def)
      ultimately have "t = ''0''" by simp
      with hd show False by simp
    qed
    then show ?thesis using v d ih by (subst nat_str.simps) simp
  qed
qed

subsection \<open>Strings as UTF-8 bytes\<close>

text \<open>The UTF-8 bytes of one code point; surrogate code points get the generalised form.\<close>

definition utf8_cp :: "nat \<Rightarrow> string" where
  "utf8_cp c =
     map (char_of :: nat \<Rightarrow> char)
       (if c < 128 then [c]
        else if c < 2048 then [192 + c div 64, 128 + c mod 64]
        else if c < 65536 then [224 + c div 4096, 128 + c div 64 mod 64, 128 + c mod 64]
        else [240 + c div 262144, 128 + c div 4096 mod 64, 128 + c div 64 mod 64, 128 + c mod 64])"

definition cps :: "nat list \<Rightarrow> string" where
  "cps xs = concat (map utf8_cp xs)"

text \<open>
  The UTF-16 code units of a string, each as the bytes of its own code point: a four-byte
  sequence is a surrogate pair. A stray continuation byte counts for itself.
\<close>

fun code_units :: "string \<Rightarrow> string list" where
  "code_units [] = []"
| "code_units (b # bs) =
     (let n = (of_char b :: nat) in
      if n < 192 then [b] # code_units bs
      else if n < 224 then (b # take 1 bs) # code_units (drop 1 bs)
      else if n < 240 then (b # take 2 bs) # code_units (drop 2 bs)
      else (let t = map (\<lambda>x. (of_char x :: nat) mod 64) (take 3 bs);
                cp = (n mod 8) * 262144 + foldl (\<lambda>a x. 64 * a + x) 0 t - 65536
            in utf8_cp (55296 + cp div 1024) # utf8_cp (56320 + cp mod 1024) # code_units (drop 3 bs)))"

text \<open>\<open>s.length\<close>: the number of UTF-16 code units.\<close>

definition js_length :: "string \<Rightarrow> nat" where
  "js_length s = length (code_units s)"

lemma js_length_empty_iff: "js_length s = 0 \<longleftrightarrow> s = []"
  by (cases s) (auto simp: js_length_def Let_def)

definition ascii :: "string \<Rightarrow> bool" where
  "ascii s \<longleftrightarrow> (\<forall>c \<in> set s. (of_char c :: nat) < 128)"

lemma code_units_ascii: "ascii s \<Longrightarrow> code_units s = map (\<lambda>c. [c]) s"
  by (induction s) (auto simp: ascii_def Let_def)

lemma js_length_ascii: "ascii s \<Longrightarrow> js_length s = length s"
  by (simp add: js_length_def code_units_ascii)

text \<open>A string has at most as many UTF-16 code units as UTF-8 bytes.\<close>

lemma code_units_utf8:
  "n < 1114112 \<Longrightarrow> length (code_units (utf8_cp n @ s)) = (if n < 65536 then 1 else 2) + length (code_units s)"
proof -
  assume n: "n < 1114112"
  have "n div 64 < 32" if "n < 2048" using that by (simp add: less_mult_imp_div_less)
  moreover have "n div 4096 < 16" if "n < 65536" using that by (simp add: less_mult_imp_div_less)
  moreover have "n div 262144 < 5" using n by (simp add: less_mult_imp_div_less)
  ultimately show ?thesis by (simp add: utf8_cp_def Let_def)
qed

lemma js_length_cps: "\<forall>n \<in> set ns. n < 1114112 \<Longrightarrow> js_length (cps ns) \<le> length (cps ns)"
proof (induction ns)
  case Nil
  then show ?case by (simp add: cps_def js_length_def)
next
  case (Cons n ns)
  then have "length (code_units (cps ns)) \<le> length (cps ns)" by (simp add: js_length_def)
  moreover have "(if n < 65536 then 1 else 2) \<le> length (utf8_cp n)" by (simp add: utf8_cp_def)
  moreover have "cps (n # ns) = utf8_cp n @ cps ns" by (simp add: cps_def)
  ultimately show ?case using Cons.prems code_units_utf8 [of n "cps ns"] by (simp add: js_length_def)
qed

subsection \<open>Trimming\<close>

text \<open>
  The white space and line terminators of ECMAScript, as UTF-8: tab, line feed, vertical tab,
  form feed, carriage return, space, no-break space, Ogham space, U+2000 to U+200A, the line and
  paragraph separators, the narrow no-break, mathematical and ideographic spaces, the byte order
  mark. \<open>s.trim()\<close> removes them from both ends.
\<close>

definition js_white :: "string list" where
  "js_white = map utf8_cp
     ([9, 10, 11, 12, 13, 32, 160, 5760] @ [8192..<8203] @ [8232, 8233, 8239, 8287, 12288, 65279])"

function strip_front :: "string list \<Rightarrow> string \<Rightarrow> string" where
  "strip_front ws s =
     (case find (\<lambda>w. w \<noteq> [] \<and> prefix w s) ws of
        Some w \<Rightarrow> strip_front ws (drop (length w) s)
      | None \<Rightarrow> s)"
  by pat_completeness auto
termination
proof (relation "measure (\<lambda>(ws, s). length s)", goal_cases)
  case (2 ws s w)
  then have "w \<noteq> []" "prefix w s" by (auto simp: find_Some_iff)
  then have "0 < length w" "length w \<le> length s" by (auto dest: prefix_length_le)
  then have "length s - length w < length s" by linarith
  then show ?case by simp
qed simp

declare strip_front.simps [simp del]

definition js_trim :: "string \<Rightarrow> string" where
  "js_trim s = rev (strip_front (map rev js_white) (rev (strip_front js_white s)))"

lemma strip_front_id: "\<forall>w \<in> set ws. w \<noteq> [] \<longrightarrow> \<not> prefix w s \<Longrightarrow> strip_front ws s = s"
  by (subst strip_front.simps) (auto simp: find_Some_iff split: option.splits)

lemma strip_front_length: "length (strip_front ws s) \<le> length s"
proof (induction ws s rule: strip_front.induct)
  case (1 ws s)
  show ?case
  proof (cases "find (\<lambda>w. w \<noteq> [] \<and> prefix w s) ws")
    case None
    then show ?thesis by (subst strip_front.simps) simp
  next
    case (Some w)
    then have "length (strip_front ws (drop (length w) s)) \<le> length (drop (length w) s)"
      by (rule "1.IH")
    with Some show ?thesis by (subst strip_front.simps) simp
  qed
qed

lemma js_white_nonempty: "[] \<notin> set js_white"
  by (auto simp: js_white_def utf8_cp_def)

text \<open>A string whose first and last byte start or end no white space is its own trimming.\<close>

lemma js_trim_id:
  assumes "\<forall>w \<in> set js_white. \<not> prefix w s \<and> \<not> suffix w s"
  shows "js_trim s = s"
proof -
  have "strip_front js_white s = s" by (rule strip_front_id) (use assms in blast)
  moreover have "strip_front (map rev js_white) (rev s) = rev s"
    by (rule strip_front_id) (use assms in \<open>auto simp: suffix_to_prefix\<close>)
  ultimately show ?thesis by (simp add: js_trim_def)
qed

text \<open>Visible ASCII characters: none of them is white space.\<close>

definition graphic :: "char \<Rightarrow> bool" where
  "graphic c \<longleftrightarrow> 33 \<le> (of_char c :: nat) \<and> (of_char c :: nat) \<le> 126"

lemma js_trim_graphic:
  assumes "\<forall>c \<in> set s. graphic c"
  shows "js_trim s = s"
proof (rule js_trim_id, intro ballI)
  fix w assume w: "w \<in> set js_white"
  have "\<forall>w \<in> set js_white. w \<noteq> [] \<and> (\<forall>c \<in> set w. \<not> graphic c)"
    by (simp add: js_white_def utf8_cp_def graphic_def upt_rec)
  with w have n: "w \<noteq> []" and d: "\<forall>c \<in> set w. \<not> graphic c" by auto
  have "\<not> set w \<subseteq> set s"
  proof
    assume "set w \<subseteq> set s"
    with n obtain c where "c \<in> set w" "c \<in> set s" by (cases w) auto
    with d assms show False by blast
  qed
  then show "\<not> prefix w s \<and> \<not> suffix w s"
    using set_mono_prefix set_mono_suffix by blast
qed

lemma js_trim_digits:
  assumes "\<forall>c \<in> set s. is_digit c"
  shows "js_trim s = s"
  by (rule js_trim_graphic) (use assms in \<open>auto simp: is_digit_def graphic_def\<close>)

lemma js_trim_Nil [simp]: "js_trim [] = []"
  by (rule js_trim_digits) simp

subsection \<open>Joining and splitting\<close>

fun join :: "string \<Rightarrow> string list \<Rightarrow> string" where
  "join sep [] = []"
| "join sep [x] = x"
| "join sep (x # y # xs) = x @ sep @ join sep (y # xs)"

fun split_on :: "char \<Rightarrow> string \<Rightarrow> string list" where
  "split_on d [] = [[]]"
| "split_on d (c # cs) =
     (if c = d then [] # split_on d cs
      else case split_on d cs of [] \<Rightarrow> [[c]] | w # ws \<Rightarrow> (c # w) # ws)"

lemma split_on_plain: "d \<notin> set w \<Longrightarrow> split_on d w = [w]"
  by (induction w) auto

lemma split_on_append: "d \<notin> set w \<Longrightarrow> split_on d (w @ d # rest) = w # split_on d rest"
  by (induction w) auto

lemma split_on_join:
  "ws \<noteq> [] \<Longrightarrow> \<forall>w \<in> set ws. d \<notin> set w \<Longrightarrow> split_on d (join [d] ws) = ws"
  by (induction "[d]" ws rule: join.induct) (auto simp: split_on_plain split_on_append)

lemma split_on_nonempty [simp]: "split_on d s \<noteq> []" "[] \<noteq> split_on d s"
  by (induction s) (auto split: list.splits)

lemma join_split_on: "join [d] (split_on d s) = s"
proof (induction s)
  case (Cons c s)
  then show ?case by (cases "split_on d s"; cases "tl (split_on d s)") auto
qed simp

lemma split_on_free: "\<forall>w \<in> set (split_on d s). d \<notin> set w"
  by (induction s) (auto split: list.splits)

text \<open>The ASCII lower case of a byte.\<close>

definition ascii_lower :: "char \<Rightarrow> char" where
  "ascii_lower c =
     (let n = (of_char c :: nat) in if 65 \<le> n \<and> n \<le> 90 then (char_of :: nat \<Rightarrow> char) (n + 32) else c)"

end
