(* ===== verification/Js_Num.thy ===== *)
theory Js_Num
  imports Prelude
begin

text \<open>
  JavaScript numbers. A finite double is the rational it denotes; \<open>fl\<close> rounds a rational to
  the nearest double (ties to even, 53-bit significand, least exponent -1074, overflow from
  \<open>2^1024\<close>), and every arithmetic operation is the exact one followed by \<open>fl\<close>. The sign of
  zero is not represented: nothing the user interface computes observes it. Then the three
  conversions the interface uses: \<open>Number(s)\<close> on a string, \<open>toFixed\<close>, and the string of a
  number as a template literal or \<open>String\<close> prints it.
\<close>

datatype jsnum = NaN | Inf bool | Fin rat

subsection \<open>Rounding to a double\<close>

fun bits :: "nat \<Rightarrow> nat" where
  "bits n = (if n = 0 then 0 else Suc (bits (n div 2)))"

declare bits.simps [simp del]

text \<open>The exponent \<open>e\<close> with \<open>2^e \<le> x < 2^(e+1)\<close>, for a positive \<open>x\<close>.\<close>

definition exp2_of :: "rat \<Rightarrow> int" where
  "exp2_of x =
     (let (p, q) = quotient_of x;
          e = int (bits (nat p)) - int (bits (nat q))
      in if 2 powi e \<le> x then e else e - 1)"

definition round_even :: "rat \<Rightarrow> int" where
  "round_even x =
     (let f = \<lfloor>x\<rfloor>; d = x - of_int f
      in if d < 1/2 then f else if 1/2 < d then f + 1 else if even f then f else f + 1)"

definition quantum :: "rat \<Rightarrow> int" where
  "quantum x = max (exp2_of x - 52) (- 1074)"

definition fl_pos :: "rat \<Rightarrow> rat" where
  "fl_pos x = of_int (round_even (x / 2 powi quantum x)) * 2 powi quantum x"

definition fl :: "rat \<Rightarrow> jsnum" where
  "fl x =
     (if x = 0 then Fin 0
      else let r = fl_pos \<bar>x\<bar>
           in if 2 ^ 1024 \<le> r then Inf (x < 0) else Fin (if x < 0 then - r else r))"

lemma bits_bounds: "0 < n \<Longrightarrow> 2 ^ (bits n - 1) \<le> n \<and> n < 2 ^ bits n \<and> 0 < bits n"
proof (induction n rule: bits.induct)
  case (1 n)
  show ?case
  proof (cases "n div 2 = 0")
    case True
    with "1.prems" have "n = 1" by auto
    then show ?thesis by (simp add: bits.simps)
  next
    case False
    with 1 have ih: "2 ^ (bits (n div 2) - 1) \<le> n div 2" "n div 2 < 2 ^ bits (n div 2)"
      "0 < bits (n div 2)" by auto
    have b: "bits n = Suc (bits (n div 2))" using "1.prems" by (subst bits.simps) simp
    have "(2::nat) ^ bits (n div 2) = 2 * 2 ^ (bits (n div 2) - 1)"
      using ih(3) by (metis power_eq_if less_not_refl2)
    with ih show ?thesis by (simp add: b) linarith
  qed
qed

lemma powi_pos [simp]: "0 < (2::rat) powi k"
  by simp

lemma powi_add: "(2::rat) powi (a + b) = 2 powi a * 2 powi b"
  by (simp add: power_int_add)

lemma powi_diff: "(2::rat) powi (a - b) = 2 powi a / 2 powi b"
  by (simp add: power_int_diff)

lemma powi_mono: "a \<le> b \<Longrightarrow> (2::rat) powi a \<le> 2 powi b"
  by (rule power_int_increasing) auto

lemma powi_less_iff: "(2::rat) powi a < 2 powi b \<longleftrightarrow> a < b"
  by (metis linorder_not_less one_less_numeral_iff powi_mono power_int_strict_increasing semiring_norm(76))

lemma exp2_of_bounds:
  assumes "0 < x"
  shows "2 powi exp2_of x \<le> x" "x < 2 powi (exp2_of x + 1)"
proof -
  obtain p q where pq: "quotient_of x = (p, q)" by force
  then have q: "0 < q" by (rule quotient_of_denom_pos)
  have x: "x = of_int p / of_int q" by (rule quotient_of_div [OF pq])
  with assms q have p: "0 < p" by (simp add: zero_less_divide_iff)
  define bp where "bp = bits (nat p)"
  define bq where "bq = bits (nat q)"
  have B: "2 ^ (bp - 1) \<le> nat p" "nat p < 2 ^ bp" "0 < bp"
    "2 ^ (bq - 1) \<le> nat q" "nat q < 2 ^ bq" "0 < bq"
    using bits_bounds [of "nat p"] bits_bounds [of "nat q"] p q by (auto simp: bp_def bq_def)
  have low_lift: "(2::rat) powi (int k - 1) \<le> of_int i"
    if "2 ^ (k - 1) \<le> nat i" "0 < k" "0 < i" for k i
  proof -
    have "int (2 ^ (k - 1)) \<le> int (nat i)" using that(1) by (simp only: of_nat_le_iff)
    then have "2 ^ (k - 1) \<le> i" using that(3) by simp
    then have "(of_int (2 ^ (k - 1)) :: rat) \<le> of_int i" by (simp only: of_int_le_iff)
    moreover have "(2::rat) powi int (k - 1) = of_int (2 ^ (k - 1))" by simp
    moreover have "int k - 1 = int (k - 1)" using that(2) by linarith
    ultimately show ?thesis by metis
  qed
  have up_lift: "of_int i < (2::rat) powi int k" if "nat i < 2 ^ k" "0 < i" for k i
  proof -
    have "int (nat i) < int (2 ^ k)" using that(1) by (simp only: of_nat_less_iff)
    then have "i < 2 ^ k" using that(2) by simp
    then have "(of_int i :: rat) < of_int (2 ^ k)" by (simp only: of_int_less_iff)
    then show ?thesis by simp
  qed
  have P: "(2::rat) powi (int bp - 1) \<le> of_int p" "of_int p < (2::rat) powi int bp"
    using low_lift up_lift B p by blast+
  have Q: "(2::rat) powi (int bq - 1) \<le> of_int q" "of_int q < (2::rat) powi int bq"
    using low_lift up_lift B q by blast+
  define e where "e = int bp - int bq"
  have E: "exp2_of x = (if 2 powi e \<le> x then e else e - 1)"
    by (simp add: exp2_of_def pq e_def bp_def bq_def)
  have qpos: "(0::rat) < of_int q" using q by simp
  have up: "x < 2 powi (e + 1)"
  proof -
    have "of_int p < (2::rat) powi (int bp - (int bq - 1)) * 2 powi (int bq - 1)"
      using P(2) by (simp add: powi_add [symmetric])
    also have "\<dots> \<le> 2 powi (int bp - (int bq - 1)) * of_int q"
      by (rule mult_left_mono [OF Q(1)]) simp
    finally have "of_int p < (2::rat) powi (e + 1) * of_int q" by (simp add: e_def algebra_simps)
    then show ?thesis using qpos by (simp add: x pos_divide_less_eq)
  qed
  have low: "2 powi (e - 1) \<le> x"
  proof -
    have "(2::rat) powi (e - 1) * of_int q \<le> 2 powi (e - 1) * 2 powi int bq"
      by (rule mult_left_mono) (use Q(2) in auto)
    also have "\<dots> = 2 powi (int bp - 1)" by (subst powi_add [symmetric]) (simp add: e_def)
    also have "\<dots> \<le> of_int p" by (rule P(1))
    finally show ?thesis using qpos by (simp add: x pos_le_divide_eq)
  qed
  show "2 powi exp2_of x \<le> x" using low by (simp add: E)
  show "x < 2 powi (exp2_of x + 1)" using up by (auto simp: E)
qed

lemma exp2_of_mono: "0 < x \<Longrightarrow> x \<le> y \<Longrightarrow> exp2_of x \<le> exp2_of y"
proof -
  assume a: "0 < x" "x \<le> y"
  then have "2 powi exp2_of x < (2::rat) powi (exp2_of y + 1)"
    using exp2_of_bounds(1) [of x] exp2_of_bounds(2) [of y] by linarith
  then show ?thesis by (simp only: powi_less_iff)
qed

lemma round_even_near: "\<bar>of_int (round_even x) - x\<bar> \<le> 1/2"
proof -
  define d where "d = x - of_int \<lfloor>x\<rfloor>"
  have d: "0 \<le> d" "d < 1" "x = of_int \<lfloor>x\<rfloor> + d" unfolding d_def by linarith+
  have "of_int (round_even x) - x = (if d < 1/2 then - d else if 1/2 < d then 1 - d
      else if even \<lfloor>x\<rfloor> then - d else 1 - d)"
    using d(3) by (simp add: round_even_def Let_def d_def [symmetric])
  with d show ?thesis by (auto split: if_splits)
qed

lemma round_even_of_int [simp]: "round_even (of_int k) = k"
  by (simp add: round_even_def)

lemma round_even_mono: "x \<le> y \<Longrightarrow> round_even x \<le> round_even y"
proof -
  assume le: "x \<le> y"
  then have f: "\<lfloor>x\<rfloor> \<le> \<lfloor>y\<rfloor>" by (rule floor_mono)
  show ?thesis
  proof (cases "\<lfloor>x\<rfloor> = \<lfloor>y\<rfloor>")
    case True
    with le show ?thesis by (auto simp: round_even_def Let_def)
  next
    case False
    with f have "\<lfloor>x\<rfloor> + 1 \<le> \<lfloor>y\<rfloor>" by linarith
    moreover have "round_even x \<le> \<lfloor>x\<rfloor> + 1" by (auto simp: round_even_def Let_def)
    moreover have "\<lfloor>y\<rfloor> \<le> round_even y" by (auto simp: round_even_def Let_def)
    ultimately show ?thesis by linarith
  qed
qed

lemma round_even_int_le: "of_int k \<le> x \<Longrightarrow> k \<le> round_even x"
  using round_even_mono [of "of_int k" x] by simp

lemma round_even_le_int: "x \<le> of_int k \<Longrightarrow> round_even x \<le> k"
  using round_even_mono [of x "of_int k"] by simp

text \<open>A multiple of the quantum is a double already; so is every integer up to \<open>2^53\<close>.\<close>

lemma fl_pos_exact: "x = of_int k * 2 powi quantum x \<Longrightarrow> fl_pos x = x"
  by (metis fl_pos_def nonzero_mult_div_cancel_right powi_pos round_even_of_int order_less_irrefl)

lemma exp2_of_less: "0 < x \<Longrightarrow> x < 2 powi k \<Longrightarrow> exp2_of x < k"
  using exp2_of_bounds(1) [of x] powi_less_iff by (metis order_le_less_trans)

lemma exp2_of_pow [simp]: "exp2_of (2 powi k) = k"
proof -
  have "2 powi exp2_of (2 powi k) \<le> (2::rat) powi k" "(2::rat) powi k < 2 powi (exp2_of (2 powi k) + 1)"
    using exp2_of_bounds [of "2 powi k"] by auto
  then have "\<not> k < exp2_of (2 powi k)" "k < exp2_of (2 powi k) + 1"
    using powi_less_iff by (metis linorder_not_less, blast)
  then show ?thesis by linarith
qed

lemma of_int_pow_nat: "0 \<le> k \<Longrightarrow> (of_int (2 ^ nat k) :: rat) = 2 powi k"
  by (simp add: power_int_def)

lemma fl_pos_of_nat:
  assumes "0 < n" "n \<le> 2 ^ 53"
  shows "fl_pos (of_nat n) = of_nat n"
proof (cases "n = 2 ^ 53")
  case True
  then have n: "(of_nat n :: rat) = 2 powi 53" by simp
  then have "quantum (of_nat n) = 1" by (simp only: quantum_def exp2_of_pow)
  then show ?thesis
    using n by (intro fl_pos_exact [where k = "2 ^ 52"]) (simp add: power_int_numeral)
next
  case False
  with assms have "n < 2 ^ 53" by simp
  then have "(of_nat n :: rat) < of_nat (2 ^ 53)" by (simp only: of_nat_less_iff)
  then have "(of_nat n :: rat) < 2 powi 53" by (simp add: power_int_numeral)
  moreover have "(0::rat) < of_nat n" using assms by simp
  ultimately have "exp2_of (of_nat n) < 53" using exp2_of_less by blast
  then have q: "quantum (of_nat n) \<le> 0" by (simp add: quantum_def)
  have "of_int (int n * 2 ^ nat (- quantum (of_nat n))) * (2::rat) powi quantum (of_nat n)
      = of_nat n * (of_int (2 ^ nat (- quantum (of_nat n))) * 2 powi quantum (of_nat n))"
    by (simp only: of_int_mult mult.assoc of_int_of_nat_eq)
  also have "of_int (2 ^ nat (- quantum (of_nat n))) = (2::rat) powi (- quantum (of_nat n))"
    by (rule of_int_pow_nat) (use q in simp)
  also have "\<dots> * 2 powi quantum (of_nat n) = 1" by (simp only: powi_add [symmetric]) simp
  finally have "of_nat n = of_int (int n * 2 ^ nat (- quantum (of_nat n))) * (2::rat) powi quantum (of_nat n)"
    by simp
  then show ?thesis by (rule fl_pos_exact)
qed

lemma fl_of_nat: "n \<le> 2 ^ 53 \<Longrightarrow> fl (of_nat n) = Fin (of_nat n)"
proof (cases "n = 0")
  case False
  assume "n \<le> 2 ^ 53"
  then have e: "fl_pos (of_nat n) = of_nat n" using False by (intro fl_pos_of_nat) auto
  have "(of_nat n :: rat) \<le> of_nat (2 ^ 53)" using \<open>n \<le> 2 ^ 53\<close> by (simp only: of_nat_le_iff)
  also have "\<dots> < 2 ^ 1024" by simp
  finally have "\<not> 2 ^ 1024 \<le> (of_nat n :: rat)" by simp
  then show ?thesis using False by (simp add: fl_def e Let_def)
qed (simp add: fl_def)

subsection \<open>Rounding is monotone\<close>

lemma fl_pos_le_pow:
  assumes "0 < x"
  shows "fl_pos x \<le> 2 powi max (exp2_of x + 1) (quantum x)"
proof -
  let ?m = "max (exp2_of x + 1) (quantum x)"
  have "x < 2 powi (exp2_of x + 1)" by (rule exp2_of_bounds(2) [OF assms])
  also have "\<dots> \<le> 2 powi ?m" by (rule powi_mono) simp
  finally have "x / 2 powi quantum x \<le> 2 powi ?m / 2 powi quantum x"
    by (intro divide_right_mono) auto
  also have "\<dots> = of_int (2 ^ nat (?m - quantum x))"
    by (subst of_int_pow_nat) (simp_all add: powi_diff)
  finally have r: "round_even (x / 2 powi quantum x) \<le> 2 ^ nat (?m - quantum x)"
    by (rule round_even_le_int)
  then have "(of_int (round_even (x / 2 powi quantum x)) :: rat) \<le> of_int (2 ^ nat (?m - quantum x))"
    by (simp only: of_int_le_iff)
  then have "fl_pos x \<le> of_int (2 ^ nat (?m - quantum x)) * 2 powi quantum x"
    unfolding fl_pos_def by (rule mult_right_mono) simp
  also have "\<dots> = 2 powi (?m - quantum x) * 2 powi quantum x"
    by (subst of_int_pow_nat) simp_all
  also have "\<dots> = 2 powi ?m" by (simp only: powi_add [symmetric]) simp
  finally show ?thesis .
qed

lemma fl_pos_ge_pow:
  assumes "0 < x" "- 1074 \<le> exp2_of x"
  shows "2 powi exp2_of x \<le> fl_pos x"
proof -
  let ?d = "nat (exp2_of x - quantum x)"
  have q: "quantum x \<le> exp2_of x" using assms(2) by (simp add: quantum_def)
  have d: "of_int (2 ^ ?d) = (2::rat) powi (exp2_of x - quantum x)"
    using q by (simp only: of_int_pow_nat diff_ge_0_iff_ge)
  also have "(2::rat) powi (exp2_of x - quantum x) \<le> x / 2 powi quantum x"
    using exp2_of_bounds(1) [OF assms(1)] by (simp add: powi_diff divide_right_mono)
  finally have "2 ^ ?d \<le> round_even (x / 2 powi quantum x)" by (rule round_even_int_le)
  then have "(of_int (2 ^ ?d) :: rat) \<le> of_int (round_even (x / 2 powi quantum x))"
    by (simp only: of_int_le_iff)
  then have "of_int (2 ^ ?d) * 2 powi quantum x \<le> fl_pos x"
    unfolding fl_pos_def by (rule mult_right_mono) simp
  moreover have "of_int (2 ^ ?d) * 2 powi quantum x = (2::rat) powi exp2_of x"
    by (simp only: d powi_add [symmetric]) simp
  ultimately show ?thesis by simp
qed

lemma fl_pos_mono:
  assumes "0 < x" "x \<le> y"
  shows "fl_pos x \<le> fl_pos y"
proof (cases "quantum x = quantum y")
  case True
  have "x / 2 powi quantum x \<le> y / 2 powi quantum x" using assms(2) by (rule divide_right_mono) simp
  then have "round_even (x / 2 powi quantum x) \<le> round_even (y / 2 powi quantum x)"
    by (rule round_even_mono)
  then show ?thesis
    using True by (simp add: fl_pos_def mult_right_mono)
next
  case False
  have e: "exp2_of x \<le> exp2_of y" by (rule exp2_of_mono [OF assms])
  with False have q: "quantum x < quantum y" "quantum y = exp2_of y - 52" "exp2_of x < exp2_of y"
    by (auto simp: quantum_def max_def split: if_splits)
  then have y: "- 1074 \<le> exp2_of y" by (simp add: quantum_def)
  have "max (exp2_of x + 1) (quantum x) \<le> exp2_of y" using q by simp
  then have "(2::rat) powi max (exp2_of x + 1) (quantum x) \<le> 2 powi exp2_of y" by (rule powi_mono)
  then show ?thesis
    using fl_pos_le_pow [OF assms(1)] fl_pos_ge_pow [OF _ y] assms by linarith
qed

lemma fl_pos_nonneg: "0 \<le> x \<Longrightarrow> 0 \<le> fl_pos x"
proof -
  assume "0 \<le> x"
  then have "of_int 0 \<le> x / 2 powi quantum x" by simp
  then have "0 \<le> round_even (x / 2 powi quantum x)" by (rule round_even_int_le)
  then show ?thesis by (simp add: fl_pos_def)
qed

text \<open>
  What the components use: a value between 0 and an integer bound stays there after rounding.
\<close>

lemma fl_between:
  assumes "0 \<le> x" "x \<le> of_nat n" "n \<le> 2 ^ 53"
  obtains r where "fl x = Fin r" "0 \<le> r" "r \<le> of_nat n"
proof (cases "x = 0")
  case True
  then show ?thesis using that [of 0] by (simp add: fl_def)
next
  case False
  with assms have x: "0 < x" by simp
  then have n: "0 < n" using assms(2) by (metis gr0I not_less of_nat_0)
  have "fl_pos x \<le> of_nat n"
    using fl_pos_mono [OF x assms(2)] fl_pos_of_nat [OF n assms(3)] by simp
  moreover have "(of_nat n :: rat) \<le> of_nat (2 ^ 53)" using assms(3) by (simp only: of_nat_le_iff)
  moreover have "(of_nat (2 ^ 53) :: rat) < 2 ^ 1024" by simp
  ultimately have "\<not> 2 ^ 1024 \<le> fl_pos x" by linarith
  then have "fl x = Fin (fl_pos x)" using x by (simp add: fl_def Let_def)
  then show ?thesis using that \<open>fl_pos x \<le> of_nat n\<close> fl_pos_nonneg [of x] x by simp
qed

subsection \<open>Arithmetic\<close>

fun js_div :: "jsnum \<Rightarrow> jsnum \<Rightarrow> jsnum" where
  "js_div (Fin a) (Fin b) =
     (if b = 0 then (if a = 0 then NaN else Inf (a < 0)) else fl (a / b))"
| "js_div (Inf s) (Fin b) = Inf (s \<noteq> (b < 0))"
| "js_div (Fin a) (Inf s) = Fin 0"
| "js_div _ _ = NaN"

fun js_mul :: "jsnum \<Rightarrow> jsnum \<Rightarrow> jsnum" where
  "js_mul (Fin a) (Fin b) = fl (a * b)"
| "js_mul (Inf s) (Fin b) = (if b = 0 then NaN else Inf (s \<noteq> (b < 0)))"
| "js_mul (Fin a) (Inf s) = (if a = 0 then NaN else Inf (s \<noteq> (a < 0)))"
| "js_mul (Inf s) (Inf t) = Inf (s \<noteq> t)"
| "js_mul _ _ = NaN"

text \<open>\<open>a > b\<close>; a comparison with NaN is false.\<close>

fun js_gt :: "jsnum \<Rightarrow> jsnum \<Rightarrow> bool" where
  "js_gt (Fin a) (Fin b) = (b < a)"
| "js_gt (Inf s) (Fin b) = (\<not> s)"
| "js_gt (Fin a) (Inf s) = s"
| "js_gt (Inf s) (Inf t) = (\<not> s \<and> t)"
| "js_gt _ _ = False"

text \<open>\<open>Math.max(a, b)\<close>.\<close>

fun js_max :: "jsnum \<Rightarrow> jsnum \<Rightarrow> jsnum" where
  "js_max NaN _ = NaN"
| "js_max _ NaN = NaN"
| "js_max a b = (if js_gt b a then b else a)"

subsection \<open>Number(s)\<close>

text \<open>The unsigned decimal literal: digits, an optional fraction, an optional exponent.\<close>

definition parse_exp :: "string \<Rightarrow> int option" where
  "parse_exp r =
     (case r of
        [] \<Rightarrow> Some 0
      | c # t \<Rightarrow>
          if c \<noteq> CHR ''e'' \<and> c \<noteq> CHR ''E'' then None
          else (let (neg, ds) = (case t of
                     [] \<Rightarrow> (False, [])
                   | d # u \<Rightarrow> if d = CHR ''-'' then (True, u)
                              else if d = CHR ''+'' then (False, u) else (False, t))
                in if ds = [] \<or> \<not> list_all is_digit ds then None
                   else Some (if neg then - int (str_nat ds) else int (str_nat ds))))"

definition parse_unsigned :: "string \<Rightarrow> rat option" where
  "parse_unsigned s =
     (let ip = takeWhile is_digit s; r1 = dropWhile is_digit s;
          (fp, r2) = (case r1 of
              [] \<Rightarrow> ([], [])
            | c # t \<Rightarrow> if c = CHR ''.'' then (takeWhile is_digit t, dropWhile is_digit t) else ([], r1))
      in if ip = [] \<and> fp = [] then None
         else map_option (\<lambda>e. of_nat (str_nat (ip @ fp)) * 10 powi (e - int (length fp))) (parse_exp r2))"

text \<open>\<open>0x\<close>, \<open>0o\<close> and \<open>0b\<close> literals; the digits of the radix, most significant first.\<close>

definition digit_val :: "char \<Rightarrow> nat" where
  "digit_val c =
     (let n = (of_char c :: nat) in
      if 48 \<le> n \<and> n \<le> 57 then n - 48
      else if 97 \<le> n \<and> n \<le> 102 then n - 87
      else if 65 \<le> n \<and> n \<le> 70 then n - 55 else 99)"

definition parse_radix :: "nat \<Rightarrow> string \<Rightarrow> rat option" where
  "parse_radix b ds =
     (if ds \<noteq> [] \<and> list_all (\<lambda>c. digit_val c < b) ds
      then Some (of_nat (foldl (\<lambda>a c. b * a + digit_val c) 0 ds)) else None)"

definition js_Number :: "string \<Rightarrow> jsnum" where
  "js_Number s =
     (let t = js_trim s;
          num = (\<lambda>r. case r of None \<Rightarrow> NaN | Some x \<Rightarrow> fl x) in
      if t = [] then Fin 0
      else if take 2 t \<in> {''0x'', ''0X''} then num (parse_radix 16 (drop 2 t))
      else if take 2 t \<in> {''0o'', ''0O''} then num (parse_radix 8 (drop 2 t))
      else if take 2 t \<in> {''0b'', ''0B''} then num (parse_radix 2 (drop 2 t))
      else (let neg = hd t = CHR ''-'';
                u = (if hd t = CHR ''-'' \<or> hd t = CHR ''+'' then tl t else t)
            in if u = ''Infinity'' then Inf neg
               else num (map_option (\<lambda>x. if neg then - x else x) (parse_unsigned u))))"

lemma takeWhile_digits: "\<forall>c \<in> set s. is_digit c \<Longrightarrow> takeWhile is_digit s = s"
  by simp

lemma dropWhile_digits: "\<forall>c \<in> set s. is_digit c \<Longrightarrow> dropWhile is_digit s = []"
  by simp

lemma parse_unsigned_digits:
  "s \<noteq> [] \<Longrightarrow> \<forall>c \<in> set s. is_digit c \<Longrightarrow> parse_unsigned s = Some (of_nat (str_nat s))"
  by (simp add: parse_unsigned_def takeWhile_digits dropWhile_digits parse_exp_def)

lemma digits_not_special:
  assumes "s \<noteq> []" "\<forall>c \<in> set s. is_digit c"
  shows "hd s \<noteq> CHR ''-''" "hd s \<noteq> CHR ''+''" "s \<noteq> ''Infinity''"
    "take 2 s \<notin> {''0x'', ''0X'', ''0o'', ''0O'', ''0b'', ''0B''}"
proof -
  have "is_digit (hd s)" using assms by simp
  then show "hd s \<noteq> CHR ''-''" "hd s \<noteq> CHR ''+''" by (auto simp: is_digit_def)
  show "s \<noteq> ''Infinity''" using assms(2) by (auto simp: is_digit_def)
  have "\<forall>c \<in> set (take 2 s). is_digit c" using assms(2) by (meson in_set_takeD)
  then show "take 2 s \<notin> {''0x'', ''0X'', ''0o'', ''0O'', ''0b'', ''0B''}"
    by (auto simp: is_digit_def)
qed

text \<open>A decimal numeral reads back as its number.\<close>

lemma js_Number_nat_str: "n \<le> 2 ^ 53 \<Longrightarrow> js_Number (nat_str n) = Fin (of_nat n)"
  using digits_not_special [OF nat_str_nonempty(1) nat_str_digits, of n]
  by (simp add: js_Number_def js_trim_digits [OF nat_str_digits] Let_def fl_of_nat
      parse_unsigned_digits [OF _ nat_str_digits])

lemma js_Number_empty [simp]: "js_Number [] = Fin 0"
  by (simp add: js_Number_def)

subsection \<open>The string of a number\<close>

text \<open>
  The decimal exponent \<open>n\<close> with \<open>10^(n-1) \<le> x < 10^n\<close>, and the shortest digits whose value
  rounds back to \<open>x\<close> (at most 17 are ever needed).
\<close>

definition exp10_of :: "rat \<Rightarrow> int" where
  "exp10_of x =
     (let (p, q) = quotient_of x;
          e = int (length (nat_str (nat p))) - int (length (nat_str (nat q)))
      in if x < 10 powi e then e else e + 1)"

definition digits_at :: "rat \<Rightarrow> int \<Rightarrow> nat \<Rightarrow> int" where
  "digits_at x n k = round_even (x / 10 powi (n - int k))"

definition shortest :: "rat \<Rightarrow> nat \<times> int \<times> nat" where
  "shortest x =
     (let n = exp10_of x;
          k = (case find (\<lambda>k. fl (of_int (digits_at x n k) * 10 powi (n - int k)) = Fin x) [1..<18] of
                 Some k \<Rightarrow> k | None \<Rightarrow> 17);
          s = nat (digits_at x n k)
      in if s = 10 ^ k then (s div 10, n + 1, k) else (s, n, k))"

definition num_str_pos :: "rat \<Rightarrow> string" where
  "num_str_pos x =
     (let (s, n, k) = shortest x; ds = nat_str s in
      if int k \<le> n \<and> n \<le> 21 then ds @ replicate (nat (n - int k)) CHR ''0''
      else if 0 < n \<and> n \<le> 21 then take (nat n) ds @ ''.'' @ drop (nat n) ds
      else if - 6 < n \<and> n \<le> 0 then ''0.'' @ replicate (nat (- n)) CHR ''0'' @ ds
      else (let e = (if n - 1 < 0 then ''e-'' @ nat_str (nat (1 - n)) else ''e+'' @ nat_str (nat (n - 1)))
            in if k = 1 then ds @ e else take 1 ds @ ''.'' @ drop 1 ds @ e))"

text \<open>Integers up to \<open>2^53\<close> print exactly.\<close>

fun num_str :: "jsnum \<Rightarrow> string" where
  "num_str NaN = ''NaN''"
| "num_str (Inf neg) = (if neg then ''-Infinity'' else ''Infinity'')"
| "num_str (Fin x) =
     (if x = of_int \<lfloor>x\<rfloor> \<and> \<bar>x\<bar> \<le> 2 ^ 53 then int_str \<lfloor>x\<rfloor>
      else if x < 0 then ''-'' @ num_str_pos (- x) else num_str_pos x)"

lemma num_str_of_nat: "n \<le> 2 ^ 53 \<Longrightarrow> num_str (Fin (of_nat n)) = nat_str n"
proof -
  assume "n \<le> 2 ^ 53"
  then have "(of_nat n :: rat) \<le> of_nat (2 ^ 53)" by (simp only: of_nat_le_iff)
  then show ?thesis by (simp add: int_str_def)
qed

subsection \<open>x.toFixed(1)\<close>

text \<open>
  The integer \<open>n\<close> with \<open>n/10\<close> closest to the exact value of \<open>x\<close>, the larger one in a tie.
\<close>

definition fixed1_digits :: "nat \<Rightarrow> string" where
  "fixed1_digits n = nat_str (n div 10) @ ''.'' @ nat_str (n mod 10)"

fun to_fixed1 :: "jsnum \<Rightarrow> string" where
  "to_fixed1 (Fin x) =
     (if 10 ^ 21 \<le> \<bar>x\<bar> then num_str (Fin x)
      else if x < 0 then ''-'' @ fixed1_digits (nat \<lfloor>- x * 10 + 1/2\<rfloor>)
      else fixed1_digits (nat \<lfloor>x * 10 + 1/2\<rfloor>))"
| "to_fixed1 v = num_str v"

lemma parse_fixed1:
  "parse_unsigned (fixed1_digits n) = Some (of_nat n / 10)"
proof -
  let ?a = "nat_str (n div 10)" and ?b = "nat_str (n mod 10)"
  have dot: "\<not> is_digit (CHR ''.'')" by (simp add: is_digit_def)
  have b: "length ?b = 1" by (subst nat_str.simps) simp
  have "str_nat (?a @ ?b) = n"
  proof -
    have "str_nat_acc 0 ?a = n div 10" using str_nat_nat_str by (simp add: str_nat_def)
    then show ?thesis
      by (subst nat_str.simps [of "n mod 10"])
        (simp add: str_nat_def str_nat_acc_append of_char_digit_chr)
  qed
  moreover have "takeWhile is_digit (?a @ CHR ''.'' # ?b) = ?a"
    "dropWhile is_digit (?a @ CHR ''.'' # ?b) = CHR ''.'' # ?b"
    using nat_str_digits [of "n div 10"] dot
    by (simp_all add: takeWhile_append2 dropWhile_append2)
  ultimately show ?thesis
    using nat_str_digits [of "n mod 10"] b
    by (simp add: parse_unsigned_def fixed1_digits_def takeWhile_digits dropWhile_digits parse_exp_def
        power_int_minus)
qed

end
