(* ===== verification/Js_Value.thy ===== *)
theory Js_Value
  imports Js_Num
begin

text \<open>
  JavaScript values as the interface handles them: JSON data plus \<open>undefined\<close>, objects as
  association lists in property order, the operators the code applies to them (truthiness,
  \<open>||\<close>, \<open>??\<close>, member access, spread, \<open>Object.entries\<close>, \<open>Object.fromEntries\<close>, assignment to a
  property), ES \<open>Map\<close> objects, string conversion, the JSON view of a value, and thrown errors.

  Values are immutable here: the code copies before it writes (\<open>structuredClone\<close>, spreads and
  fresh literals), so no claim depends on aliasing. An object's prototype is
  \<open>Object.prototype\<close>: a read of an absent property finds its members (\<open>JProto\<close>), and an
  assignment to \<open>__proto__\<close> changes no own property.
\<close>

datatype jsval =
    JUndef
  | JNull
  | JBool bool
  | JNum jsnum
  | JStr string
  | JArr "jsval list"
  | JObj "(string \<times> jsval) list"
  | JProto string

type_synonym props = "(string \<times> jsval) list"

subsection \<open>Operators\<close>

fun truthy :: "jsval \<Rightarrow> bool" where
  "truthy JUndef = False"
| "truthy JNull = False"
| "truthy (JBool b) = b"
| "truthy (JNum n) = (n \<noteq> NaN \<and> n \<noteq> Fin 0)"
| "truthy (JStr s) = (s \<noteq> [])"
| "truthy (JArr _) = True"
| "truthy (JObj _) = True"
| "truthy (JProto _) = True"

text \<open>\<open>a || b\<close>, \<open>a ?? b\<close> and \<open>a == null\<close>.\<close>

definition js_or :: "jsval \<Rightarrow> jsval \<Rightarrow> jsval" where
  [js_simps]: "js_or a b = (if truthy a then a else b)"

definition nullish :: "jsval \<Rightarrow> bool" where
  [js_simps]: "nullish a \<longleftrightarrow> a = JUndef \<or> a = JNull"

definition js_coalesce :: "jsval \<Rightarrow> jsval \<Rightarrow> jsval" where
  [js_simps]: "js_coalesce a b = (if nullish a then b else a)"

subsection \<open>Keyed stores\<close>

text \<open>
  The contract of a store of values under keys: after \<open>put\<close>, the key reads the new value and
  every other key reads what it did; the invariant (distinct keys, in order) is kept. Both JS
  objects and ES \<open>Map\<close>s meet it, and so do repeated writes (\<open>Object.fromEntries\<close>, spreads).
\<close>

locale keyed_store =
  fixes get :: "'o \<Rightarrow> 'k \<Rightarrow> 'v option"
    and put :: "'k \<Rightarrow> 'v \<Rightarrow> 'o \<Rightarrow> 'o"
    and inv :: "'o \<Rightarrow> bool"
  assumes get_put: "get (put k v s) = (get s)(k \<mapsto> v)"
    and inv_put: "inv s \<Longrightarrow> inv (put k v s)"
begin

abbreviation put_all :: "('k \<times> 'v) list \<Rightarrow> 'o \<Rightarrow> 'o" where
  "put_all kvs s \<equiv> foldl (\<lambda>m kv. put (fst kv) (snd kv) m) s kvs"

lemma get_put_same: "get (put k v s) k = Some v"
  by (simp add: get_put)

lemma get_put_other: "j \<noteq> k \<Longrightarrow> get (put k v s) j = get s j"
  by (simp add: get_put)

lemma get_put_all: "get (put_all kvs s) = get s ++ map_of (rev kvs)"
  by (induction kvs arbitrary: s) (auto simp: get_put fun_eq_iff map_add_def split: option.splits)

lemma inv_put_all: "inv s \<Longrightarrow> inv (put_all kvs s)"
  by (induction kvs arbitrary: s) (auto simp: inv_put)

lemma get_put_all_distinct:
  "distinct (map fst kvs) \<Longrightarrow> get (put_all kvs s) = get s ++ map_of kvs"
  by (simp add: get_put_all map_of_rev_distinct)

end

subsection \<open>Object properties in order\<close>

text \<open>
  Array-index keys (canonical decimals below \<open>2^32 - 1\<close>) come first in ascending order, the
  other keys in the order they were created. A write to an existing key keeps its place.
\<close>

definition is_index :: "string \<Rightarrow> bool" where
  "is_index k \<longleftrightarrow>
     k \<noteq> [] \<and> list_all is_digit k \<and> (hd k \<noteq> CHR ''0'' \<or> k = ''0'') \<and> str_nat k < 2 ^ 32 - 1"

fun put_new :: "string \<Rightarrow> 'v \<Rightarrow> (string \<times> 'v) list \<Rightarrow> (string \<times> 'v) list" where
  "put_new k v [] = [(k, v)]"
| "put_new k v ((j, w) # ps) =
     (if is_index k \<and> (\<not> is_index j \<or> str_nat k < str_nat j) then (k, v) # (j, w) # ps
      else (j, w) # put_new k v ps)"

definition obj_put :: "string \<Rightarrow> 'v \<Rightarrow> (string \<times> 'v) list \<Rightarrow> (string \<times> 'v) list" where
  "obj_put k v ps =
     (if k \<in> fst ` set ps then map (\<lambda>(j, w). if j = k then (j, v) else (j, w)) ps
      else put_new k v ps)"

definition key_before :: "string \<Rightarrow> string \<Rightarrow> bool" where
  "key_before j k \<longleftrightarrow> (if is_index k then is_index j \<and> str_nat j < str_nat k else True)"

definition wf_props :: "(string \<times> 'v) list \<Rightarrow> bool" where
  "wf_props ps \<longleftrightarrow> distinct (map fst ps) \<and> sorted_wrt key_before (map fst ps)"

lemma set_put_new [simp]: "set (put_new k v ps) = insert (k, v) (set ps)"
  by (induction k v ps rule: put_new.induct) auto

lemma map_of_put_new: "k \<notin> fst ` set ps \<Longrightarrow> map_of (put_new k v ps) = (map_of ps)(k \<mapsto> v)"
  by (induction k v ps rule: put_new.induct) (auto simp: fun_eq_iff)

lemma distinct_put_new:
  "distinct (map fst ps) \<Longrightarrow> k \<notin> fst ` set ps \<Longrightarrow> distinct (map fst (put_new k v ps))"
  by (induction k v ps rule: put_new.induct) auto

lemma map_of_obj_put [simp]: "map_of (obj_put k v ps) = (map_of ps)(k \<mapsto> v)"
proof (cases "k \<in> fst ` set ps")
  case True
  then show ?thesis by (simp add: obj_put_def map_of_replace_existing)
qed (simp add: obj_put_def map_of_put_new)

lemma keys_obj_put [simp]: "fst ` set (obj_put k v ps) = insert k (fst ` set ps)"
  by (auto simp: obj_put_def image_iff split: if_splits) force+

lemma fst_obj_put_existing:
  "k \<in> fst ` set ps \<Longrightarrow> map fst (obj_put k v ps) = map fst ps"
  by (simp only: obj_put_def if_True map_fst_replace)

lemma obj_put_append: "k \<notin> fst ` set ps \<Longrightarrow> \<not> is_index k \<Longrightarrow> obj_put k v ps = ps @ [(k, v)]"
proof -
  assume "\<not> is_index k"
  then have "put_new k v ps = ps @ [(k, v)]" by (induction k v ps rule: put_new.induct) auto
  moreover assume "k \<notin> fst ` set ps"
  ultimately show ?thesis by (simp add: obj_put_def)
qed

lemma index_str_nat_inj: "is_index j \<Longrightarrow> is_index k \<Longrightarrow> str_nat j = str_nat k \<Longrightarrow> j = k"
  unfolding is_index_def list_all_iff by (metis nat_str_str_nat)

lemma sorted_put_new:
  "wf_props ps \<Longrightarrow> k \<notin> fst ` set ps \<Longrightarrow> sorted_wrt key_before (map fst (put_new k v ps))"
proof (induction k v ps rule: put_new.induct)
  case (1 k v)
  then show ?case by simp
next
  case (2 k v j w ps)
  have wf: "wf_props ps" and j: "\<forall>i \<in> fst ` set ps. key_before j i"
    using 2(2) by (auto simp: wf_props_def)
  show ?case
  proof (cases "is_index k \<and> (\<not> is_index j \<or> str_nat k < str_nat j)")
    case True
    have "\<forall>i \<in> fst ` set ps. key_before k i"
      using True j unfolding key_before_def by (auto split: if_splits)
    moreover have "key_before k j" using True by (auto simp: key_before_def)
    ultimately show ?thesis using 2(2) True by (auto simp: wf_props_def)
  next
    case False
    have "key_before j k"
      using False 2(3) index_str_nat_inj [of j k] by (auto simp: linorder_neq_iff key_before_def)
    with 2(1) [OF False wf] 2(3) j False show ?thesis by auto
  qed
qed

lemma wf_obj_put: "wf_props ps \<Longrightarrow> wf_props (obj_put k v ps)"
proof (cases "k \<in> fst ` set ps")
  case True
  then show "wf_props ps \<Longrightarrow> wf_props (obj_put k v ps)"
    by (simp add: wf_props_def fst_obj_put_existing)
next
  case False
  then show "wf_props ps \<Longrightarrow> wf_props (obj_put k v ps)"
    using distinct_put_new [of ps k v] sorted_put_new [of ps k v]
    by (simp add: obj_put_def wf_props_def)
qed

interpretation js_obj: keyed_store map_of obj_put wf_props
  by unfold_locales (simp_all add: wf_obj_put)

subsection \<open>ES Map objects\<close>

text \<open>\<open>map.set(k, v)\<close>: insertion order for every key.\<close>

definition map_set :: "'k \<Rightarrow> 'v \<Rightarrow> ('k \<times> 'v) list \<Rightarrow> ('k \<times> 'v) list" where
  "map_set k v m =
     (if k \<in> fst ` set m then map (\<lambda>(j, w). if j = k then (j, v) else (j, w)) m else m @ [(k, v)])"

definition map_has :: "('k \<times> 'v) list \<Rightarrow> 'k \<Rightarrow> bool" where
  "map_has m k \<longleftrightarrow> k \<in> fst ` set m"

lemma map_of_map_set [simp]: "map_of (map_set k v m) = (map_of m)(k \<mapsto> v)"
proof (cases "k \<in> fst ` set m")
  case True
  then show ?thesis by (simp add: map_set_def map_of_replace_existing)
next
  case False
  then have "map_of (m @ [(k, v)]) = (map_of m)(k \<mapsto> v)" by (rule map_of_append_fresh)
  with False show ?thesis by (simp only: map_set_def if_False)
qed

lemma map_set_fresh: "\<not> map_has m k \<Longrightarrow> map_set k v m = m @ [(k, v)]"
  by (simp add: map_set_def map_has_def)

lemma distinct_map_set: "distinct (map fst m) \<Longrightarrow> distinct (map fst (map_set k v m))"
  by (simp only: map_set_def map_fst_replace split: if_split) auto

interpretation js_map: keyed_store map_of map_set "\<lambda>m. distinct (map fst m)"
  by unfold_locales (simp_all add: distinct_map_set)

subsection \<open>Spread, entries, member access\<close>

text \<open>
  The own enumerable entries of a value, what \<open>...v\<close> copies into an object literal and what
  \<open>Object.entries\<close> lists: the properties of an object, the items of an array under their
  indices, the code units of a string.
\<close>

fun own_entries :: "jsval \<Rightarrow> props" where
  "own_entries (JObj ps) = ps"
| "own_entries (JArr xs) = zip (map nat_str [0..<length xs]) xs"
| "own_entries (JStr s) =
     zip (map nat_str [0..<js_length s]) (map JStr (code_units s))"
| "own_entries _ = []"

definition spread :: "props \<Rightarrow> jsval \<Rightarrow> props" where
  "spread ps v = js_obj.put_all (own_entries v) ps"

text \<open>\<open>Object.fromEntries(kvs)\<close>.\<close>

definition from_entries :: "(string \<times> 'v) list \<Rightarrow> (string \<times> 'v) list" where
  "from_entries kvs = js_obj.put_all kvs []"

lemma map_of_spread: "map_of (spread ps v) = map_of ps ++ map_of (rev (own_entries v))"
  by (simp add: spread_def js_obj.get_put_all)

lemma map_of_spread_obj:
  "wf_props qs \<Longrightarrow> map_of (spread ps (JObj qs)) = map_of ps ++ map_of qs"
  by (simp add: spread_def js_obj.get_put_all_distinct wf_props_def)

lemma wf_spread: "wf_props ps \<Longrightarrow> wf_props (spread ps v)"
  by (simp add: spread_def js_obj.inv_put_all)

lemma wf_props_Nil [simp]: "wf_props []"
  by (simp add: wf_props_def)

lemma wf_from_entries: "wf_props (from_entries kvs)"
  by (simp add: from_entries_def js_obj.inv_put_all)

lemma map_of_from_entries: "map_of (from_entries kvs) = map_of (rev kvs)"
  by (simp add: from_entries_def js_obj.get_put_all)

subsection \<open>Thrown errors\<close>

text \<open>
  The error classes of \<open>src/web/ui/src/api.js\<close> and every other error (a \<open>TypeError\<close> of the engine
  or of \<open>fetch\<close>), with the \<open>name\<close> and \<open>message\<close> the handlers read. The messages of engine errors
  are those of V8.
\<close>

datatype jserr =
    AuthError string
  | ApiError string int
  | OtherError string string

type_synonym 'a res = "jserr + 'a"

fun err_name :: "jserr \<Rightarrow> string" where
  "err_name (AuthError m) = ''AuthError''"
| "err_name (ApiError m s) = ''ApiError''"
| "err_name (OtherError n m) = n"

fun err_message :: "jserr \<Rightarrow> string" where
  "err_message (AuthError m) = m"
| "err_message (ApiError m s) = m"
| "err_message (OtherError n m) = m"

fun is_api_error :: "jserr \<Rightarrow> bool" where
  "is_api_error (ApiError _ _) = True"
| "is_api_error _ = False"

fun is_auth_error :: "jserr \<Rightarrow> bool" where
  "is_auth_error (AuthError _) = True"
| "is_auth_error _ = False"

subsection \<open>Member access and assignment\<close>

definition object_proto :: "string list" where
  "object_proto =
     [''constructor'', ''__defineGetter__'', ''__defineSetter__'', ''hasOwnProperty'',
      ''__lookupGetter__'', ''__lookupSetter__'', ''isPrototypeOf'', ''propertyIsEnumerable'',
      ''toString'', ''valueOf'', ''__proto__'', ''toLocaleString'']"

definition obj_read :: "props \<Rightarrow> string \<Rightarrow> jsval" where
  "obj_read ps k =
     (case map_of ps k of
        Some v \<Rightarrow> v
      | None \<Rightarrow> if k \<in> set object_proto then JProto k else JUndef)"

definition type_error :: "string \<Rightarrow> jserr" where
  "type_error m = OtherError ''TypeError'' m"

definition nullish_read :: "jsval \<Rightarrow> string \<Rightarrow> jserr" where
  "nullish_read v k =
     type_error (''Cannot read properties of '' @ (if v = JNull then ''null'' else ''undefined'')
                 @ '' (reading '' @ [CHR 0x27] @ k @ [CHR 0x27] @ '')'')"

text \<open>\<open>v.k\<close>: a \<open>TypeError\<close> on \<open>null\<close> and \<open>undefined\<close>.\<close>

fun js_get :: "jsval \<Rightarrow> string \<Rightarrow> jsval res" where
  "js_get (JObj ps) k = Inr (obj_read ps k)"
| "js_get (JArr xs) k =
     Inr (if k = ''length'' then JNum (Fin (of_nat (length xs)))
          else if is_index k \<and> str_nat k < length xs then xs ! str_nat k else JUndef)"
| "js_get (JStr s) k =
     Inr (if k = ''length'' then JNum (Fin (of_nat (js_length s)))
          else if is_index k \<and> str_nat k < js_length s then JStr (code_units s ! str_nat k) else JUndef)"
| "js_get JUndef k = Inl (nullish_read JUndef k)"
| "js_get JNull k = Inl (nullish_read JNull k)"
| "js_get _ k = Inr JUndef"

text \<open>\<open>v?.k\<close>.\<close>

definition js_get_opt :: "jsval \<Rightarrow> string \<Rightarrow> jsval res" where
  "js_get_opt v k = (if nullish v then Inr JUndef else js_get v k)"

text \<open>A read the code has guarded against \<open>null\<close> and \<open>undefined\<close>.\<close>

definition field :: "jsval \<Rightarrow> string \<Rightarrow> jsval" where
  "field v k = (case js_get v k of Inr x \<Rightarrow> x | Inl _ \<Rightarrow> JUndef)"

text \<open>
  \<open>o[k] = v\<close> on an object: \<open>__proto__\<close> is the inherited accessor, unless it is an own property.
\<close>

definition obj_assign :: "string \<Rightarrow> jsval \<Rightarrow> props \<Rightarrow> props" where
  "obj_assign k v ps =
     (if k = ''__proto__'' \<and> k \<notin> fst ` set ps then ps else obj_put k v ps)"

text \<open>
  \<open>v[k] = x\<close> in module code (strict mode): a \<open>TypeError\<close> on everything but objects. An array takes
  a write to an index within its bounds; a named property of an array is not represented (no
  JSON text shows it).
\<close>

fun js_set :: "jsval \<Rightarrow> string \<Rightarrow> jsval \<Rightarrow> jsval res" where
  "js_set (JObj ps) k x = Inr (JObj (obj_assign k x ps))"
| "js_set (JArr xs) k x =
     Inr (JArr (if is_index k \<and> str_nat k < length xs then xs[str_nat k := x] else xs))"
| "js_set v k x = Inl (type_error (''Cannot set property '' @ k))"

lemma obj_read_put [simp]:
  "obj_read (obj_put k v ps) j = (if j = k then v else obj_read ps j)"
  by (simp add: obj_read_def)

lemma field_obj [simp]: "field (JObj ps) k = obj_read ps k"
  by (simp add: field_def)

lemma obj_assign_ordinary [simp]: "k \<noteq> ''__proto__'' \<Longrightarrow> obj_assign k v ps = obj_put k v ps"
  by (simp add: obj_assign_def)

lemma wf_obj_assign: "wf_props ps \<Longrightarrow> wf_props (obj_assign k v ps)"
  by (simp add: obj_assign_def wf_obj_put)

subsection \<open>String conversion and JSON\<close>

text \<open>\<open>String(v)\<close>, and the item of \<open>xs.join(sep)\<close>.\<close>

fun js_String :: "jsval \<Rightarrow> string" where
  "js_String JUndef = ''undefined''"
| "js_String JNull = ''null''"
| "js_String (JBool b) = (if b then ''true'' else ''false'')"
| "js_String (JNum n) = num_str n"
| "js_String (JStr s) = s"
| "js_String (JArr xs) = join '','' (map (\<lambda>x. if nullish x then [] else js_String x) xs)"
| "js_String (JObj ps) = ''[object Object]''"
| "js_String (JProto k) =
     (if k = ''__proto__'' then ''[object Object]'' else ''function '' @ k @ ''() { [native code] }'')"

definition js_join :: "string \<Rightarrow> jsval list \<Rightarrow> string" where
  "js_join sep xs = join sep (map (\<lambda>x. if nullish x then [] else js_String x) xs)"

text \<open>
  What \<open>JSON.stringify(v)\<close> puts on the wire, as the value the text denotes: \<open>undefined\<close> and
  functions vanish from objects and become \<open>null\<close> in arrays, as do the non-finite numbers.
\<close>

fun to_json :: "jsval \<Rightarrow> jsval option" where
  "to_json JUndef = None"
| "to_json (JProto k) = (if k = ''__proto__'' then Some (JObj []) else None)"
| "to_json (JNum n) = Some (case n of Fin x \<Rightarrow> JNum n | _ \<Rightarrow> JNull)"
| "to_json (JArr xs) = Some (JArr (map (\<lambda>x. case to_json x of None \<Rightarrow> JNull | Some y \<Rightarrow> y) xs))"
| "to_json (JObj ps) =
     Some (JObj (concat (map (\<lambda>(k, x). case to_json x of None \<Rightarrow> [] | Some y \<Rightarrow> [(k, y)]) ps)))"
| "to_json v = Some v"

text \<open>Pure JSON: what \<open>JSON.parse\<close> can return.\<close>

fun is_json :: "jsval \<Rightarrow> bool" where
  "is_json JUndef = False"
| "is_json (JProto _) = False"
| "is_json (JNum n) = (case n of Fin _ \<Rightarrow> True | _ \<Rightarrow> False)"
| "is_json (JArr xs) = (\<forall>x \<in> set xs. is_json x)"
| "is_json (JObj ps) = (wf_props ps \<and> (\<forall>kv \<in> set ps. is_json (snd kv)))"
| "is_json _ = True"

lemma to_json_id: "is_json v \<Longrightarrow> to_json v = Some v"
proof (induction v rule: to_json.induct)
  case (4 xs)
  then have "\<And>x. x \<in> set xs \<Longrightarrow> to_json x = Some x" by simp
  then have "map (\<lambda>x. case to_json x of None \<Rightarrow> JNull | Some y \<Rightarrow> y) xs = map id xs"
    by (intro map_cong) auto
  then show ?case by simp
next
  case (5 ps)
  then have "\<And>k x. (k, x) \<in> set ps \<Longrightarrow> to_json x = Some x" by force
  then have "map (\<lambda>(k, x). case to_json x of None \<Rightarrow> [] | Some y \<Rightarrow> [(k, y)]) ps = map (\<lambda>kv. [kv]) ps"
    by (intro map_cong) (auto split: option.splits)
  then have "concat (map (\<lambda>(k, x). case to_json x of None \<Rightarrow> [] | Some y \<Rightarrow> [(k, y)]) ps) = ps"
    by (simp only: concat_map_singleton list.map_ident)
  then show ?case by simp
qed (auto split: jsnum.splits)

text \<open>Reads and writes of JSON data stay JSON; what a read can find besides is inherited.\<close>

lemma set_obj_put: "set (obj_put k v ps) \<subseteq> insert (k, v) (set ps)"
  by (auto simp: obj_put_def split: if_splits)

lemma is_json_obj_put:
  assumes "is_json (JObj ps)" "is_json v"
  shows "is_json (JObj (obj_put k v ps))"
proof -
  have "\<forall>kv \<in> insert (k, v) (set ps). is_json (snd kv)" using assms by simp
  then show ?thesis using assms(1) set_obj_put [of k v ps] by (auto simp: wf_obj_put)
qed

lemma is_json_js_set: "js_set c k v = Inr c' \<Longrightarrow> is_json c \<Longrightarrow> is_json v \<Longrightarrow> is_json c'"
proof (cases c)
  case (JObj ps)
  then show "js_set c k v = Inr c' \<Longrightarrow> is_json c \<Longrightarrow> is_json v \<Longrightarrow> is_json c'"
    using is_json_obj_put [of ps v k] by (auto simp: obj_assign_def split: if_splits)
next
  case (JArr xs)
  have "\<forall>x \<in> set (xs[str_nat k := v]). is_json x" if "\<forall>x \<in> set xs. is_json x" "is_json v"
    using that set_update_subset_insert [of xs "str_nat k" v] by blast
  with JArr show "js_set c k v = Inr c' \<Longrightarrow> is_json c \<Longrightarrow> is_json v \<Longrightarrow> is_json c'"
    by (auto split: if_splits)
qed auto

lemma is_json_map_of: "is_json (JObj ps) \<Longrightarrow> map_of ps k = Some x \<Longrightarrow> is_json x"
  using map_of_SomeD by fastforce

lemma is_json_js_get:
  "js_get c k = Inr x \<Longrightarrow> is_json c \<Longrightarrow> is_json x \<or> nullish x \<or> (\<exists>j. x = JProto j)"
proof (cases c)
  case (JObj ps)
  then show "js_get c k = Inr x \<Longrightarrow> is_json c \<Longrightarrow> ?thesis"
    using is_json_map_of [of ps k x]
    by (auto simp: obj_read_def nullish_def split: option.splits if_splits)
qed (auto simp: nullish_def split: if_splits)

end
