(* ===== verification/Api_Client.thy ===== *)
theory Api_Client
  imports Js_Value
begin

text \<open>
  The API client, \<open>src/web/ui/src/api.js\<close>: how a call becomes a \<open>fetch\<close> request, how a response
  becomes a value or a thrown error, and the table of endpoints with the query strings they
  build (\<open>URLSearchParams\<close>). Then the two tables the paths are matched against: the routes the
  backend registers in \<open>src/src/web/mod.rs\<close>, and the development proxy of
  \<open>src/web/ui/vite.config.js\<close>.

  The network is the parameter: what \<open>fetch\<close> delivers is any \<open>fetched\<close> value. The text of a JSON
  body is represented by the value it denotes.
\<close>

subsection \<open>Requests and responses\<close>

record http_request =
  rq_url :: string
  rq_method :: string
  rq_credentials :: string
  rq_headers :: props
  rq_body :: "jsval option"

record req_options =
  opt_method :: "string option"
  opt_headers :: "props option"
  opt_body :: "jsval option"

definition no_options :: req_options where
  "no_options = \<lparr>opt_method = None, opt_headers = None, opt_body = None\<rparr>"

text \<open>
  The response as \<open>request\<close> reads it: \<open>json_body\<close> is what \<open>res.json()\<close> delivers (\<open>None\<close> when it
  rejects), \<open>text_body\<close> what \<open>res.text()\<close> delivers. \<open>fetch\<close> itself may reject.
\<close>

record http_response =
  rs_status :: int
  rs_content_type :: "string option"
  json_body :: "jsval option"
  text_body :: string

datatype fetched = Rejected jserr | Responded http_response

text \<open>The classes' constructors: \<open>message || 'Unauthorized'\<close>; \<open>super(message)\<close> converts to a string.\<close>

definition new_auth_error :: "jsval \<Rightarrow> jserr" where
  "new_auth_error message = AuthError (js_String (js_or message (JStr ''Unauthorized'')))"

definition new_api_error :: "jsval \<Rightarrow> int \<Rightarrow> jserr" where
  "new_api_error message status =
     ApiError (if message = JUndef then [] else js_String message) status"

text \<open>
  The \<open>fetch\<close> arguments. The options are spread last, so headers of their own replace the merged
  ones.
\<close>

definition build_request :: "string \<Rightarrow> req_options \<Rightarrow> http_request" where
  "build_request path options =
     (let merged = spread [(''Content-Type'', JStr ''application/json'')]
                     (case opt_headers options of Some h \<Rightarrow> JObj h | None \<Rightarrow> JObj [])
      in \<lparr>rq_url = path,
          rq_method = (case opt_method options of Some m \<Rightarrow> m | None \<Rightarrow> ''GET''),
          rq_credentials = ''include'',
          rq_headers = (case opt_headers options of Some h \<Rightarrow> h | None \<Rightarrow> merged),
          rq_body = opt_body options\<rparr>)"

text \<open>The fallback message, \<open>`... (${res.status})`\<close> with the Chinese words for "request failed".\<close>

definition request_failed_text :: "int \<Rightarrow> string" where
  "request_failed_text status = cps [35831, 27714, 22833, 36133] @ '' ('' @ int_str status @ '')''"

definition response_ok :: "http_response \<Rightarrow> bool" where
  "response_ok r \<longleftrightarrow> 200 \<le> rs_status r \<and> rs_status r \<le> 299"

definition is_json_response :: "http_response \<Rightarrow> bool" where
  "is_json_response r \<longleftrightarrow>
     sublist ''application/json'' (case rs_content_type r of Some t \<Rightarrow> t | None \<Rightarrow> [])"

definition response_body :: "http_response \<Rightarrow> jsval" where
  "response_body r =
     (if is_json_response r then (case json_body r of Some v \<Rightarrow> v | None \<Rightarrow> JNull)
      else JStr (text_body r))"

text \<open>The body of \<open>request\<close> after \<open>fetch\<close>: status 401 first, then the body, then the status class.\<close>

definition handle_response :: "http_response \<Rightarrow> jsval res" where
  "handle_response r =
     (if rs_status r = 401 then Inl (new_auth_error JUndef)
      else let body = response_body r in
        if \<not> response_ok r then
          (let detail = (if is_json_response r \<and> truthy body then field body ''error'' else JUndef);
               message = js_or detail (JStr (request_failed_text (rs_status r)))
           in Inl (new_api_error message (rs_status r)))
        else Inr body)"

fun request_result :: "fetched \<Rightarrow> jsval res" where
  "request_result (Rejected e) = Inl e"
| "request_result (Responded r) = handle_response r"

subsection \<open>Query strings\<close>

text \<open>
  \<open>URLSearchParams\<close>: an ordered list of name/value pairs. \<open>set\<close> replaces the value of a name or
  appends the pair; \<open>toString\<close> is the form-urlencoded serializer over the UTF-8 bytes.
\<close>

definition form_safe :: "char \<Rightarrow> bool" where
  "form_safe c \<longleftrightarrow>
     (let n = (of_char c :: nat) in
      (48 \<le> n \<and> n \<le> 57) \<or> (65 \<le> n \<and> n \<le> 90) \<or> (97 \<le> n \<and> n \<le> 122)
        \<or> n = 42 \<or> n = 45 \<or> n = 46 \<or> n = 95)"

definition hex_digit :: "nat \<Rightarrow> char" where
  "hex_digit d = (char_of :: nat \<Rightarrow> char) (if d < 10 then 48 + d else 55 + d)"

definition form_byte :: "char \<Rightarrow> string" where
  "form_byte c =
     (if c = CHR '' '' then ''+''
      else if form_safe c then [c]
      else let n = (of_char c :: nat) in [CHR ''%'', hex_digit (n div 16), hex_digit (n mod 16)])"

definition form_str :: "string \<Rightarrow> string" where
  "form_str s = concat (map form_byte s)"

definition form_encode :: "(string \<times> string) list \<Rightarrow> string" where
  "form_encode ps = join ''&'' (map (\<lambda>(k, v). form_str k @ ''='' @ form_str v) ps)"

subsection \<open>The endpoints\<close>

record log_query =
  lq_limit :: nat
  lq_domain :: string
  lq_client :: string
  lq_history :: bool

definition default_log_query :: log_query where
  "default_log_query = \<lparr>lq_limit = 100, lq_domain = [], lq_client = [], lq_history = False\<rparr>"

datatype api_call =
    Login string string
  | Logout
  | ChangePassword string string
  | GetConfig
  | PutConfig jsval
  | GetDashboard
  | GetStats
  | GetUpstreams
  | GetRules
  | GetClients nat
  | GetQuerylog log_query

definition json_options :: "string \<Rightarrow> jsval \<Rightarrow> req_options" where
  "json_options m body = \<lparr>opt_method = Some m, opt_headers = None, opt_body = to_json body\<rparr>"

definition querylog_params :: "log_query \<Rightarrow> (string \<times> string) list" where
  "querylog_params q =
     (let p0 = [(''limit'', nat_str (lq_limit q))];
          p1 = (if lq_domain q \<noteq> [] then map_set ''domain'' (lq_domain q) p0 else p0);
          p2 = (if lq_client q \<noteq> [] then map_set ''client'' (lq_client q) p1 else p1)
      in if lq_history q then map_set ''history'' ''true'' p2 else p2)"

fun api_request :: "api_call \<Rightarrow> http_request" where
  "api_request (Login username password) =
     build_request ''/api/auth/login'' (json_options ''POST''
       (JObj [(''username'', JStr username), (''password'', JStr password)]))"
| "api_request Logout =
     build_request ''/api/auth/logout'' (no_options\<lparr>opt_method := Some ''POST''\<rparr>)"
| "api_request (ChangePassword old_password new_password) =
     build_request ''/api/auth/password'' (json_options ''POST''
       (JObj [(''old_password'', JStr old_password), (''new_password'', JStr new_password)]))"
| "api_request GetConfig = build_request ''/api/config'' no_options"
| "api_request (PutConfig config) = build_request ''/api/config'' (json_options ''PUT'' config)"
| "api_request GetDashboard = build_request ''/api/dashboard'' no_options"
| "api_request GetStats = build_request ''/api/stats'' no_options"
| "api_request GetUpstreams = build_request ''/api/upstreams'' no_options"
| "api_request GetRules = build_request ''/api/rules'' no_options"
| "api_request (GetClients limit) =
     build_request (''/api/clients?limit='' @ nat_str limit) no_options"
| "api_request (GetQuerylog q) =
     build_request (''/api/querylog?'' @ form_encode (querylog_params q)) no_options"

subsection \<open>The backend's routes and the development proxy\<close>

text \<open>
  \<open>serve\<close> in \<open>src/src/web/mod.rs\<close>: routers as lists of method and path; \<open>nest\<close> prefixes every path,
  \<open>merge\<close> appends. Anything else goes to the static files.
\<close>

type_synonym routes = "(string \<times> string) list"

definition nest :: "string \<Rightarrow> routes \<Rightarrow> routes" where
  "nest p rs = map (\<lambda>(m, q). (m, p @ q)) rs"

definition auth_routes :: routes where
  "auth_routes = [(''POST'', ''/login''), (''POST'', ''/logout'')]"

definition auth_protected_routes :: routes where
  "auth_protected_routes = [(''POST'', ''/password'')]"

definition business_routes :: routes where
  "business_routes =
     [(''GET'', ''/stats''), (''GET'', ''/upstreams''), (''GET'', ''/rules''), (''GET'', ''/clients''),
      (''GET'', ''/querylog''), (''GET'', ''/dashboard''), (''GET'', ''/config''), (''PUT'', ''/config'')]"

definition server_routes :: routes where
  "server_routes =
     nest ''/api'' (nest ''/auth'' auth_routes @ auth_protected_routes @ business_routes)
       @ [(''GET'', ''/metrics'')]"

text \<open>The path of a URL reference, without its query.\<close>

definition url_path :: "string \<Rightarrow> string" where
  "url_path u = takeWhile (\<lambda>c. c \<noteq> CHR ''?'') u"

definition routed :: "http_request \<Rightarrow> bool" where
  "routed rq \<longleftrightarrow> (rq_method rq, url_path (rq_url rq)) \<in> set server_routes"

definition dev_proxy :: "(string \<times> string) list" where
  "dev_proxy = [(''/api'', ''http://127.0.0.1:8087''), (''/metrics'', ''http://127.0.0.1:8087'')]"

subsection \<open>Outcome of a request\<close>

lemma js_or_text [simp]: "js_or v (JStr (a # s)) \<noteq> JUndef"
  by (auto simp: js_or_def)

lemma handle_response_401: "rs_status r = 401 \<Longrightarrow> handle_response r = Inl (AuthError ''Unauthorized'')"
  by (simp add: handle_response_def new_auth_error_def js_or_def)

lemma handle_response_ok: "response_ok r \<Longrightarrow> handle_response r = Inr (response_body r)"
  by (auto simp: handle_response_def response_ok_def)

lemma handle_response_error:
  "rs_status r \<noteq> 401 \<Longrightarrow> \<not> response_ok r \<Longrightarrow>
     \<exists>m. handle_response r = Inl (ApiError m (rs_status r))"
  by (simp add: handle_response_def new_api_error_def Let_def)

text \<open>
  The reading of a form-urlencoded string, the inverse of the serializer by the URL standard:
  split at ampersands, split each piece at its first equals sign, a plus is a space, a percent
  sign and two hexadecimal digits are the byte.
\<close>

fun form_unescape :: "string \<Rightarrow> string" where
  "form_unescape [] = []"
| "form_unescape (c # cs) =
     (if c = CHR ''+'' then CHR '' '' # form_unescape cs
      else if c = CHR ''%'' then
        (case cs of
           h # l # rest \<Rightarrow>
             if digit_val h < 16 \<and> digit_val l < 16
             then (char_of :: nat \<Rightarrow> char) (16 * digit_val h + digit_val l) # form_unescape rest
             else c # form_unescape cs
         | _ \<Rightarrow> c # form_unescape cs)
      else c # form_unescape cs)"

definition form_pair :: "string \<Rightarrow> string \<times> string" where
  "form_pair w =
     (form_unescape (takeWhile (\<lambda>c. c \<noteq> CHR ''='') w),
      form_unescape (drop 1 (dropWhile (\<lambda>c. c \<noteq> CHR ''='') w)))"

definition form_decode :: "string \<Rightarrow> (string \<times> string) list" where
  "form_decode s = map form_pair (filter (\<lambda>w. w \<noteq> []) (split_on CHR ''&'' s))"

lemma hex_digit_val: "d < 16 \<Longrightarrow> digit_val (hex_digit d) = d"
  by (auto simp: digit_val_def hex_digit_def Let_def)

lemma of_char_hex_digit: "d < 16 \<Longrightarrow> (of_char (hex_digit d) :: nat) = (if d < 10 then 48 + d else 55 + d)"
  by (auto simp: hex_digit_def)

lemma hex_digit_plain:
  "d < 16 \<Longrightarrow> hex_digit d \<notin> {CHR ''&'', CHR ''='', CHR ''+'', CHR ''%'', CHR ''?''}"
proof -
  assume d: "d < 16"
  have *: "c = hex_digit d \<Longrightarrow> (of_char c :: nat) = (if d < 10 then 48 + d else 55 + d)" for c
    using of_char_hex_digit [OF d] by simp
  show ?thesis
    using d by (auto dest: * [OF sym] split: if_splits)
qed

lemma nibbles: "(of_char c :: nat) div 16 < 16" "(of_char c :: nat) mod 16 < 16"
  using nat_of_char_less_256 [of c] less_mult_imp_div_less [of "of_char c" 16 16] by auto

lemma form_byte_plain: "c \<in> set (form_byte b) \<Longrightarrow> c \<noteq> CHR ''&'' \<and> c \<noteq> CHR ''='' \<and> c \<noteq> CHR ''?''"
proof -
  have "hex_digit (of_char b div 16) \<notin> {CHR ''&'', CHR ''='', CHR ''+'', CHR ''%'', CHR ''?''}"
    "hex_digit (of_char b mod 16) \<notin> {CHR ''&'', CHR ''='', CHR ''+'', CHR ''%'', CHR ''?''}"
    using hex_digit_plain nibbles by blast+
  then show "c \<in> set (form_byte b) \<Longrightarrow> ?thesis"
    by (auto simp: form_byte_def form_safe_def Let_def split: if_splits)
qed

lemma form_str_plain: "c \<in> set (form_str s) \<Longrightarrow> c \<noteq> CHR ''&'' \<and> c \<noteq> CHR ''='' \<and> c \<noteq> CHR ''?''"
  using form_byte_plain by (auto simp: form_str_def)

lemma form_safe_plain: "form_safe c \<Longrightarrow> c \<noteq> CHR ''+'' \<and> c \<noteq> CHR ''%''"
  by (auto simp: form_safe_def)

lemma unescape_hex:
  "h < 16 \<Longrightarrow> l < 16 \<Longrightarrow>
     form_unescape (CHR ''%'' # hex_digit h # hex_digit l # rest)
       = (char_of :: nat \<Rightarrow> char) (16 * h + l) # form_unescape rest"
  by (simp add: hex_digit_val)

lemma unescape_byte: "form_unescape (form_byte c @ rest) = c # form_unescape rest"
proof (cases "c = CHR '' ''")
  case True
  then show ?thesis by (simp add: form_byte_def)
next
  case space: False
  show ?thesis
  proof (cases "form_safe c")
    case True
    with space form_safe_plain [OF True] show ?thesis by (simp add: form_byte_def)
  next
    case False
    have "form_byte c = [CHR ''%'', hex_digit (of_char c div 16), hex_digit (of_char c mod 16)]"
      using space False by (simp add: form_byte_def Let_def)
    then have "form_unescape (form_byte c @ rest)
        = (char_of :: nat \<Rightarrow> char) (16 * (of_char c div 16) + of_char c mod 16) # form_unescape rest"
      using unescape_hex nibbles by simp
    then show ?thesis by (simp only: mult_div_mod_eq char_of_char)
  qed
qed

lemma unescape_form_str: "form_unescape (form_str s) = s"
  by (induction s) (simp_all add: form_str_def unescape_byte)

lemma form_pair_encode: "form_pair (form_str k @ ''='' @ form_str v) = (k, v)"
proof -
  have "\<forall>c \<in> set (form_str k). c \<noteq> CHR ''=''" using form_str_plain by blast
  then show ?thesis
    by (simp add: form_pair_def takeWhile_append2 dropWhile_append2 unescape_form_str)
qed

lemma form_decode_encode: "ps \<noteq> [] \<Longrightarrow> form_decode (form_encode ps) = ps"
proof -
  assume "ps \<noteq> []"
  let ?ws = "map (\<lambda>(k, v). form_str k @ ''='' @ form_str v) ps"
  have "\<forall>w \<in> set ?ws. CHR ''&'' \<notin> set w" using form_str_plain by fastforce
  then have "split_on CHR ''&'' (form_encode ps) = ?ws"
    using \<open>ps \<noteq> []\<close> by (simp add: form_encode_def split_on_join)
  moreover have "filter (\<lambda>w. w \<noteq> []) ?ws = ?ws" by (auto simp: filter_id_conv)
  moreover have "map form_pair ?ws = ps"
    by (simp add: comp_def split_beta form_pair_encode [unfolded append.simps])
  ultimately show ?thesis by (simp add: form_decode_def)
qed

text \<open>The URL of every call, and its path.\<close>

lemma form_encode_no_query: "CHR ''?'' \<notin> set (form_encode ps)"
proof -
  have "c \<in> set (join s ws) \<Longrightarrow> c \<in> set s \<or> (\<exists>w \<in> set ws. c \<in> set w)" for c s and ws :: "string list"
    by (induction s ws rule: join.induct) auto
  then show ?thesis unfolding form_encode_def using form_str_plain by fastforce
qed

lemma build_request_sel [simp]:
  "rq_url (build_request p opt) = p"
  "rq_method (build_request p opt) = (case opt_method opt of Some m \<Rightarrow> m | None \<Rightarrow> ''GET'')"
  "rq_credentials (build_request p opt) = ''include''"
  by (simp_all add: build_request_def Let_def)

subsection \<open>Properties of the client\<close>

text \<open>
  Classification of responses: \<open>request\<close> throws \<open>AuthError\<close> exactly on status 401, delivers a
  value exactly on the 2xx statuses, and throws an \<open>ApiError\<close> that carries the status in every
  other case; the message of that \<open>ApiError\<close> is the server's \<open>error\<close> text when the JSON body has a
  non-empty one.
\<close>

theorem request_classification:
  "((\<exists>m. handle_response r = Inl (AuthError m)) \<longleftrightarrow> rs_status r = 401)
   \<and> ((\<exists>v. handle_response r = Inr v) \<longleftrightarrow> response_ok r)
   \<and> ((\<exists>m s. handle_response r = Inl (ApiError m s) \<and> s = rs_status r) \<longleftrightarrow>
        rs_status r \<noteq> 401 \<and> \<not> response_ok r)
   \<and> (\<forall>ps m. rs_status r \<noteq> 401 \<and> \<not> response_ok r \<and> is_json_response r
        \<and> json_body r = Some (JObj ps) \<and> map_of ps ''error'' = Some (JStr m) \<and> m \<noteq> []
        \<longrightarrow> handle_response r = Inl (ApiError m (rs_status r)))"
proof -
  have ok: "response_ok r \<Longrightarrow> rs_status r \<noteq> 401" by (auto simp: response_ok_def)
  have err: "handle_response r = Inl (ApiError m (rs_status r))"
    if "rs_status r \<noteq> 401" "\<not> response_ok r" "is_json_response r" "json_body r = Some (JObj ps)"
      "map_of ps ''error'' = Some (JStr m)" "m \<noteq> []" for ps m
    using that by (simp add: handle_response_def response_body_def obj_read_def js_or_def new_api_error_def)
  consider "rs_status r = 401" | "response_ok r" | "rs_status r \<noteq> 401" "\<not> response_ok r" by blast
  then show ?thesis
  proof cases
    case 1
    then show ?thesis using ok by (auto simp: handle_response_401)
  next
    case 2
    then show ?thesis using ok by (auto simp: handle_response_ok)
  next
    case 3
    then show ?thesis using handle_response_error [OF 3] err by auto
  qed
qed

theorem request_classification_witness:
  "handle_response \<lparr>rs_status = 400, rs_content_type = Some ''application/json'',
      json_body = Some (JObj [(''error'', JStr ''bad ttl'')]), text_body = []\<rparr>
   = Inl (ApiError ''bad ttl'' 400)"
  using request_classification
    [of "\<lparr>rs_status = 400, rs_content_type = Some ''application/json'',
          json_body = Some (JObj [(''error'', JStr ''bad ttl'')]), text_body = []\<rparr>"]
  by (simp add: response_ok_def is_json_response_def)

text \<open>
  The query string of the query log survives any filter text: decoding what the client puts
  after the question mark gives back exactly the limit, the domain filter and the client filter
  when they are non-empty, and the history flag when it is set, whatever separators, percent
  signs or non-ASCII bytes the filters contain; and the question mark the client writes is the
  only one, so the path is never extended by a filter.
\<close>

theorem querylog_query_roundtrip:
  "form_decode (drop (length ''/api/querylog?'') (rq_url (api_request (GetQuerylog q))))
     = (''limit'', nat_str (lq_limit q))
       # (if lq_domain q \<noteq> [] then [(''domain'', lq_domain q)] else [])
       @ (if lq_client q \<noteq> [] then [(''client'', lq_client q)] else [])
       @ (if lq_history q then [(''history'', ''true'')] else [])
   \<and> url_path (rq_url (api_request (GetQuerylog q))) = ''/api/querylog''
   \<and> CHR ''?'' \<notin> set (drop (length ''/api/querylog?'') (rq_url (api_request (GetQuerylog q))))"
proof -
  have ne: "querylog_params q \<noteq> []"
    by (auto simp: querylog_params_def map_set_def Let_def)
  have params: "querylog_params q = (''limit'', nat_str (lq_limit q))
       # (if lq_domain q \<noteq> [] then [(''domain'', lq_domain q)] else [])
       @ (if lq_client q \<noteq> [] then [(''client'', lq_client q)] else [])
       @ (if lq_history q then [(''history'', ''true'')] else [])"
    by (simp add: querylog_params_def map_set_def Let_def)
  have u: "rq_url (api_request (GetQuerylog q)) = ''/api/querylog?'' @ form_encode (querylog_params q)"
    by simp
  show ?thesis
    unfolding u using form_decode_encode [OF ne] params form_encode_no_query by (simp add: url_path_def)
qed

lemma url_path_plain: "CHR ''?'' \<notin> set u \<Longrightarrow> url_path u = u"
  by (auto simp: url_path_def takeWhile_eq_all_conv)

lemma url_path_clients: "url_path (''/api/clients?limit='' @ nat_str n) = ''/api/clients''"
  by (simp add: url_path_def)

lemma url_path_querylog: "url_path (''/api/querylog?'' @ s) = ''/api/querylog''"
  by (simp add: url_path_def)

text \<open>
  C10. Every call of the client reaches a route the backend registers for its method and path, with
  one exception: \<open>changePassword\<close> posts to \<open>/api/auth/password\<close>, but the backend registers the
  password route next to the nested \<open>/auth\<close> router instead of inside it, at \<open>/api/password\<close>.
\<close>

theorem calls_are_routed:
  "routed (api_request c) \<longleftrightarrow> (\<forall>old_password new_password. c \<noteq> ChangePassword old_password new_password)"
proof -
  have r: "server_routes =
     [(''POST'', ''/api/auth/login''), (''POST'', ''/api/auth/logout''), (''POST'', ''/api/password''),
      (''GET'', ''/api/stats''), (''GET'', ''/api/upstreams''), (''GET'', ''/api/rules''),
      (''GET'', ''/api/clients''), (''GET'', ''/api/querylog''), (''GET'', ''/api/dashboard''),
      (''GET'', ''/api/config''), (''PUT'', ''/api/config''), (''GET'', ''/metrics'')]"
    by (simp add: server_routes_def nest_def auth_routes_def auth_protected_routes_def
        business_routes_def)
  have opts: "opt_method (json_options m b) = Some m" "opt_method no_options = None" for m b
    by (simp_all add: json_options_def no_options_def)
  show ?thesis
    by (cases c) (simp_all add: routed_def r opts url_path_clients url_path_querylog url_path_plain
        del: append.simps)
qed

text \<open>
  Every call sends the session cookie and the JSON content type, goes to a path under a prefix
  the development proxy forwards to the backend's address, and never to the metrics endpoint.
\<close>

theorem calls_carry_credentials:
  "rq_credentials (api_request c) = ''include''
   \<and> map_of (rq_headers (api_request c)) ''Content-Type'' = Some (JStr ''application/json'')
   \<and> list_ex (\<lambda>(p, t). prefix (p @ ''/'') (rq_url (api_request c)) \<and> t = ''http://127.0.0.1:8087'')
        dev_proxy
   \<and> \<not> prefix ''/metrics'' (rq_url (api_request c))"
proof -
  have h: "map_of (rq_headers (build_request p opt)) ''Content-Type'' = Some (JStr ''application/json'')"
    if "opt_headers opt = None" for p opt
    using that by (simp add: build_request_def Let_def spread_def)
  show ?thesis
    by (cases c) (simp_all add: h dev_proxy_def json_options_def no_options_def)
qed

text \<open>
  Headers given to \<open>request\<close> in its options replace the merged headers: the options are spread
  after the \<open>headers\<close> member they were merged into, so the content type is lost with them.
\<close>

theorem option_headers_replace_defaults:
  "rq_headers (build_request path (opt\<lparr>opt_headers := Some hs\<rparr>)) = hs
   \<and> (''Content-Type'' \<notin> fst ` set hs \<longrightarrow>
        map_of (rq_headers (build_request path (opt\<lparr>opt_headers := Some hs\<rparr>))) ''Content-Type'' = None)"
  by (simp add: build_request_def Let_def map_of_None_iff_fst)

theorem option_headers_replace_defaults_witness:
  "map_of (rq_headers (build_request ''/api/stats''
      (no_options\<lparr>opt_headers := Some [(''X-Trace'', JStr ''1'')]\<rparr>))) ''Content-Type'' = None"
  using option_headers_replace_defaults
    [where path = "''/api/stats''" and opt = no_options and hs = "[(''X-Trace'', JStr ''1'')]"]
  by simp

end
