(* ===== verification/Session.thy ===== *)
theory Session
  imports Api_Client
begin

text \<open>
  The session of the user interface: the authentication state of
  \<open>src/web/ui/src/context/AuthContext.jsx\<close>, the routes and the guard of \<open>src/web/ui/src/App.jsx\<close>, the
  login form of \<open>src/web/ui/src/pages/Login.jsx\<close> and the logout button of
  \<open>src/web/ui/src/components/Layout.jsx\<close>.

  An asynchronous function is cut at its \<open>await\<close>: a first part that starts the request, and a
  second part, a function of the request's outcome, that runs when it is delivered. The machine
  \<open>app_step\<close> interleaves them with navigation in any order. How a path matches a route pattern is
  the router's business and a parameter, \<open>matches\<close>.
\<close>

subsection \<open>The authentication context\<close>

datatype auth_status = Checking | Authed | Anon

text \<open>\<open>probe\<close>: only an \<open>AuthError\<close> means that there is no session.\<close>

fun probe_settled :: "jsval res \<Rightarrow> auth_status" where
  "probe_settled (Inr _) = Authed"
| "probe_settled (Inl e) = (if is_auth_error e then Anon else Authed)"

text \<open>\<open>login\<close> and \<open>logout\<close>: the new status, and the error thrown to the caller, if any.\<close>

fun login_settled :: "jsval res \<Rightarrow> auth_status \<Rightarrow> auth_status \<times> jserr option" where
  "login_settled (Inr _) s = (Authed, None)"
| "login_settled (Inl e) s = (s, Some e)"

fun logout_settled :: "jsval res \<Rightarrow> auth_status \<Rightarrow> auth_status \<times> jserr option" where
  "logout_settled (Inr _) s = (Anon, None)"
| "logout_settled (Inl e) s = (Anon, Some e)"

definition handle_auth_error :: "auth_status \<Rightarrow> auth_status" where
  "handle_auth_error s = Anon"

subsection \<open>Routes and the guard\<close>

datatype page = DashboardPage | QueryLogPage | ConfigPage

text \<open>What the routes render for a status and a path.\<close>

datatype screen =
    LoginScreen
  | LoadingScreen
  | is_Protected: Protected page
  | is_Redirect: Redirect string "string option"

definition require_auth :: "auth_status \<Rightarrow> string \<Rightarrow> page \<Rightarrow> screen" where
  "require_auth s path p =
     (if s = Checking then LoadingScreen
      else if s = Anon then Redirect ''/login'' (Some path)
      else Protected p)"

definition app_screen :: "(string \<Rightarrow> string \<Rightarrow> bool) \<Rightarrow> auth_status \<Rightarrow> string \<Rightarrow> screen" where
  "app_screen matches s path =
     (if matches ''/login'' path then LoginScreen
      else if matches ''/'' path then require_auth s path DashboardPage
      else if matches ''/querylog'' path then require_auth s path QueryLogPage
      else if matches ''/config'' path then require_auth s path ConfigPage
      else Redirect ''/'' None)"

text \<open>The location: the path of the hash router and the \<open>from\<close> its state carries.\<close>

record location =
  loc_path :: string
  loc_from :: "string option"

definition follow_redirect ::
  "(string \<Rightarrow> string \<Rightarrow> bool) \<Rightarrow> auth_status \<Rightarrow> location \<Rightarrow> location" where
  "follow_redirect matches s l =
     (case app_screen matches s (loc_path l) of
        Redirect p from \<Rightarrow> \<lparr>loc_path = p, loc_from = from\<rparr>
      | _ \<Rightarrow> l)"

text \<open>\<open>location.state?.from?.pathname || '/'\<close>.\<close>

definition login_target :: "location \<Rightarrow> string" where
  "login_target l = (case loc_from l of Some p \<Rightarrow> if p = [] then ''/'' else p | None \<Rightarrow> ''/'')"

subsection \<open>The login form\<close>

record login_form =
  lf_username :: string
  lf_password :: string
  lf_error :: string
  lf_loading :: bool

definition empty_login_form :: login_form where
  "empty_login_form = \<lparr>lf_username = [], lf_password = [], lf_error = [], lf_loading = False\<rparr>"

text \<open>"Login failed, please retry".\<close>

definition login_failed_text :: string where
  "login_failed_text = cps [30331, 24405, 22833, 36133, 65292, 35831, 37325, 35797]"

definition submit_begin :: "login_form \<Rightarrow> login_form" where
  "submit_begin f = f\<lparr>lf_error := [], lf_loading := True\<rparr>"

definition submit_end :: "jserr option \<Rightarrow> login_form \<Rightarrow> login_form" where
  "submit_end thrown f =
     (let f' = (case thrown of
          None \<Rightarrow> f
        | Some e \<Rightarrow> f\<lparr>lf_error := (if is_api_error e then err_message e else login_failed_text)\<rparr>)
      in f'\<lparr>lf_loading := False\<rparr>)"

subsection \<open>The whole session\<close>

text \<open>
  Requests whose answer may still come: the probe, a login with the target its closure captured,
  a logout, and any request of a page.
\<close>

datatype inflight = ProbeReq | LoginReq string | LogoutReq | PageReq

record app =
  app_status :: auth_status
  app_loc :: location
  app_inflight :: "inflight list"

definition initial_app :: "string \<Rightarrow> app" where
  "initial_app path =
     \<lparr>app_status = Checking, app_loc = \<lparr>loc_path = path, loc_from = None\<rparr>,
      app_inflight = [ProbeReq]\<rparr>"

datatype app_event =
    Navigate string
  | FollowRedirect
  | SubmitLogin
  | ClickLogout
  | StartPageRequest
  | ProbeAnswer "jsval res"
  | LoginAnswer string "jsval res"
  | LogoutAnswer "jsval res"
  | PageAnswer "jsval res"

text \<open>
  One event. \<open>handleLogout\<close> navigates to the login page only when \<open>logout\<close> did not throw; the pages
  pass an \<open>AuthError\<close> of their requests to \<open>handleAuthError\<close>.
\<close>

fun app_handle :: "(string \<Rightarrow> string \<Rightarrow> bool) \<Rightarrow> app_event \<Rightarrow> app \<Rightarrow> app" where
  "app_handle m (Navigate p) a = a\<lparr>app_loc := \<lparr>loc_path = p, loc_from = None\<rparr>\<rparr>"
| "app_handle m FollowRedirect a = a\<lparr>app_loc := follow_redirect m (app_status a) (app_loc a)\<rparr>"
| "app_handle m SubmitLogin a = a\<lparr>app_inflight := LoginReq (login_target (app_loc a)) # app_inflight a\<rparr>"
| "app_handle m ClickLogout a = a\<lparr>app_inflight := LogoutReq # app_inflight a\<rparr>"
| "app_handle m StartPageRequest a = a\<lparr>app_inflight := PageReq # app_inflight a\<rparr>"
| "app_handle m (ProbeAnswer r) a =
     a\<lparr>app_status := probe_settled r, app_inflight := remove1 ProbeReq (app_inflight a)\<rparr>"
| "app_handle m (LoginAnswer target r) a =
     (let (s, thrown) = login_settled r (app_status a)
      in a\<lparr>app_status := s,
           app_loc := (if thrown = None then \<lparr>loc_path = target, loc_from = None\<rparr> else app_loc a),
           app_inflight := remove1 (LoginReq target) (app_inflight a)\<rparr>)"
| "app_handle m (LogoutAnswer r) a =
     (let (s, thrown) = logout_settled r (app_status a)
      in a\<lparr>app_status := s,
           app_loc := (if thrown = None then \<lparr>loc_path = ''/login'', loc_from = None\<rparr> else app_loc a),
           app_inflight := remove1 LogoutReq (app_inflight a)\<rparr>)"
| "app_handle m (PageAnswer r) a =
     a\<lparr>app_status := (case r of Inl e \<Rightarrow> if err_name e = ''AuthError'' then handle_auth_error (app_status a)
                                           else app_status a
                              | Inr _ \<Rightarrow> app_status a),
       app_inflight := remove1 PageReq (app_inflight a)\<rparr>"

text \<open>
  When an event can happen: the control is on the screen, or the request is in flight. A request of a
  page starts at any time, since a page that was left may still start one (the reload after a save).
\<close>

fun app_enabled :: "(string \<Rightarrow> string \<Rightarrow> bool) \<Rightarrow> app \<Rightarrow> app_event \<Rightarrow> bool" where
  "app_enabled m a (Navigate p) = True"
| "app_enabled m a FollowRedirect = is_Redirect (app_screen m (app_status a) (loc_path (app_loc a)))"
| "app_enabled m a SubmitLogin = (app_screen m (app_status a) (loc_path (app_loc a)) = LoginScreen)"
| "app_enabled m a ClickLogout = is_Protected (app_screen m (app_status a) (loc_path (app_loc a)))"
| "app_enabled m a StartPageRequest = True"
| "app_enabled m a (ProbeAnswer r) = (ProbeReq \<in> set (app_inflight a))"
| "app_enabled m a (LoginAnswer t r) = (LoginReq t \<in> set (app_inflight a))"
| "app_enabled m a (LogoutAnswer r) = (LogoutReq \<in> set (app_inflight a))"
| "app_enabled m a (PageAnswer r) = (PageReq \<in> set (app_inflight a))"

inductive app_run :: "(string \<Rightarrow> string \<Rightarrow> bool) \<Rightarrow> app \<Rightarrow> app_event list \<Rightarrow> app \<Rightarrow> bool" for m where
  run_nil: "app_run m a [] a"
| run_cons: "app_enabled m a e \<Longrightarrow> app_run m (app_handle m e a) es b \<Longrightarrow> app_run m a (e # es) b"

inductive_cases run_nilE: "app_run m a [] b"
inductive_cases run_consE: "app_run m a (e # es) b"
inductive_simps run_nil_iff [simp]: "app_run m a [] b"
inductive_simps run_cons_iff [simp]: "app_run m a (e # es) b"

subsection \<open>Facts on the session\<close>

text \<open>Events that open a session on the client, and events that close it.\<close>

fun grants :: "app_event \<Rightarrow> bool" where
  "grants (ProbeAnswer r) = (probe_settled r = Authed)"
| "grants (LoginAnswer t (Inr _)) = True"
| "grants _ = False"

fun revokes :: "app_event \<Rightarrow> bool" where
  "revokes (ProbeAnswer r) = (probe_settled r = Anon)"
| "revokes (LogoutAnswer r) = True"
| "revokes (PageAnswer (Inl e)) = (err_name e = ''AuthError'')"
| "revokes _ = False"

lemma probe_settled_not_checking: "probe_settled r \<noteq> Checking"
  by (cases r) auto

lemma app_handle_status:
  "app_status (app_handle m e a) =
     (if grants e then Authed else if revokes e then Anon else app_status a)"
proof (cases e)
  case (ProbeAnswer r)
  then show ?thesis by (cases "probe_settled r") (simp_all add: probe_settled_not_checking)
next
  case (LoginAnswer t r)
  then show ?thesis by (cases r) auto
next
  case (LogoutAnswer r)
  then show ?thesis by (cases r) auto
next
  case (PageAnswer r)
  then show ?thesis by (cases r) (auto simp: handle_auth_error_def)
qed auto

lemma app_run_append:
  "app_run m a (es @ fs) c \<longleftrightarrow> (\<exists>b. app_run m a es b \<and> app_run m b fs c)"
  by (induction es arbitrary: a) auto

lemma protected_iff_authed:
  "is_Protected (app_screen m s p) \<Longrightarrow> s = Authed"
  by (auto simp: app_screen_def require_auth_def split: if_splits) (cases s; simp)+

lemma run_status_anon:
  "app_run m a es b \<Longrightarrow> app_status a \<noteq> Authed \<Longrightarrow> \<forall>e \<in> set es. \<not> grants e \<Longrightarrow> app_status b \<noteq> Authed"
  by (induction rule: app_run.induct) (auto simp: app_handle_status)

lemma run_authed_last:
  "app_run m a es b \<Longrightarrow> app_status a \<noteq> Authed \<Longrightarrow> app_status b = Authed \<Longrightarrow>
     \<exists>xs g ys. es = xs @ g # ys \<and> grants g \<and> (\<forall>e \<in> set ys. \<not> revokes e)"
proof (induction es arbitrary: b rule: rev_induct)
  case Nil
  then show ?case by simp
next
  case (snoc e es)
  then obtain c where c: "app_run m a es c" "b = app_handle m e c"
    by (auto simp: app_run_append)
  show ?case
  proof (cases "grants e")
    case True
    then show ?thesis by (intro exI [of _ es] exI [of _ e] exI [of _ "[]"]) simp
  next
    case False
    with snoc.prems(3) c have "\<not> revokes e" "app_status c = Authed"
      by (auto simp: app_handle_status split: if_splits)
    with snoc.IH [OF c(1) snoc.prems(2)] obtain xs g ys
      where "es = xs @ g # ys" "grants g" "\<forall>e \<in> set ys. \<not> revokes e" by blast
    with \<open>\<not> revokes e\<close> show ?thesis
      by (intro exI [of _ xs] exI [of _ g] exI [of _ "ys @ [e]"]) auto
  qed
qed

subsection \<open>Properties of the session\<close>



text \<open>
  Once the session is gone (a 401 or a logout has set the state to anonymous) no protected page
  is shown again, whatever the user and the pending page requests do, until an answer grants a
  session.
\<close>

theorem anonymous_stays_out:
  assumes "app_run m a es b" and "app_status a = Anon" and "\<forall>e \<in> set es. \<not> grants e"
  shows "\<not> is_Protected (app_screen m (app_status b) path)"
  using run_status_anon [OF assms(1)] assms(2,3) protected_iff_authed by fastforce

theorem anonymous_stays_out_witness:
  "\<not> is_Protected (app_screen (=) Anon ''/querylog'')"
  using anonymous_stays_out
    [where m = "(=)" and a = "(initial_app ''/'')\<lparr>app_status := Anon\<rparr>" and es = "[Navigate ''/querylog'']"
      and b = "(initial_app ''/querylog'')\<lparr>app_status := Anon\<rparr>" and path = "''/querylog''"]
  by (simp add: initial_app_def)

text \<open>
  Redirects settle: whatever the status and the location, after at most two redirects a screen
  is shown (an unknown path goes to the root, an anonymous visitor from there to the login page).
\<close>

theorem redirects_settle:
  assumes "matches ''/login'' ''/login''" and "matches ''/'' ''/''"
  shows "\<not> is_Redirect (app_screen matches s
            (loc_path (follow_redirect matches s (follow_redirect matches s l))))"
proof -
  have login: "app_screen matches s ''/login'' = LoginScreen"
    using assms(1) by (simp add: app_screen_def)
  have root: "app_screen matches s ''/'' \<in>
      {LoginScreen, LoadingScreen, Protected DashboardPage, Redirect ''/login'' (Some ''/'')}"
    using assms(2) by (auto simp: app_screen_def require_auth_def)
  have "app_screen matches s (loc_path l) \<in>
      {LoginScreen, LoadingScreen, Redirect ''/'' None} \<union> range Protected
        \<union> {Redirect ''/login'' (Some (loc_path l))}"
    by (auto simp: app_screen_def require_auth_def)
  then show ?thesis using login root by (auto simp: follow_redirect_def)
qed

theorem redirects_settle_witness:
  "\<not> is_Redirect (app_screen (=) Anon
      (loc_path (follow_redirect (=) Anon (follow_redirect (=) Anon \<lparr>loc_path = ''/nope'', loc_from = None\<rparr>))))"
  by (rule redirects_settle) simp_all

text \<open>
  Deep links survive the login: an anonymous visitor of a protected path is sent to the login
  page, and a successful login there brings the page of that path on the screen.
\<close>

theorem login_returns_to_requested_page:
  assumes "matches ''/login'' ''/login''" and "path \<noteq> []"
    and "app_screen matches Anon path = Redirect ''/login'' (Some path)"
    and "app_status a = Anon" and "loc_path (app_loc a) = path"
  shows "\<exists>b pg. app_run matches a [FollowRedirect, SubmitLogin, LoginAnswer path (Inr v)] b
           \<and> app_screen matches (app_status b) (loc_path (app_loc b)) = Protected pg"
proof -
  have shown: "\<exists>pg. app_screen matches Authed path = Protected pg"
    using assms(3) by (auto simp: app_screen_def require_auth_def split: if_splits)
  have login: "app_screen matches Anon ''/login'' = LoginScreen"
    using assms(1) by (simp add: app_screen_def)
  show ?thesis
    using assms login shown by (simp add: follow_redirect_def login_target_def)
qed

theorem login_returns_to_requested_page_witness:
  "\<exists>b pg. app_run (=) ((initial_app ''/config'')\<lparr>app_status := Anon\<rparr>)
        [FollowRedirect, SubmitLogin, LoginAnswer ''/config'' (Inr JNull)] b
      \<and> app_screen (=) (app_status b) (loc_path (app_loc b)) = Protected pg"
  by (rule login_returns_to_requested_page)
    (simp_all add: initial_app_def app_screen_def require_auth_def)

text \<open>
  A logout ends the session even when its request fails: after any answer the state is
  anonymous, no path shows a protected page, and on success the login page is next.
\<close>

theorem logout_always_ends_session:
  "app_status (app_handle m (LogoutAnswer r) a) = Anon
   \<and> \<not> is_Protected (app_screen m (app_status (app_handle m (LogoutAnswer r) a)) path)
   \<and> (isl r \<or> loc_path (app_loc (app_handle m (LogoutAnswer r) a)) = ''/login'')"
proof -
  have "app_status (app_handle m (LogoutAnswer r) a) = Anon" by (cases r) auto
  moreover from this have "\<not> is_Protected (app_screen m (app_status (app_handle m (LogoutAnswer r) a)) path)"
    using protected_iff_authed by fastforce
  ultimately show ?thesis by (cases r) auto
qed

text \<open>
  The login form: it never stays in its loading state after an answer; a wrong user name or
  password, which the backend answers with status 401, is always reported with the generic text,
  whatever error text the response carries, while any other error status shows the server's
  message.
\<close>

theorem login_form_reports:
  "lf_loading (submit_end t f) = False
   \<and> (rs_status r = 401 \<longrightarrow>
        lf_error (submit_end (snd (login_settled (request_result (Responded r)) s)) (submit_begin f))
          = login_failed_text)
   \<and> (rs_status r \<noteq> 401 \<and> \<not> response_ok r \<longrightarrow>
        (\<exists>msg. handle_response r = Inl (ApiError msg (rs_status r))
           \<and> lf_error (submit_end (snd (login_settled (request_result (Responded r)) s)) (submit_begin f)) = msg))
   \<and> (response_ok r \<longrightarrow>
        lf_error (submit_end (snd (login_settled (request_result (Responded r)) s)) (submit_begin f)) = [])"
proof -
  have "\<exists>msg. handle_response r = Inl (ApiError msg (rs_status r))"
    if "rs_status r \<noteq> 401" "\<not> response_ok r"
    using handle_response_error that by blast
  then show ?thesis
    by (auto simp: submit_end_def submit_begin_def Let_def handle_response_401 handle_response_ok
        split: option.splits)
qed

theorem login_form_reports_witness:
  "lf_error (submit_end (snd (login_settled (request_result (Responded
      \<lparr>rs_status = 401, rs_content_type = Some ''application/json'',
       json_body = Some (JObj [(''error'', JStr ''wrong password'')]), text_body = []\<rparr>)) Anon))
      (submit_begin empty_login_form)) = login_failed_text"
  using login_form_reports
    [where r = "\<lparr>rs_status = 401, rs_content_type = Some ''application/json'',
       json_body = Some (JObj [(''error'', JStr ''wrong password'')]), text_body = []\<rparr>"
     and s = Anon and f = empty_login_form]
  by simp

text \<open>
  The probe races with the login: when the first probe is still on its way while the user logs
  in, its late 401 (sent before the session existed) throws the freshly logged-in user back to the
  anonymous state.
\<close>

theorem late_probe_discards_login:
  "\<exists>a b. app_run (=) (initial_app ''/login'') [SubmitLogin, LoginAnswer ''/'' (Inr v)] a
     \<and> app_screen (=) (app_status a) (loc_path (app_loc a)) = Protected DashboardPage
     \<and> app_run (=) a [ProbeAnswer (Inl (AuthError msg))] b
     \<and> app_screen (=) (app_status b) (loc_path (app_loc b)) = Redirect ''/login'' (Some ''/'')"
  by (simp add: initial_app_def app_screen_def require_auth_def login_target_def)

end
