(* ===== verification/Toasts.thy ===== *)
theory Toasts
  imports Prelude
begin

text \<open>
  Notifications, \<open>src/web/ui/src/context/ToastContext.jsx\<close>: the list of toasts, the timers that
  dismiss them, and the module's id counter. A timer is represented by its toast's id in
  \<open>ts_timers\<close> while it is armed; the browser fires an armed timer at some later moment.
\<close>

datatype toast_kind = InfoToast | SuccessToast | ErrorToast | WarningToast

record toast =
  t_id :: nat
  t_message :: string
  t_type :: toast_kind

record toaster =
  ts_list :: "toast list"
  ts_timers :: "nat list"
  ts_counter :: nat

definition no_toasts :: toaster where
  "no_toasts = \<lparr>ts_list = [], ts_timers = [], ts_counter = 0\<rparr>"

text \<open>\<open>dismiss(id)\<close>: drop the toast; clear and forget its timer when there is one.\<close>

definition dismiss :: "nat \<Rightarrow> toaster \<Rightarrow> toaster" where
  "dismiss i s =
     s\<lparr>ts_list := filter (\<lambda>t. t_id t \<noteq> i) (ts_list s),
       ts_timers := (if i \<in> set (ts_timers s) then filter (\<lambda>j. j \<noteq> i) (ts_timers s)
                     else ts_timers s)\<rparr>"

definition default_duration :: int where
  "default_duration = 4000"

text \<open>\<open>push(message, { type, duration })\<close>: a timer only for a positive duration.\<close>

definition push :: "string \<Rightarrow> toast_kind \<Rightarrow> int \<Rightarrow> toaster \<Rightarrow> toaster" where
  "push message kind duration s =
     (let i = Suc (ts_counter s) in
      s\<lparr>ts_counter := i,
        ts_list := ts_list s @ [\<lparr>t_id = i, t_message = message, t_type = kind\<rparr>],
        ts_timers := (if 0 < duration then ts_timers s @ [i] else ts_timers s)\<rparr>)"

text \<open>The four methods of \<open>toast\<close>; \<open>opts\<close> may carry a duration, its type is overridden.\<close>

definition toast_with :: "toast_kind \<Rightarrow> string \<Rightarrow> int option \<Rightarrow> toaster \<Rightarrow> toaster" where
  "toast_with kind msg opts =
     push msg kind (case opts of Some d \<Rightarrow> d | None \<Rightarrow> default_duration)"

abbreviation "toast_info \<equiv> toast_with InfoToast"
abbreviation "toast_success \<equiv> toast_with SuccessToast"
abbreviation "toast_error \<equiv> toast_with ErrorToast"
abbreviation "toast_warning \<equiv> toast_with WarningToast"

subsection \<open>Steps\<close>

text \<open>
  A component pushes, the user clicks a toast that is shown, an armed timer fires. The parameter
  says which durations the components ask for.
\<close>

inductive toast_step :: "(int \<Rightarrow> bool) \<Rightarrow> toaster \<Rightarrow> toaster \<Rightarrow> bool" for asked where
  pushed: "asked d \<Longrightarrow> toast_step asked s (push m k d s)"
| clicked: "i \<in> t_id ` set (ts_list s) \<Longrightarrow> toast_step asked s (dismiss i s)"
| fired: "i \<in> set (ts_timers s) \<Longrightarrow> toast_step asked s (dismiss i s)"

inductive toast_reach :: "(int \<Rightarrow> bool) \<Rightarrow> toaster \<Rightarrow> bool" for asked where
  start: "toast_reach asked no_toasts"
| step: "toast_reach asked s \<Longrightarrow> toast_step asked s t \<Longrightarrow> toast_reach asked t"

text \<open>
  Ids strictly increase and come from the counter; timers are distinct and belong to toasts on
  the screen.
\<close>

definition toasts_ok :: "toaster \<Rightarrow> bool" where
  "toasts_ok s \<longleftrightarrow>
     sorted_wrt (<) (map t_id (ts_list s)) \<and> (\<forall>t \<in> set (ts_list s). t_id t \<le> ts_counter s)
     \<and> distinct (ts_timers s) \<and> set (ts_timers s) \<subseteq> t_id ` set (ts_list s)"

lemma map_filter_ids: "map t_id (filter (\<lambda>t. t_id t \<noteq> i) ts) = filter (\<lambda>j. j \<noteq> i) (map t_id ts)"
  by (induction ts) auto

lemma dismiss_list: "ts_list (dismiss i s) = filter (\<lambda>t. t_id t \<noteq> i) (ts_list s)"
  by (simp add: dismiss_def)

lemma dismiss_timers: "ts_timers (dismiss i s) = filter (\<lambda>j. j \<noteq> i) (ts_timers s)"
  by (simp add: dismiss_def) (metis (mono_tags) filter_True)

lemma dismiss_counter [simp]: "ts_counter (dismiss i s) = ts_counter s"
  by (simp add: dismiss_def)

lemma toasts_ok_dismiss: "toasts_ok s \<Longrightarrow> toasts_ok (dismiss i s)"
  unfolding toasts_ok_def dismiss_list dismiss_timers map_filter_ids
  by (auto simp: sorted_wrt_filter)

lemma toasts_ok_push: "toasts_ok s \<Longrightarrow> toasts_ok (push m k d s)"
proof -
  assume ok: "toasts_ok s"
  then have fresh: "Suc (ts_counter s) \<notin> t_id ` set (ts_list s)"
    by (auto simp: toasts_ok_def)
  with ok show ?thesis
    unfolding toasts_ok_def push_def Let_def
    by (auto simp: sorted_wrt_append less_Suc_eq_le le_SucI)
qed

lemma toast_step_ok: "toast_step asked s t \<Longrightarrow> toasts_ok s \<Longrightarrow> toasts_ok t"
  by (induction rule: toast_step.induct) (auto simp: toasts_ok_dismiss toasts_ok_push)

lemma toasts_ok_start: "toasts_ok no_toasts"
  by (simp add: toasts_ok_def no_toasts_def)

lemma toast_reach_ok: "toast_reach asked s \<Longrightarrow> toasts_ok s"
  by (induction rule: toast_reach.induct) (blast intro: toast_step_ok toasts_ok_start)+

lemma sorted_wrt_less_distinct: "sorted_wrt (<) (xs :: nat list) \<Longrightarrow> distinct xs"
  by (induction xs) auto

lemma positive_durations_armed:
  "toast_reach (\<lambda>d. 0 < d) s \<Longrightarrow> set (ts_timers s) = t_id ` set (ts_list s)"
proof (induction rule: toast_reach.induct)
  case start
  show ?case by (simp add: no_toasts_def)
next
  case (step s t)
  from step.hyps(2) step.IH show ?case
    by (induction rule: toast_step.induct) (auto simp: push_def Let_def dismiss_list dismiss_timers)
qed

text \<open>Firing timers one after the other.\<close>

definition fire_all :: "nat list \<Rightarrow> toaster \<Rightarrow> toaster" where
  "fire_all is s = fold dismiss is s"

lemma fire_all_list: "ts_list (fire_all is s) = filter (\<lambda>t. t_id t \<notin> set is) (ts_list s)"
  by (induction "is" arbitrary: s) (auto simp: fire_all_def dismiss_list conj_commute intro: filter_cong)

lemma fire_all_timers: "ts_timers (fire_all is s) = filter (\<lambda>j. j \<notin> set is) (ts_timers s)"
  by (induction "is" arbitrary: s) (auto simp: fire_all_def dismiss_timers conj_commute intro: filter_cong)

subsection \<open>Properties of the notifications\<close>

text \<open>
  In every reachable state the toasts on the screen have distinct, increasing ids, no armed
  timer is left of a toast that is gone, no toast has two timers, and the next push takes an id
  that no toast on the screen has.
\<close>

theorem toasts_consistent:
  assumes "toast_reach asked s"
  shows "distinct (map t_id (ts_list s)) \<and> sorted (map t_id (ts_list s))
     \<and> distinct (ts_timers s) \<and> set (ts_timers s) \<subseteq> t_id ` set (ts_list s)
     \<and> Suc (ts_counter s) \<notin> t_id ` set (ts_list s)"
proof -
  have ok: "toasts_ok s" using assms by (rule toast_reach_ok)
  then have "Suc (ts_counter s) \<notin> t_id ` set (ts_list s)" by (auto simp: toasts_ok_def)
  with ok show ?thesis
    unfolding toasts_ok_def
    by (auto dest: sorted_wrt_less_distinct strict_sorted_imp_sorted)
qed

theorem toasts_consistent_witness:
  "distinct (map t_id (ts_list (push ''b'' InfoToast 0 (push ''a'' ErrorToast 4000 no_toasts))))"
proof -
  let ?any = "\<lambda>_ :: int. True"
  have "toast_reach ?any (push ''a'' ErrorToast 4000 no_toasts)"
    by (rule toast_reach.step [OF toast_reach.start toast_step.pushed]) simp
  then have "toast_reach ?any (push ''b'' InfoToast 0 (push ''a'' ErrorToast 4000 no_toasts))"
    by (rule toast_reach.step [OF _ toast_step.pushed]) simp
  then show ?thesis using toasts_consistent by blast
qed

text \<open>
  No toast stays for ever: when the components ask for positive durations only, every toast on
  the screen has an armed timer, and once the armed timers have fired, in any order, the screen
  and the timer table are empty.
\<close>

theorem toasts_expire:
  assumes "toast_reach (\<lambda>d. 0 < d) s" and "set is = set (ts_timers s)"
  shows "t_id ` set (ts_list s) \<subseteq> set (ts_timers s)
    \<and> ts_list (fire_all is s) = [] \<and> ts_timers (fire_all is s) = []"
  using positive_durations_armed [OF assms(1)] assms(2)
  by (auto simp: fire_all_list fire_all_timers filter_empty_conv)

theorem toasts_expire_witness:
  "ts_list (fire_all [1] (push ''saved'' SuccessToast 6000 no_toasts)) = []"
proof -
  have "toast_reach (\<lambda>d. 0 < d) (push ''saved'' SuccessToast 6000 no_toasts)"
    by (rule toast_reach.step [OF toast_reach.start toast_step.pushed]) simp
  then show ?thesis
    using toasts_expire [of "push ''saved'' SuccessToast 6000 no_toasts" "[1]"]
    by (simp add: push_def no_toasts_def)
qed

end
