(* ===== verification/Loader.thy ===== *)
theory Loader
  imports Js_Value
begin

text \<open>
  The contract of the pages' \<open>load\<close> functions (the configuration store, the dashboard, the query
  log): what the answer to a request does to the page's state. A success shows its data; an error
  keeps what is shown; an \<open>AuthError\<close>, and nothing else, gives the session up; whatever the answer,
  the page stops loading. What follows for any sequence of answers is proved here once.
\<close>

definition successes :: "jsval res list \<Rightarrow> jsval list" where
  "successes rs = map projr (filter (\<lambda>r. \<not> isl r) rs)"

definition refused :: "jsval res \<Rightarrow> bool" where
  "refused r \<longleftrightarrow> isl r \<and> err_name (projl r) = ''AuthError''"

lemma successes_snoc:
  "successes (rs @ [r]) = (case r of Inl _ \<Rightarrow> successes rs | Inr v \<Rightarrow> successes rs @ [v])"
  by (cases r) (simp_all add: successes_def)

locale async_loader =
  fixes settle :: "jsval res \<Rightarrow> 's \<Rightarrow> 's"
    and shown :: "'s \<Rightarrow> 'd"
    and deliver :: "jsval \<Rightarrow> 'd"
    and loading :: "'s \<Rightarrow> bool"
    and signed_out :: "'s \<Rightarrow> bool"
  assumes settle_loading: "\<not> loading (settle r s)"
    and settle_success: "shown (settle (Inr v) s) = deliver v"
    and settle_error: "shown (settle (Inl e) s) = shown s"
    and settle_signed_out: "signed_out (settle r s) \<longleftrightarrow> signed_out s \<or> refused r"
begin

lemmas settle_simps = settle_loading settle_success settle_error settle_signed_out

lemma settle_all_loading: "rs \<noteq> [] \<Longrightarrow> \<not> loading (fold settle rs s)"
  by (cases rs rule: rev_cases) (auto simp: settle_loading)

lemma settle_all_shown:
  "shown (fold settle rs s) =
     (if successes rs = [] then shown s else deliver (last (successes rs)))"
proof (induction rs rule: rev_induct)
  case Nil
  then show ?case by (simp add: successes_def)
next
  case (snoc r rs)
  then show ?case
    by (cases r) (simp_all add: successes_snoc settle_success settle_error)
qed

lemma settle_all_signed_out:
  "signed_out (fold settle rs s) \<longleftrightarrow> signed_out s \<or> (\<exists>r \<in> set rs. refused r)"
  by (induction rs arbitrary: s) (auto simp: settle_signed_out)

end

end
