(* ===== verification/Config_Store.thy ===== *)
theory Config_Store
  imports Session Toasts Loader
begin

text \<open>
  The configuration store of the settings pages, \<open>src/web/ui/src/pages/config/ConfigContext.jsx\<close>:
  the blank configuration that fills missing sections, the state of \<open>ConfigProvider\<close>, its
  operations \<open>load\<close>, \<open>update\<close>, \<open>updateSection\<close> and \<open>save\<close>, and the machine that interleaves the
  user's edits and clicks with the answers of the backend. \<open>load\<close> and \<open>save\<close> are cut at their
  \<open>await\<close>s. An exception inside a state updater would unmount the page: \<open>cs_crashed\<close>.
\<close>

subsection \<open>The blank configuration\<close>

definition empty_config :: props where
  "empty_config =
     [(''log-level'', JStr ''info''),
      (''listen'', JStr ''127.0.0.1:53''),
      (''manage-resolv-conf'', JBool False),
      (''strategy'', JStr ''prefer_ipv4''),
      (''default-nameserver'', JArr []),
      (''groups'', JObj [(''default'', JObj [(''servers'', JArr []), (''strategy'', JStr ''random''),
                                        (''insecure'', JBool False), (''client-subnet'', JNull)])]),
      (''rulesets'', JArr []),
      (''hosts'', JObj []),
      (''cache'', JObj [(''enable'', JBool True), (''size'', JNum (Fin 4096)),
                       (''min-ttl'', JNum (Fin 0)), (''max-ttl'', JNum (Fin 0))]),
      (''firewall'', JNull),
      (''dhcp'', JObj [(''v4'', JNull), (''v6'', JNull), (''ra'', JNull)]),
      (''web'', JObj [(''enable'', JBool True), (''listen'', JStr ''0.0.0.0:8087''),
                     (''query-log-size'', JNum (Fin 1000)),
                     (''sqlite-path'', JStr ''/var/lib/relay/stats.db''), (''web-dir'', JNull),
                     (''auth'', JObj [(''enable'', JBool False), (''username'', JStr ''admin''),
                                     (''password-set'', JBool False)])])]"

subsection \<open>State\<close>

record cstore =
  cs_config :: jsval
  cs_loading :: bool
  cs_saving :: bool
  cs_dirty :: bool
  cs_error :: string
  cs_crashed :: bool
  cs_signed_out :: bool
  cs_toasts :: toaster

definition initial_cstore :: cstore where
  "initial_cstore =
     \<lparr>cs_config = JNull, cs_loading = True, cs_saving = False, cs_dirty = False, cs_error = [],
      cs_crashed = False, cs_signed_out = False, cs_toasts = no_toasts\<rparr>"

subsection \<open>load\<close>

text \<open>"Loading the configuration failed".\<close>

definition load_failed_text :: string where
  "load_failed_text = cps [21152, 36733, 37197, 32622, 22833, 36133]"

text \<open>\<open>{ ...EMPTY_CONFIG, ...data }\<close>.\<close>

definition merge_config :: "jsval \<Rightarrow> jsval" where
  "merge_config data = JObj (spread empty_config data)"

definition load_begin :: "cstore \<Rightarrow> cstore" where
  "load_begin s = s\<lparr>cs_loading := True\<rparr>"

fun load_end :: "jsval res \<Rightarrow> cstore \<Rightarrow> cstore" where
  "load_end (Inr data) s =
     s\<lparr>cs_config := merge_config data, cs_dirty := False, cs_error := [], cs_loading := False\<rparr>"
| "load_end (Inl e) s =
     (if err_name e = ''AuthError'' then s\<lparr>cs_signed_out := True, cs_loading := False\<rparr>
      else s\<lparr>cs_error := (if err_message e \<noteq> [] then err_message e else load_failed_text),
             cs_loading := False\<rparr>)"

subsection \<open>update and updateSection\<close>

text \<open>
  The updater of \<open>update(path, value)\<close>: walk to the last key, putting an empty object in the place
  of every missing or null section, then assign. An empty path assigns to the key
  \<open>path[-1]\<close>, that is \<open>'undefined'\<close>.
\<close>

fun update_path :: "string list \<Rightarrow> jsval \<Rightarrow> jsval \<Rightarrow> jsval res" where
  "update_path [] v cursor = js_set cursor ''undefined'' v"
| "update_path [k] v cursor = js_set cursor k v"
| "update_path (k # k' # ks) v cursor =
     (case js_get cursor k of
        Inl e \<Rightarrow> Inl e
      | Inr x \<Rightarrow>
          (case update_path (k' # ks) v (if nullish x then JObj [] else x) of
             Inl e \<Rightarrow> Inl e
           | Inr y \<Rightarrow> js_set cursor k y))"

definition update :: "string list \<Rightarrow> jsval \<Rightarrow> cstore \<Rightarrow> cstore" where
  "update path v s =
     (case update_path path v (cs_config s) of
        Inr c \<Rightarrow> s\<lparr>cs_config := c, cs_dirty := True\<rparr>
      | Inl e \<Rightarrow> s\<lparr>cs_crashed := True\<rparr>)"

definition set_section :: "string \<Rightarrow> jsval \<Rightarrow> jsval \<Rightarrow> jsval" where
  "set_section key v prev = JObj (obj_put key v (spread [] prev))"

definition update_section :: "string \<Rightarrow> jsval \<Rightarrow> cstore \<Rightarrow> cstore" where
  "update_section key v s = s\<lparr>cs_config := set_section key v (cs_config s), cs_dirty := True\<rparr>"

text \<open>
  The changes a control of a tab makes to the store, in the order it makes them, and the section
  each one writes to.
\<close>

datatype caction =
    AUpdate "string list" jsval
  | ASection string jsval

fun run_action :: "caction \<Rightarrow> cstore \<Rightarrow> cstore" where
  "run_action (AUpdate path v) s = update path v s"
| "run_action (ASection key v) s = update_section key v s"

definition run_actions :: "caction list \<Rightarrow> cstore \<Rightarrow> cstore" where
  "run_actions as s = fold run_action as s"

fun action_section :: "caction \<Rightarrow> string" where
  "action_section (AUpdate path v) = (case path of [] \<Rightarrow> ''undefined'' | k # ks \<Rightarrow> k)"
| "action_section (ASection key v) = key"

subsection \<open>save\<close>

text \<open>
  "Saving failed", "hot-reloaded: ", "not applied (read-only or restart needed): ", the separator
  and "configuration saved".
\<close>

definition save_failed_text :: string where
  "save_failed_text = cps [20445, 23384, 22833, 36133]"

definition applied_text :: string where
  "applied_text = cps [24050, 28909, 26356, 26032, 65306]"

definition ignored_text :: string where
  "ignored_text = cps [26410, 29983, 25928, 65288, 21482, 35835, 25110, 38656, 37325, 21551, 65289, 65306]"

definition parts_separator :: string where
  "parts_separator = cps [65307]"

definition saved_text :: string where
  "saved_text = cps [37197, 32622, 24050, 20445, 23384]"

text \<open>
  \<open>if (report.k?.length) parts.push(`...${report.k.join(', ')}`)\<close>: a \<open>TypeError\<close> when the report is
  null, or when \<open>report.k\<close> has a length but is no array.
\<close>

definition report_part :: "string \<Rightarrow> string \<Rightarrow> jsval \<Rightarrow> string list res" where
  "report_part label k report =
     (case js_get report k of
        Inl e \<Rightarrow> Inl e
      | Inr xs \<Rightarrow>
          (case js_get_opt xs ''length'' of
             Inl e \<Rightarrow> Inl e
           | Inr n \<Rightarrow>
               if truthy n
               then (case xs of JArr ys \<Rightarrow> Inr [label @ js_join '', '' ys]
                     | _ \<Rightarrow> Inl (type_error (''report.'' @ k @ ''.join is not a function'')))
               else Inr []))"

definition report_message :: "jsval \<Rightarrow> string res" where
  "report_message report =
     (case report_part applied_text ''applied'' report of
        Inl e \<Rightarrow> Inl e
      | Inr ps \<Rightarrow>
          (case report_part ignored_text ''ignored'' report of
             Inl e \<Rightarrow> Inl e
           | Inr qs \<Rightarrow> Inr (if ps @ qs \<noteq> [] then join parts_separator (ps @ qs) else saved_text)))"

definition save_begin :: "cstore \<Rightarrow> cstore" where
  "save_begin s = s\<lparr>cs_saving := True\<rparr>"

text \<open>The catch and finally clauses of \<open>save\<close>.\<close>

definition save_catch :: "jserr \<Rightarrow> cstore \<Rightarrow> cstore" where
  "save_catch e s =
     (if err_name e = ''AuthError'' then s\<lparr>cs_signed_out := True, cs_saving := False\<rparr>
      else s\<lparr>cs_toasts := toast_error (if err_message e \<noteq> [] then err_message e else save_failed_text)
                           None (cs_toasts s),
             cs_saving := False\<rparr>)"

text \<open>
  The answer to the PUT. On success the store is marked clean, the report is shown, and \<open>load\<close> is
  started and awaited (second component \<open>True\<close>).
\<close>

fun save_put_end :: "jsval res \<Rightarrow> cstore \<Rightarrow> cstore \<times> bool" where
  "save_put_end (Inl e) s = (save_catch e s, False)"
| "save_put_end (Inr report) s =
     (let s' = s\<lparr>cs_dirty := False\<rparr> in
      case report_message report of
        Inl e \<Rightarrow> (save_catch e s', False)
      | Inr msg \<Rightarrow> (load_begin (s'\<lparr>cs_toasts := toast_success msg (Some 6000) (cs_toasts s')\<rparr>), True))"

text \<open>The answer to the GET that \<open>save\<close> awaits: the rest of \<open>load\<close>, then the finally clause.\<close>

definition save_load_end :: "jsval res \<Rightarrow> cstore \<Rightarrow> cstore" where
  "save_load_end r s = (load_end r s)\<lparr>cs_saving := False\<rparr>"

subsection \<open>The machine\<close>

text \<open>
  Requests in flight: a \<open>load\<close>, the PUT of a \<open>save\<close> with its body, the GET of a \<open>save\<close>. The page shows
  its controls when it is neither loading nor without a configuration; the save button is
  disabled while saving. An edit is any change a control makes to the store.
\<close>

datatype request = LoadReq | SavePut jsval | SaveLoad

record cmachine =
  cm_store :: cstore
  cm_inflight :: "request list"

definition initial_machine :: cmachine where
  "initial_machine = \<lparr>cm_store = initial_cstore, cm_inflight = [LoadReq]\<rparr>"

datatype cevent =
    Edit "string list" jsval
  | EditSection string jsval
  | Reload
  | Save
  | LoadAnswer "jsval res"
  | PutAnswer jsval "jsval res"
  | SaveLoadAnswer "jsval res"

definition page_shown :: "cstore \<Rightarrow> bool" where
  "page_shown s \<longleftrightarrow> \<not> cs_loading s \<and> cs_config s \<noteq> JNull \<and> \<not> cs_crashed s"

fun cm_enabled :: "cmachine \<Rightarrow> cevent \<Rightarrow> bool" where
  "cm_enabled m (Edit p v) = page_shown (cm_store m)"
| "cm_enabled m (EditSection k v) = page_shown (cm_store m)"
| "cm_enabled m Reload = page_shown (cm_store m)"
| "cm_enabled m Save = (page_shown (cm_store m) \<and> \<not> cs_saving (cm_store m))"
| "cm_enabled m (LoadAnswer r) = (LoadReq \<in> set (cm_inflight m))"
| "cm_enabled m (PutAnswer b r) = (SavePut b \<in> set (cm_inflight m))"
| "cm_enabled m (SaveLoadAnswer r) = (SaveLoad \<in> set (cm_inflight m))"

fun cm_handle :: "cevent \<Rightarrow> cmachine \<Rightarrow> cmachine" where
  "cm_handle (Edit p v) m = m\<lparr>cm_store := update p v (cm_store m)\<rparr>"
| "cm_handle (EditSection k v) m = m\<lparr>cm_store := update_section k v (cm_store m)\<rparr>"
| "cm_handle Reload m =
     m\<lparr>cm_store := load_begin (cm_store m), cm_inflight := LoadReq # cm_inflight m\<rparr>"
| "cm_handle Save m =
     m\<lparr>cm_store := save_begin (cm_store m),
       cm_inflight := SavePut (cs_config (cm_store m)) # cm_inflight m\<rparr>"
| "cm_handle (LoadAnswer r) m =
     m\<lparr>cm_store := load_end r (cm_store m), cm_inflight := remove1 LoadReq (cm_inflight m)\<rparr>"
| "cm_handle (PutAnswer b r) m =
     (let (s, awaits) = save_put_end r (cm_store m);
          rest = remove1 (SavePut b) (cm_inflight m)
      in m\<lparr>cm_store := s, cm_inflight := (if awaits then SaveLoad # rest else rest)\<rparr>)"
| "cm_handle (SaveLoadAnswer r) m =
     m\<lparr>cm_store := save_load_end r (cm_store m), cm_inflight := remove1 SaveLoad (cm_inflight m)\<rparr>"

inductive cm_step :: "cmachine \<Rightarrow> cevent \<Rightarrow> cmachine \<Rightarrow> bool" where
  cm_stepI: "cm_enabled m e \<Longrightarrow> cm_step m e (cm_handle e m)"

text \<open>The states reachable by events that satisfy a condition.\<close>

inductive cm_reach :: "(cevent \<Rightarrow> bool) \<Rightarrow> cmachine \<Rightarrow> bool" for allowed where
  cm_start: "cm_reach allowed initial_machine"
| cm_next: "cm_reach allowed m \<Longrightarrow> allowed e \<Longrightarrow> cm_step m e n \<Longrightarrow> cm_reach allowed n"

fun cm_run :: "cevent list \<Rightarrow> cmachine \<Rightarrow> cmachine" where
  "cm_run [] m = m"
| "cm_run (e # es) m = cm_run es (cm_handle e m)"

fun cm_runnable :: "cevent list \<Rightarrow> cmachine \<Rightarrow> bool" where
  "cm_runnable [] m = True"
| "cm_runnable (e # es) m = (cm_enabled m e \<and> cm_runnable es (cm_handle e m))"

inductive_simps cm_step_iff: "cm_step m e n"

subsection \<open>Loading\<close>

interpretation config_loader: async_loader load_end cs_config merge_config cs_loading cs_signed_out
proof
  show "\<not> cs_loading (load_end r s)" for r s by (cases r) auto
  show "cs_config (load_end (Inr v) s) = merge_config v" for v s by simp
  show "cs_config (load_end (Inl e) s) = cs_config s" for e s by simp
  show "cs_signed_out (load_end r s) \<longleftrightarrow> cs_signed_out s \<or> refused r" for r s
    by (cases r) (auto simp: refused_def)
qed

lemma wf_empty_config: "wf_props empty_config"
  by (simp add: empty_config_def wf_props_def key_before_def is_index_def is_digit_def)

lemma map_of_merge:
  "is_json data \<Longrightarrow> data = JObj ps \<Longrightarrow>
     merge_config data = JObj (spread empty_config (JObj ps)) \<and>
     map_of (spread empty_config (JObj ps)) = map_of empty_config ++ map_of ps"
  by (simp add: merge_config_def map_of_spread_obj)

subsection \<open>Reading and updating at a path\<close>

fun read_path :: "string list \<Rightarrow> jsval \<Rightarrow> jsval res" where
  "read_path [] v = Inr v"
| "read_path (k # ks) v = (case js_get v k of Inl e \<Rightarrow> Inl e | Inr x \<Rightarrow> read_path ks x)"

text \<open>
  The sections on the way to the last key are objects, or missing, and no key is \<open>__proto__\<close>.
\<close>

fun sections_along :: "string list \<Rightarrow> jsval \<Rightarrow> bool" where
  "sections_along [] c = False"
| "sections_along [k] c = (k \<noteq> ''__proto__'' \<and> (case c of JObj _ \<Rightarrow> True | _ \<Rightarrow> False))"
| "sections_along (k # k' # ks) c =
     (k \<noteq> ''__proto__'' \<and>
      (case c of JObj ps \<Rightarrow> sections_along (k' # ks)
                    (if nullish (obj_read ps k) then JObj [] else obj_read ps k)
       | _ \<Rightarrow> False))"

text \<open>Neither path is a prefix of the other.\<close>

definition diverge :: "string list \<Rightarrow> string list \<Rightarrow> bool" where
  "diverge p q \<longleftrightarrow> \<not> prefix p q \<and> \<not> prefix q p"

lemma diverge_Cons: "diverge (j # p) (k # q) \<longleftrightarrow> j \<noteq> k \<or> diverge p q"
  by (auto simp: diverge_def)

lemma update_path_law:
  "sections_along p c \<Longrightarrow>
     \<exists>c'. update_path p v c = Inr c' \<and> (\<exists>ps. c' = JObj ps) \<and> read_path p c' = Inr v
       \<and> (\<forall>q w. diverge p q \<longrightarrow> read_path q c = Inr w \<longrightarrow> read_path q c' = Inr w)"
proof (induction p v c rule: update_path.induct)
  case (1 v c)
  then show ?case by simp
next
  case (2 k v c)
  then obtain ps where c: "c = JObj ps" "k \<noteq> ''__proto__''" by (auto split: jsval.splits)
  have "read_path q (JObj (obj_put k v ps)) = Inr w"
    if "diverge [k] q" "read_path q c = Inr w" for q w
    using that c by (cases q) (auto simp: diverge_Cons, simp_all add: diverge_def)
  with c show ?case by simp
next
  case (3 k k' ks v c)
  then obtain ps where c: "c = JObj ps" "k \<noteq> ''__proto__''"
    and along: "sections_along (k' # ks) (if nullish (obj_read ps k) then JObj [] else obj_read ps k)"
    by (auto split: jsval.splits)
  let ?x = "if nullish (obj_read ps k) then JObj [] else obj_read ps k"
  from 3(1) [of "obj_read ps k"] c along obtain y qs
    where y: "update_path (k' # ks) v ?x = Inr y" "y = JObj qs" "read_path (k' # ks) y = Inr v"
      and frame: "\<And>q w. diverge (k' # ks) q \<Longrightarrow> read_path q ?x = Inr w \<Longrightarrow> read_path q y = Inr w"
    by auto
  have up: "update_path (k # k' # ks) v c = Inr (JObj (obj_put k y ps))"
    using c y by simp
  have "read_path q (JObj (obj_put k y ps)) = Inr w"
    if d: "diverge (k # k' # ks) q" and r: "read_path q c = Inr w" for q w
  proof (cases q)
    case Nil
    with d show ?thesis by (simp add: diverge_def)
  next
    case (Cons j q')
    show ?thesis
    proof (cases "j = k")
      case False
      with Cons r c show ?thesis by simp
    next
      case True
      with Cons d have d': "diverge (k' # ks) q'" by (simp add: diverge_Cons)
      then have "q' \<noteq> []" by (auto simp: diverge_def)
      with r Cons True c have "\<not> nullish (obj_read ps k)"
        by (cases q') (auto simp: nullish_def)
      with r Cons True c frame [OF d'] show ?thesis by simp
    qed
  qed
  with up y show ?case by simp
qed

lemma update_path_target:
  "update_path (k # ks) v x = Inr y \<Longrightarrow> (\<exists>ps. x = JObj ps) \<or> (\<exists>xs. x = JArr xs)"
  by (cases x; cases ks) (auto split: sum.splits)

lemma update_path_is_json:
  "update_path p v c = Inr c' \<Longrightarrow> is_json c \<Longrightarrow> is_json v \<Longrightarrow> is_json c'"
proof (induction p v c arbitrary: c' rule: update_path.induct)
  case (1 v c)
  then show ?case using is_json_js_set [of c _ v c'] by simp
next
  case (2 k v c)
  then show ?case using is_json_js_set [of c k v c'] by simp
next
  case (3 k k' ks v c)
  then obtain x y where x: "js_get c k = Inr x"
    and y: "update_path (k' # ks) v (if nullish x then JObj [] else x) = Inr y"
    and c': "js_set c k y = Inr c'"
    by (auto split: sum.splits)
  have "is_json (if nullish x then JObj [] else x)"
  proof (cases "nullish x")
    case False
    then show ?thesis using is_json_js_get [OF x 3(3)] update_path_target [OF y] by auto
  qed simp
  then have "is_json y" using 3(1) [OF x y] 3(4) by simp
  with c' 3(3) show ?case using is_json_js_set by blast
qed

subsection \<open>Invariants of the machine\<close>

fun is_save_req :: "request \<Rightarrow> bool" where
  "is_save_req LoadReq = False"
| "is_save_req _ = True"

definition save_count :: "request list \<Rightarrow> nat" where
  "save_count f = length (filter is_save_req f)"

definition is_object :: "jsval \<Rightarrow> bool" where
  "is_object v \<longleftrightarrow> (case v of JObj _ \<Rightarrow> True | _ \<Rightarrow> False)"

definition store_ok :: "cstore \<Rightarrow> bool" where
  "store_ok s \<longleftrightarrow>
     (cs_config s = JNull \<or> is_object (cs_config s))
     \<and> (\<not> cs_loading s \<and> cs_config s = JNull \<longrightarrow> cs_error s \<noteq> [] \<or> cs_signed_out s)"

definition machine_ok :: "cmachine \<Rightarrow> bool" where
  "machine_ok m \<longleftrightarrow>
     save_count (cm_inflight m) = (if cs_saving (cm_store m) then 1 else 0)
     \<and> (cs_loading (cm_store m) \<longrightarrow> LoadReq \<in> set (cm_inflight m) \<or> SaveLoad \<in> set (cm_inflight m))
     \<and> store_ok (cm_store m)"

lemma save_count_simps [simp]:
  "save_count [] = 0"
  "save_count (LoadReq # f) = save_count f"
  "save_count (SavePut b # f) = Suc (save_count f)"
  "save_count (SaveLoad # f) = Suc (save_count f)"
  by (simp_all add: save_count_def)

lemma save_count_remove1:
  "r \<in> set f \<Longrightarrow> save_count (remove1 r f) = (if is_save_req r then save_count f - 1 else save_count f)"
  using length_remove1 [of r "filter is_save_req f"] by (auto simp: save_count_def filter_remove1)

lemma save_count_pos: "r \<in> set f \<Longrightarrow> is_save_req r \<Longrightarrow> 0 < save_count f"
  by (auto simp: save_count_def filter_empty_conv)

lemma save_count_single:
  "save_count f = 1 \<Longrightarrow> r \<in> set f \<Longrightarrow> is_save_req r \<Longrightarrow> r' \<in> set f \<Longrightarrow> is_save_req r' \<Longrightarrow> r = r'"
proof -
  assume "save_count f = 1"
  then obtain x where "filter is_save_req f = [x]" by (auto simp: save_count_def length_Suc_conv)
  then have x: "filter is_save_req f = [x]" .
  have "y \<in> set f \<Longrightarrow> is_save_req y \<Longrightarrow> y = x" for y
  proof -
    assume "y \<in> set f" "is_save_req y"
    then have "y \<in> set (filter is_save_req f)" by simp
    then show "y = x" unfolding x by simp
  qed
  then show "r \<in> set f \<Longrightarrow> is_save_req r \<Longrightarrow> r' \<in> set f \<Longrightarrow> is_save_req r' \<Longrightarrow> r = r'" by blast
qed

lemma in_remove1_load: "LoadReq \<in> set f \<Longrightarrow> r \<noteq> LoadReq \<Longrightarrow> LoadReq \<in> set (remove1 r f)"
  by (simp add: in_set_remove1)

lemma update_path_object:
  "is_object c \<Longrightarrow> update_path p v c = Inr c' \<Longrightarrow> is_object c'"
  by (cases c; induction p v c rule: update_path.induct)
    (auto simp: is_object_def split: sum.splits if_splits)

lemma merge_is_object [simp]: "is_object (merge_config d)"
  by (simp add: merge_config_def is_object_def)

lemma is_object_not_null: "is_object c \<Longrightarrow> c \<noteq> JNull"
  by (auto simp: is_object_def)

lemma save_catch_simps:
  "cs_config (save_catch e s) = cs_config s" "cs_loading (save_catch e s) = cs_loading s"
  "cs_error (save_catch e s) = cs_error s" "cs_saving (save_catch e s) = False"
  "cs_dirty (save_catch e s) = cs_dirty s" "cs_crashed (save_catch e s) = cs_crashed s"
  "cs_signed_out (save_catch e s) \<longleftrightarrow> cs_signed_out s \<or> err_name e = ''AuthError''"
  by (auto simp: save_catch_def)

lemma store_ok_load_end: "store_ok s \<Longrightarrow> store_ok (load_end r s)"
  by (cases r) (auto simp: store_ok_def is_object_not_null load_failed_text_def cps_def utf8_cp_def)

lemma store_ok_update: "store_ok s \<Longrightarrow> page_shown s \<Longrightarrow> store_ok (update p v s)"
  using update_path_object
  by (auto simp: store_ok_def update_def page_shown_def is_object_not_null split: sum.splits)

lemma store_ok_update_section: "store_ok s \<Longrightarrow> store_ok (update_section k v s)"
  by (auto simp: store_ok_def update_section_def set_section_def is_object_def)

lemma store_ok_save_put_end: "store_ok s \<Longrightarrow> store_ok (fst (save_put_end r s))"
  by (cases r) (auto simp: store_ok_def Let_def save_catch_simps load_begin_def split: sum.splits)

lemma load_end_saving [simp]: "cs_saving (load_end r s) = cs_saving s"
  by (cases r) auto

lemma update_flags [simp]:
  "cs_saving (update p v s) = cs_saving s" "cs_loading (update p v s) = cs_loading s"
  "cs_saving (update_section k v s) = cs_saving s" "cs_loading (update_section k v s) = cs_loading s"
  by (auto simp: update_def update_section_def split: sum.splits)

lemma save_put_end_flags:
  "cs_saving (fst (save_put_end r s)) = (snd (save_put_end r s) \<and> cs_saving s)"
  "cs_loading (fst (save_put_end r s)) = (cs_loading s \<or> snd (save_put_end r s))"
  by (cases r; auto simp: Let_def save_catch_simps load_begin_def split: sum.splits)+

lemma machine_ok_handle:
  assumes "machine_ok m" "cm_enabled m e"
  shows "machine_ok (cm_handle e m)"
proof (cases e)
  case (PutAnswer b r)
  obtain s awaits where sa: "save_put_end r (cm_store m) = (s, awaits)" by force
  have i: "SavePut b \<in> set (cm_inflight m)" using assms(2) PutAnswer by simp
  then have n: "save_count (cm_inflight m) = 1" "cs_saving (cm_store m)"
    using assms(1) save_count_pos [OF i] by (auto simp: machine_ok_def split: if_splits)
  then have "SaveLoad \<notin> set (cm_inflight m)" using save_count_single i by force
  then have "cs_loading (cm_store m) \<longrightarrow> LoadReq \<in> set (remove1 (SavePut b) (cm_inflight m))"
    using assms(1) in_remove1_load by (auto simp: machine_ok_def)
  then show ?thesis
    using PutAnswer assms(1) n i sa save_put_end_flags [of r "cm_store m"]
      store_ok_save_put_end [of "cm_store m" r]
    by (auto simp: machine_ok_def save_count_remove1)
next
  case (SaveLoadAnswer r)
  have i: "SaveLoad \<in> set (cm_inflight m)" using assms(2) SaveLoadAnswer by simp
  then have "save_count (cm_inflight m) = 1"
    using assms(1) save_count_pos [OF i] by (auto simp: machine_ok_def split: if_splits)
  then show ?thesis
    using SaveLoadAnswer assms(1) i store_ok_load_end [of "cm_store m" r]
      config_loader.settle_loading [of r "cm_store m"]
    by (auto simp: machine_ok_def save_load_end_def save_count_remove1 store_ok_def)
next
  case (LoadAnswer r)
  then show ?thesis
    using assms store_ok_load_end [of "cm_store m" r] config_loader.settle_loading [of r "cm_store m"]
    by (auto simp: machine_ok_def save_count_remove1)
next
  case Save
  then show ?thesis using assms by (auto simp: machine_ok_def save_begin_def store_ok_def)
next
  case Reload
  then show ?thesis using assms by (auto simp: machine_ok_def load_begin_def store_ok_def)
next
  case (Edit p v)
  then show ?thesis using assms store_ok_update [of "cm_store m" p v] by (auto simp: machine_ok_def)
next
  case (EditSection k v)
  then show ?thesis
    using assms store_ok_update_section [of "cm_store m" k v] by (auto simp: machine_ok_def)
qed

lemma machine_ok_initial: "machine_ok initial_machine"
  by (simp add: machine_ok_def initial_machine_def initial_cstore_def store_ok_def)

lemma reach_machine_ok: "cm_reach allowed m \<Longrightarrow> machine_ok m"
  by (induction rule: cm_reach.induct) (auto simp: machine_ok_initial machine_ok_handle cm_step_iff)

subsection \<open>JSON data\<close>

text \<open>Events that bring JSON data only.\<close>

fun json_event :: "cevent \<Rightarrow> bool" where
  "json_event (Edit p v) = is_json v"
| "json_event (EditSection k v) = is_json v"
| "json_event (LoadAnswer (Inr v)) = is_json v"
| "json_event (SaveLoadAnswer (Inr v)) = is_json v"
| "json_event _ = True"

lemma is_json_spread: "is_json (JObj ps) \<Longrightarrow> is_json v \<Longrightarrow> is_json (JObj (spread ps v))"
proof -
  have fold: "is_json (JObj (js_obj.put_all kvs ps))"
    if "is_json (JObj ps)" "\<forall>kv \<in> set kvs. is_json (snd kv)" for kvs ps
    using that
  proof (induction kvs arbitrary: ps)
    case (Cons kv kvs)
    then show ?case using is_json_obj_put [of ps "snd kv" "fst kv"] by simp
  qed simp
  assume "is_json (JObj ps)" "is_json v"
  moreover from \<open>is_json v\<close> have "\<forall>kv \<in> set (own_entries v). is_json (snd kv)"
    by (cases v) (auto dest!: set_zip_rightD)
  ultimately show ?thesis
    unfolding spread_def using fold [of ps "own_entries v"] \<open>is_json (JObj ps)\<close> by blast
qed

lemma empty_config_is_json: "is_json (JObj empty_config)"
  using wf_empty_config
  by (simp add: empty_config_def wf_props_def key_before_def is_index_def is_digit_def)

lemma merge_is_json: "is_json data \<Longrightarrow> is_json (merge_config data)"
  using is_json_spread [OF empty_config_is_json] by (simp add: merge_config_def del: is_json.simps)

lemma load_end_is_json:
  "is_json (cs_config s) \<Longrightarrow> (\<And>v. r = Inr v \<Longrightarrow> is_json v) \<Longrightarrow> is_json (cs_config (load_end r s))"
  by (cases r) (auto simp: merge_is_json)

lemma set_section_is_json: "is_json c \<Longrightarrow> is_json v \<Longrightarrow> is_json (set_section k v c)"
  unfolding set_section_def
  by (rule is_json_obj_put [OF is_json_spread]) simp_all

lemma save_put_end_config: "cs_config (fst (save_put_end r s)) = cs_config s"
  by (cases r) (auto simp: Let_def save_catch_simps load_begin_def split: sum.splits)

lemma reach_is_json: "cm_reach json_event m \<Longrightarrow> is_json (cs_config (cm_store m))"
proof (induction rule: cm_reach.induct)
  case cm_start
  show ?case by (simp add: initial_machine_def initial_cstore_def)
next
  case (cm_next m e n)
  then have n: "n = cm_handle e m" by (simp add: cm_step_iff)
  show ?case
  proof (cases e)
    case (Edit p v)
    with cm_next show ?thesis
      by (auto simp: n update_def split: sum.splits dest: update_path_is_json)
  next
    case (EditSection k v)
    with cm_next show ?thesis by (simp add: n update_section_def set_section_is_json)
  next
    case (LoadAnswer r)
    with cm_next show ?thesis by (cases r) (auto simp: n intro: merge_is_json)
  next
    case (SaveLoadAnswer r)
    with cm_next show ?thesis by (cases r) (auto simp: n save_load_end_def intro: merge_is_json)
  next
    case (PutAnswer b r)
    obtain s' a where "save_put_end r (cm_store m) = (s', a)" by force
    with PutAnswer cm_next show ?thesis
      using save_put_end_config [of r "cm_store m"] by (simp add: n Let_def)
  qed (use cm_next in \<open>auto simp: n load_begin_def save_begin_def\<close>)
qed

subsection \<open>Runs\<close>

lemma cm_run_append: "cm_run (es @ fs) m = cm_run fs (cm_run es m)"
  by (induction es arbitrary: m) auto

lemma cm_reach_run:
  "cm_reach allowed m \<Longrightarrow> cm_runnable es m \<Longrightarrow> \<forall>e \<in> set es. allowed e \<Longrightarrow> cm_reach allowed (cm_run es m)"
proof (induction es arbitrary: m)
  case (Cons e es)
  then have "cm_reach allowed (cm_handle e m)" using cm_next [of allowed m e] cm_stepI by simp
  with Cons show ?case by simp
qed simp

lemma save_put_ok:
  "report_message report = Inr msg \<Longrightarrow>
     save_put_end (Inr report) s =
       (s\<lparr>cs_dirty := False, cs_loading := True, cs_toasts := toast_success msg (Some 6000) (cs_toasts s)\<rparr>, True)"
  by (simp add: load_begin_def)

lemma update_keeps_toasts [simp]: "cs_toasts (update p v s) = cs_toasts s"
  by (auto simp: update_def split: sum.splits)

lemma merged_object: "is_json data \<Longrightarrow> \<exists>ps. merge_config data = JObj ps \<and> wf_props ps"
  by (simp add: merge_config_def wf_spread wf_empty_config)

lemma read_merged:
  assumes "wf_props ps"
  shows "js_get (merge_config (JObj ps)) k =
     Inr (case map_of ps k of Some v \<Rightarrow> v | None \<Rightarrow> obj_read empty_config k)"
  using assms
  by (simp add: merge_config_def map_of_spread_obj obj_read_def map_add_def split: option.split)

text \<open>A small configuration and machine for the examples.\<close>

definition sample_data :: jsval where
  "sample_data = JObj [(''listen'', JStr ''0.0.0.0:53''), (''rulesets'', JArr [JNull])]"

definition sample_machine :: cmachine where
  "sample_machine = cm_run [LoadAnswer (Inr sample_data)] initial_machine"

lemma sample_is_json: "is_json sample_data"
  by (simp add: sample_data_def wf_props_def key_before_def is_index_def is_digit_def)

lemma sample_reach: "cm_reach json_event sample_machine"
  unfolding sample_machine_def
  by (rule cm_reach_run [OF cm_start]) (simp_all add: sample_is_json initial_machine_def)

lemma cm_reach_mono: "cm_reach P m \<Longrightarrow> (\<And>e. P e \<Longrightarrow> Q e) \<Longrightarrow> cm_reach Q m"
proof (induction rule: cm_reach.induct)
  case (cm_next m e n)
  then show ?case by (blast intro: cm_reach.cm_next)
qed (rule cm_reach.cm_start)

lemmas sample_reach_any = cm_reach_mono [OF sample_reach, of "\<lambda>_. True", simplified]

lemma sample_shown:
  "page_shown (cm_store sample_machine)" "\<not> cs_saving (cm_store sample_machine)"
  "cm_inflight sample_machine = []" "cs_config (cm_store sample_machine) = merge_config sample_data"
  "cs_toasts (cm_store sample_machine) = no_toasts"
  by (simp_all add: sample_machine_def initial_machine_def initial_cstore_def page_shown_def
      merge_config_def)

subsection \<open>Properties of the store\<close>

text \<open>
  Saves are exclusive: in every reachable state there is at most one request of a save in
  flight, and there is one exactly when the button shows the save as running; and whenever the page
  shows itself as loading, an answer that ends the loading is due.
\<close>

theorem one_save_at_a_time:
  assumes "cm_reach (\<lambda>_. True) m"
  shows "save_count (cm_inflight m) \<le> 1
    \<and> (cs_saving (cm_store m) \<longleftrightarrow> save_count (cm_inflight m) = 1)
    \<and> (cs_loading (cm_store m) \<longrightarrow> LoadReq \<in> set (cm_inflight m) \<or> SaveLoad \<in> set (cm_inflight m))"
  using reach_machine_ok [OF assms] by (simp add: machine_ok_def)

theorem one_save_at_a_time_witness:
  "save_count (cm_inflight (cm_run [Save] sample_machine)) = 1
    \<and> cs_saving (cm_store (cm_run [Save] sample_machine))"
proof -
  have "cm_reach (\<lambda>_. True) (cm_run [Save] sample_machine)"
    by (rule cm_reach_run [OF sample_reach_any]) (simp_all add: sample_shown)
  from one_save_at_a_time [OF this] show ?thesis by (simp add: save_begin_def)
qed

text \<open>
  The page never hangs and never renders a missing configuration: once every request has been
  answered, whatever the answers and whatever the user did meanwhile, the page neither loads nor
  saves, and it holds a configuration object, or it has an error message to show, or the session
  was given up.
\<close>

theorem settled_page_is_usable:
  assumes "cm_reach (\<lambda>_. True) m" and "cm_inflight m = []"
  shows "\<not> cs_loading (cm_store m) \<and> \<not> cs_saving (cm_store m)
    \<and> (is_object (cs_config (cm_store m)) \<or> cs_error (cm_store m) \<noteq> [] \<or> cs_signed_out (cm_store m))"
  using reach_machine_ok [OF assms(1)] assms(2)
  by (auto simp: machine_ok_def store_ok_def split: if_splits)

theorem settled_page_is_usable_witness:
  "is_object (cs_config (cm_store sample_machine)) \<or> cs_error (cm_store sample_machine) \<noteq> []
     \<or> cs_signed_out (cm_store sample_machine)"
  using settled_page_is_usable [OF sample_reach_any sample_shown(3)] by blast

text \<open>
  What is saved is what is shown: when the data that came in was JSON (from the backend or from a
  control), pressing the save button sends one \<open>PUT /api/config\<close> whose body is the configuration on
  the screen, with nothing lost in the serialization.
\<close>

theorem save_sends_shown_config:
  assumes "cm_reach json_event m" and "cm_enabled m Save"
  shows "cm_inflight (cm_handle Save m) = SavePut (cs_config (cm_store m)) # cm_inflight m
    \<and> rq_method (api_request (PutConfig (cs_config (cm_store m)))) = ''PUT''
    \<and> rq_body (api_request (PutConfig (cs_config (cm_store m)))) = Some (cs_config (cm_store m))"
  using to_json_id [OF reach_is_json [OF assms(1)]]
  by (simp add: build_request_def json_options_def)

theorem save_sends_shown_config_witness:
  "rq_body (api_request (PutConfig (merge_config sample_data))) = Some (merge_config sample_data)"
  using save_sends_shown_config [OF sample_reach] sample_shown by simp

text \<open>
  A save that succeeds, end to end: with a report the page can read and data in the reload, the
  store then shows the backend's configuration over the defaults, is neither dirty nor loading nor
  saving, keeps no old error, and the screen has one more toast, of the success kind, with the
  message made of the report, armed for six seconds.
\<close>

theorem save_then_clean:
  assumes "report_message report = Inr msg"
    and "n = cm_run [Save, PutAnswer (cs_config (cm_store m)) (Inr report), SaveLoadAnswer (Inr data)] m"
  shows "cs_config (cm_store n) = merge_config data
    \<and> \<not> cs_dirty (cm_store n) \<and> \<not> cs_loading (cm_store n) \<and> \<not> cs_saving (cm_store n)
    \<and> cs_error (cm_store n) = []
    \<and> cs_toasts (cm_store n) = push msg SuccessToast 6000 (cs_toasts (cm_store m))
    \<and> cm_inflight n = cm_inflight m"
  by (simp add: assms(2) save_put_ok [OF assms(1)] save_begin_def save_load_end_def toast_with_def
      del: save_put_end.simps)

theorem save_then_clean_witness:
  "cs_toasts (cm_store (cm_run
       [Save, PutAnswer (merge_config sample_data)
          (Inr (JObj [(''applied'', JArr [JStr ''hosts'', JStr ''cache'']), (''ignored'', JArr [])])),
        SaveLoadAnswer (Inr sample_data)] sample_machine))
     = push (applied_text @ ''hosts, cache'') SuccessToast 6000 no_toasts"
  using save_then_clean [OF _ refl, where m = sample_machine and data = sample_data
      and report = "JObj [(''applied'', JArr [JStr ''hosts'', JStr ''cache'']), (''ignored'', JArr [])]"
      and msg = "applied_text @ ''hosts, cache''"]
  by (simp add: sample_shown report_message_def report_part_def js_get_opt_def nullish_def
      obj_read_def js_join_def object_proto_def)

text \<open>
  A PUT that fails loses nothing: the configuration with its unsaved edits stays as it was, the
  dirty mark stays, saving ends and no reload starts. The session is given up exactly for an
  \<open>AuthError\<close>; every other error adds one error toast.
\<close>

theorem failed_save_keeps_edits:
  "cs_config (cm_store (cm_handle (PutAnswer b (Inl e)) m)) = cs_config (cm_store m)
    \<and> cs_dirty (cm_store (cm_handle (PutAnswer b (Inl e)) m)) = cs_dirty (cm_store m)
    \<and> \<not> cs_saving (cm_store (cm_handle (PutAnswer b (Inl e)) m))
    \<and> cm_inflight (cm_handle (PutAnswer b (Inl e)) m) = remove1 (SavePut b) (cm_inflight m)
    \<and> cs_signed_out (cm_store (cm_handle (PutAnswer b (Inl e)) m))
        = (cs_signed_out (cm_store m) \<or> err_name e = ''AuthError'')
    \<and> cs_toasts (cm_store (cm_handle (PutAnswer b (Inl e)) m))
        = (if err_name e = ''AuthError'' then cs_toasts (cm_store m)
           else push (if err_message e = [] then save_failed_text else err_message e)
                  ErrorToast 4000 (cs_toasts (cm_store m)))"
  by (simp add: save_catch_def toast_with_def default_duration_def)

text \<open>
  An edit made while the PUT of a save is in flight is lost: whatever the edit, once the save has
  succeeded the store shows the backend's answer and is not dirty, exactly as if the user had not
  made the edit, unless the edit crashed the page.
\<close>

theorem edit_during_save_is_lost:
  assumes "report_message report = Inr msg"
    and "update_path p v (cs_config (cm_store m)) = Inr c"
  shows "cm_run [Save, Edit p v, PutAnswer (cs_config (cm_store m)) (Inr report), SaveLoadAnswer (Inr data)] m
     = cm_run [Save, PutAnswer (cs_config (cm_store m)) (Inr report), SaveLoadAnswer (Inr data)] m"
  by (simp add: save_put_ok [OF assms(1)] update_def assms(2) save_begin_def save_load_end_def
      del: save_put_end.simps)

theorem edit_during_save_is_lost_witness:
  "cs_config (cm_store (cm_run
      [Save, Edit [''listen''] (JStr ''127.0.0.1:5353''), PutAnswer (merge_config sample_data) (Inr (JObj [])),
       SaveLoadAnswer (Inr sample_data)] sample_machine)) = merge_config sample_data"
proof -
  have c: "update_path [''listen''] (JStr ''127.0.0.1:5353'') (cs_config (cm_store sample_machine))
      = Inr (JObj (obj_put ''listen'' (JStr ''127.0.0.1:5353'') (spread empty_config sample_data)))"
    by (simp add: sample_shown merge_config_def)
  have r: "report_message (JObj []) = Inr saved_text"
    by (simp add: report_message_def report_part_def js_get_opt_def nullish_def obj_read_def
        object_proto_def)
  show ?thesis
    using edit_during_save_is_lost [OF r c, where data = sample_data]
      save_then_clean [OF r refl, where m = sample_machine and data = sample_data]
    by (simp only: sample_shown)
qed

text \<open>
  C2. \<open>update(path, value)\<close> writes at the path and nowhere else: when the sections on the way are
  objects, null or missing, the page does not crash, reading the path in the new configuration gives
  the value, every path that neither extends it nor is extended by it reads as before, and the store
  is dirty.
\<close>

theorem update_writes_at_path:
  assumes "sections_along p (cs_config s)"
  shows "read_path p (cs_config (update p v s)) = Inr v
    \<and> (\<forall>q w. diverge p q \<longrightarrow> read_path q (cs_config s) = Inr w
          \<longrightarrow> read_path q (cs_config (update p v s)) = Inr w)
    \<and> cs_crashed (update p v s) = cs_crashed s \<and> cs_dirty (update p v s)"
  using update_path_law [OF assms, of v] by (auto simp: update_def)

theorem update_writes_at_path_witness:
  "read_path [''dhcp'', ''v4'', ''enable'']
     (cs_config (update [''dhcp'', ''v4'', ''enable''] (JBool True) (cm_store sample_machine)))
     = Inr (JBool True)"
proof -
  have "sections_along [''dhcp'', ''v4'', ''enable''] (cs_config (cm_store sample_machine))"
    unfolding sample_shown merge_config_def sample_data_def
    by (simp add: spread_def empty_config_def obj_put_def obj_read_def nullish_def is_index_def is_digit_def)
  from update_writes_at_path [OF this] show ?thesis by blast
qed



text \<open>
  Whatever answers a store gets to its loads, and in whatever order: it shows the data of the last
  success, an error never takes the shown configuration away, it stops loading, and the session
  is given up exactly when one of the answers is an \<open>AuthError\<close>.
\<close>

theorem last_loaded_config_is_shown:
  "cs_config (fold load_end rs s)
     = (if successes rs = [] then cs_config s else merge_config (last (successes rs)))
   \<and> cs_loading (fold load_end rs s) = (rs = [] \<and> cs_loading s)
   \<and> (cs_signed_out (fold load_end rs s) \<longleftrightarrow> cs_signed_out s \<or> (\<exists>r \<in> set rs. refused r))"
  using config_loader.settle_all_shown [of rs s] config_loader.settle_all_loading [of rs s]
    config_loader.settle_all_signed_out [of rs s] by (cases rs) auto

end
