(* ===== verification/Views.thy ===== *)
theory Views
  imports Js_Value
begin

text \<open>
  What a page shows and what its controls do: a tree of elements whose handlers carry the effect
  they have when they fire (\<open>'e\<close>, chosen by each page), and the shared components of
  \<open>src/web/ui/src/components/ui.jsx\<close> as functions that build such trees.

  Kept of an element: its tag, the attributes that decide its behaviour or show data (\<open>type\<close>,
  \<open>value\<close>, \<open>checked\<close>, \<open>disabled\<close>, \<open>required\<close>, \<open>min\<close>, \<open>role\<close>, \<open>href\<close>), its handlers, its children, and the
  part of its class that depends on data. Left out: constant styling, constant wording (labels,
  hints, placeholders, titles), icons, and React's \<open>key\<close>s.
\<close>

subsection \<open>Trees\<close>

datatype 'e handler =
    OnClick 'e
  | OnChange "string \<Rightarrow> 'e"
  | OnSubmit 'e

datatype 'e dom =
    Text string
  | Elem string "(string \<times> jsval) list" "'e handler list" "'e dom list"

text \<open>
  The children a value gives: strings and numbers show, booleans, \<open>null\<close> and \<open>undefined\<close> do not.
  \<open>{c && ...}\<close> shows the value \<open>c\<close> itself when it is falsy.
\<close>

fun child :: "jsval \<Rightarrow> 'e dom list" where
  "child (JStr s) = (if s = [] then [] else [Text s])"
| "child (JNum n) = [Text (num_str n)]"
| "child (JArr xs) = concat (map child xs)"
| "child _ = []"

definition and_then :: "jsval \<Rightarrow> 'e dom list \<Rightarrow> 'e dom list" where
  "and_then c kids = (if truthy c then kids else child c)"

text \<open>All handlers of a tree in document order; those of elements that are not disabled.\<close>

fun handlers :: "'e dom \<Rightarrow> 'e handler list" where
  "handlers (Text s) = []"
| "handlers (Elem t as hs ks) = hs @ concat (map handlers ks)"

definition disabled :: "(string \<times> jsval) list \<Rightarrow> bool" where
  "disabled as \<longleftrightarrow> (case map_of as ''disabled'' of Some v \<Rightarrow> truthy v | None \<Rightarrow> False)"

fun live_handlers :: "'e dom \<Rightarrow> 'e handler list" where
  "live_handlers (Text s) = []"
| "live_handlers (Elem t as hs ks) = (if disabled as then [] else hs) @ concat (map live_handlers ks)"

text \<open>A condition holds of every effect the handlers of a tree can have.\<close>

fun handler_all :: "('e \<Rightarrow> bool) \<Rightarrow> 'e handler \<Rightarrow> bool" where
  "handler_all P (OnClick e) = P e"
| "handler_all P (OnChange f) = (\<forall>s. P (f s))"
| "handler_all P (OnSubmit e) = P e"

definition dom_all :: "('e \<Rightarrow> bool) \<Rightarrow> 'e dom \<Rightarrow> bool" where
  "dom_all P d \<longleftrightarrow> (\<forall>h \<in> set (handlers d). handler_all P h)"

text \<open>The input elements (\<open>input\<close> and \<open>select\<close>) of a tree with their values.\<close>

fun input_values :: "'e dom \<Rightarrow> jsval list" where
  "input_values (Text s) = []"
| "input_values (Elem t as hs ks) =
     (if t = ''input'' \<or> t = ''select''
      then [case map_of as ''value'' of Some v \<Rightarrow> v | None \<Rightarrow> JUndef] else [])
     @ concat (map input_values ks)"

lemma dom_all_Text [simp, view_simps]: "dom_all P (Text s)"
  by (simp add: dom_all_def)

lemma dom_all_Elem [simp, view_simps]:
  "dom_all P (Elem t as hs ks) \<longleftrightarrow>
     (\<forall>h \<in> set hs. handler_all P h) \<and> (\<forall>k \<in> set ks. dom_all P k)"
  by (auto simp: dom_all_def)

lemma dom_all_child [simp, view_simps]: "\<forall>k \<in> set (child v). dom_all P k"
  by (induction v rule: child.induct) auto

lemma dom_all_and_then [view_simps]:
  "(\<forall>k \<in> set (and_then c kids). dom_all P k) \<longleftrightarrow> (truthy c \<longrightarrow> (\<forall>k \<in> set kids. dom_all P k))"
  by (simp add: and_then_def)

lemma live_handlers_subset: "set (live_handlers d) \<subseteq> set (handlers d)"
  by (induction d) (auto split: if_splits)

subsection \<open>The shared components\<close>

text \<open>The entry of a table of class names; a missing key reads \<open>undefined\<close>.\<close>

definition class_of :: "(string \<times> string) list \<Rightarrow> string \<Rightarrow> jsval" where
  "class_of table k = JStr (case map_of table k of Some c \<Rightarrow> c | None \<Rightarrow> ''undefined'')"

definition Card :: "'e dom list \<Rightarrow> 'e dom" where
  [view_simps]: "Card kids = Elem ''div'' [] [] kids"

definition accent_map :: "(string \<times> string) list" where
  "accent_map =
     [(''brand'', ''from-brand-500 to-brand-600''),
      (''emerald'', ''from-emerald-500 to-emerald-600''),
      (''rose'', ''from-rose-500 to-rose-600''),
      (''amber'', ''from-amber-500 to-amber-600''),
      (''cyan'', ''from-cyan-500 to-cyan-600'')]"

definition StatCard :: "jsval \<Rightarrow> jsval \<Rightarrow> jsval \<Rightarrow> string \<Rightarrow> 'e dom list \<Rightarrow> 'e dom" where
  [view_simps]: "StatCard label value sub accent icon =
     Card
       ((if icon = [] then []
         else [Elem ''div'' [(''className'', class_of accent_map accent)] [] icon])
        @ [Elem ''div'' [] []
             ([Elem ''div'' [] [] (child label), Elem ''div'' [] [] (child value)]
              @ and_then sub [Elem ''div'' [] [] (child sub)])])"

definition tone_map :: "(string \<times> string) list" where
  "tone_map =
     [(''slate'', ''bg-slate-100 text-slate-600''),
      (''green'', ''bg-emerald-100 text-emerald-700''),
      (''red'', ''bg-rose-100 text-rose-700''),
      (''amber'', ''bg-amber-100 text-amber-700''),
      (''blue'', ''bg-brand-100 text-brand-700'')]"

definition Badge :: "string \<Rightarrow> 'e dom list \<Rightarrow> 'e dom" where
  [view_simps]: "Badge tone kids = Elem ''span'' [(''className'', class_of tone_map tone)] [] kids"

text \<open>\<open>Button\<close>, \<open>Input\<close> and \<open>Select\<close> pass every other attribute and handler on to the element.\<close>

definition Button :: "(string \<times> jsval) list \<Rightarrow> 'e handler list \<Rightarrow> 'e dom list \<Rightarrow> 'e dom" where
  [view_simps]: "Button as hs kids = Elem ''button'' as hs kids"

definition Input :: "(string \<times> jsval) list \<Rightarrow> 'e handler list \<Rightarrow> 'e dom" where
  [view_simps]: "Input as hs = Elem ''input'' as hs []"

definition Select :: "(string \<times> jsval) list \<Rightarrow> 'e handler list \<Rightarrow> 'e dom list \<Rightarrow> 'e dom" where
  [view_simps]: "Select as hs kids = Elem ''select'' as hs kids"

definition Option :: "string \<Rightarrow> 'e dom" where
  [view_simps]: "Option v = Elem ''option'' [(''value'', JStr v)] [] []"

text \<open>A switch: a click asks for the opposite of what it shows.\<close>

definition Toggle :: "jsval \<Rightarrow> (jsval \<Rightarrow> 'e) \<Rightarrow> 'e dom" where
  [view_simps]: "Toggle checked on_change =
     Elem ''label'' [] []
       [Elem ''button''
          [(''type'', JStr ''button''), (''role'', JStr ''switch''), (''aria-checked'', checked),
           (''className'', JStr (if truthy checked then ''bg-brand-600'' else ''bg-slate-200''))]
          [OnClick (on_change (JBool (\<not> truthy checked)))]
          [Elem ''span''
             [(''className'', JStr (if truthy checked then ''translate-x-[22px]'' else ''translate-x-[3px]''))]
             [] []]]"

definition FormRow :: "'e dom list \<Rightarrow> 'e dom" where
  [view_simps]: "FormRow kids =
     Elem ''div'' [] [] [Elem ''div'' [] [] [Elem ''label'' [] [] []], Elem ''div'' [] [] kids]"

definition SectionTitle :: "'e dom list \<Rightarrow> 'e dom list \<Rightarrow> 'e dom" where
  [view_simps]: "SectionTitle kids action = Elem ''div'' [] [] (Elem ''h3'' [] [] kids # action)"

definition EmptyState :: "jsval \<Rightarrow> jsval \<Rightarrow> 'e dom" where
  [view_simps]: "EmptyState title hint =
     Elem ''div'' [] [] (Elem ''p'' [] [] (child title) # and_then hint [Elem ''p'' [] [] (child hint)])"

definition Spinner :: "'e dom" where
  [view_simps]: "Spinner = Elem ''svg'' [] [] [Elem ''circle'' [] [] [], Elem ''path'' [] [] []]"

subsection \<open>Lists edited by position\<close>

text \<open>
  What the editors do to an array: replace or change the item at an index with \<open>map\<close>, drop it with
  \<open>filter\<close>, append at the end, and \<open>next[i] = v\<close> on a copy, which at the length appends and
  beyond it would leave holes.
\<close>

definition set_at :: "nat \<Rightarrow> jsval \<Rightarrow> jsval list \<Rightarrow> jsval list" where
  "set_at i v xs =
     (if i < length xs then xs[i := v] else xs @ replicate (i - length xs) JUndef @ [v])"

lemma set_at_less [simp]: "i < length xs \<Longrightarrow> set_at i v xs = xs[i := v]"
  by (simp add: set_at_def)

lemma length_set_at: "length (set_at i v xs) = max (length xs) (Suc i)"
  by (simp add: set_at_def)

lemma set_at_nth: "set_at i v xs ! i = v"
  by (cases "i < length xs") (simp_all add: set_at_def nth_append)

end
