(* ===== verification/List_Editors.thy ===== *)
theory List_Editors
  imports Views
begin

text \<open>
  The editors of \<open>src/web/ui/src/pages/config/ListEditor.jsx\<close>: lists of strings, tables of keys
  and values, arrays of objects. Each is a view over the rows it was given; a change calls
  \<open>onChange\<close> (here \<open>on_change\<close>) with the whole new value.
\<close>

subsection \<open>StringListEditor\<close>

definition string_set :: "nat \<Rightarrow> jsval \<Rightarrow> jsval list \<Rightarrow> jsval list" where
  "string_set i v items = set_at i v items"

definition string_remove :: "nat \<Rightarrow> jsval list \<Rightarrow> jsval list" where
  "string_remove i items = drop_nth i items"

definition string_add :: "jsval list \<Rightarrow> jsval list" where
  "string_add items = items @ [JStr []]"

definition StringListEditor :: "jsval list \<Rightarrow> (jsval \<Rightarrow> 'e) \<Rightarrow> 'e dom" where
  "StringListEditor items on_change =
     Elem ''div'' [] []
       (map (\<lambda>(i, v).
           Elem ''div'' [] []
             [Input [(''value'', v)] [OnChange (\<lambda>s. on_change (JArr (string_set i (JStr s) items)))],
              Button [(''type'', JStr ''button'')] [OnClick (on_change (JArr (string_remove i items)))] []])
         (enumerate 0 items)
        @ [Button [(''type'', JStr ''button'')] [OnClick (on_change (JArr (string_add items)))] []])"

subsection \<open>KeyValueEditor\<close>

definition kv_set_row :: "nat \<Rightarrow> string \<Rightarrow> jsval \<Rightarrow> props \<Rightarrow> props" where
  "kv_set_row i key value rows = from_entries (rows[i := (key, value)])"

definition kv_remove_row :: "nat \<Rightarrow> props \<Rightarrow> props" where
  "kv_remove_row i rows = from_entries (drop_nth i rows)"

definition kv_add_row :: "props \<Rightarrow> props" where
  "kv_add_row rows = from_entries (rows @ [([], JStr [])])"

definition KeyValueEditor :: "jsval \<Rightarrow> (jsval \<Rightarrow> 'e) \<Rightarrow> 'e dom" where
  "KeyValueEditor entries on_change =
     (let rows = own_entries entries in
      Elem ''div'' [] []
        (map (\<lambda>(i, k, v).
            Elem ''div'' [] []
              [Input [(''value'', JStr k)] [OnChange (\<lambda>s. on_change (JObj (kv_set_row i s v rows)))],
               Input [(''value'', v)] [OnChange (\<lambda>s. on_change (JObj (kv_set_row i k (JStr s) rows)))],
               Button [(''type'', JStr ''button'')] [OnClick (on_change (JObj (kv_remove_row i rows)))] []])
          (enumerate 0 rows)
         @ [Button [(''type'', JStr ''button'')] [OnClick (on_change (JObj (kv_add_row rows)))] []]))"

subsection \<open>ObjectListEditor\<close>

record column =
  col_key :: string
  col_default :: jsval

definition object_set_field :: "nat \<Rightarrow> string \<Rightarrow> jsval \<Rightarrow> jsval list \<Rightarrow> jsval list" where
  "object_set_field i key value items =
     map_nth_with i (\<lambda>item. JObj (obj_put key value (spread [] item))) items"

definition object_remove :: "nat \<Rightarrow> jsval list \<Rightarrow> jsval list" where
  "object_remove i items = drop_nth i items"

definition blank_object :: "column list \<Rightarrow> jsval" where
  "blank_object columns =
     JObj (from_entries (map (\<lambda>c. (col_key c, js_coalesce (col_default c) (JStr []))) columns))"

definition object_add :: "column list \<Rightarrow> jsval list \<Rightarrow> jsval list" where
  "object_add columns items = items @ [blank_object columns]"

text \<open>
  One card per item, with a delete button for narrow and one for wide screens, and one input per
  column.
\<close>

definition ObjectListEditor :: "jsval list \<Rightarrow> (jsval \<Rightarrow> 'e) \<Rightarrow> column list \<Rightarrow> 'e dom" where
  "ObjectListEditor items on_change columns =
     Elem ''div'' [] []
       ((if items \<noteq> [] then [Elem ''div'' [] [] (map (\<lambda>c. Elem ''div'' [] [] []) columns)] else [])
        @ map (\<lambda>(i, item).
            Elem ''div'' [] []
              ([Elem ''div'' [] []
                  [Button [(''type'', JStr ''button'')] [OnClick (on_change (JArr (object_remove i items)))] []]]
               @ map (\<lambda>c.
                   Elem ''div'' [] []
                     [Elem ''label'' [] [] [],
                      Input [(''value'', js_coalesce (field item (col_key c)) (JStr []))]
                        [OnChange (\<lambda>s. on_change (JArr (object_set_field i (col_key c) (JStr s) items)))]])
                 columns
               @ [Button [(''type'', JStr ''button'')] [OnClick (on_change (JArr (object_remove i items)))] []]))
          (enumerate 0 items)
        @ [Button [(''type'', JStr ''button'')] [OnClick (on_change (JArr (object_add columns items)))] []])"

subsection \<open>The contract of a list editor\<close>

text \<open>
  What the owners of a list rely on: an edit changes the row it names and no other, a removal takes
  that row away and keeps the order of the rest, an addition appends one row.
\<close>

locale list_editor =
  fixes rows :: "'o \<Rightarrow> 'r list"
    and edit :: "nat \<Rightarrow> 'c \<Rightarrow> 'o \<Rightarrow> 'o"
    and change :: "'c \<Rightarrow> 'r \<Rightarrow> 'r"
    and remove :: "nat \<Rightarrow> 'o \<Rightarrow> 'o"
    and add :: "'o \<Rightarrow> 'o"
    and blank :: 'r
  assumes rows_edit: "i < length (rows s) \<Longrightarrow> rows (edit i c s) = (rows s)[i := change c (rows s ! i)]"
    and rows_remove: "rows (remove i s) = drop_nth i (rows s)"
    and rows_add: "rows (add s) = rows s @ [blank]"
begin

lemma edit_same: "i < length (rows s) \<Longrightarrow> rows (edit i c s) ! i = change c (rows s ! i)"
  by (simp add: rows_edit)

lemma edit_other: "i < length (rows s) \<Longrightarrow> j \<noteq> i \<Longrightarrow> rows (edit i c s) ! j = rows s ! j"
  by (simp add: rows_edit)

lemma length_edit: "i < length (rows s) \<Longrightarrow> length (rows (edit i c s)) = length (rows s)"
  by (simp add: rows_edit)

lemma edits_commute:
  "i < length (rows s) \<Longrightarrow> j < length (rows s) \<Longrightarrow> i \<noteq> j \<Longrightarrow>
     rows (edit i c (edit j d s)) = rows (edit j d (edit i c s))"
  by (simp add: rows_edit list_update_swap)

lemma add_remove: "rows (remove (length (rows s)) (add s)) = rows s"
  by (simp add: rows_remove rows_add drop_nth_eq)

lemma add_edit:
  "rows (edit (length (rows s)) c (add s)) = rows s @ [change c blank]"
  by (simp add: rows_edit rows_add)

lemma remove_edited: "i < length (rows s) \<Longrightarrow> rows (remove i (edit i c s)) = rows (remove i s)"
  by (simp add: rows_remove rows_edit drop_nth_eq)

lemma length_remove: "i < length (rows s) \<Longrightarrow> length (rows (remove i s)) = length (rows s) - 1"
  by (simp add: rows_remove length_drop_nth)

lemma remove_keeps_order: "rows (remove i s) = take i (rows s) @ drop (Suc i) (rows s)"
  by (simp add: rows_remove drop_nth_eq)

end

interpretation string_list: list_editor id string_set "\<lambda>v _. v" string_remove string_add "JStr []"
  by unfold_locales (simp_all add: string_set_def string_remove_def string_add_def)

text \<open>What the \<open>setField\<close> change does to an item.\<close>

definition put_field :: "string \<times> jsval \<Rightarrow> jsval \<Rightarrow> jsval" where
  "put_field kv item = JObj (obj_put (fst kv) (snd kv) (spread [] item))"

definition object_edit :: "nat \<Rightarrow> string \<times> jsval \<Rightarrow> jsval list \<Rightarrow> jsval list" where
  "object_edit i kv items = object_set_field i (fst kv) (snd kv) items"

interpretation object_list: list_editor id object_edit put_field object_remove
    "object_add columns" "blank_object columns" for columns
  by unfold_locales
    (simp_all add: object_edit_def object_set_field_def put_field_def map_nth_with_eq
      object_remove_def object_add_def)

subsection \<open>Objects rebuilt from their entries\<close>

lemma put_new_last: "\<forall>j \<in> fst ` set ps. key_before j k \<and> j \<noteq> k \<Longrightarrow> put_new k v ps = ps @ [(k, v)]"
  by (induction k v ps rule: put_new.induct) (auto simp: key_before_def split: if_splits)

lemma wf_props_snoc:
  "wf_props (ps @ [(k, v)]) \<longleftrightarrow> wf_props ps \<and> k \<notin> fst ` set ps \<and> (\<forall>j \<in> fst ` set ps. key_before j k)"
  by (auto simp: wf_props_def sorted_wrt_append)

lemma from_entries_wf: "wf_props kvs \<Longrightarrow> from_entries kvs = kvs"
proof (induction kvs rule: rev_induct)
  case Nil
  then show ?case by (simp add: from_entries_def)
next
  case (snoc kv kvs)
  obtain k v where kv: "kv = (k, v)" by force
  with snoc.prems have wf: "wf_props kvs" "k \<notin> fst ` set kvs" "\<forall>j \<in> fst ` set kvs. key_before j k"
    by (simp_all add: wf_props_snoc)
  then have "put_new k v kvs = kvs @ [(k, v)]" by (auto intro!: put_new_last)
  moreover have "from_entries (kvs @ [(k, v)]) = obj_put k v (from_entries kvs)"
    by (simp add: from_entries_def)
  ultimately show ?case using snoc.IH wf by (simp add: kv obj_put_def)
qed

lemma spread_Nil_wf: "wf_props ps \<Longrightarrow> spread [] (JObj ps) = ps"
  using from_entries_wf by (simp add: spread_def from_entries_def)

lemma wf_props_append:
  "wf_props (ps @ qs) \<longleftrightarrow>
     wf_props ps \<and> wf_props qs
     \<and> (\<forall>j \<in> fst ` set ps. \<forall>k \<in> fst ` set qs. j \<noteq> k \<and> key_before j k)"
  by (auto simp: wf_props_def sorted_wrt_append)

lemma wf_props_Cons: "wf_props (p # qs) \<Longrightarrow> wf_props qs"
  by (simp add: wf_props_def)

lemma wf_props_drop: "wf_props ps \<Longrightarrow> wf_props (drop_nth i ps)"
proof (cases "i < length ps")
  case True
  then have split: "ps = take i ps @ ps ! i # drop (Suc i) ps" by (rule id_take_nth_drop)
  assume "wf_props ps"
  then have "wf_props (take i ps @ ps ! i # drop (Suc i) ps)" using split by simp
  then show ?thesis by (auto simp: drop_nth_eq wf_props_append dest: wf_props_Cons)
next
  case False
  then show "wf_props ps \<Longrightarrow> ?thesis" by (simp add: drop_nth_oob)
qed

lemma wf_props_set_value:
  "wf_props ps \<Longrightarrow> i < length ps \<Longrightarrow> wf_props (ps[i := (fst (ps ! i), v)])"
proof -
  assume "wf_props ps" "i < length ps"
  moreover have "map fst (ps[i := (fst (ps ! i), v)]) = map fst ps"
    by (simp add: map_update) (metis list_update_id map_update)
  ultimately show ?thesis by (simp add: wf_props_def)
qed

subsection \<open>The table of keys and values\<close>

text \<open>Changing a value and removing a row keep the table's other rows and their order.\<close>

lemma kv_set_value:
  "wf_props rows \<Longrightarrow> i < length rows \<Longrightarrow>
     kv_set_row i (fst (rows ! i)) v rows = rows[i := (fst (rows ! i), v)]"
  by (simp add: kv_set_row_def from_entries_wf wf_props_set_value)

lemma kv_remove: "wf_props rows \<Longrightarrow> kv_remove_row i rows = drop_nth i rows"
  by (simp add: kv_remove_row_def from_entries_wf wf_props_drop)

lemma wf_kv_set_row: "wf_props (kv_set_row i k v rows)"
  by (simp add: kv_set_row_def wf_from_entries)

lemma map_of_rev_replaced:
  assumes "distinct (map fst (a @ (x, w) # b))"
  shows "map_of (rev (a @ (k, v) # b)) =
     ((map_of (a @ (x, w) # b))(x := None))(k \<mapsto> (case map_of b k of Some u \<Rightarrow> u | None \<Rightarrow> v))"
proof -
  have da: "map_of (rev a) = map_of a" "map_of (rev b) = map_of b"
    using assms by (auto intro!: map_of_rev_distinct)
  have nx: "map_of a x = None" "map_of b x = None"
    using assms by (auto simp: map_of_eq_None_iff)
  have dis: "map_of a j = None \<or> map_of b j = None" for j
    using assms by (auto simp: map_of_eq_None_iff)
  have "rev (a @ (k, v) # b) = rev b @ (k, v) # rev a" by simp
  then have l: "map_of (rev (a @ (k, v) # b)) = (map_of a)(k \<mapsto> v) ++ map_of b"
    by (simp only: map_of_append da map_of.simps fst_conv snd_conv)
  have m: "map_of (a @ (x, w) # b) = (map_of b)(x \<mapsto> w) ++ map_of a"
    by (simp only: map_of_append map_of.simps fst_conv snd_conv)
  show ?thesis
  proof (rule ext)
    fix j
    show "map_of (rev (a @ (k, v) # b)) j =
       (((map_of (a @ (x, w) # b))(x := None))(k \<mapsto> (case map_of b k of Some u \<Rightarrow> u | None \<Rightarrow> v))) j"
      unfolding l m using nx dis [of j]
      by (cases "j = k"; cases "j = x") (auto simp: map_add_def split: option.splits)
  qed
qed

lemma map_of_rev_update:
  assumes "distinct (map fst rows)" "i < length rows"
  shows "map_of (rev (rows[i := (k, v)])) =
     ((map_of rows)(fst (rows ! i) := None))(k \<mapsto>
        (case map_of (drop (Suc i) rows) k of Some w \<Rightarrow> w | None \<Rightarrow> v))"
proof -
  obtain x w where xw: "rows ! i = (x, w)" by force
  have split: "take i rows @ (x, w) # drop (Suc i) rows = rows"
    using id_take_nth_drop [OF assms(2)] xw by simp
  have "rows[i := (k, v)] = take i rows @ (k, v) # drop (Suc i) rows"
    using assms(2) by (simp add: upd_conv_take_nth_drop)
  with map_of_rev_replaced [of "take i rows" x w "drop (Suc i) rows" k v] split assms(1) xw
  show ?thesis by simp
qed

lemma length_wf: "wf_props ps \<Longrightarrow> length ps = card (fst ` set ps)"
  using distinct_card [of "map fst ps"] by (simp add: wf_props_def)

lemma keys_from_entries: "fst ` set (from_entries kvs) = fst ` set kvs"
proof -
  have "dom (map_of (from_entries kvs)) = dom (map_of (rev kvs))" by (simp add: map_of_from_entries)
  then show ?thesis by (simp add: dom_map_of_conv_image_fst)
qed

lemma keys_update:
  "i < length rows \<Longrightarrow> fst ` set (rows[i := (k, v)]) = insert k (fst ` set (drop_nth i rows))"
  by (simp add: upd_conv_take_nth_drop drop_nth_eq image_Un)

lemma length_kv_set_row:
  assumes "wf_props rows" "i < length rows"
  shows "length (kv_set_row i k v rows) =
    (if k \<in> fst ` set (drop_nth i rows) then length rows - 1 else length rows)"
proof -
  have d: "length (drop_nth i rows) = card (fst ` set (drop_nth i rows))"
    by (rule length_wf [OF wf_props_drop [OF assms(1)]])
  have "length (kv_set_row i k v rows) = card (insert k (fst ` set (drop_nth i rows)))"
    unfolding length_wf [OF wf_kv_set_row] by (simp add: kv_set_row_def keys_from_entries keys_update assms(2))
  also have "\<dots> = (if k \<in> fst ` set (drop_nth i rows) then length (drop_nth i rows)
      else Suc (length (drop_nth i rows)))"
    by (simp add: d card_insert_if)
  also have "\<dots> = (if k \<in> fst ` set (drop_nth i rows) then length rows - 1 else length rows)"
    using assms(2) by (auto simp: length_drop_nth)
  finally show ?thesis .
qed

subsection \<open>Properties of the editors\<close>

text \<open>
  In the table of keys and values, typing a value changes the value of its row only, and
  deleting a row removes that row only: the rebuilt object has the other rows unchanged and in
  their order.
\<close>

theorem table_value_edits_in_place:
  assumes "wf_props rows" and "i < length rows"
  shows "kv_set_row i (fst (rows ! i)) v rows = rows[i := (fst (rows ! i), v)]
    \<and> kv_remove_row i rows = take i rows @ drop (Suc i) rows"
  using assms by (simp add: kv_set_value kv_remove drop_nth_eq)

theorem table_value_edits_in_place_witness:
  "kv_set_row 1 ''nas.local'' (JStr ''10.0.0.2'') [(''7'', JStr ''10.0.0.7''), (''nas.local'', JStr [])]
     = [(''7'', JStr ''10.0.0.7''), (''nas.local'', JStr ''10.0.0.2'')]"
proof -
  have "wf_props [(''7'', JStr ''10.0.0.7''), (''nas.local'', JStr [])]"
    by (simp add: wf_props_def key_before_def is_index_def is_digit_def)
  from table_value_edits_in_place [OF this, of 1] show ?thesis by simp
qed

text \<open>
  Typing a key: the old key is gone, the other keys read as before, and the typed key reads the
  row's value. But when another row has the typed key already, the two rows become one: the table
  has one row less, and the value of the lower of the two is the one kept. So a key that equals
  another row's key while it is being typed loses a row.
\<close>

theorem table_key_edit:
  assumes "wf_props rows" and "i < length rows"
  shows "map_of (kv_set_row i k v rows) =
      ((map_of rows)(fst (rows ! i) := None))(k \<mapsto>
         (case map_of (drop (Suc i) rows) k of Some w \<Rightarrow> w | None \<Rightarrow> v))
    \<and> length (kv_set_row i k v rows) =
      (if k \<in> fst ` set (drop_nth i rows) then length rows - 1 else length rows)
    \<and> wf_props (kv_set_row i k v rows)"
  using assms map_of_rev_update [of rows i k v] length_kv_set_row [of rows i k v]
  by (simp add: wf_from_entries kv_set_row_def map_of_from_entries wf_props_def [of rows])

theorem table_key_edit_witness:
  "map_of (kv_set_row 0 ''nas'' (JStr ''10.0.0.9'')
       [(''na'', JStr ''10.0.0.9''), (''nas'', JStr ''10.0.0.2'')]) ''nas'' = Some (JStr ''10.0.0.2'')
   \<and> length (kv_set_row 0 ''nas'' (JStr ''10.0.0.9'')
       [(''na'', JStr ''10.0.0.9''), (''nas'', JStr ''10.0.0.2'')]) = 1"
proof -
  have "wf_props [(''na'', JStr ''10.0.0.9''), (''nas'', JStr ''10.0.0.2'')]"
    by (simp add: wf_props_def key_before_def is_index_def is_digit_def)
  from table_key_edit [OF this, of 0 "''nas''" "JStr ''10.0.0.9''"]
  show ?thesis by (simp add: drop_nth_eq)
qed

text \<open>
  The add button appends one blank row while the table has none. With a blank key in the table
  already, a second press adds no row and empties the value typed for the blank key.
\<close>

theorem table_blank_row:
  assumes "wf_props rows"
  shows "([] \<notin> fst ` set rows \<longrightarrow> kv_add_row rows = rows @ [([], JStr [])])
    \<and> ([] \<in> fst ` set rows \<longrightarrow>
        map fst (kv_add_row rows) = map fst rows \<and> map_of (kv_add_row rows) = (map_of rows)([] \<mapsto> JStr []))"
proof -
  have "kv_add_row rows = obj_put [] (JStr []) (from_entries rows)"
    by (simp add: kv_add_row_def from_entries_def)
  then have "kv_add_row rows = obj_put [] (JStr []) rows" using from_entries_wf [OF assms] by simp
  then show ?thesis
    using obj_put_append [of "[]" rows] fst_obj_put_existing [of "[]" rows] by (simp add: is_index_def)
qed

theorem table_blank_row_witness:
  "map_of (kv_add_row [([], JStr ''10.0.0.5'')]) [] = Some (JStr [])"
proof -
  have "wf_props [([], JStr ''10.0.0.5'')]" by (simp add: wf_props_def)
  from table_blank_row [OF this] show ?thesis by simp
qed

text \<open>
  In a list of objects, typing into a cell changes that field of that item and nothing else:
  every other field of the item and every other item reads as before, the number of items stays,
  and an item added and deleted at once leaves the list as it was.
\<close>

theorem object_cell_edit:
  assumes "i < length items" and "items ! i = JObj ps" and "wf_props ps"
  shows "object_set_field i k v items ! i = JObj (obj_put k v ps)
    \<and> map_of (obj_put k v ps) = (map_of ps)(k \<mapsto> v)
    \<and> (\<forall>j. j \<noteq> i \<longrightarrow> object_set_field i k v items ! j = items ! j)
    \<and> length (object_set_field i k v items) = length items
    \<and> object_remove (length items) (object_add columns items) = items"
  using object_list.edit_same [where s = items and c = "(k, v)"]
    object_list.edit_other [where s = items and c = "(k, v)"]
    object_list.length_edit [where s = items and c = "(k, v)"]
    object_list.add_remove [where s = items] assms
  by (simp add: object_edit_def put_field_def spread_Nil_wf)

theorem object_cell_edit_witness:
  "object_set_field 0 ''ip'' (JStr ''192.168.1.10'')
      [JObj [(''mac'', JStr ''aa:bb:cc:dd:ee:ff''), (''ip'', JStr [])], JNull] ! 0
    = JObj [(''mac'', JStr ''aa:bb:cc:dd:ee:ff''), (''ip'', JStr ''192.168.1.10'')]"
proof -
  have "wf_props [(''mac'', JStr ''aa:bb:cc:dd:ee:ff''), (''ip'', JStr [])]"
    by (simp add: wf_props_def key_before_def is_index_def is_digit_def)
  from object_cell_edit [OF _ _ this, of 0 "[JObj [(''mac'', JStr ''aa:bb:cc:dd:ee:ff''), (''ip'', JStr [])], JNull]"]
  show ?thesis by (simp add: obj_put_def)
qed

subsection \<open>What the editors can call\<close>

text \<open>Every change an editor reports is an array (an object, for the table).\<close>

lemma StringListEditor_all [view_simps]:
  "(\<And>xs. P (f (JArr xs))) \<Longrightarrow> dom_all P (StringListEditor items f)"
  by (auto simp: StringListEditor_def view_simps)

lemma KeyValueEditor_all [view_simps]:
  "(\<And>ps. wf_props ps \<Longrightarrow> P (f (JObj ps))) \<Longrightarrow> dom_all P (KeyValueEditor entries f)"
  by (auto simp: KeyValueEditor_def view_simps Let_def kv_remove_row_def kv_add_row_def wf_from_entries
      wf_kv_set_row)

lemma ObjectListEditor_all [view_simps]:
  "(\<And>xs. P (f (JArr xs))) \<Longrightarrow> dom_all P (ObjectListEditor items f columns)"
  by (auto simp: ObjectListEditor_def view_simps)

end
