(* ===== verification/Upstreams.thy ===== *)
theory Upstreams
  imports Config_Store List_Editors
begin

text \<open>
  The page of DNS rules and rule sets, \<open>src/web/ui/src/pages/config/UpstreamsTab.jsx\<close>. It edits a view
  of the configuration: a catalogue of named rule set files and an ordered list of rules, each with
  its own upstream servers. \<open>from_backend\<close> computes the view from the configuration,
  \<open>commit_to_config\<close> writes it back as one upstream group per rule and one \<open>rulesets\<close> entry per
  rule and file. Against both stands the routing of the backend (\<open>src/src/dns/router.rs\<close>): the
  first entry whose file contains the domain decides the group.

  The backend's serializer gives strings for \<open>path\<close> and \<open>upstream\<close> and arrays for \<open>servers\<close>; the
  readers below stand for \<open>x || ''\<close> and \<open>x || []\<close> on such data.
\<close>

subsection \<open>Data\<close>

record catalog_entry =
  ce_name :: string
  ce_path :: string

record dns_rule =
  r_rulesets :: "string list"
  r_servers :: "jsval list"
  r_strategy :: jsval
  r_insecure :: bool
  r_subnet :: jsval

definition string_or_empty :: "jsval \<Rightarrow> string" where
  "string_or_empty v = (case v of JStr s \<Rightarrow> s | _ \<Rightarrow> [])"

definition items_or_empty :: "jsval \<Rightarrow> jsval list" where
  "items_or_empty v = (case v of JArr xs \<Rightarrow> xs | _ \<Rightarrow> [])"

definition empty_rule :: dns_rule where
  "empty_rule =
     \<lparr>r_rulesets = [], r_servers = [], r_strategy = JStr ''round_robin'', r_insecure = False,
      r_subnet = JNull\<rparr>"

subsection \<open>Names of rule sets\<close>

text \<open>
  \<open>basenameNoExt\<close>: what follows the last slash or backslash, without a final \<open>.drs\<close> in any case, and
  with it when nothing else is left.
\<close>

definition last_segment :: "string \<Rightarrow> string" where
  "last_segment p = rev (takeWhile (\<lambda>c. c \<noteq> CHR ''/'' \<and> c \<noteq> CHR 0x5C) (rev p))"

definition strip_drs :: "string \<Rightarrow> string" where
  "strip_drs s =
     (if 4 \<le> length s \<and> map ascii_lower (drop (length s - 4) s) = ''.drs''
      then take (length s - 4) s else s)"

definition basename_no_ext :: "string \<Rightarrow> string" where
  "basename_no_ext p =
     (if p = [] then []
      else let base = last_segment p; bare = strip_drs base in if bare \<noteq> [] then bare else base)"

text \<open>
  The loops \<open>while (used.has(`${base}-${i}`)) i += 1\<close>: the first index from \<open>i\<close> on whose name is not
  in use.
\<close>

definition numbered :: "string \<Rightarrow> string \<Rightarrow> nat \<Rightarrow> string" where
  "numbered sep base i = base @ sep @ nat_str i"

lemma numbered_inj [simp]: "numbered sep base i = numbered sep base j \<longleftrightarrow> i = j"
  by (metis numbered_def nat_str_str_nat str_nat_nat_str same_append_eq)

function find_free :: "string \<Rightarrow> string \<Rightarrow> string list \<Rightarrow> nat \<Rightarrow> nat" where
  "find_free sep base used i =
     (if numbered sep base i \<in> set used then find_free sep base used (Suc i) else i)"
  by pat_completeness auto

definition taken_from :: "string \<Rightarrow> string \<Rightarrow> string list \<Rightarrow> nat \<Rightarrow> string set" where
  "taken_from sep base used i = {w \<in> set used. \<exists>j \<ge> i. w = numbered sep base j}"

lemma taken_from_Suc:
  "numbered sep base i \<in> set used \<Longrightarrow>
     taken_from sep base used (Suc i) \<subset> taken_from sep base used i"
proof (rule psubsetI)
  show "taken_from sep base used (Suc i) \<subseteq> taken_from sep base used i"
    by (auto simp: taken_from_def Suc_le_eq)
  assume "numbered sep base i \<in> set used"
  then have "numbered sep base i \<in> taken_from sep base used i" by (auto simp: taken_from_def)
  moreover have "numbered sep base i \<notin> taken_from sep base used (Suc i)"
    by (auto simp: taken_from_def)
  ultimately show "taken_from sep base used (Suc i) \<noteq> taken_from sep base used i" by blast
qed

termination find_free
proof (relation "measure (\<lambda>(sep, base, used, i). card (taken_from sep base used i))", goal_cases)
  case 1
  show ?case by simp
next
  case (2 sep base used i)
  have "finite (taken_from sep base used i)" by (simp add: taken_from_def)
  then show ?case using psubset_card_mono taken_from_Suc [OF 2] by auto
qed

declare find_free.simps [simp del]

subsection \<open>fromBackend\<close>

text \<open>
  The variables of the loop: the two \<open>Map\<close>s, and the rules with the \<open>_upstream\<close> each carries.
\<close>

record boot_state =
  bs_catalog :: "(string \<times> string) list"
  bs_names :: "(string \<times> string) list"
  bs_rules :: "(string \<times> dns_rule) list"

text \<open>
  The name of a path: the one it has, or a new one. An absent or empty name counts as none
  (\<open>undefined\<close> is represented by the empty name, which every later test treats alike).
\<close>

definition register_path ::
  "string \<Rightarrow> boot_state \<Rightarrow> string \<times> boot_state" where
  "register_path path b =
     (let known = (case map_of (bs_names b) path of Some n \<Rightarrow> n | None \<Rightarrow> []) in
      if known = [] \<and> path \<noteq> [] then
        (let base = basename_no_ext path;
             cat = bs_catalog b;
             name = (if map_has cat base \<and> map_of cat base \<noteq> Some path
                     then numbered ''_'' base (find_free ''_'' base (map fst cat) 2) else base)
         in (name, b\<lparr>bs_catalog := map_set name path cat, bs_names := map_set path name (bs_names b)\<rparr>))
      else (known, b))"

definition rule_of_group :: "string \<Rightarrow> jsval \<Rightarrow> dns_rule" where
  "rule_of_group name g =
     \<lparr>r_rulesets = (if name \<noteq> [] then [name] else []),
      r_servers = items_or_empty (field g ''servers''),
      r_strategy = js_or (field g ''strategy'') (JStr ''round_robin''),
      r_insecure = truthy (field g ''insecure''),
      r_subnet = js_coalesce (field g ''client-subnet'') JNull\<rparr>"

definition add_ruleset :: "string \<Rightarrow> dns_rule \<Rightarrow> dns_rule" where
  "add_ruleset name r =
     (if name \<noteq> [] \<and> name \<notin> set (r_rulesets r) then r\<lparr>r_rulesets := r_rulesets r @ [name]\<rparr> else r)"

definition from_entry :: "jsval \<Rightarrow> jsval \<Rightarrow> boot_state \<Rightarrow> boot_state" where
  "from_entry groups entry b =
     (let path = string_or_empty (field entry ''path'');
          upstream = string_or_empty (field entry ''upstream'');
          (name, b') = register_path path b;
          g = js_or (field groups upstream) (JObj []);
          rules = bs_rules b'
      in if rules \<noteq> [] \<and> fst (last rules) = upstream
         then b'\<lparr>bs_rules := butlast rules @ [(upstream, add_ruleset name (snd (last rules)))]\<rparr>
         else b'\<lparr>bs_rules := rules @ [(upstream, rule_of_group name g)]\<rparr>)"

definition config_groups :: "jsval \<Rightarrow> jsval" where
  "config_groups config = js_or (field config ''groups'') (JObj [])"

definition config_rulesets :: "jsval \<Rightarrow> jsval list" where
  "config_rulesets config = items_or_empty (field config ''rulesets'')"

definition from_backend :: "jsval \<Rightarrow> catalog_entry list \<times> dns_rule list" where
  "from_backend config =
     (let b = fold (from_entry (config_groups config)) (config_rulesets config)
                \<lparr>bs_catalog = [], bs_names = [], bs_rules = []\<rparr>
      in (map (\<lambda>(name, path). \<lparr>ce_name = name, ce_path = path\<rparr>) (bs_catalog b), map snd (bs_rules b)))"

subsection \<open>commitToConfig\<close>

definition rule_label :: "nat \<Rightarrow> string" where
  "rule_label index = ''rule-'' @ nat_str (index + 1)"

text \<open>\<open>groupNameForRule\<close>: the name, and the set of used names with it.\<close>

definition group_name_for_rule ::
  "dns_rule \<Rightarrow> nat \<Rightarrow> string list \<Rightarrow> string \<times> string list" where
  "group_name_for_rule r index used =
     (let first = (case r_rulesets r of n # _ \<Rightarrow> js_trim n | [] \<Rightarrow> []);
          base = (if first \<noteq> [] then first else rule_label index);
          name = (if base = ''default'' then rule_label index else base)
      in if name \<notin> set used then (name, used @ [name])
         else let final = numbered ''-'' base (find_free ''-'' base used 2) in (final, used @ [final]))"

definition group_of_rule :: "dns_rule \<Rightarrow> jsval" where
  "group_of_rule r =
     JObj [(''servers'', JArr (r_servers r)),
           (''strategy'', js_or (r_strategy r) (JStr ''round_robin'')),
           (''insecure'', JBool (r_insecure r)),
           (''client-subnet'', js_or (r_subnet r) JNull)]"

definition path_table :: "catalog_entry list \<Rightarrow> props" where
  "path_table catalog = from_entries (map (\<lambda>c. (ce_name c, JStr (ce_path c))) catalog)"

definition ruleset_entries :: "props \<Rightarrow> string \<Rightarrow> string list \<Rightarrow> jsval list" where
  "ruleset_entries path_of gname names =
     concat (map (\<lambda>n. if truthy (obj_read path_of n)
                     then [JObj [(''path'', obj_read path_of n), (''upstream'', JStr gname)]] else []) names)"

text \<open>The \<open>forEach\<close>: the groups, the rule set entries and the used names are its accumulators.\<close>

fun commit_rules ::
  "props \<Rightarrow> nat \<Rightarrow> dns_rule list \<Rightarrow> string list \<Rightarrow> props \<Rightarrow> jsval list \<Rightarrow> props \<times> jsval list" where
  "commit_rules path_of index [] used groups sets = (groups, sets)"
| "commit_rules path_of index (r # rs) used groups sets =
     (let (gname, used') = group_name_for_rule r index used
      in commit_rules path_of (Suc index) rs used'
           (obj_assign gname (group_of_rule r) groups)
           (sets @ ruleset_entries path_of gname (r_rulesets r)))"

definition default_group_of :: "jsval \<Rightarrow> jsval" where
  "default_group_of groups =
     js_or (field groups ''default'')
       (JObj [(''servers'', JArr []), (''strategy'', JStr ''round_robin''), (''insecure'', JBool False),
              (''client-subnet'', JNull)])"

definition committed :: "jsval \<Rightarrow> catalog_entry list \<Rightarrow> dns_rule list \<Rightarrow> props \<times> jsval list" where
  "committed config catalog rules =
     commit_rules (path_table catalog) 0 rules [''default'']
       [(''default'', default_group_of (JObj (spread [] (config_groups config))))] []"

definition commit_to_config :: "jsval \<Rightarrow> catalog_entry list \<Rightarrow> dns_rule list \<Rightarrow> caction list" where
  "commit_to_config config catalog rules =
     (let (groups, sets) = committed config catalog rules
      in [ASection ''groups'' (JObj groups), ASection ''rulesets'' (JArr sets)])"

subsection \<open>The page\<close>

text \<open>
  The state of \<open>UpstreamsTab\<close>. Its operations return the new state and the changes they make to
  the store; \<open>config\<close> is the configuration of the render the handler belongs to.
\<close>

record upage =
  up_catalog :: "catalog_entry list"
  up_rules :: "dns_rule list"
  up_new_name :: string
  up_new_path :: string

type_synonym uresult = "upage \<times> caction list"

definition boot_page :: "jsval \<Rightarrow> upage" where
  "boot_page config =
     (let (catalog, rules) = from_backend config
      in \<lparr>up_catalog = catalog, up_rules = rules, up_new_name = [], up_new_path = []\<rparr>)"

text \<open>The effect on \<open>dirty\<close>: the view is computed anew when the store turns clean.\<close>

definition dirty_effect :: "bool \<Rightarrow> bool \<Rightarrow> jsval \<Rightarrow> upage \<Rightarrow> upage" where
  "dirty_effect prev_dirty dirty config s =
     (if prev_dirty \<and> \<not> dirty
      then (let (catalog, rules) = from_backend config
            in s\<lparr>up_catalog := catalog, up_rules := rules\<rparr>)
      else s)"

definition commit :: "jsval \<Rightarrow> catalog_entry list \<Rightarrow> dns_rule list \<Rightarrow> upage \<Rightarrow> uresult" where
  "commit config next_catalog next_rules s =
     (s\<lparr>up_catalog := next_catalog, up_rules := next_rules\<rparr>,
      commit_to_config config next_catalog next_rules)"

definition add_catalog_entry :: "jsval \<Rightarrow> upage \<Rightarrow> uresult" where
  "add_catalog_entry config s =
     (let name = js_trim (up_new_name s); path = js_trim (up_new_path s) in
      if name = [] \<or> path = [] then (s, [])
      else if list_ex (\<lambda>c. ce_name c = name) (up_catalog s) then (s, [])
      else (let (s', as) = commit config (up_catalog s @ [\<lparr>ce_name = name, ce_path = path\<rparr>]) (up_rules s) s
            in (s'\<lparr>up_new_name := [], up_new_path := []\<rparr>, as)))"

datatype entry_patch = PatchName string | PatchPath string

fun patch_entry :: "entry_patch \<Rightarrow> catalog_entry \<Rightarrow> catalog_entry" where
  "patch_entry (PatchName n) c = c\<lparr>ce_name := n\<rparr>"
| "patch_entry (PatchPath p) c = c\<lparr>ce_path := p\<rparr>"

definition rename_ruleset :: "string \<Rightarrow> string \<Rightarrow> dns_rule \<Rightarrow> dns_rule" where
  "rename_ruleset old new r = r\<lparr>r_rulesets := map (\<lambda>n. if n = old then new else n) (r_rulesets r)\<rparr>"

text \<open>\<open>i\<close> is the index of a row on the screen.\<close>

definition update_catalog_entry :: "jsval \<Rightarrow> nat \<Rightarrow> entry_patch \<Rightarrow> upage \<Rightarrow> uresult" where
  "update_catalog_entry config i patch s =
     (let next_catalog = map_nth_with i (patch_entry patch) (up_catalog s);
          old = ce_name (up_catalog s ! i);
          next_rules = (case patch of
              PatchName n \<Rightarrow> if n \<noteq> [] \<and> n \<noteq> old then map (rename_ruleset old n) (up_rules s) else up_rules s
            | PatchPath p \<Rightarrow> up_rules s)
      in commit config next_catalog next_rules s)"

definition forget_ruleset :: "string \<Rightarrow> dns_rule \<Rightarrow> dns_rule" where
  "forget_ruleset name r = r\<lparr>r_rulesets := filter (\<lambda>n. n \<noteq> name) (r_rulesets r)\<rparr>"

definition remove_catalog_entry :: "jsval \<Rightarrow> nat \<Rightarrow> upage \<Rightarrow> uresult" where
  "remove_catalog_entry config i s =
     commit config (drop_nth i (up_catalog s))
       (map (forget_ruleset (ce_name (up_catalog s ! i))) (up_rules s)) s"

definition add_rule :: "jsval \<Rightarrow> upage \<Rightarrow> uresult" where
  "add_rule config s = commit config (up_catalog s) (up_rules s @ [empty_rule]) s"

datatype rule_patch =
    PatchRulesets "string list"
  | PatchServers "jsval list"
  | PatchStrategy jsval
  | PatchInsecure bool
  | PatchSubnet jsval

fun patch_rule :: "rule_patch \<Rightarrow> dns_rule \<Rightarrow> dns_rule" where
  "patch_rule (PatchRulesets ns) r = r\<lparr>r_rulesets := ns\<rparr>"
| "patch_rule (PatchServers xs) r = r\<lparr>r_servers := xs\<rparr>"
| "patch_rule (PatchStrategy v) r = r\<lparr>r_strategy := v\<rparr>"
| "patch_rule (PatchInsecure b) r = r\<lparr>r_insecure := b\<rparr>"
| "patch_rule (PatchSubnet v) r = r\<lparr>r_subnet := v\<rparr>"

definition update_rule :: "jsval \<Rightarrow> nat \<Rightarrow> rule_patch \<Rightarrow> upage \<Rightarrow> uresult" where
  "update_rule config i patch s =
     commit config (up_catalog s) (map_nth_with i (patch_rule patch) (up_rules s)) s"

definition remove_rule :: "jsval \<Rightarrow> nat \<Rightarrow> upage \<Rightarrow> uresult" where
  "remove_rule config i s = commit config (up_catalog s) (drop_nth i (up_rules s)) s"

definition move_rule :: "jsval \<Rightarrow> nat \<Rightarrow> int \<Rightarrow> upage \<Rightarrow> uresult" where
  "move_rule config i dir s =
     (let j = int i + dir; rules = up_rules s in
      if j < 0 \<or> int (length rules) \<le> j then (s, [])
      else commit config (up_catalog s) (rules[i := rules ! nat j, nat j := rules ! i]) s)"

text \<open>The check box of a rule set: \<open>new Set(rule.rulesets)\<close>, \<open>delete\<close> or \<open>add\<close>, \<open>Array.from\<close>.\<close>

definition js_set_of :: "string list \<Rightarrow> string list" where
  "js_set_of xs = rev (remdups (rev xs))"

definition toggle_ruleset :: "string \<Rightarrow> dns_rule \<Rightarrow> string list" where
  "toggle_ruleset name r =
     (let s = js_set_of (r_rulesets r) in
      if name \<in> set (r_rulesets r) then filter (\<lambda>n. n \<noteq> name) s
      else if name \<in> set s then s else s @ [name])"

subsection \<open>Events and the view\<close>

text \<open>What the controls do, \<open>i\<close> the index of the row or card of the control.\<close>

datatype uevent =
    TypeName string
  | TypePath string
  | AddEntry
  | UpdateEntry nat entry_patch
  | RemoveEntry nat
  | AddRule
  | UpdateRule nat rule_patch
  | RemoveRule nat
  | MoveRule nat int

fun upage_handle :: "jsval \<Rightarrow> uevent \<Rightarrow> upage \<Rightarrow> uresult" where
  "upage_handle config (TypeName v) s = (s\<lparr>up_new_name := v\<rparr>, [])"
| "upage_handle config (TypePath v) s = (s\<lparr>up_new_path := v\<rparr>, [])"
| "upage_handle config AddEntry s = add_catalog_entry config s"
| "upage_handle config (UpdateEntry i patch) s = update_catalog_entry config i patch s"
| "upage_handle config (RemoveEntry i) s = remove_catalog_entry config i s"
| "upage_handle config AddRule s = add_rule config s"
| "upage_handle config (UpdateRule i patch) s = update_rule config i patch s"
| "upage_handle config (RemoveRule i) s = remove_rule config i s"
| "upage_handle config (MoveRule i dir) s = move_rule config i dir s"

definition button_attrs :: "bool \<Rightarrow> (string \<times> jsval) list" where
  "button_attrs off = [(''type'', JStr ''button''), (''disabled'', JBool off)]"

definition catalog_row :: "nat \<Rightarrow> catalog_entry \<Rightarrow> uevent dom" where
  "catalog_row i c =
     Elem ''div'' [] []
       [Elem ''div'' [] []
          [Elem ''label'' [] [] [],
           Input [(''value'', JStr (ce_name c))] [OnChange (\<lambda>v. UpdateEntry i (PatchName v))]],
        Elem ''div'' [] []
          [Elem ''label'' [] [] [],
           Input [(''value'', JStr (ce_path c))] [OnChange (\<lambda>v. UpdateEntry i (PatchPath v))]],
        Button [(''type'', JStr ''button'')] [OnClick (RemoveEntry i)] []]"

definition catalog_section :: "upage \<Rightarrow> uevent dom" where
  "catalog_section s =
     Elem ''section'' [] []
       [SectionTitle [] [],
        Elem ''div'' [] []
          (map (\<lambda>(i, c). catalog_row i c) (enumerate 0 (up_catalog s))
           @ (if up_catalog s = [] then [Elem ''p'' [] [] []] else [])),
        Elem ''div'' [] []
          [Input [(''value'', JStr (up_new_name s))] [OnChange TypeName],
           Input [(''value'', JStr (up_new_path s))] [OnChange TypePath],
           Button [(''type'', JStr ''button'')] [OnClick AddEntry] []]]"

text \<open>The position of a card and its arrows; shown once for narrow and once for wide screens.\<close>

definition rule_arrows :: "nat \<Rightarrow> nat \<Rightarrow> uevent dom list" where
  "rule_arrows n i =
     [Elem ''span'' [] [] [Text (nat_str (i + 1))],
      Elem ''button'' (button_attrs (i = 0)) [OnClick (MoveRule i (- 1))] [],
      Elem ''button'' (button_attrs (int i = int n - 1)) [OnClick (MoveRule i 1)] []]"

definition ruleset_box :: "nat \<Rightarrow> dns_rule \<Rightarrow> string \<Rightarrow> uevent dom" where
  "ruleset_box i r name =
     (let checked = name \<in> set (r_rulesets r) in
      Elem ''label''
        [(''className'', JStr (if checked then ''border-brand-500 bg-brand-50 text-brand-700''
                              else ''border-slate-200 bg-white text-slate-600 hover:border-slate-300''))] []
        [Elem ''input'' [(''type'', JStr ''checkbox''), (''checked'', JBool checked)]
           [OnChange (\<lambda>_. UpdateRule i (PatchRulesets (toggle_ruleset name r)))] [],
         Text name])"

definition rule_card :: "catalog_entry list \<Rightarrow> nat \<Rightarrow> nat \<Rightarrow> dns_rule \<Rightarrow> uevent dom" where
  "rule_card catalog n i r =
     Card
       [Elem ''div'' [] []
          [Elem ''div'' [] [] (rule_arrows n i),
           Button [(''type'', JStr ''button'')] [OnClick (RemoveRule i)] []],
        Elem ''div'' [] []
          [Elem ''div'' [] [] (rule_arrows n i),
           Elem ''div'' [] []
             [Elem ''div'' [] []
                (if catalog = [] then [Elem ''p'' [] [] []]
                 else [Elem ''div'' [] [] (map (\<lambda>c. ruleset_box i r (ce_name c)) catalog)]),
              Select [(''value'', js_or (r_strategy r) (JStr ''round_robin''))]
                [OnChange (\<lambda>v. UpdateRule i (PatchStrategy (JStr v)))]
                (map Option [''random'', ''round_robin'', ''fastest'']),
              Input [(''value'', js_or (r_subnet r) (JStr []))]
                [OnChange (\<lambda>v. UpdateRule i (PatchSubnet (js_or (JStr v) JNull)))],
              Toggle (JBool (r_insecure r)) (\<lambda>v. UpdateRule i (PatchInsecure (truthy v))),
              StringListEditor (r_servers r) (\<lambda>v. UpdateRule i (PatchServers (items_or_empty v)))],
           Button [(''type'', JStr ''button'')] [OnClick (RemoveRule i)] []]]"

definition rules_section :: "upage \<Rightarrow> uevent dom" where
  "rules_section s =
     Elem ''section'' [] []
       [SectionTitle [] [Button (button_attrs (up_catalog s = [])) [OnClick AddRule] []],
        Elem ''div'' [] []
          (map (\<lambda>(i, r). rule_card (up_catalog s) (length (up_rules s)) i r) (enumerate 0 (up_rules s))
           @ (if up_rules s = [] then [Elem ''p'' [] [] []] else []))]"

definition upstreams_view :: "upage \<Rightarrow> uevent dom" where
  "upstreams_view s = Elem ''div'' [] [] [catalog_section s, rules_section s]"

subsection \<open>The lists of the page\<close>

text \<open>The rules are edited by position under the same contract as the list editors.\<close>

interpretation rule_list: list_editor up_rules
    "\<lambda>i patch s. fst (update_rule config i patch s)" patch_rule
    "\<lambda>i s. fst (remove_rule config i s)" "\<lambda>s. fst (add_rule config s)" empty_rule for config
  by unfold_locales
    (simp_all add: update_rule_def remove_rule_def add_rule_def commit_def map_nth_with_eq)

end
