(* ===== verification/Upstream_Routing.thy ===== *)
theory Upstream_Routing
  imports Upstreams
begin

text \<open>
  What the page of DNS rules does to the routing of the backend: fresh group names, the committed
  configuration, the backend's first-match routing against the page's reading of its rules, and the
  effect of opening the page and of every edit.
\<close>

subsection \<open>Fresh names\<close>

lemma find_free_here: "numbered sep base i \<notin> set used \<Longrightarrow> find_free sep base used i = i"
  by (simp add: find_free.simps)

lemma find_free_next:
  "numbered sep base i \<in> set used \<Longrightarrow> find_free sep base used i = find_free sep base used (Suc i)"
  by (simp add: find_free.simps [of _ _ _ i])

lemma find_free_free: "numbered sep base (find_free sep base used i) \<notin> set used"
proof (induction sep base used i rule: find_free.induct)
  case (1 sep base used i)
  then show ?case by (cases "numbered sep base i \<in> set used") (simp_all add: find_free_here find_free_next)
qed

lemma find_free_least:
  "i \<le> j \<Longrightarrow> j < find_free sep base used i \<Longrightarrow> numbered sep base j \<in> set used"
proof (induction sep base used i rule: find_free.induct)
  case (1 sep base used i)
  then show ?case
    by (cases "numbered sep base i \<in> set used"; cases "i = j")
      (auto simp: find_free_here find_free_next)
qed

lemma group_name_fresh:
  "group_name_for_rule r index used = (n, used') \<Longrightarrow> n \<notin> set used \<and> used' = used @ [n]"
  using find_free_free by (auto simp: group_name_for_rule_def Let_def split: if_splits)

lemma last_numbered: "is_digit (last (numbered sep base i))"
  using nat_str_digits [of i] last_in_set [of "nat_str i"] by (simp add: numbered_def)

text \<open>The names the rules of a list get, one after the other.\<close>

fun names_from :: "nat \<Rightarrow> dns_rule list \<Rightarrow> string list \<Rightarrow> string list" where
  "names_from index [] used = []"
| "names_from index (r # rs) used =
     (let (n, used') = group_name_for_rule r index used in n # names_from (Suc index) rs used')"

lemma length_names_from [simp]: "length (names_from index rs used) = length rs"
  by (induction index rs used rule: names_from.induct) (auto split: prod.split)

lemma names_from_fresh:
  "distinct (names_from index rs used) \<and> set (names_from index rs used) \<inter> set used = {}"
proof (induction index rs used rule: names_from.induct)
  case (2 index r rs used)
  obtain n used' where n: "group_name_for_rule r index used = (n, used')" by force
  with group_name_fresh have "n \<notin> set used" "used' = used @ [n]" by blast+
  with 2 [OF n [symmetric] refl] n show ?case by auto
qed simp

text \<open>A rule is ordinary when its group is not called \<open>__proto__\<close>.\<close>

definition ordinary_rule :: "dns_rule \<Rightarrow> bool" where
  "ordinary_rule r \<longleftrightarrow> (case r_rulesets r of n # _ \<Rightarrow> js_trim n \<noteq> ''__proto__'' | [] \<Rightarrow> True)"

lemma group_name_ordinary:
  assumes "ordinary_rule r"
  shows "fst (group_name_for_rule r index used) \<noteq> ''__proto__''"
proof -
  have "rule_label index \<noteq> ''__proto__''" by (simp add: rule_label_def)
  moreover have "numbered ''-'' b i \<noteq> ''__proto__''" for b i
    using last_numbered [of "''-''" b i] by (auto simp: is_digit_def)
  ultimately show ?thesis
    using assms by (auto simp: group_name_for_rule_def ordinary_rule_def Let_def split: list.splits)
qed

lemma names_from_ordinary:
  "\<forall>r \<in> set rs. ordinary_rule r \<Longrightarrow> ''__proto__'' \<notin> set (names_from index rs used)"
proof (induction index rs used rule: names_from.induct)
  case (2 index r rs used)
  obtain n used' where n: "group_name_for_rule r index used = (n, used')" by force
  with 2 group_name_ordinary [of r index used] show ?case by auto
qed simp

subsection \<open>The committed configuration\<close>

lemma commit_rules_eq:
  assumes "\<forall>r \<in> set rs. ordinary_rule r"
  shows "commit_rules path_of index rs used groups sets =
    (js_obj.put_all (zip (names_from index rs used) (map group_of_rule rs)) groups,
     sets @ concat (map (\<lambda>(n, r). ruleset_entries path_of n (r_rulesets r)) (zip (names_from index rs used) rs)))"
  using assms
proof (induction path_of index rs used groups sets rule: commit_rules.induct)
  case (2 path_of index r rs used groups sets)
  obtain n used' where n: "group_name_for_rule r index used = (n, used')" by force
  then have "n \<noteq> ''__proto__''" using group_name_ordinary [of r index used] 2(2) by simp
  with 2(1) [OF n [symmetric] refl] 2(2) n show ?case by simp
qed simp


text \<open>Reading the committed groups.\<close>

lemma committed_groups:
  assumes "\<forall>r \<in> set rules. ordinary_rule r" and "committed config catalog rules = (groups, sets)"
  shows "map_of groups =
    [''default'' \<mapsto> default_group_of (JObj (spread [] (config_groups config)))]
      ++ map_of (zip (names_from 0 rules [''default'']) (map group_of_rule rules))"
    and "sets = concat (map (\<lambda>(n, r). ruleset_entries (path_table catalog) n (r_rulesets r))
                     (zip (names_from 0 rules [''default'']) rules))"
proof -
  let ?ns = "names_from 0 rules [''default'']"
  have d: "distinct (map fst (zip ?ns (map group_of_rule rules)))"
    using names_from_fresh [of 0 rules "[''default'']"] by simp
  have e: "groups = js_obj.put_all (zip ?ns (map group_of_rule rules))
        [(''default'', default_group_of (JObj (spread [] (config_groups config))))]"
    and s: "sets = concat (map (\<lambda>(n, r). ruleset_entries (path_table catalog) n (r_rulesets r)) (zip ?ns rules))"
    using assms(2) commit_rules_eq [OF assms(1), of "path_table catalog" 0 "[''default'']"
      "[(''default'', default_group_of (JObj (spread [] (config_groups config))))]" "[]"]
    by (simp_all add: committed_def)
  show "map_of groups = [''default'' \<mapsto> default_group_of (JObj (spread [] (config_groups config)))]
      ++ map_of (zip ?ns (map group_of_rule rules))"
    unfolding e js_obj.get_put_all_distinct [OF d] by simp
  show "sets = concat (map (\<lambda>(n, r). ruleset_entries (path_table catalog) n (r_rulesets r)) (zip ?ns rules))"
    by (rule s)
qed

subsection \<open>Routing\<close>

text \<open>
  The backend's match of the rule sets (\<open>resolve_with_meta\<close>, step 3 and 4): the first entry whose
  file contains the domain (\<open>hit path\<close>) and whose upstream is a group gives the group, and the
  group \<open>default\<close> is used otherwise. What a file contains is the parameter \<open>hit\<close>.
\<close>

fun first_hit :: "(string \<Rightarrow> bool) \<Rightarrow> props \<Rightarrow> jsval list \<Rightarrow> string option" where
  "first_hit hit groups [] = None"
| "first_hit hit groups (e # es) =
     (if hit (string_or_empty (field e ''path''))
         \<and> string_or_empty (field e ''upstream'') \<in> fst ` set groups
      then Some (string_or_empty (field e ''upstream'')) else first_hit hit groups es)"

definition backend_group :: "(string \<Rightarrow> bool) \<Rightarrow> props \<Rightarrow> jsval list \<Rightarrow> jsval" where
  "backend_group hit groups sets =
     obj_read groups (case first_hit hit groups sets of Some u \<Rightarrow> u | None \<Rightarrow> ''default'')"

text \<open>The reading of the page: the first rule with a file that contains the domain.\<close>

definition catalog_path :: "catalog_entry list \<Rightarrow> string \<Rightarrow> string option" where
  "catalog_path catalog n = map_of (rev (map (\<lambda>c. (ce_name c, ce_path c)) catalog)) n"

definition rule_hits :: "(string \<Rightarrow> bool) \<Rightarrow> catalog_entry list \<Rightarrow> dns_rule \<Rightarrow> bool" where
  "rule_hits hit catalog r \<longleftrightarrow>
     list_ex (\<lambda>n. case catalog_path catalog n of Some p \<Rightarrow> p \<noteq> [] \<and> hit p | None \<Rightarrow> False) (r_rulesets r)"

text \<open>
  The names a rule refers to: none of them a member of \<open>Object.prototype\<close> that is missing from the
  catalogue.
\<close>

definition plain_rule :: "catalog_entry list \<Rightarrow> dns_rule \<Rightarrow> bool" where
  "plain_rule catalog r \<longleftrightarrow>
     ordinary_rule r
     \<and> list_all (\<lambda>n. n \<in> set object_proto \<longrightarrow> n \<in> ce_name ` set catalog) (r_rulesets r)"

lemma read_path_table:
  "obj_read (path_table catalog) n =
     (case catalog_path catalog n of Some p \<Rightarrow> JStr p
      | None \<Rightarrow> if n \<in> set object_proto then JProto n else JUndef)"
proof -
  have "map_of (map (\<lambda>c. (ce_name c, JStr (ce_path c))) xs) n
      = map_option JStr (map_of (map (\<lambda>c. (ce_name c, ce_path c)) xs) n)" for xs
    by (induction xs) auto
  from this [of "rev catalog"] show ?thesis
    by (simp add: obj_read_def path_table_def map_of_from_entries catalog_path_def rev_map split: option.splits)
qed

lemma catalog_path_None: "catalog_path catalog n = None \<longleftrightarrow> n \<notin> ce_name ` set catalog"
  by (force simp: catalog_path_def map_of_eq_None_iff)


lemma first_hit_append:
  "first_hit hit groups (es @ fs) =
     (case first_hit hit groups es of Some u \<Rightarrow> Some u | None \<Rightarrow> first_hit hit groups fs)"
  by (induction es) auto

lemma ruleset_entries_Cons:
  assumes "n \<in> set object_proto \<longrightarrow> n \<in> ce_name ` set catalog"
  shows "ruleset_entries (path_table catalog) gname (n # names) =
    (case catalog_path catalog n of
       Some p \<Rightarrow> if p \<noteq> [] then [JObj [(''path'', JStr p), (''upstream'', JStr gname)]] else []
     | None \<Rightarrow> []) @ ruleset_entries (path_table catalog) gname names"
  using assms catalog_path_None [of catalog n]
  by (auto simp: ruleset_entries_def read_path_table split: option.splits)

lemma first_hit_entries:
  assumes "gname \<in> fst ` set groups"
    and "list_all (\<lambda>n. n \<in> set object_proto \<longrightarrow> n \<in> ce_name ` set catalog) names"
  shows "first_hit hit groups (ruleset_entries (path_table catalog) gname names) =
    (if list_ex (\<lambda>n. case catalog_path catalog n of Some p \<Rightarrow> p \<noteq> [] \<and> hit p | None \<Rightarrow> False) names
     then Some gname else None)"
  using assms(2)
proof (induction names)
  case Nil
  then show ?case by (simp add: ruleset_entries_def)
next
  case (Cons n names)
  have entry: "obj_read [(''path'', JStr p), (''upstream'', JStr gname)] ''path'' = JStr p"
    "obj_read [(''path'', JStr p), (''upstream'', JStr gname)] ''upstream'' = JStr gname" for p
    by (simp_all add: obj_read_def)
  note c = ruleset_entries_Cons [of n catalog gname names]
  have "n \<in> set object_proto \<longrightarrow> n \<in> ce_name ` set catalog" using Cons.prems by simp
  with Cons show ?case
    unfolding c [OF \<open>n \<in> set object_proto \<longrightarrow> n \<in> ce_name ` set catalog\<close>] first_hit_append using assms(1)
    by (auto simp: entry string_or_empty_def split: option.splits)
qed

lemma first_hit_rules:
  assumes "length ns = length rs" and "set ns \<subseteq> fst ` set groups" and "\<forall>r \<in> set rs. plain_rule catalog r"
  shows "first_hit hit groups
      (concat (map (\<lambda>(n, r). ruleset_entries (path_table catalog) n (r_rulesets r)) (zip ns rs)))
    = map_option fst (find (\<lambda>(n, r). rule_hits hit catalog r) (zip ns rs))"
  using assms
proof (induction ns rs rule: list_induct2)
  case (Cons n ns r rs)
  then show ?case
    by (simp add: first_hit_append first_hit_entries plain_rule_def rule_hits_def)
qed simp

lemma find_zip_snd:
  "length ns = length rs \<Longrightarrow>
     (case find (\<lambda>(n, r). P r) (zip ns rs) of
        None \<Rightarrow> find P rs = None
      | Some (n, r) \<Rightarrow> find P rs = Some r \<and> (n, r) \<in> set (zip ns rs))"
  by (induction ns rs rule: list_induct2) (auto split: option.splits)

lemma routes_by_rules:
  assumes "\<forall>r \<in> set rules. plain_rule catalog r" and c: "committed config catalog rules = (groups, sets)"
  shows "backend_group hit groups sets =
    (case find (rule_hits hit catalog) rules of
       Some r \<Rightarrow> group_of_rule r
     | None \<Rightarrow> default_group_of (JObj (spread [] (config_groups config))))"
proof -
  let ?ns = "names_from 0 rules [''default'']"
  have o: "\<forall>r \<in> set rules. ordinary_rule r" using assms(1) by (simp add: plain_rule_def)
  have fresh: "distinct ?ns" "''default'' \<notin> set ?ns"
    using names_from_fresh [of 0 rules "[''default'']"] by auto
  have z: "map_of (zip ?ns (map group_of_rule rules)) n = Some (group_of_rule r)"
    if "(n, r) \<in> set (zip ?ns rules)" for n r
    using that fresh(1) map_of_zip_nth [of ?ns "map group_of_rule rules"] by (auto simp: in_set_zip)
  have read: "obj_read groups n = group_of_rule r" if "(n, r) \<in> set (zip ?ns rules)" for n r
    using z [OF that] by (simp add: obj_read_def committed_groups(1) [OF o c])
  have "''default'' \<notin> dom (map_of (zip ?ns (map group_of_rule rules)))"
    using fresh(2) by (simp add: dom_map_of_zip)
  then have "map_of (zip ?ns (map group_of_rule rules)) ''default'' = None" by (meson domIff)
  then have default: "obj_read groups ''default'' = default_group_of (JObj (spread [] (config_groups config)))"
    by (simp only: obj_read_def committed_groups(1) [OF o c] map_add_def option.case fun_upd_same)
  have "dom (map_of groups) = insert ''default'' (set ?ns)"
    by (simp add: committed_groups(1) [OF o c] dom_map_of_zip)
  then have "set ?ns \<subseteq> fst ` set groups" by (auto simp: dom_map_of_conv_image_fst)
  then have "first_hit hit groups sets = map_option fst (find (\<lambda>(n, r). rule_hits hit catalog r) (zip ?ns rules))"
    using first_hit_rules [of ?ns rules groups catalog hit] assms(1)
    by (simp add: committed_groups(2) [OF o c])
  then show ?thesis
    using find_zip_snd [of ?ns rules "rule_hits hit catalog"] read default
    by (auto simp: backend_group_def split: option.splits)
qed


subsection \<open>Opening the page\<close>

text \<open>
  The loop of \<open>from_backend\<close>: both \<open>Map\<close>s agree, and every rule refers to names of the catalogue.
\<close>

definition maps_ok :: "(string \<times> string) list \<Rightarrow> (string \<times> string) list \<Rightarrow> bool" where
  "maps_ok cat names \<longleftrightarrow>
     distinct (map fst cat)
     \<and> (\<forall>n p. map_of cat n = Some p \<longrightarrow> n \<noteq> [] \<and> p \<noteq> [] \<and> map_of names p = Some n)
     \<and> (\<forall>p n. map_of names p = Some n \<longrightarrow> map_of cat n = Some p)"

definition rules_named :: "(string \<times> string) list \<Rightarrow> (string \<times> dns_rule) list \<Rightarrow> bool" where
  "rules_named cat rules \<longleftrightarrow> (\<forall>ur \<in> set rules. set (r_rulesets (snd ur)) \<subseteq> dom (map_of cat))"

definition boot_ok :: "boot_state \<Rightarrow> bool" where
  "boot_ok b \<longleftrightarrow> maps_ok (bs_catalog b) (bs_names b) \<and> rules_named (bs_catalog b) (bs_rules b)"

lemma boot_ok_names: "boot_ok b \<Longrightarrow> map_of (bs_names b) p = Some n \<Longrightarrow> map_of (bs_catalog b) n = Some p"
  unfolding boot_ok_def maps_ok_def by blast

lemma boot_ok_catalog:
  "boot_ok b \<Longrightarrow> map_of (bs_catalog b) n = Some p \<Longrightarrow>
     n \<noteq> [] \<and> p \<noteq> [] \<and> map_of (bs_names b) p = Some n"
  unfolding boot_ok_def maps_ok_def by blast

lemma boot_ok_start: "boot_ok \<lparr>bs_catalog = [], bs_names = [], bs_rules = []\<rparr>"
  by (simp add: boot_ok_def maps_ok_def rules_named_def)

lemma register_path_ok:
  assumes "boot_ok b" and "path \<noteq> []" and "basename_no_ext path \<noteq> []"
    and reg: "register_path path b = (name, b')"
  shows "name \<noteq> [] \<and> map_of (bs_catalog b') name = Some path
    \<and> map_of (bs_catalog b) \<subseteq>\<^sub>m map_of (bs_catalog b')
    \<and> bs_rules b' = bs_rules b \<and> boot_ok b'
    \<and> ran (map_of (bs_catalog b')) = insert path (ran (map_of (bs_catalog b)))"
proof (cases "map_of (bs_names b) path")
  case (Some n)
  then have n: "map_of (bs_catalog b) n = Some path" "n \<noteq> []"
    using boot_ok_names boot_ok_catalog assms(1) by blast+
  with Some reg have "name = n" "b' = b" by (auto simp: register_path_def)
  with n assms(1) show ?thesis by (auto simp: ran_def)
next
  case None
  let ?cat = "bs_catalog b" and ?base = "basename_no_ext path"
  define n where "n = (if map_has ?cat ?base \<and> map_of ?cat ?base \<noteq> Some path
      then numbered ''_'' ?base (find_free ''_'' ?base (map fst ?cat) 2) else ?base)"
  have b': "name = n" "b' = b\<lparr>bs_catalog := map_set n path ?cat, bs_names := map_set path n (bs_names b)\<rparr>"
    using reg None assms(2) by (auto simp: register_path_def n_def Let_def)
  have ne: "n \<noteq> []" using assms(3) by (auto simp: n_def numbered_def)
  have "map_of ?cat ?base \<noteq> Some path" using None boot_ok_catalog [OF assms(1)] by fastforce
  then have fresh: "map_of ?cat n = None"
    using find_free_free [of "''_''" ?base "map fst ?cat" 2]
    by (auto simp: n_def map_has_def map_of_eq_None_iff)
  then have sub: "map_of ?cat \<subseteq>\<^sub>m (map_of ?cat)(n \<mapsto> path)" by (auto simp: map_le_def dom_def)
  have np: "q \<noteq> path" if "map_of ?cat m = Some q" for m q
    using that None boot_ok_catalog [OF assms(1)] by fastforce
  have "boot_ok b'"
    unfolding boot_ok_def maps_ok_def
  proof (intro conjI)
    show "distinct (map fst (bs_catalog b'))"
      using assms(1) by (simp add: b' distinct_map_set boot_ok_def maps_ok_def)
    show "\<forall>m p. map_of (bs_catalog b') m = Some p \<longrightarrow> m \<noteq> [] \<and> p \<noteq> [] \<and> map_of (bs_names b') p = Some m"
      using boot_ok_catalog [OF assms(1)] assms(2) ne np by (auto simp: b')
    have "m \<noteq> n" if "map_of (bs_names b) p = Some m" for p m
      using that boot_ok_names [OF assms(1)] fresh by fastforce
    then show "\<forall>p m. map_of (bs_names b') p = Some m \<longrightarrow> map_of (bs_catalog b') m = Some p"
      using boot_ok_names [OF assms(1)] by (auto simp: b')
    show "rules_named (bs_catalog b') (bs_rules b')"
      using assms(1) unfolding boot_ok_def rules_named_def by (simp add: b') blast
  qed
  moreover have "ran (map_of (bs_catalog b')) = insert path (ran (map_of ?cat))"
    using fresh by (simp add: b' ran_map_upd)
  ultimately show ?thesis using ne sub by (simp add: b')
qed


text \<open>An entry the page can name: a known group and a path with a base name.\<close>

definition nameable :: "props \<Rightarrow> jsval \<Rightarrow> bool" where
  "nameable groups e \<longleftrightarrow>
     basename_no_ext (string_or_empty (field e ''path'')) \<noteq> []
     \<and> string_or_empty (field e ''upstream'') \<in> fst ` set groups"

definition settings :: "dns_rule \<Rightarrow> dns_rule" where
  "settings r = r\<lparr>r_rulesets := []\<rparr>"

definition group_rule :: "props \<Rightarrow> string \<Rightarrow> dns_rule" where
  "group_rule groups u = rule_of_group [] (js_or (obj_read groups u) (JObj []))"

text \<open>The routing by the rules collected so far.\<close>

definition boot_hits :: "(string \<Rightarrow> bool) \<Rightarrow> (string \<times> string) list \<Rightarrow> string \<times> dns_rule \<Rightarrow> bool" where
  "boot_hits hit cat ur \<longleftrightarrow> (\<exists>n \<in> set (r_rulesets (snd ur)). \<exists>p. map_of cat n = Some p \<and> hit p)"

lemma boot_hits_mono:
  "map_of cat \<subseteq>\<^sub>m map_of cat' \<Longrightarrow> \<forall>n \<in> set (r_rulesets (snd ur)). n \<in> dom (map_of cat) \<Longrightarrow>
     boot_hits hit cat' ur = boot_hits hit cat ur"
  unfolding boot_hits_def map_le_def by (intro bex_cong) auto

lemma find_cong_list: "(\<And>x. x \<in> set xs \<Longrightarrow> P x = Q x) \<Longrightarrow> find P xs = find Q xs"
  by (induction xs) auto

lemma find_append:
  "find P (xs @ ys) = (case find P xs of Some x \<Rightarrow> Some x | None \<Rightarrow> find P ys)"
  by (induction xs) auto

definition boot_tracks :: "(string \<Rightarrow> bool) \<Rightarrow> props \<Rightarrow> jsval list \<Rightarrow> boot_state \<Rightarrow> bool" where
  "boot_tracks hit groups es b \<longleftrightarrow>
     boot_ok b
     \<and> map_option fst (find (boot_hits hit (bs_catalog b)) (bs_rules b)) = first_hit hit groups es
     \<and> (\<forall>(u, r) \<in> set (bs_rules b). settings r = group_rule groups u)
     \<and> ran (map_of (bs_catalog b)) = (\<lambda>e. string_or_empty (field e ''path'')) ` set es"

lemma from_entry_tracks:
  assumes t: "boot_tracks hit groups es b" and e: "nameable groups e"
  shows "boot_tracks hit groups (es @ [e]) (from_entry (JObj groups) e b)"
proof -
  let ?path = "string_or_empty (field e ''path'')" and ?u = "string_or_empty (field e ''upstream'')"
  obtain name b' where reg: "register_path ?path b = (name, b')" by force
  have "?path \<noteq> []" using e by (auto simp: nameable_def basename_no_ext_def)
  with register_path_ok [OF _ _ _ reg] e t
  have name: "name \<noteq> []" "map_of (bs_catalog b') name = Some ?path"
    and sub: "map_of (bs_catalog b) \<subseteq>\<^sub>m map_of (bs_catalog b')" and rules: "bs_rules b' = bs_rules b"
    and ok: "boot_ok b'" and ran: "ran (map_of (bs_catalog b')) = insert ?path (ran (map_of (bs_catalog b)))"
    by (simp_all add: boot_tracks_def nameable_def)
  let ?H = "boot_hits hit (bs_catalog b')"
  have H: "?H ur = boot_hits hit (bs_catalog b) ur" if "ur \<in> set (bs_rules b)" for ur
  proof (rule boot_hits_mono [OF sub])
    show "\<forall>n \<in> set (r_rulesets (snd ur)). n \<in> dom (map_of (bs_catalog b))"
      using that t unfolding boot_tracks_def boot_ok_def rules_named_def by blast
  qed
  have old: "map_option fst (find ?H (bs_rules b)) = first_hit hit groups es"
    using t find_cong_list [of "bs_rules b" ?H, OF H] by (simp add: boot_tracks_def)
  have snoc: "first_hit hit groups (es @ [e]) =
      (case first_hit hit groups es of Some u \<Rightarrow> Some u | None \<Rightarrow> if hit ?path then Some ?u else None)"
    using e by (simp add: nameable_def first_hit_append split: option.split)
  show ?thesis
  proof (cases "bs_rules b \<noteq> [] \<and> fst (last (bs_rules b)) = ?u")
    case True
    then obtain rs r where rs: "bs_rules b = rs @ [(?u, r)]"
      by (metis append_butlast_last_id prod.collapse)
    let ?r = "add_ruleset name r"
    have b2: "from_entry (JObj groups) e b = b'\<lparr>bs_rules := rs @ [(?u, ?r)]\<rparr>"
      using True rs reg rules by (simp add: from_entry_def Let_def)
    have "?H (?u, ?r) = (?H (?u, r) \<or> hit ?path)"
      using name by (auto simp: boot_hits_def add_ruleset_def)
    then have "map_option fst (find ?H (rs @ [(?u, ?r)])) = first_hit hit groups (es @ [e])"
      unfolding snoc old [symmetric] by (auto simp: rs find_append split: option.splits)
    moreover have "boot_ok (b'\<lparr>bs_rules := rs @ [(?u, ?r)]\<rparr>)"
      using ok name(2) unfolding boot_ok_def rules_named_def by (auto simp: rules rs add_ruleset_def)
    moreover have "settings ?r = settings r" by (simp add: settings_def add_ruleset_def)
    ultimately show ?thesis using t ran rs unfolding b2 by (auto simp: boot_tracks_def)
  next
    case False
    let ?r = "rule_of_group name (js_or (obj_read groups ?u) (JObj []))"
    have b2: "from_entry (JObj groups) e b = b'\<lparr>bs_rules := bs_rules b @ [(?u, ?r)]\<rparr>"
      using False reg rules by (auto simp: from_entry_def Let_def)
    have "?H (?u, ?r) = hit ?path" using name by (simp add: boot_hits_def rule_of_group_def)
    then have "map_option fst (find ?H (bs_rules b @ [(?u, ?r)])) = first_hit hit groups (es @ [e])"
      unfolding snoc old [symmetric] by (auto simp: find_append split: option.splits)
    moreover have "boot_ok (b'\<lparr>bs_rules := bs_rules b @ [(?u, ?r)]\<rparr>)"
      using ok name(2) unfolding boot_ok_def rules_named_def by (auto simp: rules rule_of_group_def)
    moreover have "settings ?r = group_rule groups ?u"
      by (simp add: settings_def rule_of_group_def group_rule_def)
    ultimately show ?thesis using t ran unfolding b2 by (auto simp: boot_tracks_def)
  qed
qed


lemma boot_fold:
  "list_all (nameable groups) es \<Longrightarrow>
     boot_tracks hit groups es (fold (from_entry (JObj groups)) es \<lparr>bs_catalog = [], bs_names = [], bs_rules = []\<rparr>)"
proof (induction es rule: rev_induct)
  case Nil
  then show ?case by (simp add: boot_tracks_def boot_ok_start)
next
  case (snoc e es)
  then show ?case using from_entry_tracks by simp
qed

lemma catalog_path_boot:
  "distinct (map fst cat) \<Longrightarrow>
     catalog_path (map (\<lambda>(name, path). \<lparr>ce_name = name, ce_path = path\<rparr>) cat) n = map_of cat n"
  by (simp add: catalog_path_def comp_def split_beta map_of_rev_distinct)

lemma boot_hits_rule:
  assumes "boot_ok b"
  shows "rule_hits hit (map (\<lambda>(name, path). \<lparr>ce_name = name, ce_path = path\<rparr>) (bs_catalog b)) (snd ur)
    = boot_hits hit (bs_catalog b) ur"
proof -
  have "distinct (map fst (bs_catalog b))" using assms by (simp add: boot_ok_def maps_ok_def)
  note path = catalog_path_boot [OF this]
  have "(case map_of (bs_catalog b) n of Some p \<Rightarrow> p \<noteq> [] \<and> hit p | None \<Rightarrow> False)
      \<longleftrightarrow> (\<exists>p. map_of (bs_catalog b) n = Some p \<and> hit p)" for n
    using boot_ok_catalog [OF assms, of n] by (cases "map_of (bs_catalog b) n") simp_all
  then show ?thesis by (simp only: rule_hits_def boot_hits_def list_ex_iff path)
qed

lemma find_map_snd: "find P (map snd xs) = map_option snd (find (\<lambda>x. P (snd x)) xs)"
  by (induction xs) auto

text \<open>What the page is opened with: every fact a property needs.\<close>

lemma from_backend_facts:
  assumes "config_groups config = JObj groups" and "list_all (nameable groups) (config_rulesets config)"
    and "from_backend config = (catalog, rules)"
  shows "map_option settings (find (rule_hits hit catalog) rules)
      = map_option (group_rule groups) (first_hit hit groups (config_rulesets config))"
    and "distinct (map ce_name catalog)" and "distinct (map ce_path catalog)"
    and "ce_path ` set catalog = (\<lambda>e. string_or_empty (field e ''path'')) ` set (config_rulesets config)"
    and "\<forall>r \<in> set rules. set (r_rulesets r) \<subseteq> ce_name ` set catalog"
proof -
  define b where "b = fold (from_entry (JObj groups)) (config_rulesets config)
      \<lparr>bs_catalog = [], bs_names = [], bs_rules = []\<rparr>"
  have t: "boot_tracks h groups (config_rulesets config) b" for h
    unfolding b_def by (rule boot_fold [OF assms(2)])
  then have ok: "boot_ok b" by (simp add: boot_tracks_def)
  have cat: "catalog = map (\<lambda>(name, path). \<lparr>ce_name = name, ce_path = path\<rparr>) (bs_catalog b)"
    and rules: "rules = map snd (bs_rules b)"
    using assms(3) by (auto simp: from_backend_def assms(1) b_def Let_def)
  have d: "distinct (map fst (bs_catalog b))" using ok by (simp add: boot_ok_def maps_ok_def)
  then show "distinct (map ce_name catalog)" by (simp add: cat comp_def split_beta)
  have inj: "inj_on snd (set (bs_catalog b))"
  proof (rule inj_onI)
    fix x y assume xy: "x \<in> set (bs_catalog b)" "y \<in> set (bs_catalog b)" "snd x = snd y"
    have "map_of (bs_catalog b) (fst x) = Some (snd x)" "map_of (bs_catalog b) (fst y) = Some (snd y)"
      using xy(1,2) d by (simp_all add: map_of_is_SomeI)
    with boot_ok_catalog [OF ok] xy(3) have "Some (fst x) = Some (fst y)" by metis
    with xy(3) show "x = y" by (simp add: prod_eq_iff)
  qed
  then have "distinct (map snd (bs_catalog b))"
    using d by (simp add: distinct_map)
  then show "distinct (map ce_path catalog)" by (simp add: cat comp_def split_beta)
  have "ran (map_of (bs_catalog b)) = snd ` set (bs_catalog b)" using d by (rule ran_distinct)
  then show "ce_path ` set catalog = (\<lambda>e. string_or_empty (field e ''path'')) ` set (config_rulesets config)"
    using t by (auto simp: cat boot_tracks_def image_image split_beta)
  show "\<forall>r \<in> set rules. set (r_rulesets r) \<subseteq> ce_name ` set catalog"
    using ok by (auto simp: rules cat boot_ok_def rules_named_def dom_map_of_conv_image_fst image_image split_beta)
  have "find (\<lambda>ur. rule_hits hit catalog (snd ur)) (bs_rules b) = find (boot_hits hit (bs_catalog b)) (bs_rules b)"
    unfolding cat boot_hits_rule [OF ok] ..
  moreover have "settings (snd ur) = group_rule groups (fst ur)"
    if "find (boot_hits hit (bs_catalog b)) (bs_rules b) = Some ur" for ur
    using t that by (auto simp: boot_tracks_def find_Some_iff split_beta)
  moreover have "first_hit hit groups (config_rulesets config)
      = map_option fst (find (boot_hits hit (bs_catalog b)) (bs_rules b))"
    using t by (simp add: boot_tracks_def)
  ultimately show "map_option settings (find (rule_hits hit catalog) rules)
      = map_option (group_rule groups) (first_hit hit groups (config_rulesets config))"
    unfolding rules find_map_snd
    by (cases "find (boot_hits hit (bs_catalog b)) (bs_rules b)") auto
qed

end
