(* ===== verification/Upstream_Page.thy ===== *)
theory Upstream_Page
  imports Upstream_Routing "HOL-Library.Multiset"
begin

text \<open>
  The properties of the page of DNS rules: what saving, opening, renaming, deleting and moving do to
  the routing of the backend, the consistency of the committed configuration, and the agreement of
  the page with the configuration store.
\<close>

subsection \<open>Settings that survive\<close>

text \<open>A group as the backend's serializer writes it.\<close>

definition typed_group :: "jsval \<Rightarrow> bool" where
  "typed_group g \<longleftrightarrow>
     (case g of
        JObj ps \<Rightarrow>
          (case map_of ps ''servers'' of Some (JArr _) \<Rightarrow> True | _ \<Rightarrow> False)
          \<and> (case map_of ps ''strategy'' of Some (JStr s) \<Rightarrow> s \<noteq> [] | _ \<Rightarrow> False)
          \<and> (case map_of ps ''insecure'' of Some (JBool _) \<Rightarrow> True | _ \<Rightarrow> False)
          \<and> (case map_of ps ''client-subnet'' of Some JNull \<Rightarrow> True | Some (JStr s) \<Rightarrow> s \<noteq> [] | _ \<Rightarrow> False)
      | _ \<Rightarrow> False)"

definition group_keys :: "string list" where
  "group_keys = [''servers'', ''strategy'', ''insecure'', ''client-subnet'']"

lemma group_of_typed:
  assumes "map_of groups u = Some g" and "typed_group g" and "k \<in> set group_keys"
  shows "field (group_of_rule (group_rule groups u)) k = field g k"
proof -
  obtain ps where ps: "g = JObj ps" using assms(2) by (auto simp: typed_group_def split: jsval.splits)
  from assms(2) ps obtain xs where "map_of ps ''servers'' = Some (JArr xs)"
    by (auto simp: typed_group_def split: option.splits jsval.splits)
  moreover from assms(2) ps obtain s where "map_of ps ''strategy'' = Some (JStr s)" "s \<noteq> []"
    by (auto simp: typed_group_def split: option.splits jsval.splits)
  moreover from assms(2) ps obtain b where "map_of ps ''insecure'' = Some (JBool b)"
    by (auto simp: typed_group_def split: option.splits jsval.splits)
  moreover from assms(2) ps have "map_of ps ''client-subnet'' = Some JNull
      \<or> (\<exists>c. map_of ps ''client-subnet'' = Some (JStr c) \<and> c \<noteq> [])"
    by (auto simp: typed_group_def split: option.splits jsval.splits)
  ultimately show ?thesis
    using assms(1,3) ps
    by (auto simp: group_keys_def group_of_rule_def group_rule_def rule_of_group_def obj_read_def
        js_or_def js_coalesce_def nullish_def items_or_empty_def)
qed

lemma settings_group: "settings r = r' \<Longrightarrow> group_of_rule r = group_of_rule r'"
  by (auto simp: settings_def group_of_rule_def)

lemma plain_named:
  "ordinary_rule r \<Longrightarrow> set (r_rulesets r) \<subseteq> ce_name ` set catalog \<Longrightarrow> plain_rule catalog r"
  by (auto simp: plain_rule_def list_all_iff)

lemma default_group_kept:
  "wf_props groups \<Longrightarrow> map_of groups ''default'' = Some (JObj d) \<Longrightarrow>
     default_group_of (JObj (spread [] (JObj groups))) = JObj d"
  by (simp add: default_group_of_def spread_Nil_wf obj_read_def js_or_def)

subsection \<open>The page and the store\<close>

text \<open>The group that would serve a domain if the page's state were saved.\<close>

definition page_group :: "(string \<Rightarrow> bool) \<Rightarrow> jsval \<Rightarrow> upage \<Rightarrow> jsval" where
  "page_group hit config s =
     (let (groups, sets) = committed config (up_catalog s) (up_rules s) in backend_group hit groups sets)"

definition page_plain :: "upage \<Rightarrow> bool" where
  "page_plain s \<longleftrightarrow> list_all (plain_rule (up_catalog s)) (up_rules s)"

lemma page_group_rules:
  "page_plain s \<Longrightarrow>
     page_group hit config s =
       (case find (rule_hits hit (up_catalog s)) (up_rules s) of
          Some r \<Rightarrow> group_of_rule r
        | None \<Rightarrow> default_group_of (JObj (spread [] (config_groups config))))"
  using routes_by_rules by (auto simp: page_group_def page_plain_def list_all_iff split: prod.split)

lemma find_map: "find P (map f xs) = map_option f (find (\<lambda>x. P (f x)) xs)"
  by (induction xs) auto

subsection \<open>Catalogue edits\<close>

definition rows_of :: "catalog_entry list \<Rightarrow> (string \<times> string) list" where
  "rows_of catalog = map (\<lambda>c. (ce_name c, ce_path c)) catalog"

lemma catalog_path_rows: "catalog_path catalog n = map_of (rev (rows_of catalog)) n"
  by (simp add: catalog_path_def rows_of_def)

lemma distinct_rows: "distinct (map ce_name catalog) \<Longrightarrow> distinct (map fst (rows_of catalog))"
  by (simp add: rows_of_def comp_def)

lemma catalog_path_rename:
  assumes "distinct (map ce_name catalog)" and "i < length catalog" and "n \<notin> ce_name ` set catalog"
  shows "catalog_path (map_nth_with i (patch_entry (PatchName n)) catalog) m =
    (if m = n then Some (ce_path (catalog ! i))
     else if m = ce_name (catalog ! i) then None else catalog_path catalog m)"
proof -
  let ?rows = "rows_of catalog"
  have i: "i < length ?rows" using assms(2) by (simp add: rows_of_def)
  have "rows_of (map_nth_with i (patch_entry (PatchName n)) catalog) = ?rows[i := (n, ce_path (catalog ! i))]"
    using assms(2) by (simp add: map_nth_with_eq rows_of_def map_update)
  moreover have "n \<notin> fst ` set (drop (Suc i) ?rows)"
    using assms(3) by (auto simp: rows_of_def drop_map dest: in_set_dropD)
  then have "map_of (drop (Suc i) ?rows) n = None" by (simp add: map_of_eq_None_iff)
  moreover have "fst (?rows ! i) = ce_name (catalog ! i)" using assms(2) by (simp add: rows_of_def)
  ultimately show ?thesis
    using map_of_rev_update [OF distinct_rows [OF assms(1)] i, of n "ce_path (catalog ! i)"]
    by (simp add: catalog_path_rows map_of_rev_distinct [OF distinct_rows [OF assms(1)]])
qed

lemma catalog_path_drop:
  assumes "i < length catalog" and "m \<noteq> ce_name (catalog ! i)"
  shows "catalog_path (drop_nth i catalog) m = catalog_path catalog m"
proof -
  have "rows_of catalog = rows_of (take i catalog) @ (ce_name (catalog ! i), ce_path (catalog ! i))
      # rows_of (drop (Suc i) catalog)"
    using arg_cong [OF id_take_nth_drop [OF assms(1)], of rows_of] by (simp add: rows_of_def)
  moreover have "rows_of (drop_nth i catalog) = rows_of (take i catalog) @ rows_of (drop (Suc i) catalog)"
    by (simp add: rows_of_def drop_nth_eq)
  ultimately show ?thesis
    using assms(2) by (simp add: catalog_path_rows map_add_def split: option.splits)
qed

lemma catalog_path_nth:
  assumes "distinct (map ce_name catalog)" and "i < length catalog"
  shows "catalog_path catalog (ce_name (catalog ! i)) = Some (ce_path (catalog ! i))"
proof -
  have "(ce_name (catalog ! i), ce_path (catalog ! i)) \<in> set (rows_of catalog)"
    using assms(2) by (simp add: rows_of_def)
  then show ?thesis
    using distinct_rows [OF assms(1)]
    by (simp add: catalog_path_rows map_of_rev_distinct map_of_is_SomeI)
qed

lemma rule_hits_cong:
  "(\<And>m. m \<in> set (r_rulesets r) \<Longrightarrow> catalog_path cat' (f m) = catalog_path cat m) \<Longrightarrow>
     r_rulesets r' = map f (r_rulesets r) \<Longrightarrow> rule_hits hit cat' r' = rule_hits hit cat r"
  by (simp add: rule_hits_def list_ex_iff)

lemma rename_settings [simp]: "group_of_rule (rename_ruleset old n r) = group_of_rule r"
  by (simp add: rename_ruleset_def group_of_rule_def)

lemma forget_settings [simp]: "group_of_rule (forget_ruleset n r) = group_of_rule r"
  by (simp add: forget_ruleset_def group_of_rule_def)

subsection \<open>Moves\<close>

lemma find_swap:
  "\<not> (P a \<and> P b) \<Longrightarrow> find P (xs @ a # b # ys) = find P (xs @ b # a # ys)"
  by (induction xs) auto

lemma swap_next:
  assumes "Suc i < length xs"
  shows "xs[i := xs ! Suc i, Suc i := xs ! i] = take i xs @ xs ! Suc i # xs ! i # drop (Suc (Suc i)) xs"
proof -
  have xs: "xs = take i xs @ xs ! i # xs ! Suc i # drop (Suc (Suc i)) xs"
    using assms by (metis Cons_nth_drop_Suc Suc_lessD id_take_nth_drop)
  obtain ps a b ys where "xs = ps @ a # b # ys" "length ps = i"
    using xs assms by (metis Suc_lessD length_take min.absorb4)
  then show ?thesis by (auto simp: list_update_append nth_append)
qed

subsection \<open>An example\<close>

definition sample_group :: "string \<Rightarrow> jsval" where
  "sample_group server =
     JObj [(''servers'', JArr [JStr server]), (''strategy'', JStr ''random''), (''insecure'', JBool False),
           (''client-subnet'', JNull)]"

definition sample_groups :: props where
  "sample_groups = [(''default'', sample_group ''udp://9.9.9.9''), (''cn'', sample_group ''udp://223.5.5.5'')]"

definition sample_sets :: "jsval list" where
  "sample_sets = [JObj [(''path'', JStr ''/etc/relay/cn.drs''), (''upstream'', JStr ''cn'')]]"

definition sample_config :: jsval where
  "sample_config = JObj [(''groups'', JObj sample_groups), (''rulesets'', JArr sample_sets)]"

definition sample_catalog :: "catalog_entry list" where
  "sample_catalog = [\<lparr>ce_name = ''cn'', ce_path = ''/etc/relay/cn.drs''\<rparr>]"

definition sample_rule :: dns_rule where
  "sample_rule =
     \<lparr>r_rulesets = [''cn''], r_servers = [JStr ''udp://223.5.5.5''], r_strategy = JStr ''random'',
      r_insecure = False, r_subnet = JNull\<rparr>"

definition sample_page :: upage where
  "sample_page = \<lparr>up_catalog = sample_catalog, up_rules = [sample_rule], up_new_name = [], up_new_path = []\<rparr>"

lemma sample_boot: "from_backend sample_config = (sample_catalog, [sample_rule])"
  by code_simp

lemma trim_cn: "js_trim ''cn'' = ''cn''"
  by (rule js_trim_graphic) (simp add: graphic_def)

lemma sample_commit: "committed sample_config sample_catalog [sample_rule] = (sample_groups, sample_sets)"
  by (simp add: committed_def sample_config_def sample_catalog_def sample_rule_def sample_groups_def
      sample_group_def sample_sets_def config_groups_def default_group_of_def path_table_def
      from_entries_def obj_put_def group_name_for_rule_def trim_cn obj_read_def js_or_def spread_def
      ruleset_entries_def group_of_rule_def is_index_def is_digit_def Let_def)

lemma sample_plain: "list_all (plain_rule sample_catalog) [sample_rule]" "list_all ordinary_rule [sample_rule]"
  by (simp_all add: plain_rule_def ordinary_rule_def sample_rule_def sample_catalog_def trim_cn)

lemma sample_groups_ok:
  "config_groups sample_config = JObj sample_groups" "config_rulesets sample_config = sample_sets"
  "wf_props sample_groups" "list_all (\<lambda>ug. typed_group (snd ug)) sample_groups"
  "''default'' \<in> fst ` set sample_groups" "list_all (nameable sample_groups) sample_sets"
proof -
  show "config_groups sample_config = JObj sample_groups" "config_rulesets sample_config = sample_sets"
    by code_simp+
  show "wf_props sample_groups"
    by (simp add: sample_groups_def wf_props_def key_before_def is_index_def is_digit_def)
  show "list_all (\<lambda>ug. typed_group (snd ug)) sample_groups" by code_simp
  show "''default'' \<in> fst ` set sample_groups" by (simp add: sample_groups_def)
  show "list_all (nameable sample_groups) sample_sets" by code_simp
qed

subsection \<open>Properties of the page\<close>

text \<open>
  C1. Saving the page gives the backend the routing the page shows: for every domain, the group that
  serves it under the committed configuration has the settings of the first rule in the list one of
  whose files contains the domain, and is the configured default group when no rule has such a file.
\<close>

theorem committed_routing_is_shown_routing:
  assumes "list_all (plain_rule catalog) rules" and "committed config catalog rules = (groups, sets)"
  shows "backend_group hit groups sets =
    (case find (rule_hits hit catalog) rules of
       Some r \<Rightarrow> group_of_rule r
     | None \<Rightarrow> default_group_of (JObj (spread [] (config_groups config))))"
  using assms routes_by_rules by (simp add: list_all_iff)

theorem committed_routing_is_shown_routing_witness:
  "backend_group (\<lambda>p. p = ''/etc/relay/cn.drs'') sample_groups sample_sets = group_of_rule sample_rule"
  using committed_routing_is_shown_routing [OF sample_plain(1) sample_commit, of "\<lambda>p. p = ''/etc/relay/cn.drs''"]
  by (simp add: rule_hits_def sample_rule_def sample_catalog_def catalog_path_def)

text \<open>
  C3. Opening the page and saving it as it is changes no routing: for every domain, the group that
  serves it before and after has the same servers, strategy, certificate check and client subnet,
  although the groups are named anew and the entries of one group in a row become one rule.
\<close>

theorem open_and_save_keeps_routing:
  assumes "config_groups config = JObj groups" and "wf_props groups"
    and "list_all (\<lambda>ug. typed_group (snd ug)) groups" and "''default'' \<in> fst ` set groups"
    and "list_all (nameable groups) (config_rulesets config)"
    and "from_backend config = (catalog, rules)" and "list_all ordinary_rule rules"
    and "committed config catalog rules = (groups', sets')"
    and "k \<in> set group_keys"
  shows "field (backend_group hit groups' sets') k
    = field (backend_group hit groups (config_rulesets config)) k"
proof -
  note facts = from_backend_facts [OF assms(1,5,6)]
  have typed: "map_of groups u = Some g \<Longrightarrow> typed_group g" for u g
    using assms(3) map_of_SomeD [of groups u g] by (fastforce simp: list_all_iff)
  have known: "\<exists>g. map_of groups u = Some g" if "first_hit hit groups es = Some u" for u es
  proof -
    have "u \<in> fst ` set groups" using that by (induction es) (auto split: if_splits)
    then show ?thesis by (metis domD dom_map_of_conv_image_fst)
  qed
  have object: "typed_group g \<Longrightarrow> \<exists>d. g = JObj d" for g
    by (cases g) (simp_all add: typed_group_def)
  obtain d where d: "map_of groups ''default'' = Some (JObj d)"
    using assms(4) typed object by (metis domD dom_map_of_conv_image_fst)
  have "\<forall>r \<in> set rules. plain_rule catalog r"
    using assms(7) facts(5) plain_named by (auto simp: list_all_iff)
  note shown = routes_by_rules [OF this assms(8), of hit]
  have old: "backend_group hit groups (config_rulesets config) =
      obj_read groups (case first_hit hit groups (config_rulesets config) of Some u \<Rightarrow> u | None \<Rightarrow> ''default'')"
    by (simp add: backend_group_def)
  show ?thesis
  proof (cases "first_hit hit groups (config_rulesets config)")
    case None
    then show ?thesis
      using facts(1) [of hit] d default_group_kept [OF assms(2) d]
      by (simp add: shown old assms(1)) (simp add: obj_read_def)
  next
    case (Some u)
    then obtain r where r: "find (rule_hits hit catalog) rules = Some r" "settings r = group_rule groups u"
      using facts(1) [of hit] by auto
    obtain g where g: "map_of groups u = Some g" using known [OF Some] by blast
    have "group_of_rule r = group_of_rule (group_rule groups u)" using settings_group r(2) by blast
    then show ?thesis
      using group_of_typed [OF g typed [OF g] assms(9)] g Some r(1)
      by (simp add: shown old) (simp add: obj_read_def)
  qed
qed

theorem open_and_save_keeps_routing_witness:
  "field (backend_group (\<lambda>p. p = ''/etc/relay/cn.drs'') sample_groups sample_sets) ''strategy''
    = field (backend_group (\<lambda>p. p = ''/etc/relay/cn.drs'') sample_groups (config_rulesets sample_config)) ''strategy''"
  by (rule open_and_save_keeps_routing
      [OF sample_groups_ok(1,3,4,5) _ sample_boot sample_plain(2) sample_commit])
    (simp_all add: sample_groups_ok group_keys_def)

lemma committed_upstreams:
  assumes "\<forall>r \<in> set rules. ordinary_rule r" and "committed config catalog rules = (groups, sets)"
  shows "fst ` set groups = insert ''default'' (set (names_from 0 rules [''default'']))"
    and "\<forall>e \<in> set sets. string_or_empty (field e ''upstream'') \<in> fst ` set groups"
proof -
  let ?ns = "names_from 0 rules [''default'']"
  note groups = committed_groups [OF assms]
  have "dom (map_of groups) = insert ''default'' (set ?ns)"
    by (simp add: groups(1) dom_map_of_zip)
  then show keys: "fst ` set groups = insert ''default'' (set ?ns)"
    by (simp add: dom_map_of_conv_image_fst)
  have "string_or_empty (field e ''upstream'') \<in> set ?ns" if "e \<in> set sets" for e
    using that unfolding groups(2)
    by (auto simp: ruleset_entries_def string_or_empty_def obj_read_def object_proto_def
        dest: set_zip_leftD split: if_splits)
  with keys show "\<forall>e \<in> set sets. string_or_empty (field e ''upstream'') \<in> fst ` set groups" by auto
qed

text \<open>
  The committed configuration is consistent: every rule gets a group of its own with its settings,
  under a name no other rule has and that is not \<open>default\<close>; the default group stays as it was; there
  is no other group; and every entry of the rule sets refers to a group that exists.
\<close>

theorem committed_config_is_consistent:
  assumes "list_all ordinary_rule rules" and "committed config catalog rules = (groups, sets)"
  shows "(\<exists>names. distinct names \<and> ''default'' \<notin> set names \<and> length names = length rules
      \<and> fst ` set groups = insert ''default'' (set names)
      \<and> (\<forall>i < length rules. map_of groups (names ! i) = Some (group_of_rule (rules ! i))))
    \<and> map_of groups ''default'' = Some (default_group_of (JObj (spread [] (config_groups config))))
    \<and> (\<forall>e \<in> set sets. string_or_empty (field e ''upstream'') \<in> fst ` set groups)"
proof -
  let ?ns = "names_from 0 rules [''default'']" and ?d = "default_group_of (JObj (spread [] (config_groups config)))"
  have o: "\<forall>r \<in> set rules. ordinary_rule r" using assms(1) by (simp add: list_all_iff)
  note groups = committed_groups [OF o assms(2)]
  have fresh: "distinct ?ns" "''default'' \<notin> set ?ns"
    using names_from_fresh [of 0 rules "[''default'']"] by auto
  have nth: "map_of groups (?ns ! i) = Some (group_of_rule (rules ! i))" if "i < length rules" for i
    using map_of_zip_nth [of ?ns "map group_of_rule rules" i] fresh(1) that by (simp add: groups(1))
  have "map_of (zip ?ns (map group_of_rule rules)) ''default'' = None"
    using fresh(2) by (metis domIff dom_map_of_zip length_map length_names_from)
  then have d: "map_of groups ''default'' = Some ?d"
    unfolding groups(1) by (simp only: map_add_def option.case fun_upd_same)
  note keys = committed_upstreams [OF o assms(2)]
  with fresh nth d keys show ?thesis by (intro conjI exI [of _ ?ns]) auto
qed

theorem committed_config_is_consistent_witness:
  "map_of sample_groups ''default'' = Some (default_group_of (JObj (spread [] (config_groups sample_config))))"
  using committed_config_is_consistent [OF sample_plain(2) sample_commit] by blast

text \<open>
  The catalogue the page opens with lists the rule set files of the configuration, each once and
  under a name of its own, and the rules refer to these names only. So a file no entry uses is not
  listed: one registered but not used by any rule is gone after a save and a reload.
\<close>

theorem catalogue_lists_the_files:
  assumes "config_groups config = JObj groups" and "list_all (nameable groups) (config_rulesets config)"
    and "from_backend config = (catalog, rules)"
  shows "ce_path ` set catalog = (\<lambda>e. string_or_empty (field e ''path'')) ` set (config_rulesets config)
    \<and> distinct (map ce_path catalog) \<and> distinct (map ce_name catalog)
    \<and> (\<forall>r \<in> set rules. set (r_rulesets r) \<subseteq> ce_name ` set catalog)"
  using from_backend_facts [OF assms] by blast

theorem catalogue_lists_the_files_witness:
  "ce_path ` set sample_catalog = {''/etc/relay/cn.drs''}"
proof -
  have "list_all (nameable sample_groups) (config_rulesets sample_config)"
    by (simp add: sample_groups_ok)
  from catalogue_lists_the_files [OF sample_groups_ok(1) this sample_boot] show ?thesis
    by (simp add: sample_groups_ok sample_sets_def string_or_empty_def obj_read_def)
qed

text \<open>
  Renaming a rule set keeps the routing: a non-empty name that neither the catalogue nor a rule
  uses yet is taken over by the rules, so every domain would be served by the same settings as
  before.
\<close>

theorem rename_keeps_routing:
  assumes "page_plain s" and "distinct (map ce_name (up_catalog s))" and "i < length (up_catalog s)"
    and "n \<noteq> []" and "n \<notin> ce_name ` set (up_catalog s)" and "list_all (\<lambda>r. n \<notin> set (r_rulesets r)) (up_rules s)"
    and "page_plain (fst (update_catalog_entry config i (PatchName n) s))"
  shows "page_group hit config (fst (update_catalog_entry config i (PatchName n) s)) = page_group hit config s"
proof -
  let ?c = "up_catalog s" and ?c' = "map_nth_with i (patch_entry (PatchName n)) (up_catalog s)"
  let ?old = "ce_name (up_catalog s ! i)" and ?f = "rename_ruleset (ce_name (up_catalog s ! i)) n"
  have new: "fst (update_catalog_entry config i (PatchName n) s) = s\<lparr>up_catalog := ?c', up_rules := map ?f (up_rules s)\<rparr>"
    using assms(3,4,5) by (auto simp: update_catalog_entry_def commit_def Let_def)
  have hits: "rule_hits hit ?c' (?f r) = rule_hits hit ?c r" if "r \<in> set (up_rules s)" for r
  proof (rule rule_hits_cong)
    show "r_rulesets (?f r) = map (\<lambda>m. if m = ?old then n else m) (r_rulesets r)"
      by (simp add: rename_ruleset_def)
    fix m assume "m \<in> set (r_rulesets r)"
    then have "m \<noteq> n" using that assms(6) by (auto simp: list_all_iff)
    then show "catalog_path ?c' (if m = ?old then n else m) = catalog_path ?c m"
      using catalog_path_rename [OF assms(2,3,5)] catalog_path_nth [OF assms(2,3)] by simp
  qed
  have "find (\<lambda>r. rule_hits hit ?c' (?f r)) (up_rules s) = find (rule_hits hit ?c) (up_rules s)"
    by (rule find_cong_list) (rule hits)
  then show ?thesis
    using page_group_rules [OF assms(1)] page_group_rules [OF assms(7)]
    by (cases "find (rule_hits hit ?c) (up_rules s)") (simp_all add: new find_map)
qed

theorem rename_keeps_routing_witness:
  "page_group (\<lambda>p. p = ''/etc/relay/cn.drs'') sample_config
      (fst (update_catalog_entry sample_config 0 (PatchName ''china'') sample_page))
    = page_group (\<lambda>p. p = ''/etc/relay/cn.drs'') sample_config sample_page"
proof -
  have china: "js_trim ''china'' = ''china''" by (rule js_trim_graphic) (simp add: graphic_def)
  have new: "fst (update_catalog_entry sample_config 0 (PatchName ''china'') sample_page) =
      sample_page\<lparr>up_catalog := [\<lparr>ce_name = ''china'', ce_path = ''/etc/relay/cn.drs''\<rparr>],
        up_rules := [sample_rule\<lparr>r_rulesets := [''china'']\<rparr>]\<rparr>"
    by (simp add: update_catalog_entry_def commit_def sample_page_def sample_catalog_def sample_rule_def
        rename_ruleset_def map_nth_with_def Let_def)
  have plain: "page_plain sample_page" using sample_plain by (simp add: page_plain_def sample_page_def)
  show ?thesis
    by (rule rename_keeps_routing [OF plain])
      (simp_all add: new, simp_all add: sample_page_def sample_catalog_def sample_rule_def page_plain_def
        plain_rule_def ordinary_rule_def china)
qed

text \<open>
  Clearing a name before typing a new one detaches the rules: after the name of an entry was
  emptied and another name typed, the rules still refer to the old name, the catalogue does not know
  it any more, and the file of the entry is in no committed entry of a rule that used it under the
  old name alone.
\<close>

theorem cleared_name_detaches_rules:
  assumes "distinct (map ce_name (up_catalog s))" and "i < length (up_catalog s)"
    and "ce_name (up_catalog s ! i) = old" and "old \<noteq> []" and "n \<noteq> old"
    and "[] \<notin> ce_name ` set (up_catalog s)" and "list_all (\<lambda>r. [] \<notin> set (r_rulesets r)) (up_rules s)"
    and "old \<notin> set object_proto"
    and "s' = fst (update_catalog_entry config i (PatchName n) (fst (update_catalog_entry config i (PatchName []) s)))"
  shows "up_rules s' = up_rules s \<and> catalog_path (up_catalog s') old = None
    \<and> ruleset_entries (path_table (up_catalog s')) g [old] = []"
proof -
  let ?c = "map_nth_with i (patch_entry (PatchName n)) (map_nth_with i (patch_entry (PatchName [])) (up_catalog s))"
  have "rename_ruleset [] n r = r" if "r \<in> set (up_rules s)" for r
  proof -
    have "map (\<lambda>m. if m = [] then n else m) (r_rulesets r) = r_rulesets r"
      using that assms(7) by (intro map_idI) (auto simp: list_all_iff)
    then show ?thesis by (simp add: rename_ruleset_def)
  qed
  then have id: "map (rename_ruleset [] n) (up_rules s) = up_rules s" by (simp add: map_idI)
  have s': "s' = s\<lparr>up_catalog := ?c, up_rules := up_rules s\<rparr>"
    using assms(2) by (auto simp: assms(9) update_catalog_entry_def commit_def Let_def id map_nth_with_eq)
  have "old \<notin> ce_name ` set ?c"
  proof
    assume "old \<in> ce_name ` set ?c"
    then obtain j where j: "j < length (up_catalog s)" "ce_name (?c ! j) = old"
      by (auto simp: in_set_conv_nth)
    then have "j \<noteq> i" using assms(2,5) by (auto simp: map_nth_with_eq)
    with j have "ce_name (up_catalog s ! j) = old" using assms(2) by (simp add: map_nth_with_eq)
    with j(1) \<open>j \<noteq> i\<close> assms(1,2,3) nth_eq_iff_index_eq [of "map ce_name (up_catalog s)" i j]
    show False by simp
  qed
  then have none: "catalog_path ?c old = None" by (simp add: catalog_path_None)
  then have "obj_read (path_table ?c) old = JUndef" using assms(8) by (simp add: read_path_table)
  with none s' show ?thesis by (simp add: ruleset_entries_def)
qed

theorem cleared_name_detaches_rules_witness:
  "up_rules (fst (update_catalog_entry sample_config 0 (PatchName ''china'')
      (fst (update_catalog_entry sample_config 0 (PatchName []) sample_page)))) = [sample_rule]"
  using cleared_name_detaches_rules [OF _ _ _ _ _ _ _ _ refl, of sample_page 0 "''cn''" "''china''" sample_config]
  by (simp add: sample_page_def sample_catalog_def sample_rule_def object_proto_def)

text \<open>
  Deleting a rule set concerns its own domains only: every domain that its file does not contain
  is served by the same settings as before.
\<close>

theorem removed_file_affects_its_domains_only:
  assumes "page_plain s" and "distinct (map ce_name (up_catalog s))" and "i < length (up_catalog s)"
    and "page_plain (fst (remove_catalog_entry config i s))"
    and "\<not> hit (ce_path (up_catalog s ! i))"
  shows "page_group hit config (fst (remove_catalog_entry config i s)) = page_group hit config s"
proof -
  let ?c = "up_catalog s" and ?name = "ce_name (up_catalog s ! i)"
  have new: "fst (remove_catalog_entry config i s) =
      s\<lparr>up_catalog := drop_nth i ?c, up_rules := map (forget_ruleset ?name) (up_rules s)\<rparr>"
    by (simp add: remove_catalog_entry_def commit_def)
  have same: "catalog_path (drop_nth i ?c) m = catalog_path ?c m" if "m \<noteq> ?name" for m
    using catalog_path_drop [OF assms(3)] that by blast
  have "rule_hits hit (drop_nth i ?c) (forget_ruleset ?name r) = rule_hits hit ?c r" for r
    unfolding rule_hits_def forget_ruleset_def list_ex_iff
    using same catalog_path_nth [OF assms(2,3)] assms(5) by (auto split: option.splits)
  then show ?thesis
    using page_group_rules [OF assms(1)] page_group_rules [OF assms(4)]
    by (cases "find (rule_hits hit ?c) (up_rules s)") (simp_all add: new find_map)
qed

theorem removed_file_affects_its_domains_only_witness:
  "page_group (\<lambda>p. p = ''/etc/relay/ads.drs'') sample_config (fst (remove_catalog_entry sample_config 0 sample_page))
    = page_group (\<lambda>p. p = ''/etc/relay/ads.drs'') sample_config sample_page"
proof -
  have new: "fst (remove_catalog_entry sample_config 0 sample_page) =
      sample_page\<lparr>up_catalog := [], up_rules := [sample_rule\<lparr>r_rulesets := []\<rparr>]\<rparr>"
    by (simp add: remove_catalog_entry_def commit_def sample_page_def sample_catalog_def sample_rule_def
        forget_ruleset_def drop_nth_eq)
  have plain: "page_plain sample_page" using sample_plain by (simp add: page_plain_def sample_page_def)
  show ?thesis
    by (rule removed_file_affects_its_domains_only [OF plain])
      (simp_all add: new, simp_all add: sample_page_def sample_catalog_def sample_rule_def page_plain_def
        plain_rule_def ordinary_rule_def)
qed

lemma moved_rules:
  assumes "i < length rules" and "dir = 1 \<or> dir = - 1" and "0 \<le> int i + dir" and "int i + dir < int (length rules)"
  shows "\<exists>xs a b ys. {a, b} = {rules ! i, rules ! nat (int i + dir)} \<and> rules = xs @ a # b # ys
    \<and> rules[i := rules ! nat (int i + dir), nat (int i + dir) := rules ! i] = xs @ b # a # ys"
proof -
  have split: "rules = take k rules @ rules ! k # rules ! Suc k # drop (Suc (Suc k)) rules"
    if "Suc k < length rules" for k
    using that by (metis Cons_nth_drop_Suc Suc_lessD id_take_nth_drop)
  show ?thesis
  proof (cases "dir = 1")
    case True
    with assms have k: "Suc i < length rules" "nat (int i + dir) = Suc i" by auto
    show ?thesis
      using split [OF k(1)] swap_next [OF k(1)] unfolding k(2)
      by (intro exI [of _ "take i rules"] exI [of _ "rules ! i"] exI [of _ "rules ! Suc i"]
          exI [of _ "drop (Suc (Suc i)) rules"]) simp
  next
    case False
    with assms obtain k where i: "i = Suc k" "nat (int i + dir) = k" by (cases i) auto
    have k: "Suc k < length rules" using assms(1) i(1) by simp
    have "rules[Suc k := rules ! k, k := rules ! Suc k] = rules[k := rules ! Suc k, Suc k := rules ! k]"
      by (rule list_update_swap) simp
    then show ?thesis
      using split [OF k] swap_next [OF k] unfolding i(1) i(2) [unfolded i(1)]
      by (intro exI [of _ "take k rules"] exI [of _ "rules ! k"] exI [of _ "rules ! Suc k"]
          exI [of _ "drop (Suc (Suc k)) rules"]) (simp add: insert_commute)
  qed
qed

text \<open>
  Moving a rule past its neighbour, up or down, is a swap: the rules stay the same up to order, and
  every domain that is not in files of both rules is served by the same settings as before. At the
  ends of the list the arrows do nothing.
\<close>

theorem moved_rule_keeps_disjoint_routing:
  assumes "page_plain s" and "i < length (up_rules s)" and "dir = 1 \<or> dir = - 1"
    and "j = int i + dir"
    and "\<not> (rule_hits hit (up_catalog s) (up_rules s ! i) \<and> rule_hits hit (up_catalog s) (up_rules s ! nat j))
         \<or> j < 0 \<or> int (length (up_rules s)) \<le> j"
  shows "page_group hit config (fst (move_rule config i dir s)) = page_group hit config s
    \<and> mset (up_rules (fst (move_rule config i dir s))) = mset (up_rules s)
    \<and> (j < 0 \<or> int (length (up_rules s)) \<le> j \<longrightarrow> move_rule config i dir s = (s, []))"
proof (cases "j < 0 \<or> int (length (up_rules s)) \<le> j")
  case True
  then show ?thesis by (auto simp: move_rule_def assms(4) Let_def)
next
  case False
  let ?rules = "(up_rules s)[i := up_rules s ! nat j, nat j := up_rules s ! i]"
  obtain xs a b ys where w: "{a, b} = {up_rules s ! i, up_rules s ! nat j}"
    "up_rules s = xs @ a # b # ys" "?rules = xs @ b # a # ys"
    using moved_rules [OF assms(2,3)] False assms(4) by auto
  have new: "fst (move_rule config i dir s) = s\<lparr>up_rules := ?rules\<rparr>"
    using False by (simp add: move_rule_def assms(4) Let_def commit_def)
  have "\<not> (rule_hits hit (up_catalog s) a \<and> rule_hits hit (up_catalog s) b)"
    using assms(5) False w(1) by (auto simp: doubleton_eq_iff)
  note swap = find_swap [of "rule_hits hit (up_catalog s)" a b xs ys, OF this]
  have f: "find (rule_hits hit (up_catalog s)) ?rules = find (rule_hits hit (up_catalog s)) (up_rules s)"
    unfolding w(3) unfolding w(2) by (rule swap [symmetric])
  have "page_plain (s\<lparr>up_rules := ?rules\<rparr>)" using assms(1) w by (auto simp: page_plain_def)
  from page_group_rules [OF this] page_group_rules [OF assms(1)] f new w(2,3) False
  show ?thesis by simp
qed

theorem moved_rule_keeps_disjoint_routing_witness:
  "mset (up_rules (fst (move_rule sample_config 0 1
      (sample_page\<lparr>up_rules := [sample_rule, sample_rule\<lparr>r_rulesets := []\<rparr>]\<rparr>))))
    = {#sample_rule, sample_rule\<lparr>r_rulesets := []\<rparr>#}"
proof -
  let ?s = "sample_page\<lparr>up_rules := [sample_rule, sample_rule\<lparr>r_rulesets := []\<rparr>]\<rparr>"
  have "page_plain ?s"
    using sample_plain by (simp add: page_plain_def sample_page_def plain_rule_def ordinary_rule_def)
  from moved_rule_keeps_disjoint_routing
    [OF this _ _ refl, of 0 1 "\<lambda>p. p = ''/etc/relay/cn.drs''" sample_config]
  show ?thesis by (simp add: rule_hits_def)
qed

lemma upage_handle_agrees:
  "upage_handle config e s = (s', as) \<Longrightarrow>
     (as = [] \<and> up_catalog s' = up_catalog s \<and> up_rules s' = up_rules s)
     \<or> as = commit_to_config config (up_catalog s') (up_rules s')"
  by (cases e)
    (auto simp: add_catalog_entry_def update_catalog_entry_def remove_catalog_entry_def add_rule_def
      update_rule_def remove_rule_def move_rule_def commit_def Let_def split: if_splits)

lemma run_commit:
  assumes "committed config catalog rules = (groups, sets)" and "cs_config st = JObj ps" and "wf_props ps"
  shows "\<exists>qs. cs_config (run_actions (commit_to_config config catalog rules) st) = JObj qs \<and> wf_props qs
    \<and> map_of qs = (map_of ps)(''groups'' \<mapsto> JObj groups, ''rulesets'' \<mapsto> JArr sets)
    \<and> cs_dirty (run_actions (commit_to_config config catalog rules) st)"
  using assms(2,3)
  by (simp add: commit_to_config_def assms(1) run_actions_def update_section_def set_section_def
      spread_Nil_wf wf_obj_put)

text \<open>
  C8. The page and the store never part: every control either changes neither the lists of the page
  nor the store, or writes exactly what committing the page's new lists gives; the store then holds
  these groups and rule sets, is dirty, and every other section reads as before.
\<close>

theorem page_and_store_agree:
  assumes "upage_handle config e s = (s', as)" and "cs_config st = JObj ps" and "wf_props ps"
    and "committed config (up_catalog s') (up_rules s') = (groups, sets)"
  shows "(run_actions as st = st \<and> up_catalog s' = up_catalog s \<and> up_rules s' = up_rules s)
    \<or> (\<exists>qs. cs_config (run_actions as st) = JObj qs \<and> wf_props qs
        \<and> map_of qs = (map_of ps)(''groups'' \<mapsto> JObj groups, ''rulesets'' \<mapsto> JArr sets)
        \<and> cs_dirty (run_actions as st))"
  using upage_handle_agrees [OF assms(1)] run_commit [OF assms(4,2,3)] by (auto simp: run_actions_def)

theorem page_and_store_agree_witness:
  "\<exists>qs. cs_config (run_actions (snd (upage_handle sample_config AddRule (sample_page\<lparr>up_rules := []\<rparr>)))
        (initial_cstore\<lparr>cs_config := JObj []\<rparr>)) = JObj qs
     \<and> map_of qs ''rulesets'' = Some (JArr [])"
proof -
  let ?s = "sample_page\<lparr>up_rules := []\<rparr>" and ?t = "sample_page\<lparr>up_rules := [empty_rule]\<rparr>"
  have h: "upage_handle sample_config AddRule ?s =
      (?t, commit_to_config sample_config (up_catalog ?t) (up_rules ?t))"
    by (simp add: add_rule_def commit_def)
  have c: "committed sample_config (up_catalog ?t) (up_rules ?t) =
      (fst (committed sample_config (up_catalog ?t) (up_rules ?t)), [])"
    by (simp add: committed_def empty_rule_def ruleset_entries_def split: prod.split)
  have "run_actions (commit_to_config sample_config (up_catalog ?t) (up_rules ?t)) (initial_cstore\<lparr>cs_config := JObj []\<rparr>)
      \<noteq> initial_cstore\<lparr>cs_config := JObj []\<rparr>"
    using run_commit [OF c, of "initial_cstore\<lparr>cs_config := JObj []\<rparr>" "[]"]
    by (auto simp: initial_cstore_def)
  with page_and_store_agree [OF h _ _ c, of "initial_cstore\<lparr>cs_config := JObj []\<rparr>" "[]"]
  show ?thesis unfolding h by auto
qed

text \<open>
  The names of the catalogue stay distinct under every control but the renaming of an entry to a
  name that another entry has: the add button refuses such a name (and empty fields), the renaming
  does not.
\<close>

theorem catalogue_names_stay_distinct:
  assumes "distinct (map ce_name (up_catalog s))"
    and "\<And>i n. e = UpdateEntry i (PatchName n) \<Longrightarrow> n \<notin> ce_name ` set (drop_nth i (up_catalog s))"
  shows "distinct (map ce_name (up_catalog (fst (upage_handle config e s))))"
proof (cases e)
  case AddEntry
  then show ?thesis
    using assms(1) by (auto simp: add_catalog_entry_def commit_def Let_def list_ex_iff)
next
  case (UpdateEntry i patch)
  have new: "up_catalog (fst (upage_handle config e s)) = map_nth_with i (patch_entry patch) (up_catalog s)"
    by (simp add: UpdateEntry update_catalog_entry_def commit_def Let_def)
  show ?thesis
  proof (cases patch)
    case (PatchName n)
    have "n \<notin> set (take i (map ce_name (up_catalog s))) \<union> set (drop (Suc i) (map ce_name (up_catalog s)))"
      using assms(2) [of i n] UpdateEntry PatchName by (simp add: drop_nth_eq take_map drop_map image_Un)
    moreover have "map ce_name (map_nth_with i (patch_entry patch) (up_catalog s)) =
        (map ce_name (up_catalog s))[i := n]" if "i < length (up_catalog s)"
      using that by (simp add: PatchName map_nth_with_eq map_update)
    ultimately show ?thesis
      unfolding new using assms(1) set_take_disj_set_drop_if_distinct [OF assms(1), of i "Suc i"]
      by (cases "i < length (up_catalog s)") (auto simp: upd_conv_take_nth_drop map_nth_with_eq)
  next
    case (PatchPath p)
    have "map ce_name (map_nth_with i (patch_entry patch) (up_catalog s)) = map ce_name (up_catalog s)"
      by (simp add: PatchPath map_nth_with_eq map_update list_update_same_conv)
    then show ?thesis unfolding new using assms(1) by simp
  qed
next
  case (RemoveEntry i)
  then show ?thesis
    using assms(1) by (auto simp: remove_catalog_entry_def commit_def map_drop_nth) (simp add: drop_nth_eq set_take_disj_set_drop_if_distinct)
qed (use assms(1) in \<open>auto simp: add_rule_def update_rule_def remove_rule_def move_rule_def commit_def Let_def\<close>)

theorem catalogue_names_stay_distinct_witness:
  "distinct (map ce_name (up_catalog (fst (upage_handle sample_config (UpdateEntry 0 (PatchName ''china'')) sample_page))))"
  by (rule catalogue_names_stay_distinct) (simp_all add: sample_page_def sample_catalog_def drop_nth_eq)

end
