(* ===== verification/Config_Tabs.thy ===== *)
theory Config_Tabs
  imports Upstreams
begin

text \<open>
  The other tabs of the configuration page (\<open>src/web/ui/src/pages/config/\<close>): \<open>BasicTab.jsx\<close>,
  \<open>CacheTab.jsx\<close>, \<open>HostsTab.jsx\<close>, \<open>FirewallTab.jsx\<close>, \<open>DhcpTab.jsx\<close>, \<open>WebTab.jsx\<close> with its password form,
  and the frame of \<open>index.jsx\<close>. A tab is a function of the configuration that is shown; the effect of
  a control is the list of changes it makes to the store. A section is read with its defaults when
  the configuration has none, and is written as a whole.
\<close>

type_synonym tab = "jsval \<Rightarrow> caction list dom"

definition or_null :: "string \<Rightarrow> jsval" where
  "or_null v = js_or (JStr v) JNull"

definition switch_on :: "jsval \<Rightarrow> jsval" where
  "switch_on v = JBool (truthy v)"

definition number_attrs :: "nat \<Rightarrow> jsval \<Rightarrow> (string \<times> jsval) list" where
  "number_attrs least v =
     [(''type'', JStr ''number''), (''min'', JNum (Fin (of_nat least))), (''value'', v)]"

subsection \<open>BasicTab\<close>

definition basic_groups :: "jsval \<Rightarrow> jsval" where
  "basic_groups config = js_or (field config ''groups'') (JObj [])"

definition basic_default_group :: "jsval \<Rightarrow> jsval" where
  "basic_default_group config =
     js_or (field (basic_groups config) ''default'')
       (JObj [(''servers'', JArr []), (''strategy'', JStr ''round_robin''), (''insecure'', JBool False),
              (''client-subnet'', JNull)])"

definition set_default_group :: "jsval \<Rightarrow> jsval \<Rightarrow> caction list" where
  "set_default_group config g =
     [ASection ''groups'' (JObj (obj_put ''default'' g (spread [] (basic_groups config))))]"

definition BasicTab :: tab where
  "BasicTab config =
     (let g = basic_default_group config;
          set_group = (\<lambda>k v. set_default_group config (put_field (k, v) g))
      in Elem ''div'' [] []
        [FormRow
           [Select [(''value'', field config ''log-level'')] [OnChange (\<lambda>s. [AUpdate [''log-level''] (JStr s)])]
              (map Option [''trace'', ''debug'', ''info'', ''warn'', ''error''])],
         FormRow
           [Input [(''value'', field config ''listen'')] [OnChange (\<lambda>s. [AUpdate [''listen''] (JStr s)])]],
         FormRow
           [Select [(''value'', field config ''strategy'')] [OnChange (\<lambda>s. [AUpdate [''strategy''] (JStr s)])]
              (map Option [''all'', ''prefer_ipv4'', ''prefer_ipv6'', ''ipv4_only'', ''ipv6_only''])],
         FormRow
           [Toggle (field config ''manage-resolv-conf'') (\<lambda>v. [AUpdate [''manage-resolv-conf''] v])],
         FormRow
           [StringListEditor (items_or_empty (field config ''default-nameserver''))
              (\<lambda>v. [AUpdate [''default-nameserver''] v])],
         Elem ''div'' [] []
           [SectionTitle [] [],
            Card
              [Elem ''div'' [] []
                 [Select [(''value'', js_or (field g ''strategy'') (JStr ''round_robin''))]
                    [OnChange (\<lambda>s. set_group ''strategy'' (JStr s))]
                    (map Option [''random'', ''round_robin'', ''fastest'']),
                  Input [(''value'', js_or (field g ''client-subnet'') (JStr []))]
                    [OnChange (\<lambda>s. set_group ''client-subnet'' (or_null s))]],
               Toggle (switch_on (field g ''insecure'')) (\<lambda>v. set_group ''insecure'' v),
               StringListEditor (items_or_empty (field g ''servers'')) (\<lambda>v. set_group ''servers'' v)]]])"

subsection \<open>CacheTab\<close>

definition cache_of :: "jsval \<Rightarrow> jsval" where
  "cache_of config = js_or (field config ''cache'') (JObj [])"

definition CacheTab :: tab where
  "CacheTab config =
     (let cache = cache_of config;
          num = (\<lambda>k least d. FormRow
             [Input (number_attrs least (js_coalesce (field cache k) (JNum (Fin d))))
                [OnChange (\<lambda>s. [AUpdate [''cache'', k] (JNum (js_Number s))])]])
      in Elem ''div'' [] []
        [FormRow [Toggle (switch_on (field cache ''enable'')) (\<lambda>v. [AUpdate [''cache'', ''enable''] v])],
         num ''size'' 1 4096, num ''min-ttl'' 0 0, num ''max-ttl'' 0 0])"

subsection \<open>HostsTab\<close>

definition HostsTab :: tab where
  "HostsTab config =
     Elem ''div'' [] []
       [SectionTitle [] [],
        Card [KeyValueEditor (js_or (field config ''hosts'') (JObj [])) (\<lambda>v. [ASection ''hosts'' v])]]"

subsection \<open>FirewallTab\<close>

definition empty_fw :: jsval where
  "empty_fw =
     JObj [(''enable'', JBool False), (''backend'', JStr ''auto''), (''localhost-hijack'', JBool True),
           (''lan-hijack'', JBool False), (''lan-cidr'', JNull), (''lan-interface'', JNull)]"

definition fw_of :: "jsval \<Rightarrow> jsval" where
  "fw_of config = js_or (field config ''firewall'') empty_fw"

definition fw_set :: "jsval \<Rightarrow> string \<Rightarrow> jsval \<Rightarrow> caction list" where
  "fw_set config key v = [AUpdate [''firewall''] (JObj (obj_put key v (spread [] (fw_of config))))]"

definition FirewallTab :: tab where
  "FirewallTab config =
     (let fw = fw_of config; put = fw_set config in
      Elem ''div'' [] []
        ([Elem ''div'' [] [] [Toggle (switch_on (field fw ''enable'')) (put ''enable'')]]
         @ and_then (field fw ''enable'')
             [Elem ''div'' [] []
                ([FormRow
                    [Select [(''value'', js_or (field fw ''backend'') (JStr ''auto''))]
                       [OnChange (\<lambda>s. put ''backend'' (JStr s))]
                       (map Option [''auto'', ''nftables'', ''iptables'', ''pf''])],
                  FormRow [Toggle (switch_on (field fw ''localhost-hijack'')) (put ''localhost-hijack'')],
                  FormRow [Toggle (switch_on (field fw ''lan-hijack'')) (put ''lan-hijack'')]]
                 @ and_then (field fw ''lan-hijack'')
                     [FormRow
                        [Input [(''value'', js_or (field fw ''lan-cidr'') (JStr []))]
                           [OnChange (\<lambda>s. put ''lan-cidr'' (or_null s))]],
                      FormRow
                        [Input [(''value'', js_or (field fw ''lan-interface'') (JStr []))]
                           [OnChange (\<lambda>s. put ''lan-interface'' (or_null s))]]])]))"

subsection \<open>DhcpTab\<close>

definition empty_v4 :: jsval where
  "empty_v4 =
     JObj [(''enable'', JBool False), (''interface'', JStr []),
           (''range'', JArr [JStr ''192.168.1.100'', JStr ''192.168.1.200'']),
           (''lease-time'', JStr ''12h''), (''subnet'', JStr ''255.255.255.0''),
           (''gateway'', JStr ''192.168.1.1''), (''dns'', JArr []), (''domain'', JNull),
           (''lease-file'', JStr ''/var/lib/relay/dhcp4-leases.json''), (''arp-probe'', JBool True),
           (''static-leases'', JArr [])]"

definition empty_v6 :: jsval where
  "empty_v6 =
     JObj [(''enable'', JBool False), (''interface'', JStr []), (''mode'', JStr ''stateless''),
           (''prefix'', JNull), (''dns'', JArr []), (''domain'', JNull),
           (''lease-file'', JStr ''/var/lib/relay/dhcp6-leases.json''), (''lease-time'', JStr ''12h'')]"

definition empty_ra :: jsval where
  "empty_ra =
     JObj [(''enable'', JBool False), (''interface'', JStr []), (''preference'', JStr ''medium''),
           (''interval'', JNum (Fin 200)), (''managed'', JBool False), (''other'', JBool True),
           (''router-lifetime'', JNum (Fin 1800)), (''rdnss'', JArr []), (''dns-lifetime'', JNum (Fin 1800)),
           (''suppress-other-routers'', JBool False)]"

definition v4_of :: "jsval \<Rightarrow> jsval" where
  "v4_of config = js_or (field (field config ''dhcp'') ''v4'') empty_v4"

definition v4_set :: "jsval \<Rightarrow> string \<Rightarrow> jsval \<Rightarrow> caction list" where
  "v4_set config key v = [AUpdate [''dhcp'', ''v4''] (JObj (obj_put key v (spread [] (v4_of config))))]"

definition v4_range :: "jsval \<Rightarrow> jsval list" where
  "v4_range config = items_or_empty (js_or (field (v4_of config) ''range'') (JArr [JStr [], JStr []]))"

definition v4_set_range :: "jsval \<Rightarrow> nat \<Rightarrow> jsval \<Rightarrow> caction list" where
  "v4_set_range config idx v = v4_set config ''range'' (JArr (set_at idx v (v4_range config)))"

definition v6_of :: "jsval \<Rightarrow> jsval" where
  "v6_of config = js_or (field (field config ''dhcp'') ''v6'') empty_v6"

definition v6_set :: "jsval \<Rightarrow> string \<Rightarrow> jsval \<Rightarrow> caction list" where
  "v6_set config key v = [AUpdate [''dhcp'', ''v6''] (JObj (obj_put key v (spread [] (v6_of config))))]"

definition ra_of :: "jsval \<Rightarrow> jsval" where
  "ra_of config = js_or (field (field config ''dhcp'') ''ra'') empty_ra"

definition ra_set :: "jsval \<Rightarrow> string \<Rightarrow> jsval \<Rightarrow> caction list" where
  "ra_set config key v = [AUpdate [''dhcp'', ''ra''] (JObj (obj_put key v (spread [] (ra_of config))))]"

text \<open>Rows the three panels build alike: a text input, an optional text, a number, a switch.\<close>

definition text_row :: "jsval \<Rightarrow> (string \<Rightarrow> jsval \<Rightarrow> 'e) \<Rightarrow> string \<Rightarrow> 'e dom" where
  "text_row sec put k = FormRow [Input [(''value'', field sec k)] [OnChange (\<lambda>s. put k (JStr s))]]"

definition optional_row :: "jsval \<Rightarrow> (string \<Rightarrow> jsval \<Rightarrow> 'e) \<Rightarrow> string \<Rightarrow> 'e dom" where
  "optional_row sec put k =
     FormRow [Input [(''value'', js_or (field sec k) (JStr []))] [OnChange (\<lambda>s. put k (or_null s))]]"

definition number_row :: "jsval \<Rightarrow> (string \<Rightarrow> jsval \<Rightarrow> 'e) \<Rightarrow> nat \<Rightarrow> string \<Rightarrow> 'e dom" where
  "number_row sec put least k =
     FormRow [Input (number_attrs least (field sec k)) [OnChange (\<lambda>s. put k (JNum (js_Number s)))]]"

definition switch_row :: "jsval \<Rightarrow> (string \<Rightarrow> jsval \<Rightarrow> 'e) \<Rightarrow> string \<Rightarrow> 'e dom" where
  "switch_row sec put k = FormRow [Toggle (switch_on (field sec k)) (put k)]"

definition list_row :: "jsval \<Rightarrow> (string \<Rightarrow> jsval \<Rightarrow> 'e) \<Rightarrow> string \<Rightarrow> 'e dom" where
  "list_row sec put k = FormRow [StringListEditor (items_or_empty (field sec k)) (put k)]"

definition panel_switch :: "jsval \<Rightarrow> (string \<Rightarrow> jsval \<Rightarrow> 'e) \<Rightarrow> 'e dom" where
  "panel_switch sec put =
     Elem ''div'' [] [] [Elem ''p'' [] [] [], Toggle (switch_on (field sec ''enable'')) (put ''enable'')]"

definition V4Panel :: tab where
  "V4Panel config =
     (let v4 = v4_of config; put = v4_set config;
          ends = (\<lambda>i. js_or (field (field v4 ''range'') (nat_str i)) (JStr []))
      in Elem ''div'' [] []
        (panel_switch v4 put
         # and_then (field v4 ''enable'')
             [Elem ''div'' [] []
                [text_row v4 put ''interface'',
                 FormRow
                   [Input [(''value'', ends 0)] [OnChange (\<lambda>s. v4_set_range config 0 (JStr s))],
                    Input [(''value'', ends 1)] [OnChange (\<lambda>s. v4_set_range config 1 (JStr s))]],
                 text_row v4 put ''subnet'', text_row v4 put ''gateway'', list_row v4 put ''dns'',
                 optional_row v4 put ''domain'', text_row v4 put ''lease-time'', text_row v4 put ''lease-file'',
                 switch_row v4 put ''arp-probe'',
                 FormRow
                   [Card
                      [ObjectListEditor (items_or_empty (field v4 ''static-leases'')) (put ''static-leases'')
                         [\<lparr>col_key = ''mac'', col_default = JUndef\<rparr>, \<lparr>col_key = ''ip'', col_default = JUndef\<rparr>,
                          \<lparr>col_key = ''hostname'', col_default = JUndef\<rparr>]]]]]))"

definition V6Panel :: tab where
  "V6Panel config =
     (let v6 = v6_of config; put = v6_set config in
      Elem ''div'' [] []
        (panel_switch v6 put
         # and_then (field v6 ''enable'')
             [Elem ''div'' [] []
                [text_row v6 put ''interface'',
                 FormRow
                   [Select [(''value'', field v6 ''mode'')] [OnChange (\<lambda>s. put ''mode'' (JStr s))]
                      (map Option [''stateless'', ''stateful''])],
                 optional_row v6 put ''prefix'', list_row v6 put ''dns'', optional_row v6 put ''domain'',
                 text_row v6 put ''lease-time'', text_row v6 put ''lease-file'']]))"

definition RaPanel :: tab where
  "RaPanel config =
     (let ra = ra_of config; put = ra_set config in
      Elem ''div'' [] []
        (panel_switch ra put
         # and_then (field ra ''enable'')
             [Elem ''div'' [] []
                [text_row ra put ''interface'',
                 FormRow
                   [Select [(''value'', field ra ''preference'')] [OnChange (\<lambda>s. put ''preference'' (JStr s))]
                      (map Option [''low'', ''medium'', ''high''])],
                 number_row ra put 1 ''interval'', switch_row ra put ''managed'', switch_row ra put ''other'',
                 number_row ra put 0 ''router-lifetime'', list_row ra put ''rdnss'',
                 number_row ra put 0 ''dns-lifetime'', switch_row ra put ''suppress-other-routers'']]))"

text \<open>The tab itself: three buttons that choose the panel (local state), and the chosen panel.\<close>

datatype dhcp_effect = SetSub string | PanelEffect "caction list"

definition sub_tabs :: "string list" where
  "sub_tabs = [''v4'', ''v6'', ''ra'']"

definition DhcpTab :: "string \<Rightarrow> jsval \<Rightarrow> dhcp_effect dom" where
  "DhcpTab sub config =
     Elem ''div'' [] []
       ([Elem ''div'' [] []
           (map (\<lambda>k. Elem ''button''
              [(''className'', JStr (if sub = k then ''bg-white text-slate-800 shadow-sm''
                                     else ''text-slate-500 hover:text-slate-700''))]
              [OnClick (SetSub k)] []) sub_tabs)]
        @ (if sub = ''v4'' then [map_dom PanelEffect (V4Panel config)] else [])
        @ (if sub = ''v6'' then [map_dom PanelEffect (V6Panel config)] else [])
        @ (if sub = ''ra'' then [map_dom PanelEffect (RaPanel config)] else []))"

subsection \<open>WebTab and the password form\<close>

record password_form =
  pf_old :: string
  pf_new :: string
  pf_confirm :: string
  pf_loading :: bool

definition empty_password_form :: password_form where
  "empty_password_form = \<lparr>pf_old = [], pf_new = [], pf_confirm = [], pf_loading = False\<rparr>"

text \<open>
  "New password: at least 8 characters", "the two new passwords differ", "password updated, effective
  at once", "changing failed".
\<close>

definition password_short_text :: string where
  "password_short_text = cps [26032, 23494, 30721, 33267, 23569, 32, 56, 32, 20301]"

definition password_differs_text :: string where
  "password_differs_text = cps [20004, 27425, 36755, 20837, 30340, 26032, 23494, 30721, 19981, 19968, 33268]"

definition password_updated_text :: string where
  "password_updated_text = cps [23494, 30721, 24050, 26356, 26032, 65292, 31435, 21363, 29983, 25928]"

definition password_failed_text :: string where
  "password_failed_text = cps [20462, 25913, 22833, 36133]"

text \<open>\<open>submit\<close> up to its \<open>await\<close>: the form, the toasts, and the call made, if any; then the rest.\<close>

definition password_submit :: "password_form \<Rightarrow> toaster \<Rightarrow> password_form \<times> toaster \<times> api_call option" where
  "password_submit f t =
     (if js_length (pf_new f) < 8 then (f, toast_error password_short_text None t, None)
      else if pf_new f \<noteq> pf_confirm f then (f, toast_error password_differs_text None t, None)
      else (f\<lparr>pf_loading := True\<rparr>, t, Some (ChangePassword (pf_old f) (pf_new f))))"

fun password_settled :: "jsval res \<Rightarrow> password_form \<Rightarrow> toaster \<Rightarrow> password_form \<times> toaster" where
  "password_settled (Inr v) f t =
     (f\<lparr>pf_old := [], pf_new := [], pf_confirm := [], pf_loading := False\<rparr>,
      toast_success password_updated_text None t)"
| "password_settled (Inl e) f t =
     (f\<lparr>pf_loading := False\<rparr>,
      toast_error (if err_message e \<noteq> [] then err_message e else password_failed_text) None t)"

datatype password_effect = TypeOld string | TypeNew string | TypeConfirm string | SubmitPassword

fun password_type :: "password_effect \<Rightarrow> password_form \<Rightarrow> password_form" where
  "password_type (TypeOld v) f = f\<lparr>pf_old := v\<rparr>"
| "password_type (TypeNew v) f = f\<lparr>pf_new := v\<rparr>"
| "password_type (TypeConfirm v) f = f\<lparr>pf_confirm := v\<rparr>"
| "password_type SubmitPassword f = f"

definition password_input :: "string \<Rightarrow> (string \<times> jsval) list \<Rightarrow> (string \<Rightarrow> 'e) \<Rightarrow> 'e dom" where
  "password_input v extra f =
     Elem ''div'' [] []
       [Elem ''label'' [] [] [],
        Input ([(''type'', JStr ''password''), (''value'', JStr v), (''required'', JBool True)] @ extra)
          [OnChange f]]"

definition PasswordChangeCard :: "password_form \<Rightarrow> password_effect dom" where
  "PasswordChangeCard f =
     Elem ''div'' [] []
       [Elem ''h3'' [] [] [],
        Card
          [Elem ''form'' [] [OnSubmit SubmitPassword]
             [password_input (pf_old f) [] TypeOld,
              password_input (pf_new f) [(''minLength'', JNum (Fin 8))] TypeNew,
              password_input (pf_confirm f) [(''minLength'', JNum (Fin 8))] TypeConfirm,
              Button [(''type'', JStr ''submit''), (''disabled'', JBool (pf_loading f))] []
                [Text (if pf_loading f then cps [25552, 20132, 20013, 8230]
                       else cps [26356, 26032, 23494, 30721])]]]]"

definition web_auth :: "jsval \<Rightarrow> jsval" where
  "web_auth config = js_or (field (js_or (field config ''web'') (JObj [])) ''auth'') (JObj [])"

definition WebTab :: "password_form \<Rightarrow> jsval \<Rightarrow> password_effect dom" where
  "WebTab f config =
     (let web = js_or (field config ''web'') (JObj []); auth = web_auth config;
          shown = (\<lambda>v. FormRow [Input [(''value'', v), (''disabled'', JBool True)] []])
      in Elem ''div'' [] []
        ([Elem ''div'' [] []
            [Elem ''div'' [] [] [Elem ''h3'' [] [] [], Badge ''amber'' []],
             Elem ''div'' [] []
               ([shown (field web ''listen''), shown (field web ''query-log-size''),
                 shown (field web ''sqlite-path''),
                 FormRow [Badge (if truthy (field auth ''enable'') then ''green'' else ''slate'') []]]
                @ and_then (field auth ''enable'') [shown (field auth ''username'')])]]
         @ and_then (field auth ''enable'') [PasswordChangeCard f]))"

subsection \<open>The page\<close>

text \<open>
  \<open>index.jsx\<close>: the tabs, and what \<open>ConfigPageInner\<close> renders for the store and the active tab. The local
  states of the tabs with one are given; they are new whenever a tab is mounted.
\<close>

definition tab_keys :: "string list" where
  "tab_keys = [''basic'', ''upstreams'', ''hosts'', ''cache'', ''firewall'', ''dhcp'', ''web'']"

record tab_state =
  ts_upstreams :: upage
  ts_sub :: string
  ts_password :: password_form

definition mounted_tab_state :: "jsval \<Rightarrow> tab_state" where
  "mounted_tab_state config =
     \<lparr>ts_upstreams = boot_page config, ts_sub = ''v4'', ts_password = empty_password_form\<rparr>"

datatype page_effect =
    DoReload
  | DoSave
  | SelectTab string
  | DoActions "caction list"
  | DoUpstreams uevent
  | DoDhcp dhcp_effect
  | DoPassword password_effect

definition active_component :: "string \<Rightarrow> tab_state \<Rightarrow> jsval \<Rightarrow> page_effect dom list" where
  "active_component active ts config =
     (if active = ''basic'' then [map_dom DoActions (BasicTab config)]
      else if active = ''upstreams'' then [map_dom DoUpstreams (upstreams_view (ts_upstreams ts))]
      else if active = ''hosts'' then [map_dom DoActions (HostsTab config)]
      else if active = ''cache'' then [map_dom DoActions (CacheTab config)]
      else if active = ''firewall'' then [map_dom DoActions (FirewallTab config)]
      else if active = ''dhcp'' then [map_dom DoDhcp (DhcpTab (ts_sub ts) config)]
      else if active = ''web'' then [map_dom DoPassword (WebTab (ts_password ts) config)]
      else [])"

definition page_failed_text :: string where
  "page_failed_text = cps [21152, 36733, 37197, 32622, 22833, 36133]"

definition ConfigPageInner :: "cstore \<Rightarrow> string \<Rightarrow> tab_state \<Rightarrow> page_effect dom" where
  "ConfigPageInner s active ts =
     (if cs_loading s then Elem ''div'' [] [] [Spinner]
      else if cs_error s \<noteq> [] \<and> \<not> truthy (cs_config s)
      then EmptyState (JStr page_failed_text) (JStr (cs_error s))
      else Elem ''div'' [] []
        [Elem ''div'' [] []
           ([Elem ''div'' [] [] [Elem ''h1'' [] [] [], Elem ''p'' [] [] []]]
            @ and_then (JBool (cs_dirty s)) [Button [(''type'', JStr ''button'')] [OnClick DoReload] []]),
         Elem ''div'' [] []
           (map (\<lambda>k. Elem ''button''
              [(''className'', JStr (if active = k then ''bg-brand-600 text-white shadow-sm shadow-brand-500/20''
                                     else ''bg-white text-slate-600 hover:bg-slate-100 border border-slate-100''))]
              [OnClick (SelectTab k)] []) tab_keys),
         Card (active_component active ts (cs_config s)),
         Elem ''div''
           [(''className'', JStr (if cs_dirty s then ''translate-y-0'' else ''translate-y-full''))] []
           [Elem ''div'' [] []
              [Elem ''span'' [] [] [],
               Elem ''div'' [] []
                 [Button [(''type'', JStr ''button'')] [OnClick DoReload] [],
                  Button [(''disabled'', JBool (cs_saving s)), (''type'', JStr ''button'')] [OnClick DoSave]
                    [Text (if cs_saving s then cps [20445, 23384, 20013, 8230]
                           else cps [20445, 23384, 24182, 24212, 29992])]]]]])"

end
