(* ===== verification/Tab_Properties.thy ===== *)
theory Tab_Properties
  imports Config_Tabs
begin

text \<open>
  The properties of the tabs: what their controls can write, the panels that edit a section as a
  whole (a locale, interpreted for the firewall and the three DHCP panels), the agreement of the
  page with the store's machine, and the password form.
\<close>

subsection \<open>Sections edited as a whole\<close>

text \<open>
  What the firewall and DHCP panels rely on: the section is read with defaults, and a control writes
  the section back with one field changed.
\<close>

locale section_panel =
  fixes path :: "string list"
    and section_of :: "jsval \<Rightarrow> jsval"
    and set_field :: "jsval \<Rightarrow> string \<Rightarrow> jsval \<Rightarrow> caction list"
  assumes section_present: "read_path path c = Inr v \<Longrightarrow> truthy v \<Longrightarrow> section_of c = v"
    and set_field_action: "set_field c k v = [AUpdate path (put_field (k, v) (section_of c))]"
begin

lemma set_then_read:
  assumes "sections_along path (cs_config s)"
  shows "section_of (cs_config (run_actions (set_field (cs_config s) k v) s)) = put_field (k, v) (section_of (cs_config s))"
proof -
  let ?new = "put_field (k, v) (section_of (cs_config s))"
  obtain c where c: "update_path path ?new (cs_config s) = Inr c" "read_path path c = Inr ?new"
    using update_path_law [OF assms, of ?new] by blast
  have "section_of c = ?new"
    by (rule section_present [OF c(2)]) (simp add: put_field_def)
  with c(1) show ?thesis by (simp add: set_field_action run_actions_def update_def)
qed

lemma set_keeps_others:
  assumes "sections_along path (cs_config s)" and "diverge path q" and "read_path q (cs_config s) = Inr w"
  shows "read_path q (cs_config (run_actions (set_field (cs_config s) k v) s)) = Inr w"
  using update_path_law [OF assms(1), of "put_field (k, v) (section_of (cs_config s))"] assms(2,3)
  by (auto simp: set_field_action run_actions_def update_def)

lemma set_is_clean:
  assumes "sections_along path (cs_config s)"
  shows "cs_dirty (run_actions (set_field (cs_config s) k v) s)"
    and "cs_crashed (run_actions (set_field (cs_config s) k v) s) = cs_crashed s"
  using update_path_law [OF assms, of "put_field (k, v) (section_of (cs_config s))"]
  by (auto simp: set_field_action run_actions_def update_def)

lemma set_section_only: "a \<in> set (set_field c k v) \<Longrightarrow> path = p # ps \<Longrightarrow> action_section a = p"
  by (simp add: set_field_action)

end

lemma read_path_field1: "read_path [k] c = Inr v \<Longrightarrow> field c k = v"
  by (simp add: field_def split: sum.splits)

lemma read_path_field2: "read_path [j, k] c = Inr v \<Longrightarrow> field (field c j) k = v"
  by (auto simp: field_def split: sum.splits)

interpretation fw_panel: section_panel "[''firewall'']" fw_of fw_set
  by unfold_locales
    (auto simp: fw_of_def fw_set_def put_field_def js_or_def dest!: read_path_field1 simp del: read_path.simps)

interpretation v4_panel: section_panel "[''dhcp'', ''v4'']" v4_of v4_set
  by unfold_locales
    (auto simp: v4_of_def v4_set_def put_field_def js_or_def dest!: read_path_field2 simp del: read_path.simps)

interpretation v6_panel: section_panel "[''dhcp'', ''v6'']" v6_of v6_set
  by unfold_locales
    (auto simp: v6_of_def v6_set_def put_field_def js_or_def dest!: read_path_field2 simp del: read_path.simps)

interpretation ra_panel: section_panel "[''dhcp'', ''ra'']" ra_of ra_set
  by unfold_locales
    (auto simp: ra_of_def ra_set_def put_field_def js_or_def dest!: read_path_field2 simp del: read_path.simps)

lemma sections_along_sibling:
  "sections_along [j, k] c \<Longrightarrow> i \<noteq> ''__proto__'' \<Longrightarrow> sections_along [j, i] c"
  "sections_along [j, k] c \<Longrightarrow> i \<noteq> ''__proto__'' \<Longrightarrow> sections_along [i] c"
  by (cases c; simp)+

subsection \<open>What the controls of a tab can do\<close>

definition writes_only :: "string list \<Rightarrow> caction list \<Rightarrow> bool" where
  "writes_only ks as \<longleftrightarrow> (\<forall>a \<in> set as. action_section a \<in> set ks)"

lemma writes_only_simps [simp]:
  "writes_only ks []"
  "writes_only ks (a # as) \<longleftrightarrow> action_section a \<in> set ks \<and> writes_only ks as"
  by (simp_all add: writes_only_def)

lemma panel_sets [simp]:
  "writes_only ks (fw_set c k v) \<longleftrightarrow> ''firewall'' \<in> set ks"
  "writes_only ks (v4_set c k v) \<longleftrightarrow> ''dhcp'' \<in> set ks"
  "writes_only ks (v4_set_range c i v) \<longleftrightarrow> ''dhcp'' \<in> set ks"
  "writes_only ks (v6_set c k v) \<longleftrightarrow> ''dhcp'' \<in> set ks"
  "writes_only ks (ra_set c k v) \<longleftrightarrow> ''dhcp'' \<in> set ks"
  "writes_only ks (set_default_group c g) \<longleftrightarrow> ''groups'' \<in> set ks"
  by (simp_all add: fw_set_def v4_set_def v4_set_range_def v6_set_def ra_set_def set_default_group_def)

lemma rows_all:
  "(\<And>k v. P (f k v)) \<Longrightarrow> dom_all P (text_row sec f k)"
  "(\<And>k v. P (f k v)) \<Longrightarrow> dom_all P (optional_row sec f k)"
  "(\<And>k v. P (f k v)) \<Longrightarrow> dom_all P (number_row sec f least k)"
  "(\<And>k v. P (f k v)) \<Longrightarrow> dom_all P (switch_row sec f k)"
  "(\<And>k v. P (f k v)) \<Longrightarrow> dom_all P (list_row sec f k)"
  "(\<And>k v. P (f k v)) \<Longrightarrow> dom_all P (panel_switch sec f)"
  by (simp_all add: text_row_def optional_row_def number_row_def switch_row_def list_row_def panel_switch_def
      view_simps)

lemma options_all [simp]: "k \<in> set (map Option xs) \<Longrightarrow> dom_all P k"
  by (auto simp: view_simps)

lemma handlers_map_dom: "handlers (map_dom f d) = map (map_handler f) (handlers d)"
  by (induction d) (simp_all add: map_concat comp_def cong: map_cong)

lemma dom_all_map_dom: "dom_all P (map_dom f d) = dom_all (\<lambda>e. P (f e)) d"
proof -
  have "handler_all P (map_handler f h) = handler_all (\<lambda>e. P (f e)) h" for h by (cases h) simp_all
  then show ?thesis by (simp add: dom_all_def handlers_map_dom)
qed

lemma child_handlers: "d \<in> set (child v) \<Longrightarrow> handlers d = []"
  by (induction v arbitrary: d rule: child.induct) (auto split: if_splits)

lemma handlers_child [simp]: "concat (map handlers (child v)) = []"
  by (auto dest: child_handlers)

lemma child_live_handlers: "d \<in> set (child v) \<Longrightarrow> live_handlers d = []"
  using live_handlers_subset [of d] by (simp add: child_handlers)

lemma live_handlers_child [simp]: "concat (map live_handlers (child v)) = []"
  by (auto dest: child_live_handlers)

lemma handlers_outside:
  assumes "\<And>x. f x \<noteq> e"
  shows "OnClick e \<notin> set (handlers (map_dom f d))"
proof -
  have "OnClick e \<noteq> map_handler f h" for h using assms by (cases h) auto
  then show ?thesis by (auto simp: handlers_map_dom)
qed

lemma BasicTab_writes:
  "dom_all (writes_only [''log-level'', ''listen'', ''strategy'', ''manage-resolv-conf'', ''default-nameserver'',
                       ''groups'']) (BasicTab config)"
  by (simp add: BasicTab_def Let_def view_simps)

lemma CacheTab_writes: "dom_all (writes_only [''cache'']) (CacheTab config)"
  by (simp add: CacheTab_def Let_def view_simps)

lemma HostsTab_writes: "dom_all (writes_only [''hosts'']) (HostsTab config)"
  by (simp add: HostsTab_def view_simps)

lemma FirewallTab_writes: "dom_all (writes_only [''firewall'']) (FirewallTab config)"
  by (auto simp: FirewallTab_def Let_def view_simps and_then_def)

lemma V4Panel_writes: "dom_all (writes_only [''dhcp'']) (V4Panel config)"
  by (auto simp: V4Panel_def Let_def view_simps and_then_def intro!: rows_all)

lemma V6Panel_writes: "dom_all (writes_only [''dhcp'']) (V6Panel config)"
  by (auto simp: V6Panel_def Let_def view_simps and_then_def intro!: rows_all)

lemma RaPanel_writes: "dom_all (writes_only [''dhcp'']) (RaPanel config)"
  by (auto simp: RaPanel_def Let_def view_simps and_then_def intro!: rows_all)

lemma upstreams_writes: "writes_only [''groups'', ''rulesets''] (snd (upage_handle config e s))"
  by (cases e)
    (auto simp: add_catalog_entry_def update_catalog_entry_def remove_catalog_entry_def add_rule_def
      update_rule_def remove_rule_def move_rule_def commit_def commit_to_config_def Let_def split: prod.split)

subsection \<open>Properties of the tabs\<close>

text \<open>The changes an effect of the page makes to the store, and the sections each tab is about.\<close>

definition store_actions :: "jsval \<Rightarrow> tab_state \<Rightarrow> page_effect \<Rightarrow> caction list" where
  "store_actions config ts e =
     (case e of
        DoActions as \<Rightarrow> as
      | DoDhcp (PanelEffect as) \<Rightarrow> as
      | DoUpstreams u \<Rightarrow> snd (upage_handle config u (ts_upstreams ts))
      | _ \<Rightarrow> [])"

definition tab_sections :: "string \<Rightarrow> string list" where
  "tab_sections active =
     (if active = ''basic''
      then [''log-level'', ''listen'', ''strategy'', ''manage-resolv-conf'', ''default-nameserver'', ''groups'']
      else if active = ''upstreams'' then [''groups'', ''rulesets'']
      else if active \<in> {''hosts'', ''cache'', ''firewall'', ''dhcp''} then [active]
      else [])"

text \<open>
  Every control of a tab changes only the sections the tab is about: whatever is clicked or typed,
  in any configuration and any local state of the tab, the changes to the store are to these
  top-level keys; and no control of the panel settings tab changes the store at all.
\<close>

theorem tabs_write_their_sections:
  "list_all (dom_all (\<lambda>e. writes_only (tab_sections active) (store_actions config ts e)))
     (active_component active ts config)"
proof -
  have all: "dom_all P d" if "\<And>e. P e" for P and d :: "'b dom"
  proof -
    have "handler_all P h" for h :: "'b handler" using that by (cases h) auto
    then show ?thesis by (simp add: dom_all_def)
  qed
  have dhcp: "dom_all (\<lambda>e. writes_only [''dhcp''] (store_actions config ts (DoDhcp e))) (DhcpTab sub config)" for sub
    using V4Panel_writes V6Panel_writes RaPanel_writes
    by (auto simp: DhcpTab_def store_actions_def dom_all_map_dom)
  show ?thesis
    using BasicTab_writes CacheTab_writes HostsTab_writes FirewallTab_writes dhcp upstreams_writes
    by (auto simp: active_component_def tab_sections_def dom_all_map_dom store_actions_def intro!: all)
qed

text \<open>
  The firewall, DHCPv4, DHCPv6 and router advertisement panels write back what they show with one
  field changed: after a control set field \<open>k\<close> to \<open>v\<close>, the panel shows the section it showed before
  (the defaults, when the configuration had none) with \<open>k\<close> set to \<open>v\<close>, and the other panels show
  what they did.
\<close>

theorem panels_write_back:
  assumes "sections_along [''dhcp'', ''v4''] (cs_config s)"
    and "read_path [''dhcp'', ''v6''] (cs_config s) = Inr v6"
  shows "fw_of (cs_config (run_actions (fw_set (cs_config s) k v) s)) = put_field (k, v) (fw_of (cs_config s))
    \<and> v4_of (cs_config (run_actions (v4_set (cs_config s) k v) s)) = put_field (k, v) (v4_of (cs_config s))
    \<and> v6_of (cs_config (run_actions (v6_set (cs_config s) k v) s)) = put_field (k, v) (v6_of (cs_config s))
    \<and> ra_of (cs_config (run_actions (ra_set (cs_config s) k v) s)) = put_field (k, v) (ra_of (cs_config s))
    \<and> v6_of (cs_config (run_actions (v4_set (cs_config s) k v) s)) = v6_of (cs_config s)
    \<and> v6_of (cs_config (run_actions (fw_set (cs_config s) k v) s)) = v6_of (cs_config s)"
proof -
  have along: "sections_along [''firewall''] (cs_config s)" "sections_along [''dhcp'', ''v6''] (cs_config s)"
    "sections_along [''dhcp'', ''ra''] (cs_config s)"
    by (rule sections_along_sibling [OF assms(1)], simp)+
  have div: "diverge [''dhcp'', ''v4''] [''dhcp'', ''v6'']" "diverge [''firewall''] [''dhcp'', ''v6'']"
    by (simp_all add: diverge_def)
  have "v6_of c = js_or v6 empty_v6" if "read_path [''dhcp'', ''v6''] c = Inr v6" for c
    using read_path_field2 [OF that] by (simp add: v6_of_def)
  note same = this [OF v4_panel.set_keeps_others [OF assms(1) div(1) assms(2)]]
    this [OF fw_panel.set_keeps_others [OF along(1) div(2) assms(2)]] this [OF assms(2)]
  show ?thesis
    using fw_panel.set_then_read [OF along(1)] v4_panel.set_then_read [OF assms(1)]
      v6_panel.set_then_read [OF along(2)] ra_panel.set_then_read [OF along(3)]
    by (simp add: same)
qed

theorem panels_write_back_witness:
  "v4_of (cs_config (run_actions
       (v4_set (JObj [(''dhcp'', JObj [(''v4'', JNull), (''v6'', JNull)])]) ''enable'' (JBool True))
       (initial_cstore\<lparr>cs_config := JObj [(''dhcp'', JObj [(''v4'', JNull), (''v6'', JNull)])]\<rparr>)))
   = put_field (''enable'', JBool True) empty_v4"
proof -
  let ?c = "JObj [(''dhcp'', JObj [(''v4'', JNull), (''v6'', JNull)])]"
  have c: "cs_config (initial_cstore\<lparr>cs_config := ?c\<rparr>) = ?c" by simp
  have a: "sections_along [''dhcp'', ''v4''] ?c" "read_path [''dhcp'', ''v6''] ?c = Inr JNull"
    by (simp_all add: obj_read_def nullish_def)
  have d: "v4_of ?c = empty_v4" by (simp add: v4_of_def obj_read_def js_or_def)
  from panels_write_back [of "initial_cstore\<lparr>cs_config := ?c\<rparr>" JNull "''enable''" "JBool True", unfolded c, OF a]
  show ?thesis unfolding d by (elim conjE)
qed

text \<open>
  What the page lets the user do is what the store's machine allows: with a configuration, the
  save button is there and enabled exactly when the page is not loading and no save is running;
  there is a button that reloads, and any control at all, exactly when the page is not loading; and
  without a configuration, an error leaves no control on the page.
\<close>

theorem page_controls_match_machine:
  assumes "is_object (cs_config (cm_store m)) \<and> \<not> cs_crashed (cm_store m)
      \<or> cs_config (cm_store m) = JNull \<and> cs_error (cm_store m) \<noteq> []"
  shows "(OnClick DoSave \<in> set (live_handlers (ConfigPageInner (cm_store m) active ts)) \<longleftrightarrow> cm_enabled m Save)
    \<and> (OnClick DoReload \<in> set (live_handlers (ConfigPageInner (cm_store m) active ts)) \<longleftrightarrow> cm_enabled m Reload)
    \<and> (handlers (ConfigPageInner (cm_store m) active ts) \<noteq> [] \<longleftrightarrow> page_shown (cm_store m))"
proof -
  let ?s = "cm_store m"
  have tab: "OnClick e \<notin> set (live_handlers d)"
    if "d \<in> set (active_component active ts c)" "e = DoSave \<or> e = DoReload" for d c e
  proof -
    have "OnClick e \<notin> set (handlers d)"
      using that by (auto simp: active_component_def handlers_outside split: if_splits)
    then show ?thesis using live_handlers_subset by blast
  qed
  show ?thesis
  proof (cases "cs_loading ?s")
    case True
    then show ?thesis by (simp add: ConfigPageInner_def Spinner_def page_shown_def)
  next
    case idle: False
    show ?thesis
    proof (cases "is_object (cs_config ?s)")
      case True
      then have t: "truthy (cs_config ?s)" "cs_config ?s \<noteq> JNull"
        by (cases "cs_config ?s"; simp add: is_object_def)+
      have "page_shown ?s" using assms True idle t(2) by (auto simp: page_shown_def)
      with t idle show ?thesis
        by (auto simp: ConfigPageInner_def view_simps disabled_def and_then_def dest!: tab)
    next
      case False
      then have "cs_config ?s = JNull" "cs_error ?s \<noteq> []" using assms by auto
      then show ?thesis
        using idle by (simp add: ConfigPageInner_def EmptyState_def and_then_def page_shown_def)
    qed
  qed
qed

theorem page_controls_match_machine_witness:
  "OnClick DoSave \<in> set (live_handlers (ConfigPageInner (cm_store sample_machine) ''basic''
      (mounted_tab_state (cs_config (cm_store sample_machine)))))
    \<longleftrightarrow> cm_enabled sample_machine Save"
proof -
  have "is_object (cs_config (cm_store sample_machine)) \<and> \<not> cs_crashed (cm_store sample_machine)"
    using sample_shown by (simp add: page_shown_def)
  then show ?thesis using page_controls_match_machine [of sample_machine] by blast
qed

text \<open>
  The password form calls the backend exactly when the new password has at least eight characters
  and was repeated alike; every other submission leaves the form as it is and shows one error. A
  password that passes has at least eight bytes, so the backend's own check of the length never
  rejects it. After a success the three fields are empty; after an error they keep their text; in
  both cases the form is no longer loading.
\<close>

theorem password_form_rules:
  assumes "pf_new f = cps ns" and "\<forall>n \<in> set ns. n < 1114112"
  shows "snd (snd (password_submit f t)) =
      (if 8 \<le> js_length (pf_new f) \<and> pf_new f = pf_confirm f
       then Some (ChangePassword (pf_old f) (pf_new f)) else None)
    \<and> (snd (snd (password_submit f t)) \<noteq> None \<longrightarrow> 8 \<le> length (pf_new f) \<and> fst (snd (password_submit f t)) = t)
    \<and> (snd (snd (password_submit f t)) = None \<longrightarrow>
        fst (password_submit f t) = f
        \<and> (\<exists>msg. fst (snd (password_submit f t)) = push msg ErrorToast default_duration t))
    \<and> \<not> pf_loading (fst (password_settled r f t))
    \<and> (case r of
         Inr v \<Rightarrow> fst (password_settled r f t) = empty_password_form
       | Inl e \<Rightarrow> fst (password_settled r f t) = f\<lparr>pf_loading := False\<rparr>)"
proof -
  have "js_length (pf_new f) \<le> length (pf_new f)" using js_length_cps [OF assms(2)] by (simp add: assms(1))
  then show ?thesis
    by (auto simp: password_submit_def toast_with_def empty_password_form_def split: sum.split)
qed

theorem password_form_rules_witness:
  "snd (snd (password_submit (empty_password_form\<lparr>pf_new := cps [104, 228, 115]\<rparr>) no_toasts)) = None"
  using password_form_rules [of "empty_password_form\<lparr>pf_new := cps [104, 228, 115]\<rparr>" "[104, 228, 115]" no_toasts "Inr JNull"]
  by (simp add: js_length_def cps_def utf8_cp_def)

end
