(* ===== verification/Dashboard.thy ===== *)
theory Dashboard
  imports Session Loader Upstreams
begin

text \<open>
  The overview page, \<open>src/web/ui/src/pages/Dashboard.jsx\<close>: its state and the answers to its periodic
  requests, and what it computes from the data and shows (rates, bars, uptime, tables). The page has
  no controls. What \<open>Date\<close> reads from a text and how a time or a number is written in the browser's
  locale are parameters; the two charts of the charting library are elements that carry the data and
  the colours given to them.
\<close>

subsection \<open>State\<close>

record dash =
  d_data :: jsval
  d_error :: string
  d_loading :: bool
  d_signed_out :: bool

definition initial_dash :: dash where
  "initial_dash = \<lparr>d_data = JNull, d_error = [], d_loading = True, d_signed_out = False\<rparr>"

text \<open>"Loading failed".\<close>

definition dash_failed_text :: string where
  "dash_failed_text = cps [21152, 36733, 22833, 36133]"

fun dash_end :: "jsval res \<Rightarrow> dash \<Rightarrow> dash" where
  "dash_end (Inr d) s = s\<lparr>d_data := d, d_error := [], d_loading := False\<rparr>"
| "dash_end (Inl e) s =
     (if err_name e = ''AuthError'' then s\<lparr>d_signed_out := True, d_loading := False\<rparr>
      else s\<lparr>d_error := (if is_api_error e then err_message e else dash_failed_text), d_loading := False\<rparr>)"

text \<open>The period of the requests, in milliseconds.\<close>

definition dash_period :: nat where
  "dash_period = 5000"

subsection \<open>Numbers\<close>

text \<open>\<open>v?.toFixed(1)\<close> of a number.\<close>

definition opt_fixed1 :: "jsval \<Rightarrow> jsval" where
  "opt_fixed1 v = (case v of JNum n \<Rightarrow> JStr (to_fixed1 n) | _ \<Rightarrow> JUndef)"

fun num_of :: "jsval \<Rightarrow> jsnum" where
  "num_of (JNum n) = n"
| "num_of (JStr s) = js_Number s"
| "num_of _ = NaN"

text \<open>\<open>Number(v || 0)\<close> of the fixed text of a latency.\<close>

definition chart_latency :: "jsval \<Rightarrow> jsnum" where
  "chart_latency v = num_of (js_or (opt_fixed1 v) (JNum (Fin 0)))"

text \<open>
  The success rate: \<open>((success / queries) * 100).toFixed(1)\<close>, a dash without queries; its tone and its
  text.
\<close>

definition dash_mark :: string where
  "dash_mark = cps [8212]"

definition success_rate :: "jsval \<Rightarrow> string" where
  "success_rate s =
     (let q = num_of (field s ''queries'') in
      if js_gt q (Fin 0)
      then to_fixed1 (js_mul (js_div (num_of (field s ''success'')) q) (Fin 100)) else dash_mark)"

definition rate_tone :: "string \<Rightarrow> string" where
  "rate_tone rate =
     (if rate = dash_mark then ''slate''
      else if js_gt (js_Number rate) (Fin 95) then ''green''
      else if js_gt (js_Number rate) (Fin 80) then ''amber''
      else ''red'')"

definition rate_text :: "string \<Rightarrow> string" where
  "rate_text rate = (if rate = dash_mark then rate else rate @ ''%'')"

text \<open>The width of a bar: at least four percent of the first rule's count.\<close>

definition bar_percent :: "jsval \<Rightarrow> jsval \<Rightarrow> jsnum" where
  "bar_percent first_count count =
     js_max (Fin 4) (js_mul (js_div (num_of count) (num_of (js_or first_count (JNum (Fin 1))))) (Fin 100))"

text \<open>
  \<open>formatUptime\<close>, in whole milliseconds; the start is \<open>None\<close> when \<open>Date\<close> cannot read it, and the
  arithmetic then gives \<open>NaN\<close>.
\<close>

definition format_uptime :: "int option \<Rightarrow> int \<Rightarrow> string" where
  "format_uptime start now =
     (case start of
        None \<Rightarrow> ''NaN '' @ cps [23567, 26102] @ '' NaN '' @ cps [20998, 38047]
      | Some t \<Rightarrow>
          (let diff = max 0 (now - t); h = diff div 3600000; m = diff mod 3600000 div 60000 in
           if 24 < h
           then int_str (h div 24) @ '' '' @ cps [22825] @ '' '' @ int_str (h mod 24) @ '' ''
                @ cps [23567, 26102]
           else int_str h @ '' '' @ cps [23567, 26102] @ '' '' @ int_str m @ '' ''
                @ cps [20998, 38047]))"

text \<open>\<open>formatNum\<close>: \<open>toLocaleString\<close> is the parameter.\<close>

definition format_num :: "(jsval \<Rightarrow> string) \<Rightarrow> jsval \<Rightarrow> string" where
  "format_num locale_num n = (if nullish n then ''0'' else locale_num n)"

subsection \<open>The view\<close>

definition colors :: "string list" where
  "colors = [''#5b63ee'', ''#10b981'', ''#f59e0b'', ''#ef4444'', ''#06b6d4'', ''#8b5cf6'']"

definition color_at :: "nat \<Rightarrow> jsval" where
  "color_at i = JStr (colors ! (i mod length colors))"

text \<open>An item \<open>[a, b]\<close> of a list of pairs.\<close>

definition pair_of :: "jsval \<Rightarrow> jsval \<times> jsval" where
  "pair_of p = (field p ''0'', field p ''1'')"

definition rcode_tone :: "jsval \<Rightarrow> string" where
  "rcode_tone q =
     (if field q ''rcode'' = JStr ''NOERROR'' then ''green''
      else if truthy (field q ''blocked'') then ''red'' else ''amber'')"

definition rcode_badge :: "jsval \<Rightarrow> 'e dom" where
  "rcode_badge q = Badge (rcode_tone q) (child (field q ''rcode''))"

definition in_ms :: "jsval \<Rightarrow> 'e dom list" where
  "in_ms v = child (opt_fixed1 v) @ [Text '' ms'']"

definition rcode_card :: "jsval \<Rightarrow> 'e dom" where
  "rcode_card stats =
     (let rcodes = map pair_of (items_or_empty (field stats ''by_rcode'')) in
      Card [SectionTitle [] [],
        if rcodes = [] then EmptyState (JStr []) JUndef
        else Elem ''div'' [] []
          [Elem ''Pie''
             [(''data'', JArr (map (\<lambda>(name, value). JObj [(''name'', name), (''value'', value)]) rcodes))] []
             (map (\<lambda>(i, _). Elem ''Cell'' [(''fill'', color_at i)] [] []) (enumerate 0 rcodes)),
           Elem ''div'' [] []
             (map (\<lambda>(i, name, value). Elem ''div'' [] []
                [Elem ''span'' [(''background'', color_at i)] [] [], Elem ''span'' [] [] (child name),
                 Elem ''span'' [] [] (child value)]) (enumerate 0 rcodes))]])"

definition latency_card :: "(jsval \<times> jsval) list \<Rightarrow> 'e dom" where
  "latency_card upstreams =
     Card [SectionTitle [] [],
       if upstreams = [] then EmptyState (JStr []) JUndef
       else Elem ''BarChart''
         [(''data'', JArr (map (\<lambda>(name, s). JObj [(''name'', name), (''queries'', field s ''queries''),
             (''latency'', JNum (chart_latency (field s ''latency_ema_ms'')))]) upstreams))] [] []]"

definition rate_badge :: "jsval \<Rightarrow> 'e dom" where
  "rate_badge s = Badge (rate_tone (success_rate s)) [Text (rate_text (success_rate s))]"

definition upstream_row :: "jsval \<times> jsval \<Rightarrow> 'e dom" where
  "upstream_row = (\<lambda>(name, s). Elem ''tr'' [] []
     [Elem ''td'' [] [] (child name), Elem ''td'' [] [] (child (field s ''queries'')),
      Elem ''td'' [] [] [rate_badge s], Elem ''td'' [] [] (in_ms (field s ''latency_ema_ms''))])"

definition upstream_item :: "jsval \<times> jsval \<Rightarrow> 'e dom" where
  "upstream_item = (\<lambda>(name, s). Elem ''div'' [] []
     [Elem ''div'' [] []
        [Elem ''div'' [] [] (child name),
         Elem ''div'' [] [] (child (field s ''queries'') @ in_ms (field s ''latency_ema_ms''))],
      rate_badge s])"

definition upstream_card :: "(jsval \<times> jsval) list \<Rightarrow> 'e dom" where
  "upstream_card upstreams =
     Card ([SectionTitle [] []]
       @ (if upstreams = [] then [EmptyState (JStr []) JUndef]
          else [Elem ''table'' [] [] (map upstream_row upstreams),
                Elem ''div'' [] [] (map upstream_item upstreams)]))"

definition rule_bar :: "jsval \<Rightarrow> jsval \<times> jsval \<Rightarrow> 'e dom" where
  "rule_bar first_count = (\<lambda>(name, count). Elem ''div'' [] []
     [Elem ''span'' [] [] (child name),
      Elem ''div'' [] []
        [Elem ''div'' [(''width'', JStr (num_str (bar_percent first_count count) @ ''%''))] [] []],
      Elem ''span'' [] [] (child count)])"

definition rules_card :: "(jsval \<times> jsval) list \<Rightarrow> 'e dom" where
  "rules_card rules =
     Card [SectionTitle [] [],
       Elem ''div'' [] []
         (if rules = [] then [EmptyState (JStr []) JUndef]
          else map (rule_bar (snd (hd rules))) (take 8 rules))]"

definition recent_row :: "(jsval \<Rightarrow> string) \<Rightarrow> jsval \<Rightarrow> 'e dom" where
  "recent_row locale_time q = Elem ''tr'' [] []
     [Elem ''td'' [] [] [Text (locale_time (field q ''time''))], Elem ''td'' [] [] (child (field q ''domain'')),
      Elem ''td'' [] [] (child (field q ''qtype'')), Elem ''td'' [] [] (child (field q ''upstream'')),
      Elem ''td'' [] [] [rcode_badge q], Elem ''td'' [] [] (in_ms (field q ''latency_ms''))]"

definition recent_item :: "(jsval \<Rightarrow> string) \<Rightarrow> jsval \<Rightarrow> 'e dom" where
  "recent_item locale_time q = Elem ''div'' [] []
     [Elem ''div'' [] [] [Elem ''span'' [] [] (child (field q ''domain'')), rcode_badge q],
      Elem ''div'' [] []
        [Elem ''span'' [] [] [Text (locale_time (field q ''time''))], Elem ''span'' [] [] (child (field q ''qtype'')),
         Elem ''span'' [] [] (child (field q ''upstream'')), Elem ''span'' [] [] (in_ms (field q ''latency_ms''))]]"

definition recent_card :: "(jsval \<Rightarrow> string) \<Rightarrow> jsval list \<Rightarrow> 'e dom" where
  "recent_card locale_time queries =
     Card ([SectionTitle [] []]
       @ (if queries = [] then [EmptyState (JStr []) JUndef]
          else [Elem ''table'' [] [] (map (recent_row locale_time) (take 10 queries)),
                Elem ''div'' [] [] (map (recent_item locale_time) (take 10 queries))]))"

text \<open>
  The page for its data, at the time \<open>now\<close>; \<open>epoch\<close> is what \<open>new Date(v).getTime()\<close> reads. The four
  figures on top carry the values as they are shown.
\<close>

definition dash_content ::
  "(jsval \<Rightarrow> int option) \<Rightarrow> (jsval \<Rightarrow> string) \<Rightarrow> (jsval \<Rightarrow> string) \<Rightarrow> int \<Rightarrow> jsval \<Rightarrow> 'e dom" where
  "dash_content epoch locale_time locale_num now data =
     (let stats = field data ''stats'';
          upstreams = map pair_of (items_or_empty (field data ''upstreams''));
          rules = map pair_of (items_or_empty (field data ''rules''));
          recent = items_or_empty (field data ''recent_queries'');
          figure = (\<lambda>v accent. StatCard (JStr []) (JStr v) JUndef accent [Elem ''svg'' [] [] []])
      in Elem ''div'' [] []
        [Elem ''p'' [] [] [Text (format_uptime (epoch (field stats ''started_at'')) now)],
         Elem ''div'' [] []
           [figure (format_num locale_num (field stats ''total_queries'')) ''brand'',
            figure (format_num locale_num (field stats ''total_blocked'')) ''rose'',
            figure (format_num locale_num (field stats ''cache_hits'')) ''emerald'',
            figure (js_String (js_coalesce (opt_fixed1 (field stats ''avg_latency_ms'')) (JNum (Fin 0))) @ '' ms'')
              ''amber''],
         Elem ''div'' [] [] [rcode_card stats, latency_card upstreams],
         Elem ''div'' [] [] [upstream_card upstreams, rules_card rules],
         recent_card locale_time recent])"

text \<open>
  The shape of the backend's answers: the parts the render takes apart without a guard. Data of
  another shape makes the render throw (apart from array-likes in place of arrays, which JSON answers of
  the backend do not have).
\<close>

fun is_arr :: "jsval \<Rightarrow> bool" where
  "is_arr (JArr _) = True"
| "is_arr _ = False"

fun opt_number :: "jsval \<Rightarrow> bool" where
  "opt_number (JNum _) = True"
| "opt_number v = nullish v"

definition dash_shape :: "jsval \<Rightarrow> bool" where
  "dash_shape data =
     (let stats = field data ''stats''; rcodes = field stats ''by_rcode'';
          upstreams = field data ''upstreams''; rules = field data ''rules'';
          recent = field data ''recent_queries'' in
      \<not> nullish stats \<and> opt_number (field stats ''avg_latency_ms'')
      \<and> (truthy rcodes \<longrightarrow> is_arr rcodes \<and> list_all is_arr (items_or_empty rcodes))
      \<and> is_arr upstreams
      \<and> list_all (\<lambda>p. is_arr p \<and> \<not> nullish (snd (pair_of p))
            \<and> opt_number (field (snd (pair_of p)) ''latency_ema_ms'')) (items_or_empty upstreams)
      \<and> is_arr rules \<and> list_all is_arr (take 8 (items_or_empty rules))
      \<and> (truthy recent \<longrightarrow> is_arr recent
            \<and> list_all (\<lambda>q. \<not> nullish q \<and> opt_number (field q ''latency_ms'')) (take 10 (items_or_empty recent))))"

text \<open>What the component renders; \<open>None\<close> is a \<open>TypeError\<close> of the render.\<close>

definition Dashboard_view ::
  "(jsval \<Rightarrow> int option) \<Rightarrow> (jsval \<Rightarrow> string) \<Rightarrow> (jsval \<Rightarrow> string) \<Rightarrow> int \<Rightarrow> dash \<Rightarrow> 'e dom option" where
  "Dashboard_view epoch locale_time locale_num now s =
     (if d_loading s then Some (Elem ''div'' [] [] [Spinner])
      else if d_error s \<noteq> [] \<and> \<not> truthy (d_data s) then Some (EmptyState (JStr dash_failed_text) (JStr (d_error s)))
      else if \<not> dash_shape (d_data s) then None
      else Some (dash_content epoch locale_time locale_num now (d_data s)))"

subsection \<open>Loading\<close>

interpretation dash_loader: async_loader dash_end d_data id d_loading d_signed_out
proof
  show "\<not> d_loading (dash_end r s)" for r s by (cases r) auto
  show "d_data (dash_end (Inr v) s) = id v" for v s by simp
  show "d_data (dash_end (Inl e) s) = d_data s" for e s by simp
  show "d_signed_out (dash_end r s) \<longleftrightarrow> d_signed_out s \<or> refused r" for r s
    by (cases r) (auto simp: refused_def)
qed

end
