(* ===== verification/Dashboard_Properties.thy ===== *)
theory Dashboard_Properties
  imports Dashboard
begin

text \<open>
  The overview page under any sequence of answers, and the numbers it computes: the tone of a success
  rate and the width of a bar, with the rounding of doubles taken into account.
\<close>

subsection \<open>What an operator sees\<close>

lemma dash_shape_truthy: "dash_shape d \<Longrightarrow> truthy d"
proof (rule ccontr)
  assume shape: "dash_shape d" and falsy: "\<not> truthy d"
  have "\<not> is_index ''stats''" by (simp add: is_index_def is_digit_def)
  with falsy have "field d ''stats'' = JUndef" by (cases d) (simp_all add: field_def)
  with shape show False by (simp add: dash_shape_def Let_def nullish_def)
qed

lemma dash_failed_text_nonempty: "dash_failed_text \<noteq> []"
  by (simp add: dash_failed_text_def cps_def utf8_cp_def)

lemma dash_error_settle:
  "d_error (dash_end r s) = (case r of Inr d \<Rightarrow> [] | Inl e \<Rightarrow>
     if err_name e = ''AuthError'' then d_error s
     else if is_api_error e then err_message e else dash_failed_text)"
  by (cases r) auto

definition presentable :: "jsval res \<Rightarrow> bool" where
  "presentable r \<longleftrightarrow> (case r of Inr d \<Rightarrow> dash_shape d
     | Inl e \<Rightarrow> err_name e \<noteq> ''AuthError'' \<and> (is_api_error e \<longrightarrow> err_message e \<noteq> []))"

text \<open>
  After any answers, whatever their order, the overview shows the last data that came; as long as none
  came, it shows the last error with its message; it never stays in the loading state and never fails to
  render, provided the backend's answers have their shape and its errors a message.
\<close>

theorem dashboard_keeps_last_data:
  assumes "rs \<noteq> []" and "\<forall>r \<in> set rs. presentable r"
  shows "Dashboard_view epoch locale_time locale_num now (fold dash_end rs initial_dash) =
    Some (if successes rs = []
          then EmptyState (JStr dash_failed_text)
            (JStr (if is_api_error (projl (last rs)) then err_message (projl (last rs)) else dash_failed_text))
          else dash_content epoch locale_time locale_num now (last (successes rs)))"
proof -
  let ?s = "fold dash_end rs initial_dash"
  from assms(1) obtain r rs' where rs: "rs = rs' @ [r]" by (cases rs rule: rev_cases) auto
  with assms(2) have r: "presentable r" by simp
  have loaded: "\<not> d_loading ?s" using dash_loader.settle_all_loading [OF assms(1)] .
  have data: "d_data ?s = (if successes rs = [] then JNull else last (successes rs))"
    using dash_loader.settle_all_shown [of rs initial_dash] by (simp add: initial_dash_def)
  have err: "d_error ?s = (case r of Inr d \<Rightarrow> [] | Inl e \<Rightarrow>
      if is_api_error e then err_message e else dash_failed_text)"
    using r by (cases r) (simp_all add: rs dash_error_settle presentable_def)
  show ?thesis
  proof (cases "successes rs = []")
    case True
    then obtain e where "r = Inl e" by (cases r) (simp_all add: rs successes_snoc)
    with r True loaded data err show ?thesis
      by (simp add: Dashboard_view_def rs presentable_def dash_failed_text_nonempty)
  next
    case False
    then have "Inr (last (successes rs)) \<in> set rs"
      using last_in_set [OF False] by (auto simp: successes_def)
    with assms(2) have "dash_shape (last (successes rs))" by (auto simp: presentable_def)
    with False loaded data show ?thesis by (simp add: Dashboard_view_def dash_shape_truthy)
  qed
qed

theorem dashboard_keeps_last_data_witness:
  "Dashboard_view (\<lambda>_. None) (\<lambda>_. []) (\<lambda>_. ''1'') 0
     (fold dash_end
        [Inr (JObj [(''stats'', JObj []), (''upstreams'', JArr []), (''rules'', JArr [])]),
         Inl (ApiError ''busy'' 503)] initial_dash)
   = Some (dash_content (\<lambda>_. None) (\<lambda>_. []) (\<lambda>_. ''1'') 0
        (JObj [(''stats'', JObj []), (''upstreams'', JArr []), (''rules'', JArr [])]))"
proof -
  let ?rs = "[Inr (JObj [(''stats'', JObj []), (''upstreams'', JArr []), (''rules'', JArr [])]),
         Inl (ApiError ''busy'' 503)] :: jsval res list"
  have "\<forall>r \<in> set ?rs. presentable r"
    by (simp add: presentable_def dash_shape_def field_def Let_def nullish_def obj_read_def object_proto_def
      items_or_empty_def)
  from dashboard_keeps_last_data [OF _ this] show ?thesis by (simp add: successes_def)
qed

subsection \<open>Rates and bars\<close>

text \<open>A text with one decimal reads as the double nearest to it.\<close>

lemma js_Number_fixed1: "js_Number (fixed1_digits n) = fl (of_nat n / 10)"
proof -
  let ?s = "fixed1_digits n"
  have chars: "\<forall>c \<in> set ?s. is_digit c \<or> c = CHR ''.''"
    using nat_str_digits by (auto simp: fixed1_digits_def)
  then have "\<forall>c \<in> set ?s. graphic c" by (auto simp: graphic_def is_digit_def)
  then have trim: "js_trim ?s = ?s" by (rule js_trim_graphic)
  have ne: "?s \<noteq> []" by (simp add: fixed1_digits_def)
  have hd: "is_digit (hd ?s)" using nat_str_digits [of "n div 10"] hd_in_set [OF nat_str_nonempty(1)]
    by (simp add: fixed1_digits_def hd_append nat_str_nonempty)
  have inf: "?s \<noteq> ''Infinity''" using hd by (auto simp: is_digit_def)
  have two: "take 2 ?s \<notin> {''0x'', ''0X'', ''0o'', ''0O'', ''0b'', ''0B''}"
  proof
    assume "take 2 ?s \<in> {''0x'', ''0X'', ''0o'', ''0O'', ''0b'', ''0B''}"
    then have "last (take 2 ?s) \<in> {CHR ''x'', CHR ''X'', CHR ''o'', CHR ''O'', CHR ''b'', CHR ''B''}" by auto
    moreover have "last (take 2 ?s) \<in> set ?s"
      using ne by (metis in_set_takeD last_in_set take_eq_Nil zero_neq_numeral)
    ultimately show False using chars by (auto simp: is_digit_def)
  qed
  from hd have sign: "hd ?s \<noteq> CHR ''-''" "hd ?s \<noteq> CHR ''+''" by (auto simp: is_digit_def)
  show ?thesis using ne two inf sign by (simp add: js_Number_def trim Let_def parse_fixed1)
qed

lemma fl_tenths_above:
  assumes "0 < n" "n \<le> 1000" "0 < c" "c \<le> 2 ^ 53" "fl_pos c' = c'" "of_nat c < c'" "c' \<le> of_nat (10 * c + 1) / 10"
  shows "js_gt (fl (of_nat n / 10)) (Fin (of_nat c)) \<longleftrightarrow> 10 * c < n"
proof -
  have x: "0 < (of_nat n / 10 :: rat)" using assms(1) by simp
  obtain r where r: "fl (of_nat n / 10) = Fin r" "r = fl_pos (of_nat n / 10)"
  proof (rule fl_between [of "of_nat n / 10" 1000])
    show "(0 :: rat) \<le> of_nat n / 10" by simp
    have "(of_nat n :: rat) \<le> of_nat 1000" using assms(2) by (simp only: of_nat_le_iff)
    then show "(of_nat n / 10 :: rat) \<le> of_nat 1000" by simp
    show "1000 \<le> (2 :: nat) ^ 53" by simp
    fix r assume "fl (of_nat n / 10) = Fin r" "0 \<le> r" "r \<le> of_nat (1000 :: nat)"
    with x that show thesis by (auto simp: fl_def Let_def split: if_splits)
  qed
  show ?thesis
  proof (cases "10 * c < n")
    case True
    then have "(of_nat (10 * c + 1) :: rat) \<le> of_nat n" by (simp only: of_nat_le_iff)
    then have "c' \<le> of_nat n / 10" using assms(7) by simp
    moreover have "0 < c'" using assms(6) by (meson le_less_trans of_nat_0_le_iff)
    ultimately have "c' \<le> r" using fl_pos_mono [of c' "of_nat n / 10"] assms(5) r(2) by simp
    with True r assms(6) show ?thesis by simp
  next
    case False
    then have "(of_nat n :: rat) \<le> of_nat (10 * c)" by (simp only: of_nat_le_iff)
    then have "(of_nat n / 10 :: rat) \<le> of_nat c" by simp
    then have "r \<le> of_nat c" using fl_pos_mono [OF x] fl_pos_of_nat [OF assms(3,4)] r(2) by metis
    with False r show ?thesis by simp
  qed
qed

lemma fl_pos_above_95: "fl_pos (1521/16) = 1521/16"
  by code_simp

lemma fl_pos_above_80: "fl_pos (1281/16) = 1281/16"
  by code_simp

text \<open>
  The badge of an upstream: when \<open>k\<close> of its \<open>q > 0\<close> queries succeeded, the text is a percentage
  with one decimal between \<open>0.0%\<close> and \<open>100.0%\<close>, and its colour is the one of that
  decimal, green above 95.0, amber above 80.0, red otherwise: no rounding of doubles moves a threshold.
\<close>

theorem rate_badge_tone:
  assumes "field s ''queries'' = JNum (Fin (of_nat q))" and "field s ''success'' = JNum (Fin (of_nat k))"
    and "k \<le> q" and "0 < q"
  shows "\<exists>n \<le> 1000. rate_text (success_rate s) = fixed1_digits n @ ''%''
    \<and> rate_tone (success_rate s) = (if 950 < n then ''green'' else if 800 < n then ''amber'' else ''red'')"
proof -
  have ratio: "(of_nat k / of_nat q :: rat) \<le> of_nat 1"
    using assms(3,4) by (simp add: divide_le_eq)
  obtain r where r: "fl (of_nat k / of_nat q) = Fin r" "0 \<le> r" "r \<le> of_nat 1"
    using fl_between [OF _ ratio] by auto
  have "r * 100 \<le> of_nat 100" using r(3) by simp
  then obtain p where p: "fl (r * 100) = Fin p" "0 \<le> p" "p \<le> of_nat 100"
    using fl_between [of "r * 100" 100] r(2) by auto
  define n where "n = nat \<lfloor>p * 10 + 1/2\<rfloor>"
  have rate: "success_rate s = fixed1_digits n"
    using assms p r by (simp add: success_rate_def Let_def n_def)
  have le: "n \<le> 1000" using p(3) by (simp add: n_def) linarith
  have dash: "fixed1_digits n \<noteq> dash_mark"
  proof
    assume "fixed1_digits n = dash_mark"
    then have "is_digit (hd dash_mark)" using nat_str_nonempty(1) nat_str_digits
      by (metis append_is_Nil_conv fixed1_digits_def hd_append2 list.set_sel(1))
    then show False by (simp add: dash_mark_def cps_def utf8_cp_def is_digit_def)
  qed
  have "js_gt (js_Number (fixed1_digits n)) (Fin (of_nat c)) \<longleftrightarrow> 10 * c < n" if "c = 95 \<or> c = 80" for c
  proof (cases "n = 0")
    case True
    then show ?thesis using that by (simp add: js_Number_fixed1 fl_def)
  next
    case False
    then have n: "0 < n" by simp
    from that show ?thesis
    proof
      assume "c = 95"
      then show ?thesis using fl_tenths_above [OF n le _ _ fl_pos_above_95, of 95] by (simp add: js_Number_fixed1)
    next
      assume "c = 80"
      then show ?thesis using fl_tenths_above [OF n le _ _ fl_pos_above_80, of 80] by (simp add: js_Number_fixed1)
    qed
  qed
  from this [of 95] this [of 80] have
    "rate_tone (success_rate s) = (if 950 < n then ''green'' else if 800 < n then ''amber'' else ''red'')"
    using dash by (simp add: rate_tone_def rate)
  with le dash show ?thesis by (intro exI [of _ n]) (simp add: rate_text_def rate)
qed

theorem rate_badge_tone_witness:
  "\<exists>n \<le> 1000. rate_text (success_rate (JObj [(''queries'', JNum (Fin 3)), (''success'', JNum (Fin 2))]))
      = fixed1_digits n @ ''%''
    \<and> rate_tone (success_rate (JObj [(''queries'', JNum (Fin 3)), (''success'', JNum (Fin 2))]))
      = (if 950 < n then ''green'' else if 800 < n then ''amber'' else ''red'')"
  by (rule rate_badge_tone [of _ 3 2]) (simp_all add: field_def obj_read_def)

lemma bar_percent_bounds:
  assumes "c \<le> f" and "1 \<le> f"
  shows "\<exists>p. bar_percent (JNum (Fin (of_nat f))) (JNum (Fin (of_nat c))) = Fin p \<and> 4 \<le> p \<and> p \<le> 100"
proof -
  have ratio: "(of_nat c / of_nat f :: rat) \<le> of_nat 1" using assms by (simp add: divide_le_eq)
  obtain r where r: "fl (of_nat c / of_nat f) = Fin r" "0 \<le> r" "r \<le> of_nat 1"
    using fl_between [OF _ ratio] by auto
  have "r * 100 \<le> of_nat 100" using r(3) by simp
  then obtain p where "fl (r * 100) = Fin p" "0 \<le> p" "p \<le> of_nat 100"
    using fl_between [of "r * 100" 100] r(2) by auto
  with r assms show ?thesis by (simp add: bar_percent_def js_or_def)
qed

end
