(* ===== verification/Query_Log.thy ===== *)
theory Query_Log
  imports Dashboard
begin

text \<open>
  The query log page, \<open>src/web/ui/src/pages/QueryLog.jsx\<close>: the filters, the requests they start, the
  periodic refresh, the answers, and the view. Every change of a filter makes a new \<open>load\<close>, which the
  effect calls at once; answers arrive in any order, and each one shows its rows.
\<close>

subsection \<open>State and answers\<close>

record qlog =
  ql_rows :: jsval
  ql_loading :: bool
  ql_domain :: string
  ql_client :: string
  ql_history :: bool
  ql_auto :: bool
  ql_signed_out :: bool

definition initial_qlog :: qlog where
  "initial_qlog =
     \<lparr>ql_rows = JArr [], ql_loading = True, ql_domain = [], ql_client = [], ql_history = False,
      ql_auto = True, ql_signed_out = False\<rparr>"

definition qlog_query :: "qlog \<Rightarrow> log_query" where
  "qlog_query s =
     \<lparr>lq_limit = 200, lq_domain = ql_domain s, lq_client = ql_client s, lq_history = ql_history s\<rparr>"

text \<open>The answer to a request: an error other than \<open>AuthError\<close> is dropped.\<close>

fun qlog_end :: "jsval res \<Rightarrow> qlog \<Rightarrow> qlog" where
  "qlog_end (Inr data) s = s\<lparr>ql_rows := data, ql_loading := False\<rparr>"
| "qlog_end (Inl e) s =
     (if err_name e = ''AuthError'' then s\<lparr>ql_signed_out := True, ql_loading := False\<rparr>
      else s\<lparr>ql_loading := False\<rparr>)"

text \<open>The second effect: the timer runs unless it is switched off or the history is shown.\<close>

definition qlog_period :: nat where
  "qlog_period = 4000"

definition timer_runs :: "qlog \<Rightarrow> bool" where
  "timer_runs s \<longleftrightarrow> ql_auto s \<and> \<not> ql_history s"

interpretation qlog_loader: async_loader qlog_end ql_rows id ql_loading ql_signed_out
proof
  show "\<not> ql_loading (qlog_end r s)" for r s by (cases r) auto
  show "ql_rows (qlog_end (Inr v) s) = id v" for v s by simp
  show "ql_rows (qlog_end (Inl e) s) = ql_rows s" for e s by simp
  show "ql_signed_out (qlog_end r s) \<longleftrightarrow> ql_signed_out s \<or> refused r" for r s
    by (cases r) (auto simp: refused_def)
qed

subsection \<open>The machine\<close>

text \<open>
  The requests in flight, oldest first. A setter called with the value the state has already starts
  nothing (the state does not change).
\<close>

record qmachine =
  qm_page :: qlog
  qm_inflight :: "log_query list"

datatype qevent =
    TypeDomain string
  | TypeClient string
  | SetHistory bool
  | SetAuto bool
  | ClickRefresh
  | TimerFires
  | RowsAnswer log_query "jsval res"

definition initial_qmachine :: qmachine where
  "initial_qmachine = \<lparr>qm_page = initial_qlog, qm_inflight = [qlog_query initial_qlog]\<rparr>"

definition start_load :: "qmachine \<Rightarrow> qmachine" where
  "start_load m = m\<lparr>qm_inflight := qm_inflight m @ [qlog_query (qm_page m)]\<rparr>"

definition with_filter :: "(qlog \<Rightarrow> qlog) \<Rightarrow> qmachine \<Rightarrow> qmachine" where
  "with_filter f m =
     (let m' = m\<lparr>qm_page := f (qm_page m)\<rparr> in
      if qlog_query (qm_page m') = qlog_query (qm_page m) then m' else start_load m')"

fun qm_handle :: "qevent \<Rightarrow> qmachine \<Rightarrow> qmachine" where
  "qm_handle (TypeDomain v) m = with_filter (\<lambda>s. s\<lparr>ql_domain := v\<rparr>) m"
| "qm_handle (TypeClient v) m = with_filter (\<lambda>s. s\<lparr>ql_client := v\<rparr>) m"
| "qm_handle (SetHistory b) m = with_filter (\<lambda>s. s\<lparr>ql_history := b\<rparr>) m"
| "qm_handle (SetAuto b) m = m\<lparr>qm_page := (qm_page m)\<lparr>ql_auto := b\<rparr>\<rparr>"
| "qm_handle ClickRefresh m = start_load m"
| "qm_handle TimerFires m = start_load m"
| "qm_handle (RowsAnswer q r) m =
     m\<lparr>qm_page := qlog_end r (qm_page m), qm_inflight := remove1 q (qm_inflight m)\<rparr>"

fun qm_enabled :: "qmachine \<Rightarrow> qevent \<Rightarrow> bool" where
  "qm_enabled m (SetAuto b) = (\<not> ql_history (qm_page m))"
| "qm_enabled m TimerFires = timer_runs (qm_page m)"
| "qm_enabled m (RowsAnswer q r) = (q \<in> set (qm_inflight m))"
| "qm_enabled m _ = True"

text \<open>Runs whose every step satisfies a condition on the state and the event.\<close>

inductive qm_run :: "(qmachine \<Rightarrow> qevent \<Rightarrow> bool) \<Rightarrow> qmachine \<Rightarrow> qmachine \<Rightarrow> bool" for cond where
  qm_done: "qm_run cond m m"
| qm_more: "qm_run cond m n \<Longrightarrow> qm_enabled n e \<Longrightarrow> cond n e \<Longrightarrow> qm_run cond m (qm_handle e n)"

subsection \<open>The view\<close>

definition row_cells :: "(jsval \<Rightarrow> string) \<Rightarrow> jsval \<Rightarrow> qevent dom" where
  "row_cells locale_time q = Elem ''tr'' [] []
     [Elem ''td'' [] [] [Text (locale_time (field q ''time''))], Elem ''td'' [] [] (child (field q ''client'')),
      Elem ''td'' [] [] (child (field q ''domain'')), Elem ''td'' [] [] (child (field q ''qtype'')),
      Elem ''td'' [] [] (child (js_or (field q ''rule'') (JStr dash_mark))),
      Elem ''td'' [] []
        (and_then (field q ''cached'') [Badge ''blue'' [Text ''cache'']]
         @ (if truthy (field q ''cached'') then [] else child (field q ''upstream''))),
      Elem ''td'' [] [] [rcode_badge q],
      Elem ''td'' [] [] (in_ms (field q ''latency_ms''))]"

definition row_card :: "(jsval \<Rightarrow> string) \<Rightarrow> jsval \<Rightarrow> qevent dom" where
  "row_card locale_time q = Elem ''div'' [] []
     [Elem ''div'' [] [] [Elem ''span'' [] [] (child (field q ''domain'')), rcode_badge q],
      Elem ''div'' [] []
        [Elem ''span'' [] [] [Text (locale_time (field q ''time''))], Elem ''span'' [] [] (child (field q ''qtype'')),
         Elem ''span'' [] [] (in_ms (field q ''latency_ms''))],
      Elem ''div'' [] []
        ([Elem ''span'' [] [] (child (field q ''client'')),
          Elem ''span'' [] []
            (if truthy (field q ''cached'') then [Badge ''blue'' [Text ''cache'']] else child (field q ''upstream''))]
         @ and_then (field q ''rule'') [Elem ''span'' [] [] (child (field q ''rule''))])]"

text \<open>
  The page; a toggle reports a boolean, and the switch of the refresh is shown without the history only.
  The render takes the rows apart without a guard: rows of another shape than the backend's make it
  throw (\<open>None\<close>; here too array-likes in place of arrays are left out).
\<close>

definition qlog_shape :: "jsval \<Rightarrow> bool" where
  "qlog_shape rows \<longleftrightarrow> is_arr rows
     \<and> list_all (\<lambda>q. \<not> nullish q \<and> opt_number (field q ''latency_ms'')) (items_or_empty rows)"

definition QueryLog_view :: "(jsval \<Rightarrow> string) \<Rightarrow> qlog \<Rightarrow> qevent dom option" where
  "QueryLog_view locale_time s =
     (if \<not> ql_loading s \<and> \<not> qlog_shape (ql_rows s) then None
      else Some (Elem ''div'' [] []
       [Elem ''div'' [] []
          ([Toggle (JBool (ql_history s)) (\<lambda>v. SetHistory (truthy v))]
           @ (if ql_history s then [] else [Toggle (JBool (ql_auto s)) (\<lambda>v. SetAuto (truthy v))])
           @ [Button [] [OnClick ClickRefresh] []]),
        Card
          [Input [(''value'', JStr (ql_domain s))] [OnChange TypeDomain],
           Input [(''value'', JStr (ql_client s))] [OnChange TypeClient]],
        Card
          (if ql_loading s then [Elem ''div'' [] [] [Spinner]]
           else if items_or_empty (ql_rows s) = [] then [EmptyState (JStr []) (JStr [])]
           else [Elem ''table'' [] [] (map (row_cells locale_time) (items_or_empty (ql_rows s))),
                 Elem ''div'' [] [] (map (row_card locale_time) (items_or_empty (ql_rows s)))])]))"

subsection \<open>Filters and answers\<close>

definition answers_in_order :: "(log_query \<Rightarrow> jsval) \<Rightarrow> qmachine \<Rightarrow> qevent \<Rightarrow> bool" where
  "answers_in_order answer m e \<longleftrightarrow>
     (case e of RowsAnswer q r \<Rightarrow> q = hd (qm_inflight m) \<and> r = Inr (answer q) | _ \<Rightarrow> True)"

definition in_step :: "(log_query \<Rightarrow> jsval) \<Rightarrow> qmachine \<Rightarrow> bool" where
  "in_step answer m \<longleftrightarrow>
     (if qm_inflight m = []
      then ql_rows (qm_page m) = answer (qlog_query (qm_page m)) \<and> \<not> ql_loading (qm_page m)
      else last (qm_inflight m) = qlog_query (qm_page m))"

lemma in_step_start_load: "in_step answer (start_load m)"
  by (simp add: in_step_def start_load_def)

lemma in_step_filter:
  assumes "in_step answer m" and "\<And>s. ql_rows (f s) = ql_rows s" and "\<And>s. ql_loading (f s) = ql_loading s"
  shows "in_step answer (with_filter f m)"
  using assms in_step_start_load by (auto simp: with_filter_def Let_def in_step_def split: if_splits)

lemma in_step_handle:
  assumes "in_step answer m" and "qm_enabled m e" and "answers_in_order answer m e"
  shows "in_step answer (qm_handle e m)"
proof (cases e)
  case (RowsAnswer q r)
  with assms obtain qs where q: "qm_inflight m = q # qs" "r = Inr (answer q)"
    by (cases "qm_inflight m") (auto simp: answers_in_order_def)
  then show ?thesis using assms(1) RowsAnswer by (auto simp: in_step_def qlog_query_def split: if_splits)
next
  case (SetAuto b)
  then show ?thesis using assms(1) by (simp add: in_step_def qlog_query_def)
qed (use assms(1) in \<open>simp_all add: in_step_start_load in_step_filter\<close>)

lemma in_step_run: "qm_run (answers_in_order answer) m n \<Longrightarrow> in_step answer m \<Longrightarrow> in_step answer n"
  by (induction rule: qm_run.induct) (simp_all add: in_step_handle)

text \<open>
  With answers in the order of the requests the log and its filters agree: whatever the user typed
  and switched meanwhile, and whichever timers fired, once no request is in flight the rows on the
  screen are the backend's answer to the filters on the screen, and the page does not load.
\<close>

theorem in_order_answers_show_the_filters:
  assumes "qm_run (answers_in_order answer) initial_qmachine m" and "qm_inflight m = []"
  shows "ql_rows (qm_page m) = answer (qlog_query (qm_page m)) \<and> \<not> ql_loading (qm_page m)"
proof -
  have "in_step answer initial_qmachine" by (simp add: in_step_def initial_qmachine_def)
  from in_step_run [OF assms(1) this] assms(2) show ?thesis by (simp add: in_step_def)
qed

theorem in_order_answers_show_the_filters_witness:
  "ql_rows (qm_page (qm_handle (RowsAnswer (qlog_query initial_qlog) (Inr (JArr [JNull]))) initial_qmachine)) = JArr [JNull]"
proof -
  let ?answer = "\<lambda>_ :: log_query. JArr [JNull]"
  have "qm_run (answers_in_order ?answer) initial_qmachine
      (qm_handle (RowsAnswer (qlog_query initial_qlog) (Inr (JArr [JNull]))) initial_qmachine)"
    by (rule qm_more [OF qm_done]) (simp_all add: initial_qmachine_def answers_in_order_def)
  from in_order_answers_show_the_filters [OF this] show ?thesis by (simp add: initial_qmachine_def)
qed

text \<open>A list of events as a run, and the query of the history view with a domain filter.\<close>

fun qm_steps :: "(qmachine \<Rightarrow> qevent \<Rightarrow> bool) \<Rightarrow> qmachine \<Rightarrow> qevent list \<Rightarrow> bool" where
  "qm_steps cond m [] = True"
| "qm_steps cond m (e # es) \<longleftrightarrow> qm_enabled m e \<and> cond m e \<and> qm_steps cond (qm_handle e m) es"

lemma qm_run_steps: "qm_run cond m n \<Longrightarrow> qm_steps cond n es \<Longrightarrow> qm_run cond m (fold qm_handle es n)"
  by (induction es arbitrary: n) (auto intro: qm_more)

definition history_query :: "string \<Rightarrow> log_query" where
  "history_query domain = \<lparr>lq_limit = 200, lq_domain = domain, lq_client = [], lq_history = True\<rparr>"

text \<open>
  Answers out of order leave the rows of an old filter on the screen: there is a run of the page in
  the history view after which the filter reads \<open>ab\<close>, no request is in flight and no timer runs,
  but the rows are the answer to the filter \<open>a\<close>.
\<close>

theorem stale_answer_stays:
  "\<exists>m. qm_run (\<lambda>_ e. case e of RowsAnswer q r \<Rightarrow> r = Inr (answer q) | _ \<Rightarrow> True) initial_qmachine m
     \<and> qm_inflight m = [] \<and> \<not> timer_runs (qm_page m)
     \<and> qlog_query (qm_page m) = history_query ''ab''
     \<and> ql_rows (qm_page m) = answer (history_query ''a'')"
proof -
  let ?ok = "\<lambda>(_ :: qmachine) e. case e of RowsAnswer q r \<Rightarrow> r = Inr (answer q) | _ \<Rightarrow> True"
  let ?es = "[RowsAnswer (qlog_query initial_qlog) (Inr (answer (qlog_query initial_qlog))), SetHistory True,
      RowsAnswer (history_query []) (Inr (answer (history_query []))), TypeDomain ''a'', TypeDomain ''ab'',
      RowsAnswer (history_query ''ab'') (Inr (answer (history_query ''ab''))),
      RowsAnswer (history_query ''a'') (Inr (answer (history_query ''a'')))]"
  note defs = initial_qmachine_def initial_qlog_def qlog_query_def with_filter_def start_load_def
    history_query_def Let_def
  have fin: "fold qm_handle ?es initial_qmachine =
      \<lparr>qm_page = \<lparr>ql_rows = answer (history_query ''a''), ql_loading = False, ql_domain = ''ab'', ql_client = [],
        ql_history = True, ql_auto = True, ql_signed_out = False\<rparr>, qm_inflight = []\<rparr>"
    by (simp add: defs)
  have "qm_run ?ok initial_qmachine (fold qm_handle ?es initial_qmachine)"
    by (rule qm_run_steps [OF qm_done]) (simp add: defs)
  then show ?thesis
    unfolding fin by (intro exI conjI, assumption) (simp_all add: timer_runs_def qlog_query_def history_query_def)
qed

text \<open>
  A failed first load looks like an empty log: the error is dropped, and the page is the one shown
  for a backend that answered with no rows.
\<close>

theorem failed_load_looks_empty:
  assumes "err_name e \<noteq> ''AuthError''"
  shows "QueryLog_view locale_time (qlog_end (Inl e) initial_qlog)
    = QueryLog_view locale_time (qlog_end (Inr (JArr [])) initial_qlog)"
  using assms by (simp add: QueryLog_view_def initial_qlog_def)

theorem failed_load_looks_empty_witness:
  "QueryLog_view (\<lambda>_. []) (qlog_end (Inl (ApiError ''disk full'' 500)) initial_qlog)
    = QueryLog_view (\<lambda>_. []) (qlog_end (Inr (JArr [])) initial_qlog)"
  by (rule failed_load_looks_empty) simp

end
