(* ===== verification/Shell.thy ===== *)
theory Shell
  imports Session Toasts Views
begin

text \<open>
  What surrounds the pages: the frame with the navigation (\<open>src/web/ui/src/components/Layout.jsx\<close>), the
  view of the login form (\<open>src/web/ui/src/pages/Login.jsx\<close>), the stack of toasts
  (\<open>src/web/ui/src/context/ToastContext.jsx\<close>), and which effects a user can cause with a tree on the
  screen. Which link the router marks as active is a parameter.
\<close>

subsection \<open>What a user can do with a tree\<close>

fun gives :: "'e handler \<Rightarrow> 'e \<Rightarrow> bool" where
  "gives (OnClick e') e = (e' = e)"
| "gives (OnChange f) e = (e \<in> range f)"
| "gives (OnSubmit e') e = (e' = e)"

fun is_submit :: "'e handler \<Rightarrow> bool" where
  "is_submit (OnSubmit e) = True"
| "is_submit h = False"

text \<open>
  A browser submits a form when its submit button is not disabled and no required input is empty.
\<close>

definition attr :: "(string \<times> jsval) list \<Rightarrow> string \<Rightarrow> jsval" where
  "attr as k = (case map_of as k of Some v \<Rightarrow> v | None \<Rightarrow> JUndef)"

fun inputs_filled :: "'e dom \<Rightarrow> bool" where
  "inputs_filled (Text s) = True"
| "inputs_filled (Elem t as hs ks) =
     ((truthy (attr as ''required'') \<longrightarrow> truthy (attr as ''value'')) \<and> list_all inputs_filled ks)"

fun submit_live :: "'e dom \<Rightarrow> bool" where
  "submit_live (Text s) = False"
| "submit_live (Elem t as hs ks) =
     (t = ''button'' \<and> attr as ''type'' = JStr ''submit'' \<and> \<not> disabled as \<or> list_ex submit_live ks)"

fun offers :: "'e dom \<Rightarrow> 'e \<Rightarrow> bool" where
  "offers (Text s) e = False"
| "offers (Elem t as hs ks) e =
     (\<not> disabled as \<and>
        list_ex (\<lambda>h. gives h e \<and> (is_submit h \<longrightarrow> list_all inputs_filled ks \<and> list_ex submit_live ks)) hs
      \<or> list_ex (\<lambda>k. offers k e) ks)"

lemma gives_map: "gives (map_handler g h) e \<longleftrightarrow> (\<exists>e'. gives h e' \<and> e = g e')"
  by (cases h) auto

lemma is_submit_map [simp]: "is_submit (map_handler g h) = is_submit h"
  by (cases h) auto

lemma filled_map [simp]: "inputs_filled (map_dom g d) = inputs_filled d"
  by (induction d) (auto simp: list_all_iff)

lemma submit_live_map [simp]: "submit_live (map_dom g d) = submit_live d"
  by (induction d) (auto simp: list_ex_iff)

lemma offers_map: "offers (map_dom g d) e \<longleftrightarrow> (\<exists>e'. offers d e' \<and> e = g e')"
proof (induction d)
  case (Elem t as hs ks)
  have kids: "list_ex (\<lambda>k. offers k e) (map (map_dom g) ks) \<longleftrightarrow> (\<exists>e'. list_ex (\<lambda>k. offers k e') ks \<and> e = g e')"
    using Elem by (auto simp: list_ex_iff)
  have own: "list_ex (\<lambda>h. gives h e \<and> (is_submit h \<longrightarrow> P)) (map (map_handler g) hs)
      \<longleftrightarrow> (\<exists>e'. list_ex (\<lambda>h. gives h e' \<and> (is_submit h \<longrightarrow> P)) hs \<and> e = g e')" for P
    by (auto simp: list_ex_iff gives_map)
  have same: "list_all inputs_filled (map (map_dom g) ks) = list_all inputs_filled ks"
    "list_ex submit_live (map (map_dom g) ks) = list_ex submit_live ks"
    by (simp_all add: list_all_iff list_ex_iff)
  show ?case unfolding dom.map offers.simps kids own same by blast
qed simp

text \<open>Whatever is offered is the effect of a handler of the tree.\<close>

lemma offers_handler: "offers d e \<Longrightarrow> \<exists>h \<in> set (live_handlers d). gives h e"
  by (induction d) (simp, fastforce simp: list_ex_iff)

lemma offers_all:
  assumes "offers d e" and "dom_all P d"
  shows "P e"
proof -
  from offers_handler [OF assms(1)] obtain h where "h \<in> set (handlers d)" "gives h e"
    using live_handlers_subset by blast
  with assms(2) have "handler_all P h" by (simp add: dom_all_def)
  with \<open>gives h e\<close> show ?thesis by (cases h) auto
qed

subsection \<open>Layout\<close>

text \<open>The entries of the navigation: target, and whether only an exact match is active.\<close>

definition nav_items :: "(string \<times> bool) list" where
  "nav_items = [(''/'', True), (''/querylog'', False), (''/config'', False)]"

datatype shell_event = OpenMenu | CloseMenu | FollowLink string | PressLogout

text \<open>
  The state of the menu on small screens after an event. A link closes the menu before the router
  follows it; the logout button does not.
\<close>

fun menu_after :: "shell_event \<Rightarrow> bool \<Rightarrow> bool" where
  "menu_after OpenMenu menu = True"
| "menu_after CloseMenu menu = False"
| "menu_after (FollowLink to) menu = False"
| "menu_after PressLogout menu = menu"

definition nav_link :: "(string \<Rightarrow> bool \<Rightarrow> bool) \<Rightarrow> string \<times> bool \<Rightarrow> shell_event dom" where
  "nav_link is_active = (\<lambda>(to, exact).
     Elem ''a''
       [(''href'', JStr (''#'' @ to)),
        (''className'', JStr (if is_active to exact then ''bg-brand-50 text-brand-700''
                              else ''text-slate-600 hover:bg-slate-100 hover:text-slate-900''))]
       [OnClick (FollowLink to)] [])"

definition Logo :: "'e dom" where
  "Logo = Elem ''img'' [(''src'', JStr ''/favicon.svg'')] [] []"

definition layout_bar :: "shell_event dom" where
  "layout_bar =
     Elem ''div'' [] []
       [Elem ''button'' [] [OnClick OpenMenu] [],
        Elem ''div'' [] [] [Logo, Elem ''span'' [] [] [Text ''Relay'']], Elem ''div'' [] [] []]"

definition layout_aside :: "(string \<Rightarrow> bool \<Rightarrow> bool) \<Rightarrow> bool \<Rightarrow> shell_event dom" where
  "layout_aside is_active menu =
     Elem ''aside'' [(''className'', JStr (if menu then ''translate-x-0'' else ''-translate-x-full''))] []
       [Elem ''div'' [] [] [Logo, Elem ''span'' [] [] [Text ''Relay'']],
        Elem ''nav'' [] [] (map (nav_link is_active) nav_items),
        Elem ''div'' [] [] [Elem ''button'' [] [OnClick PressLogout] []]]"

text \<open>The frame around a page, whose effects are tagged apart from those of the page.\<close>

definition Layout :: "(string \<Rightarrow> bool \<Rightarrow> bool) \<Rightarrow> (shell_event \<Rightarrow> 'e) \<Rightarrow> bool \<Rightarrow> 'e dom \<Rightarrow> 'e dom" where
  "Layout is_active tag menu outlet =
     Elem ''div'' [] []
       ([map_dom tag layout_bar]
        @ (if menu then [Elem ''div'' [] [OnClick (tag CloseMenu)] []] else [])
        @ [map_dom tag (layout_aside is_active menu),
           Elem ''main'' [] [] [Elem ''div'' [] [] [outlet]]])"

lemma offers_Layout:
  "offers (Layout is_active tag menu outlet) e \<longleftrightarrow>
     offers outlet e \<or> e = tag OpenMenu \<or> menu \<and> e = tag CloseMenu
     \<or> (\<exists>to \<in> fst ` set nav_items. e = tag (FollowLink to)) \<or> e = tag PressLogout"
  by (auto simp: Layout_def offers_map layout_bar_def layout_aside_def nav_link_def Logo_def nav_items_def
      disabled_def)

subsection \<open>The login form\<close>

datatype login_event = TypeUsername string | TypeLoginPassword string | SubmitLoginForm

fun login_type :: "login_event \<Rightarrow> login_form \<Rightarrow> login_form" where
  "login_type (TypeUsername v) f = f\<lparr>lf_username := v\<rparr>"
| "login_type (TypeLoginPassword v) f = f\<lparr>lf_password := v\<rparr>"
| "login_type SubmitLoginForm f = submit_begin f"

text \<open>"Logging in" and "log in".\<close>

definition login_button_text :: "bool \<Rightarrow> string" where
  "login_button_text loading = (if loading then cps [30331, 24405, 20013, 8230] else cps [30331, 24405])"

definition Login_view :: "login_form \<Rightarrow> login_event dom" where
  "Login_view f =
     Elem ''div'' [] []
       [Elem ''div'' [] []
          [Elem ''div'' [] [] [Logo, Elem ''h1'' [] [] [], Elem ''p'' [] [] []],
           Elem ''form'' [] [OnSubmit SubmitLoginForm]
             ([Elem ''div'' [] []
                 [Elem ''label'' [] [] [],
                  Elem ''input''
                    [(''type'', JStr ''text''), (''value'', JStr (lf_username f)), (''required'', JBool True)]
                    [OnChange TypeUsername] []],
               Elem ''div'' [] []
                 [Elem ''label'' [] [] [],
                  Elem ''input''
                    [(''type'', JStr ''password''), (''value'', JStr (lf_password f)), (''required'', JBool True)]
                    [OnChange TypeLoginPassword] []]]
              @ and_then (JStr (lf_error f)) [Elem ''div'' [] [] [Text (lf_error f)]]
              @ [Elem ''button''
                   [(''type'', JStr ''submit''), (''disabled'', JBool (lf_loading f))] []
                   [Text (login_button_text (lf_loading f))]])]]"

text \<open>The form can be sent exactly when both fields are filled and no login is running.\<close>

lemma offers_Login:
  "offers (Login_view f) e \<longleftrightarrow>
     (case e of SubmitLoginForm \<Rightarrow> lf_username f \<noteq> [] \<and> lf_password f \<noteq> [] \<and> \<not> lf_loading f | _ \<Rightarrow> True)"
proof -
  have t: "truthy (JStr s) \<longleftrightarrow> s \<noteq> []" for s by simp
  show ?thesis
    by (cases e) (auto simp: Login_view_def Logo_def attr_def disabled_def and_then_def)
qed

subsection \<open>Toasts\<close>

definition toast_class :: "toast_kind \<Rightarrow> string" where
  "toast_class k =
     (if k = SuccessToast then ''bg-emerald-50/95 border-emerald-200 text-emerald-800''
      else if k = ErrorToast then ''bg-rose-50/95 border-rose-200 text-rose-800''
      else if k = WarningToast then ''bg-amber-50/95 border-amber-200 text-amber-800''
      else ''bg-white/95 border-slate-200 text-slate-700'')"

text \<open>Each toast shows its message; a click on it dismisses it, which is the effect, by its id.\<close>

definition Toasts_view :: "toaster \<Rightarrow> nat dom" where
  "Toasts_view s =
     Elem ''div'' [] []
       (map (\<lambda>t. Elem ''div'' [(''className'', JStr (toast_class (t_type t)))] [OnClick (t_id t)]
                    (child (JStr (t_message t))))
          (ts_list s))"

lemma offers_Toasts: "offers (Toasts_view s) i \<longleftrightarrow> i \<in> t_id ` set (ts_list s)"
  by (auto simp: Toasts_view_def disabled_def list_ex_iff)

subsection \<open>The guard's waiting screen\<close>

text \<open>"Loading".\<close>

definition Loading_view :: "'e dom" where
  "Loading_view = Elem ''div'' [] [] [Text (cps [21152, 36733, 20013, 8230])]"

end
