(* ===== verification/Config_Page.thy ===== *)
theory Config_Page
  imports Tab_Properties Upstream_Page Shell
begin

text \<open>
  The configuration page as one machine (\<open>ConfigPage\<close> of \<open>src/web/ui/src/pages/config/index.jsx\<close>): the
  store with its requests, the chosen tab, and the local state of the tab that is mounted. A tab is
  mounted anew, with fresh local state, when it is chosen and when the page shows its tabs again
  after the spinner; while it stays, the effect of the rule sets tab on \<open>dirty\<close> runs after each change.
\<close>

subsection \<open>State\<close>

text \<open>
  \<open>cp_forms\<close> counts the requests of the password form on the screen, \<open>cp_lost\<close> those of forms that are
  gone.
\<close>

record cpage =
  cp_machine :: cmachine
  cp_active :: string
  cp_tabs :: tab_state
  cp_forms :: nat
  cp_lost :: nat

abbreviation "cp_store c \<equiv> cm_store (cp_machine c)"
abbreviation "cp_config c \<equiv> cs_config (cp_store c)"

definition initial_cpage :: cpage where
  "initial_cpage =
     \<lparr>cp_machine = initial_machine, cp_active = ''basic'', cp_tabs = mounted_tab_state JNull,
      cp_forms = 0, cp_lost = 0\<rparr>"

definition on_store :: "(cstore \<Rightarrow> cstore) \<Rightarrow> cpage \<Rightarrow> cpage" where
  "on_store f c = c\<lparr>cp_machine := (cp_machine c)\<lparr>cm_store := f (cp_store c)\<rparr>\<rparr>"

definition send :: "cevent \<Rightarrow> cpage \<Rightarrow> cpage" where
  "send e c = c\<lparr>cp_machine := cm_handle e (cp_machine c)\<rparr>"

text \<open>The early returns of \<open>ConfigPageInner\<close>.\<close>

definition tabs_shown :: "cstore \<Rightarrow> bool" where
  "tabs_shown s \<longleftrightarrow> \<not> cs_loading s \<and> \<not> (cs_error s \<noteq> [] \<and> \<not> truthy (cs_config s))"

subsection \<open>Changes\<close>

definition set_form :: "password_form \<Rightarrow> toaster \<Rightarrow> cpage \<Rightarrow> cpage" where
  "set_form f t c = on_store (\<lambda>s. s\<lparr>cs_toasts := t\<rparr>) (c\<lparr>cp_tabs := (cp_tabs c)\<lparr>ts_password := f\<rparr>\<rparr>)"

definition submit_password :: "cpage \<Rightarrow> cpage" where
  "submit_password c =
     (let (f, t, call) = password_submit (ts_password (cp_tabs c)) (cs_toasts (cp_store c))
      in (set_form f t c)\<lparr>cp_forms := (if call = None then cp_forms c else Suc (cp_forms c))\<rparr>)"

fun page_change :: "page_effect \<Rightarrow> cpage \<Rightarrow> cpage" where
  "page_change DoReload c = send Reload c"
| "page_change DoSave c = send Save c"
| "page_change (SelectTab k) c = c\<lparr>cp_active := k\<rparr>"
| "page_change (DoActions as) c = on_store (run_actions as) c"
| "page_change (DoUpstreams u) c =
     (let (s, as) = upage_handle (cp_config c) u (ts_upstreams (cp_tabs c))
      in on_store (run_actions as) (c\<lparr>cp_tabs := (cp_tabs c)\<lparr>ts_upstreams := s\<rparr>\<rparr>))"
| "page_change (DoDhcp (SetSub k)) c = c\<lparr>cp_tabs := (cp_tabs c)\<lparr>ts_sub := k\<rparr>\<rparr>"
| "page_change (DoDhcp (PanelEffect as)) c = on_store (run_actions as) c"
| "page_change (DoPassword SubmitPassword) c = submit_password c"
| "page_change (DoPassword e) c =
     c\<lparr>cp_tabs := (cp_tabs c)\<lparr>ts_password := password_type e (ts_password (cp_tabs c))\<rparr>\<rparr>"

datatype cpage_event =
    Effect page_effect
  | Answer cevent
  | PasswordAnswer bool "jsval res"

text \<open>
  The answer to a password request: of the form on the screen (\<open>True\<close>), or of one that is gone, whose
  fields are no longer there.
\<close>

definition answer_password :: "bool \<Rightarrow> jsval res \<Rightarrow> cpage \<Rightarrow> cpage" where
  "answer_password mine r c =
     (let (f, t) = password_settled r (ts_password (cp_tabs c)) (cs_toasts (cp_store c)) in
      if mine then (set_form f t c)\<lparr>cp_forms := cp_forms c - 1\<rparr>
      else (on_store (\<lambda>s. s\<lparr>cs_toasts := t\<rparr>) c)\<lparr>cp_lost := cp_lost c - 1\<rparr>)"

fun cpage_change :: "cpage_event \<Rightarrow> cpage \<Rightarrow> cpage" where
  "cpage_change (Effect e) c = page_change e c"
| "cpage_change (Answer e) c = send e c"
| "cpage_change (PasswordAnswer mine r) c = answer_password mine r c"

text \<open>What the render after a change does to the mounted tab.\<close>

definition remount :: "cpage \<Rightarrow> cpage" where
  "remount c =
     c\<lparr>cp_tabs := mounted_tab_state (cp_config c), cp_forms := 0, cp_lost := cp_lost c + cp_forms c\<rparr>"

definition rendered :: "cpage \<Rightarrow> cpage \<Rightarrow> cpage" where
  "rendered old c =
     (if tabs_shown (cp_store old) \<and> tabs_shown (cp_store c) \<and> cp_active c = cp_active old
      then c\<lparr>cp_tabs := (cp_tabs c)\<lparr>ts_upstreams :=
               dirty_effect (cs_dirty (cp_store old)) (cs_dirty (cp_store c)) (cp_config c)
                 (ts_upstreams (cp_tabs c))\<rparr>\<rparr>
      else remount c)"

definition cpage_handle :: "cpage_event \<Rightarrow> cpage \<Rightarrow> cpage" where
  "cpage_handle e c = rendered c (cpage_change e c)"

definition cpage_view :: "cpage \<Rightarrow> page_effect dom" where
  "cpage_view c = ConfigPageInner (cp_store c) (cp_active c) (cp_tabs c)"

text \<open>An effect needs a control on the screen, an answer a request in flight.\<close>

fun is_answer :: "cevent \<Rightarrow> bool" where
  "is_answer (LoadAnswer r) = True"
| "is_answer (PutAnswer b r) = True"
| "is_answer (SaveLoadAnswer r) = True"
| "is_answer _ = False"

fun cpage_enabled :: "cpage \<Rightarrow> cpage_event \<Rightarrow> bool" where
  "cpage_enabled c (Effect e) = (\<not> cs_crashed (cp_store c) \<and> offers (cpage_view c) e)"
| "cpage_enabled c (Answer e) = (is_answer e \<and> cm_enabled (cp_machine c) e)"
| "cpage_enabled c (PasswordAnswer mine r) = (0 < (if mine then cp_forms c else cp_lost c))"

subsection \<open>What the page offers\<close>

lemma offers_ConfigPageInner:
  "offers (ConfigPageInner s active ts) e \<longleftrightarrow>
     tabs_shown s
     \<and> (e = DoReload \<or> e = DoSave \<and> \<not> cs_saving s \<or> (\<exists>k \<in> set tab_keys. e = SelectTab k)
        \<or> (\<exists>d \<in> set (active_component active ts (cs_config s)). offers d e))"
  by (auto simp: ConfigPageInner_def tabs_shown_def view_simps disabled_def and_then_def list_ex_iff)

lemma active_component_offers:
  assumes "d \<in> set (active_component active ts config)" and "offers d e"
  shows "(\<exists>as. e = DoActions as) \<or> (\<exists>u. e = DoUpstreams u) \<or> (\<exists>x. e = DoDhcp x) \<or> (\<exists>p. e = DoPassword p)"
  using assms by (auto simp: active_component_def offers_map split: if_splits)

lemma offers_cpage:
  assumes "offers (cpage_view c) e"
  shows "tabs_shown (cp_store c)" and "e = DoSave \<Longrightarrow> \<not> cs_saving (cp_store c)"
    and "e = SelectTab k \<Longrightarrow> k \<in> set tab_keys"
  using assms by (auto simp: cpage_view_def offers_ConfigPageInner dest!: active_component_offers)

subsection \<open>The invariant of the page\<close>

lemma machine_ok_store:
  assumes "machine_ok m" and "store_ok s"
    and "cs_saving s = cs_saving (cm_store m)" and "cs_loading s = cs_loading (cm_store m)"
  shows "machine_ok (m\<lparr>cm_store := s\<rparr>)"
  using assms by (simp add: machine_ok_def)

lemma run_action_flags:
  "cs_saving (run_action a s) = cs_saving s" "cs_loading (run_action a s) = cs_loading s"
  "cs_error (run_action a s) = cs_error s" "cs_signed_out (run_action a s) = cs_signed_out s"
  "cs_toasts (run_action a s) = cs_toasts s"
  by (cases a; auto simp: update_def update_section_def split: sum.splits)+

lemma run_action_object: "is_object (cs_config s) \<Longrightarrow> is_object (cs_config (run_action a s))"
  using update_path_object
  by (cases a) (auto simp: update_def update_section_def set_section_def is_object_def split: sum.splits)

lemma run_actions_keeps:
  "cs_saving (run_actions as s) = cs_saving s \<and> cs_loading (run_actions as s) = cs_loading s
     \<and> cs_error (run_actions as s) = cs_error s \<and> cs_signed_out (run_actions as s) = cs_signed_out s
     \<and> cs_toasts (run_actions as s) = cs_toasts s
     \<and> (is_object (cs_config s) \<longrightarrow> is_object (cs_config (run_actions as s)))"
  unfolding run_actions_def by (induction as arbitrary: s) (simp_all add: run_action_flags run_action_object)

lemma store_ok_run_actions: "store_ok s \<Longrightarrow> page_shown s \<Longrightarrow> store_ok (run_actions as s)"
  using run_actions_keeps [of as s] by (auto simp: store_ok_def page_shown_def is_object_not_null)

lemma store_ok_toasts [simp]: "store_ok (s\<lparr>cs_toasts := t\<rparr>) = store_ok s"
  by (simp add: store_ok_def)

lemma rendered_machine [simp]:
  "cp_machine (rendered old c) = cp_machine c" "cp_active (rendered old c) = cp_active c"
  by (simp_all add: rendered_def remount_def)

lemma machine_ok_cpage:
  assumes ok: "machine_ok (cp_machine c)" and "cpage_enabled c e" and "\<not> cs_signed_out (cp_store c)"
  shows "machine_ok (cp_machine (cpage_handle e c))"
proof (cases e)
  case (Effect f)
  with assms(2) have off: "offers (cpage_view c) f" and "\<not> cs_crashed (cp_store c)" by simp_all
  moreover have "\<not> cs_loading (cp_store c)" "cp_config c \<noteq> JNull"
    using offers_cpage(1) [OF off] ok assms(3)
    by (auto simp: tabs_shown_def machine_ok_def store_ok_def)
  ultimately have shown: "page_shown (cp_store c)" by (simp add: page_shown_def)
  have store: "machine_ok ((cp_machine c)\<lparr>cm_store := run_actions as (cp_store c)\<rparr>)" for as
    using machine_ok_store [OF ok store_ok_run_actions [OF _ shown]] ok run_actions_keeps
    by (simp add: machine_ok_def)
  have toasts: "machine_ok ((cp_machine c)\<lparr>cm_store := (cp_store c)\<lparr>cs_toasts := t\<rparr>\<rparr>)" for t
    using machine_ok_store [OF ok] ok by (simp add: machine_ok_def)
  have sent: "machine_ok (cm_handle g (cp_machine c))" if "cm_enabled (cp_machine c) g" for g
    using machine_ok_handle [OF ok that] .
  show ?thesis
  proof (cases f)
    case (DoDhcp x)
    then show ?thesis using Effect ok store by (cases x) (simp_all add: cpage_handle_def on_store_def)
  next
    case (DoPassword p)
    then show ?thesis using Effect ok toasts
      by (cases p) (simp_all add: cpage_handle_def submit_password_def set_form_def on_store_def split: prod.split)
  next
    case DoSave
    then show ?thesis using Effect sent [of Save] shown offers_cpage(2) [OF off]
      by (simp add: cpage_handle_def send_def)
  qed (use Effect ok store sent [of Reload] shown in
    \<open>simp_all add: cpage_handle_def on_store_def send_def split: prod.split\<close>)
next
  case (Answer g)
  then show ?thesis using assms(2) machine_ok_handle [OF ok, of g] by (simp add: cpage_handle_def send_def)
next
  case (PasswordAnswer mine r)
  then show ?thesis using machine_ok_store [OF ok] ok
    by (simp add: cpage_handle_def answer_password_def set_form_def on_store_def machine_ok_def split: prod.split)
qed


subsection \<open>Changing tabs\<close>

lemma committed_paths:
  assumes "\<forall>r \<in> set rules. plain_rule catalog r" and "committed config catalog rules = (groups, sets)"
  shows "(\<lambda>e. string_or_empty (field e ''path'')) ` set sets =
    {p. p \<noteq> [] \<and> (\<exists>r \<in> set rules. \<exists>n \<in> set (r_rulesets r). catalog_path catalog n = Some p)}"
proof -
  have entries: "(\<lambda>e. string_or_empty (field e ''path'')) ` set (ruleset_entries (path_table catalog) g names)
      = {p. p \<noteq> [] \<and> (\<exists>n \<in> set names. catalog_path catalog n = Some p)}"
    if "list_all (\<lambda>n. n \<in> set object_proto \<longrightarrow> n \<in> ce_name ` set catalog) names" for g names
    using that
  proof (induction names)
    case (Cons n names)
    have entry: "obj_read [(''path'', JStr p), (''upstream'', JStr g)] ''path'' = JStr p" for p
      by (simp add: obj_read_def)
    have c: "ruleset_entries (path_table catalog) g (n # names) =
        (case catalog_path catalog n of
           Some p \<Rightarrow> if p \<noteq> [] then [JObj [(''path'', JStr p), (''upstream'', JStr g)]] else []
         | None \<Rightarrow> []) @ ruleset_entries (path_table catalog) g names"
      by (rule ruleset_entries_Cons) (use Cons.prems in simp)
    have ih: "(\<lambda>e. string_or_empty (field e ''path'')) ` set (ruleset_entries (path_table catalog) g names)
        = {p. p \<noteq> [] \<and> (\<exists>n \<in> set names. catalog_path catalog n = Some p)}"
      using Cons by simp
    show ?case
      unfolding c set_append image_Un ih by (cases "catalog_path catalog n") (auto simp: entry string_or_empty_def)
  qed (simp add: ruleset_entries_def)
  have o: "\<forall>r \<in> set rules. ordinary_rule r" using assms(1) by (simp add: plain_rule_def)
  let ?zip = "zip (names_from 0 rules [''default'']) rules"
  let ?files = "\<lambda>r. {p. p \<noteq> [] \<and> (\<exists>n \<in> set (r_rulesets r). catalog_path catalog n = Some p)}"
  have snd_zip: "snd ` set ?zip = set rules"
    by (metis length_names_from list.set_map map_snd_zip)
  have each: "(\<lambda>e. string_or_empty (field e ''path'')) ` set (ruleset_entries (path_table catalog) (fst x)
      (r_rulesets (snd x))) = ?files (snd x)" if "x \<in> set ?zip" for x
  proof -
    have "snd x \<in> set rules" using snd_zip that by blast
    then show ?thesis using assms(1) entries by (simp add: plain_rule_def)
  qed
  have "(\<lambda>e. string_or_empty (field e ''path'')) ` set sets = (\<Union>x \<in> set ?zip. ?files (snd x))"
    using each by (simp add: committed_groups(2) [OF o assms(2)] image_UN split_beta)
  also have "\<dots> = (\<Union>r \<in> set rules. ?files r)"
    unfolding snd_zip [symmetric] by simp
  finally have "(\<lambda>e. string_or_empty (field e ''path'')) ` set sets = (\<Union>r \<in> set rules. ?files r)" .
  then show ?thesis by auto
qed


lemma committed_nameable:
  assumes "\<forall>r \<in> set rules. plain_rule catalog r" and "committed config catalog rules = (groups, sets)"
    and "\<forall>e \<in> set catalog. ce_path e \<noteq> [] \<longrightarrow> basename_no_ext (ce_path e) \<noteq> []"
  shows "list_all (nameable groups) sets"
proof -
  have o: "\<forall>r \<in> set rules. ordinary_rule r" using assms(1) by (simp add: plain_rule_def)
  have "basename_no_ext (string_or_empty (field e ''path'')) \<noteq> []" if "e \<in> set sets" for e
  proof -
    have "string_or_empty (field e ''path'') \<in> (\<lambda>e. string_or_empty (field e ''path'')) ` set sets" using that by blast
    then obtain n where n: "catalog_path catalog n = Some (string_or_empty (field e ''path''))"
      "string_or_empty (field e ''path'') \<noteq> []"
      unfolding committed_paths [OF assms(1,2)] by blast
    then show ?thesis using assms(3) by (auto simp: catalog_path_def dest!: map_of_SomeD)
  qed
  then show ?thesis using committed_upstreams(2) [OF o assms(2)] by (simp add: list_all_iff nameable_def)
qed

text \<open>Leaving a tab and coming back mounts it anew, over the store as it is.\<close>

lemma tab_round_trip:
  assumes "tabs_shown (cp_store c)" and "cp_active c = t" and "k \<noteq> t"
  shows "cp_tabs (cpage_handle (Effect (SelectTab t)) (cpage_handle (Effect (SelectTab k)) c))
      = mounted_tab_state (cp_config c)"
    and "cp_machine (cpage_handle (Effect (SelectTab t)) (cpage_handle (Effect (SelectTab k)) c)) = cp_machine c"
  using assms by (simp_all add: cpage_handle_def rendered_def remount_def)

text \<open>
  A look at another tab forgets the files no rule uses: when the lists on the rule sets tab have been
  written to the store, choosing another tab and the rule sets tab again leaves the store as it is, but
  the catalogue then has exactly the files that some rule refers to; the others, registered by the user
  and neither saved nor discarded, are gone.
\<close>

theorem switching_tabs_forgets_unused_files:
  assumes "tabs_shown (cp_store c)" and "cp_active c = ''upstreams''" and "k \<noteq> ''upstreams''"
    and "list_all (plain_rule (up_catalog (ts_upstreams (cp_tabs c)))) (up_rules (ts_upstreams (cp_tabs c)))"
    and "list_all (\<lambda>e. ce_path e = [] \<or> basename_no_ext (ce_path e) \<noteq> []) (up_catalog (ts_upstreams (cp_tabs c)))"
    and "committed config (up_catalog (ts_upstreams (cp_tabs c))) (up_rules (ts_upstreams (cp_tabs c)))
      = (groups, sets)"
    and "config_groups (cp_config c) = JObj groups" and "config_rulesets (cp_config c) = sets"
    and "c' = cpage_handle (Effect (SelectTab ''upstreams'')) (cpage_handle (Effect (SelectTab k)) c)"
  shows "cp_store c' = cp_store c
    \<and> ce_path ` set (up_catalog (ts_upstreams (cp_tabs c'))) =
      {p. p \<noteq> [] \<and> (\<exists>r \<in> set (up_rules (ts_upstreams (cp_tabs c))). \<exists>n \<in> set (r_rulesets r).
            catalog_path (up_catalog (ts_upstreams (cp_tabs c))) n = Some p)}"
proof -
  let ?u = "ts_upstreams (cp_tabs c)"
  have rules: "\<forall>r \<in> set (up_rules ?u). plain_rule (up_catalog ?u) r" using assms(4) by (simp add: list_all_iff)
  have "\<forall>e \<in> set (up_catalog ?u). ce_path e \<noteq> [] \<longrightarrow> basename_no_ext (ce_path e) \<noteq> []"
    using assms(5) by (auto simp: list_all_iff)
  from committed_nameable [OF rules assms(6) this] have ok: "list_all (nameable groups) (config_rulesets (cp_config c))"
    by (simp add: assms(8))
  obtain catalog rs where boot: "from_backend (cp_config c) = (catalog, rs)" by force
  have "up_catalog (ts_upstreams (cp_tabs c')) = catalog"
    using tab_round_trip(1) [OF assms(1,2,3)] boot by (simp add: assms(9) mounted_tab_state_def boot_page_def)
  moreover have "cp_store c' = cp_store c" using tab_round_trip(2) [OF assms(1,2,3)] by (simp add: assms(9))
  ultimately show ?thesis
    using from_backend_facts(4) [OF assms(7) ok boot] committed_paths [OF rules assms(6)] by (simp add: assms(8))
qed

definition unused_entry :: catalog_entry where
  "unused_entry = \<lparr>ce_name = ''ads'', ce_path = ''/etc/relay/ads.drs''\<rparr>"

definition sample_cpage :: cpage where
  "sample_cpage = initial_cpage
     \<lparr>cp_machine := initial_machine\<lparr>cm_store := initial_cstore\<lparr>cs_config := sample_config, cs_loading := False\<rparr>\<rparr>,
      cp_active := ''upstreams'',
      cp_tabs := (mounted_tab_state sample_config)
        \<lparr>ts_upstreams := sample_page\<lparr>up_catalog := sample_catalog @ [unused_entry]\<rparr>\<rparr>\<rparr>"

lemma sample_unused_commit:
  "committed sample_config (sample_catalog @ [unused_entry]) [sample_rule] = (sample_groups, sample_sets)"
  by (simp add: committed_def sample_config_def sample_catalog_def sample_rule_def sample_groups_def
      sample_group_def sample_sets_def config_groups_def default_group_of_def path_table_def
      from_entries_def obj_put_def group_name_for_rule_def trim_cn obj_read_def js_or_def spread_def
      ruleset_entries_def group_of_rule_def is_index_def is_digit_def unused_entry_def Let_def)

theorem switching_tabs_forgets_unused_files_witness:
  "ce_path ` set (up_catalog (ts_upstreams (cp_tabs sample_cpage))) = {''/etc/relay/cn.drs'', ''/etc/relay/ads.drs''}
    \<and> ce_path ` set (up_catalog (ts_upstreams (cp_tabs
        (cpage_handle (Effect (SelectTab ''upstreams'')) (cpage_handle (Effect (SelectTab ''basic'')) sample_cpage)))))
      = {''/etc/relay/cn.drs''}"
proof -
  have page: "up_catalog (ts_upstreams (cp_tabs sample_cpage)) = sample_catalog @ [unused_entry]"
    "up_rules (ts_upstreams (cp_tabs sample_cpage)) = [sample_rule]" "cp_config sample_cpage = sample_config"
    by (simp_all add: sample_cpage_def sample_page_def)
  have shown: "tabs_shown (cp_store sample_cpage)" "cp_active sample_cpage = ''upstreams''"
    by (simp_all add: sample_cpage_def tabs_shown_def initial_cstore_def)
  have named: "basename_no_ext ''/etc/relay/cn.drs'' \<noteq> []" "basename_no_ext ''/etc/relay/ads.drs'' \<noteq> []"
    by code_simp+
  have plain: "list_all (plain_rule (sample_catalog @ [unused_entry])) [sample_rule]"
    using sample_plain(1) by (auto simp: plain_rule_def list_all_iff)
  have paths: "catalog_path (sample_catalog @ [unused_entry]) ''cn'' = Some ''/etc/relay/cn.drs''"
    by (simp add: catalog_path_def sample_catalog_def unused_entry_def)
  have "list_all (\<lambda>e. ce_path e = [] \<or> basename_no_ext (ce_path e) \<noteq> []) (sample_catalog @ [unused_entry])"
    using named by (simp add: sample_catalog_def unused_entry_def)
  from switching_tabs_forgets_unused_files [OF shown, of "''basic''" sample_config sample_groups sample_sets,
      unfolded page, OF _ plain this sample_unused_commit sample_groups_ok(1,2) refl]
  have "ce_path ` set (up_catalog (ts_upstreams (cp_tabs
        (cpage_handle (Effect (SelectTab ''upstreams'')) (cpage_handle (Effect (SelectTab ''basic'')) sample_cpage)))))
      = {p. p \<noteq> [] \<and> (\<exists>r \<in> set [sample_rule]. \<exists>n \<in> set (r_rulesets r).
          catalog_path (sample_catalog @ [unused_entry]) n = Some p)}" by simp
  moreover have "{p. p \<noteq> [] \<and> (\<exists>r \<in> set [sample_rule]. \<exists>n \<in> set (r_rulesets r).
        catalog_path (sample_catalog @ [unused_entry]) n = Some p)} = {''/etc/relay/cn.drs''}"
    by (auto simp: sample_rule_def paths)
  moreover have "ce_path ` set (sample_catalog @ [unused_entry]) = {''/etc/relay/cn.drs'', ''/etc/relay/ads.drs''}"
    by (simp only: sample_catalog_def unused_entry_def set_append list.set image_Un image_insert image_empty
        catalog_entry.simps Un_insert_left Un_empty_left)
  ultimately show ?thesis unfolding page by simp
qed

end
