(* ===== verification/Panel.thy ===== *)
theory Panel
  imports Config_Page Query_Log
begin

text \<open>
  The whole user interface: the session, the login form, the frame, the toasts and the page that is
  mounted, composed the way \<open>App.jsx\<close> nests them. After every event the tree is rendered again: the
  page of the screen is mounted with fresh state when it was not there, the page of another screen is
  unmounted, and its requests go on without it. What a user can do is what the view offers.
\<close>

subsection \<open>State\<close>

text \<open>What the browser and the libraries give: see the components for each.\<close>

record browser =
  b_matches :: "string \<Rightarrow> string \<Rightarrow> bool"
  b_active :: "string \<Rightarrow> string \<Rightarrow> bool \<Rightarrow> bool"
  b_epoch :: "jsval \<Rightarrow> int option"
  b_clock :: "jsval \<Rightarrow> string"
  b_stamp :: "jsval \<Rightarrow> string"
  b_number :: "jsval \<Rightarrow> string"
  b_now :: int

text \<open>The mounted page; the overview with the number of its requests in flight.\<close>

datatype mounted =
    NoPage
  | OnDashboard dash nat
  | OnQueryLog qmachine
  | OnConfig cpage

text \<open>
  Requests of pages that are gone: what they still do is to end the session, to report the outcome of
  a save and start the reload after it, or to report a changed password.
\<close>

datatype late = LatePage | LateSave | LatePassword

record panel =
  pn_app :: app
  pn_form :: login_form
  pn_menu :: bool
  pn_toasts :: toaster
  pn_page :: mounted
  pn_late :: "late list"
  pn_blank :: bool

fun fresh_page :: "page \<Rightarrow> mounted" where
  "fresh_page DashboardPage = OnDashboard initial_dash 1"
| "fresh_page QueryLogPage = OnQueryLog initial_qmachine"
| "fresh_page ConfigPage = OnConfig initial_cpage"

fun page_of :: "mounted \<Rightarrow> page option" where
  "page_of NoPage = None"
| "page_of (OnDashboard d n) = Some DashboardPage"
| "page_of (OnQueryLog q) = Some QueryLogPage"
| "page_of (OnConfig c) = Some ConfigPage"

text \<open>Requests whose refusal ends the session: those of the mounted page and those left behind.\<close>

fun pending :: "mounted \<Rightarrow> nat" where
  "pending NoPage = 0"
| "pending (OnDashboard d n) = n"
| "pending (OnQueryLog q) = length (qm_inflight q)"
| "pending (OnConfig c) = length (cm_inflight (cp_machine c))"

fun late_pending :: "late \<Rightarrow> nat" where
  "late_pending LatePassword = 0"
| "late_pending l = 1"

definition total_pending :: "panel \<Rightarrow> nat" where
  "total_pending p = pending (pn_page p) + sum_list (map late_pending (pn_late p))"

fun late_request :: "request \<Rightarrow> late" where
  "late_request (SavePut b) = LateSave"
| "late_request r = LatePage"

fun left_behind :: "mounted \<Rightarrow> late list" where
  "left_behind NoPage = []"
| "left_behind (OnDashboard d n) = replicate n LatePage"
| "left_behind (OnQueryLog q) = map (\<lambda>_. LatePage) (qm_inflight q)"
| "left_behind (OnConfig c) =
     map late_request (cm_inflight (cp_machine c)) @ replicate (cp_forms c + cp_lost c) LatePassword"

subsection \<open>The view\<close>

datatype user_event =
    ULogin login_event
  | UShell shell_event
  | UToast nat
  | ULog qevent
  | UConfig page_effect

definition screen_of :: "browser \<Rightarrow> panel \<Rightarrow> screen" where
  "screen_of b p = app_screen (b_matches b) (app_status (pn_app p)) (loc_path (app_loc (pn_app p)))"

text \<open>\<open>None\<close>: the render of the page throws.\<close>

fun page_view :: "browser \<Rightarrow> mounted \<Rightarrow> user_event dom option" where
  "page_view b NoPage = Some (Elem ''div'' [] [] [])"
| "page_view b (OnDashboard d n) = Dashboard_view (b_epoch b) (b_clock b) (b_number b) (b_now b) d"
| "page_view b (OnQueryLog q) = map_option (map_dom ULog) (QueryLog_view (b_stamp b) (qm_page q))"
| "page_view b (OnConfig c) =
     (if cs_crashed (cp_store c) then None else Some (map_dom UConfig (cpage_view c)))"

definition screen_view :: "browser \<Rightarrow> panel \<Rightarrow> user_event dom list" where
  "screen_view b p =
     (case screen_of b p of
        LoginScreen \<Rightarrow> [map_dom ULogin (Login_view (pn_form p))]
      | LoadingScreen \<Rightarrow> [Loading_view]
      | Redirect to from \<Rightarrow> []
      | Protected pg \<Rightarrow>
          (case page_view b (pn_page p) of
             None \<Rightarrow> []
           | Some v \<Rightarrow> [Layout (b_active b (loc_path (app_loc (pn_app p)))) UShell (pn_menu p) v]))"

text \<open>Without an error boundary, an error of the render leaves an empty root element.\<close>

definition panel_view :: "browser \<Rightarrow> panel \<Rightarrow> user_event dom" where
  "panel_view b p =
     Elem ''div'' [] []
       (if pn_blank p then [] else screen_view b p @ [map_dom UToast (Toasts_view (pn_toasts p))])"

subsection \<open>Rendering\<close>

definition unmount :: "panel \<Rightarrow> panel" where
  "unmount p = p\<lparr>pn_late := pn_late p @ left_behind (pn_page p), pn_page := NoPage\<rparr>"

text \<open>The session counts a request for each one the pages have in flight.\<close>

definition start_requests :: "browser \<Rightarrow> nat \<Rightarrow> app \<Rightarrow> app" where
  "start_requests b n a =
     (app_handle (b_matches b) StartPageRequest ^^ (n - count_list (app_inflight a) PageReq)) a"

definition mount :: "browser \<Rightarrow> panel \<Rightarrow> panel" where
  "mount b p =
     (case screen_of b p of
        Protected pg \<Rightarrow> if page_of (pn_page p) = Some pg then p else (unmount p)\<lparr>pn_page := fresh_page pg\<rparr>
      | _ \<Rightarrow> (unmount p)\<lparr>pn_menu := False\<rparr>)"

definition reset_form :: "browser \<Rightarrow> panel \<Rightarrow> panel" where
  "reset_form b p = (if screen_of b p = LoginScreen then p else p\<lparr>pn_form := empty_login_form\<rparr>)"

definition check_render :: "browser \<Rightarrow> panel \<Rightarrow> panel" where
  "check_render b p = (if page_view b (pn_page p) = None then (unmount p)\<lparr>pn_blank := True\<rparr> else p)"

definition count_requests :: "browser \<Rightarrow> panel \<Rightarrow> panel" where
  "count_requests b p = p\<lparr>pn_app := start_requests b (total_pending p) (pn_app p)\<rparr>"

definition settle :: "browser \<Rightarrow> panel \<Rightarrow> panel" where
  "settle b p = count_requests b (check_render b (reset_form b (mount b p)))"

definition initial_panel :: "browser \<Rightarrow> string \<Rightarrow> panel" where
  "initial_panel b path =
     settle b \<lparr>pn_app = initial_app path, pn_form = empty_login_form, pn_menu = False, pn_toasts = no_toasts,
              pn_page = NoPage, pn_late = [], pn_blank = False\<rparr>"

subsection \<open>Events\<close>

datatype panel_event =
    User user_event
  | Visit string
  | Redirected
  | ToastTimer nat
  | DashTick
  | LogTick
  | ProbeDone "jsval res"
  | LoginDone bool string "jsval res"
  | LogoutDone "jsval res"
  | DashDone "jsval res"
  | LogDone log_query "jsval res"
  | ConfigDone cevent
  | PasswordDone bool "jsval res"
  | LateDone late "jsval res"

definition on_app :: "browser \<Rightarrow> app_event \<Rightarrow> panel \<Rightarrow> panel" where
  "on_app b e p = p\<lparr>pn_app := app_handle (b_matches b) e (pn_app p)\<rparr>"

text \<open>The configuration page pushes toasts: it works on the panel's list.\<close>

definition on_config :: "cpage_event \<Rightarrow> panel \<Rightarrow> panel" where
  "on_config e p =
     (case pn_page p of
        OnConfig c \<Rightarrow>
          (let c' = cpage_handle e (on_store (\<lambda>s. s\<lparr>cs_toasts := pn_toasts p\<rparr>) c)
           in p\<lparr>pn_page := OnConfig c', pn_toasts := cs_toasts (cp_store c')\<rparr>)
      | _ \<Rightarrow> p)"

definition on_log :: "qevent \<Rightarrow> panel \<Rightarrow> panel" where
  "on_log e p =
     (case pn_page p of OnQueryLog q \<Rightarrow> p\<lparr>pn_page := OnQueryLog (qm_handle e q)\<rparr> | _ \<Rightarrow> p)"

fun result_of :: "cevent \<Rightarrow> jsval res" where
  "result_of (LoadAnswer r) = r"
| "result_of (PutAnswer b r) = r"
| "result_of (SaveLoadAnswer r) = r"
| "result_of e = Inr JUndef"

fun user_change :: "browser \<Rightarrow> user_event \<Rightarrow> panel \<Rightarrow> panel" where
  "user_change b (ULogin e) p =
     (let p' = p\<lparr>pn_form := login_type e (pn_form p)\<rparr> in if e = SubmitLoginForm then on_app b SubmitLogin p' else p')"
| "user_change b (UShell e) p =
     (let p' = p\<lparr>pn_menu := menu_after e (pn_menu p)\<rparr> in
      case e of FollowLink to \<Rightarrow> on_app b (Navigate to) p' | PressLogout \<Rightarrow> on_app b ClickLogout p' | _ \<Rightarrow> p')"
| "user_change b (UToast i) p = p\<lparr>pn_toasts := dismiss i (pn_toasts p)\<rparr>"
| "user_change b (ULog e) p = on_log e p"
| "user_change b (UConfig e) p = on_config (Effect e) p"

text \<open>
  The answer to a login started by the form on the screen (\<open>True\<close>) or by one that is gone; the answer
  to a request of a page that is gone.
\<close>

definition login_answer :: "browser \<Rightarrow> bool \<Rightarrow> string \<Rightarrow> jsval res \<Rightarrow> panel \<Rightarrow> panel" where
  "login_answer b mine target r p =
     (let p' = on_app b (LoginAnswer target r) p in
      if mine then p'\<lparr>pn_form := submit_end (snd (login_settled r (app_status (pn_app p)))) (pn_form p)\<rparr> else p')"

fun late_answer :: "browser \<Rightarrow> late \<Rightarrow> jsval res \<Rightarrow> panel \<Rightarrow> panel" where
  "late_answer b LatePage r p = on_app b (PageAnswer r) p"
| "late_answer b LateSave r p =
     (let (s, awaits) = save_put_end r (initial_cstore\<lparr>cs_toasts := pn_toasts p\<rparr>)
      in on_app b (PageAnswer r)
           (p\<lparr>pn_toasts := cs_toasts s, pn_late := (if awaits then LatePage # pn_late p else pn_late p)\<rparr>))"
| "late_answer b LatePassword r p =
     p\<lparr>pn_toasts := snd (password_settled r empty_password_form (pn_toasts p))\<rparr>"

fun panel_change :: "browser \<Rightarrow> panel_event \<Rightarrow> panel \<Rightarrow> panel" where
  "panel_change b (User u) p = user_change b u p"
| "panel_change b (Visit s) p = on_app b (Navigate s) p"
| "panel_change b Redirected p = on_app b FollowRedirect p"
| "panel_change b (ToastTimer i) p = p\<lparr>pn_toasts := dismiss i (pn_toasts p)\<rparr>"
| "panel_change b DashTick p =
     (case pn_page p of OnDashboard d n \<Rightarrow> p\<lparr>pn_page := OnDashboard d (Suc n)\<rparr> | _ \<Rightarrow> p)"
| "panel_change b LogTick p = on_log TimerFires p"
| "panel_change b (ProbeDone r) p = on_app b (ProbeAnswer r) p"
| "panel_change b (LoginDone mine target r) p = login_answer b mine target r p"
| "panel_change b (LogoutDone r) p = on_app b (LogoutAnswer r) p"
| "panel_change b (DashDone r) p =
     on_app b (PageAnswer r)
       (case pn_page p of OnDashboard d n \<Rightarrow> p\<lparr>pn_page := OnDashboard (dash_end r d) (n - 1)\<rparr> | _ \<Rightarrow> p)"
| "panel_change b (LogDone q r) p = on_app b (PageAnswer r) (on_log (RowsAnswer q r) p)"
| "panel_change b (ConfigDone e) p = on_app b (PageAnswer (result_of e)) (on_config (Answer e) p)"
| "panel_change b (PasswordDone mine r) p = on_config (PasswordAnswer mine r) p"
| "panel_change b (LateDone l r) p = late_answer b l r (p\<lparr>pn_late := remove1 l (pn_late p)\<rparr>)"

definition panel_handle :: "browser \<Rightarrow> panel_event \<Rightarrow> panel \<Rightarrow> panel" where
  "panel_handle b e p = settle b (panel_change b e p)"

text \<open>What can happen: nothing after an error of the render took the tree down.\<close>

fun is_login_req :: "inflight \<Rightarrow> bool" where
  "is_login_req (LoginReq t) = True"
| "is_login_req r = False"

fun event_possible :: "browser \<Rightarrow> panel \<Rightarrow> panel_event \<Rightarrow> bool" where
  "event_possible b p (User u) = offers (panel_view b p) u"
| "event_possible b p (Visit s) = True"
| "event_possible b p Redirected = app_enabled (b_matches b) (pn_app p) FollowRedirect"
| "event_possible b p (ToastTimer i) = (i \<in> set (ts_timers (pn_toasts p)))"
| "event_possible b p DashTick = (page_of (pn_page p) = Some DashboardPage)"
| "event_possible b p LogTick = (case pn_page p of OnQueryLog q \<Rightarrow> timer_runs (qm_page q) | _ \<Rightarrow> False)"
| "event_possible b p (ProbeDone r) = app_enabled (b_matches b) (pn_app p) (ProbeAnswer r)"
| "event_possible b p (LoginDone mine target r) =
     (app_enabled (b_matches b) (pn_app p) (LoginAnswer target r)
      \<and> (if mine then lf_loading (pn_form p)
         else (if lf_loading (pn_form p) then 1 else 0) < length (filter is_login_req (app_inflight (pn_app p)))))"
| "event_possible b p (LogoutDone r) = app_enabled (b_matches b) (pn_app p) (LogoutAnswer r)"
| "event_possible b p (DashDone r) = (case pn_page p of OnDashboard d n \<Rightarrow> 0 < n | _ \<Rightarrow> False)"
| "event_possible b p (LogDone q r) = (case pn_page p of OnQueryLog m \<Rightarrow> q \<in> set (qm_inflight m) | _ \<Rightarrow> False)"
| "event_possible b p (ConfigDone e) = (case pn_page p of OnConfig c \<Rightarrow> cpage_enabled c (Answer e) | _ \<Rightarrow> False)"
| "event_possible b p (PasswordDone mine r) =
     (case pn_page p of OnConfig c \<Rightarrow> cpage_enabled c (PasswordAnswer mine r) | _ \<Rightarrow> False)"
| "event_possible b p (LateDone l r) = (l \<in> set (pn_late p))"

definition panel_enabled :: "browser \<Rightarrow> panel \<Rightarrow> panel_event \<Rightarrow> bool" where
  "panel_enabled b p e \<longleftrightarrow> \<not> pn_blank p \<and> event_possible b p e"

text \<open>The states the panel reaches when it is opened at some address.\<close>

inductive panel_reach :: "browser \<Rightarrow> panel \<Rightarrow> bool" for b where
  panel_start: "panel_reach b (initial_panel b path)"
| panel_next: "panel_reach b p \<Longrightarrow> panel_enabled b p e \<Longrightarrow> panel_reach b (panel_handle b e p)"

end
