(* ===== verification/Panel_Invariant.thy ===== *)
theory Panel_Invariant
  imports Panel
begin

text \<open>
  The invariant of the composed panel: what every change leaves for the render (\<open>changed_ok\<close>), what the
  render establishes (\<open>panel_ok\<close>), and that all events keep it.
\<close>

subsection \<open>The invariant\<close>

lemma start_requests_simps [simp]:
  "app_status (start_requests b n a) = app_status a" "app_loc (start_requests b n a) = app_loc a"
proof -
  have "app_status ((app_handle m StartPageRequest ^^ k) a) = app_status a
      \<and> app_loc ((app_handle m StartPageRequest ^^ k) a) = app_loc a" for m k
    by (induction k) simp_all
  then show "app_status (start_requests b n a) = app_status a" "app_loc (start_requests b n a) = app_loc a"
    by (simp_all add: start_requests_def)
qed

lemma count_start_requests:
  "count_list (app_inflight a) PageReq \<le> n \<Longrightarrow> count_list (app_inflight (start_requests b n a)) PageReq = n"
proof -
  have "count_list (app_inflight ((app_handle m StartPageRequest ^^ k) a)) PageReq
      = k + count_list (app_inflight a) PageReq" for m k
    by (induction k) simp_all
  then show "count_list (app_inflight a) PageReq \<le> n \<Longrightarrow> ?thesis" by (simp add: start_requests_def)
qed

lemma unmount_simps [simp]:
  "pn_page (unmount p) = NoPage" "pn_app (unmount p) = pn_app p" "pn_toasts (unmount p) = pn_toasts p"
  "pn_blank (unmount p) = pn_blank p" "pn_form (unmount p) = pn_form p"
  by (simp_all add: unmount_def)

lemma pending_left_behind: "sum_list (map late_pending (left_behind m)) = pending m"
proof (cases m)
  case (OnConfig c)
  have "late_pending (late_request r) = 1" for r by (cases r) simp_all
  then have "sum_list (map (late_pending \<circ> late_request) rs) = length rs" for rs by (induction rs) simp_all
  with OnConfig show ?thesis by (simp add: sum_list_replicate)
qed (simp_all add: sum_list_replicate comp_def sum_list_triv)

lemma total_unmount [simp]: "total_pending (unmount p) = total_pending p"
  by (simp add: total_pending_def unmount_def pending_left_behind)

definition config_sound :: "panel \<Rightarrow> bool" where
  "config_sound p \<longleftrightarrow> (\<forall>c. pn_page p = OnConfig c \<longrightarrow>
     machine_ok (cp_machine c) \<and> (cs_signed_out (cp_store c) \<longrightarrow> app_status (pn_app p) = Anon))"

text \<open>What every change leaves for the render.\<close>

definition changed_ok :: "panel \<Rightarrow> bool" where
  "changed_ok p \<longleftrightarrow>
     count_list (app_inflight (pn_app p)) PageReq \<le> total_pending p \<and> toasts_ok (pn_toasts p) \<and> config_sound p"

text \<open>
  What the render establishes: the page of the screen is mounted, and only with a session; the session
  counts the requests of the pages; the toasts and the mounted configuration page are consistent.
\<close>

definition panel_ok :: "browser \<Rightarrow> panel \<Rightarrow> bool" where
  "panel_ok b p \<longleftrightarrow>
     (if pn_blank p then pn_page p = NoPage
      else page_of (pn_page p) = (case screen_of b p of Protected pg \<Rightarrow> Some pg | _ \<Rightarrow> None)
        \<and> page_view b (pn_page p) \<noteq> None)
     \<and> count_list (app_inflight (pn_app p)) PageReq = total_pending p
     \<and> toasts_ok (pn_toasts p)
     \<and> (\<forall>c. pn_page p = OnConfig c \<longrightarrow> machine_ok (cp_machine c) \<and> \<not> cs_signed_out (cp_store c))"

lemma page_of_fresh [simp]: "page_of (fresh_page pg) = Some pg"
  by (cases pg) simp_all

lemma app_screen_protected: "app_screen m s path = Protected pg \<Longrightarrow> s = Authed"
  by (cases s) (auto simp: app_screen_def require_auth_def split: if_splits)

lemma mount_simps [simp]:
  "pn_app (mount b p) = pn_app p" "pn_toasts (mount b p) = pn_toasts p" "pn_blank (mount b p) = pn_blank p"
  by (simp_all add: mount_def split: screen.split)

lemma screen_mount [simp]: "screen_of b (mount b p) = screen_of b p"
  by (simp add: screen_of_def)

lemma mount_page: "page_of (pn_page (mount b p)) = (case screen_of b p of Protected pg \<Rightarrow> Some pg | _ \<Rightarrow> None)"
  by (simp add: mount_def split: screen.split)

lemma mount_total: "total_pending p \<le> total_pending (mount b p)"
proof -
  have "total_pending p \<le> total_pending ((unmount p)\<lparr>pn_page := m\<rparr>)"
    "total_pending p = total_pending ((unmount p)\<lparr>pn_menu := v\<rparr>)" for m v
    by (simp_all add: total_pending_def unmount_def pending_left_behind)
  then show ?thesis by (simp add: mount_def split: screen.split)
qed

lemma initial_cpage_ok: "machine_ok (cp_machine initial_cpage)" "\<not> cs_signed_out (cp_store initial_cpage)"
  using machine_ok_initial by (simp_all add: initial_cpage_def initial_machine_def initial_cstore_def)

lemma mount_config:
  assumes "config_sound p" and "pn_page (mount b p) = OnConfig c"
  shows "machine_ok (cp_machine c) \<and> \<not> cs_signed_out (cp_store c)"
proof (cases "screen_of b p")
  case (Protected pg)
  then have "app_status (pn_app p) = Authed" using app_screen_protected by (simp add: screen_of_def)
  then show ?thesis using assms Protected
    by (cases pg)
      (auto simp: mount_def config_sound_def initial_cpage_ok split: if_splits)
qed (use assms(2) in \<open>simp_all add: mount_def\<close>)

lemma settle_renders:
  "page_view b (pn_page (reset_form b (mount b p))) \<noteq> None \<Longrightarrow> settle b p = count_requests b (reset_form b (mount b p))"
  by (simp only: settle_def check_render_def if_False)

lemma panel_ok_settle:
  assumes "changed_ok p" and "\<not> pn_blank p"
  shows "panel_ok b (settle b p)"
proof -
  define q where "q = reset_form b (mount b p)"
  have q: "pn_app q = pn_app p" "pn_toasts q = pn_toasts p" "pn_page q = pn_page (mount b p)"
    "\<not> pn_blank q" "screen_of b q = screen_of b p" "total_pending q = total_pending (mount b p)"
    using assms(2) by (simp_all add: q_def reset_form_def screen_of_def total_pending_def)
  have count: "count_list (app_inflight (pn_app p)) PageReq \<le> total_pending q"
    using assms(1) mount_total [of p b] q(6) by (simp add: changed_ok_def)
  have sound: "machine_ok (cp_machine c) \<and> \<not> cs_signed_out (cp_store c)" if "pn_page q = OnConfig c" for c
    by (rule mount_config [of p b]) (use assms(1) q(3) that in \<open>simp_all add: changed_ok_def\<close>)
  show ?thesis
  proof (cases "page_view b (pn_page q) = None")
    case True
    then have "settle b p = count_requests b ((unmount q)\<lparr>pn_blank := True\<rparr>)"
      by (simp add: settle_def check_render_def q_def)
    then show ?thesis
      using count assms(1) q by (simp add: panel_ok_def count_requests_def count_start_requests changed_ok_def
          total_pending_def unmount_def pending_left_behind)
  next
    case False
    then have "settle b p = count_requests b q" using settle_renders by (simp add: q_def)
    moreover have "screen_of b (count_requests b q) = screen_of b p"
      using q by (simp add: screen_of_def count_requests_def)
    ultimately show ?thesis
      using count sound False assms(1) q mount_page [of b p]
      by (simp add: panel_ok_def count_requests_def count_start_requests changed_ok_def total_pending_def)
  qed
qed


lemma toast_with_ok: "toasts_ok t \<Longrightarrow> toasts_ok (toast_with k m d t)"
  by (simp add: toast_with_def toasts_ok_push)

lemma password_toasts:
  "toasts_ok t \<Longrightarrow> toasts_ok (fst (snd (password_submit f t)))"
  "toasts_ok t \<Longrightarrow> toasts_ok (snd (password_settled r f t))"
  by (simp add: password_submit_def toast_with_ok, cases r, simp_all add: toast_with_ok)

lemma save_toasts: "toasts_ok (cs_toasts s) \<Longrightarrow> toasts_ok (cs_toasts (fst (save_put_end r s)))"
  by (cases r) (auto simp: Let_def save_catch_def load_begin_def toast_with_ok split: sum.split)

lemma load_toasts [simp]: "cs_toasts (load_end r s) = cs_toasts s"
  by (cases r) auto

lemma cm_handle_toasts:
  "is_answer e \<or> e = Save \<or> e = Reload \<Longrightarrow> toasts_ok (cs_toasts (cm_store m)) \<Longrightarrow>
     toasts_ok (cs_toasts (cm_store (cm_handle e m)))"
  using save_toasts [of "cm_store m"]
  by (cases e) (auto simp: save_load_end_def load_begin_def save_begin_def Let_def split_beta)

lemma js_get_error: "js_get v k = Inl e \<Longrightarrow> err_name e = ''TypeError''"
  by (cases v) (auto simp: nullish_read_def type_error_def)

lemma report_error: "report_message r = Inl e \<Longrightarrow> err_name e = ''TypeError''"
  by (auto simp: report_message_def report_part_def js_get_opt_def type_error_def dest: js_get_error
      split: sum.splits if_splits jsval.splits)

lemma cm_handle_signed_out:
  "is_answer e \<Longrightarrow> cs_signed_out (cm_store (cm_handle e m)) \<Longrightarrow>
     cs_signed_out (cm_store m) \<or> refused (result_of e)"
  by (cases e; cases "result_of e")
    (auto simp: save_load_end_def refused_def save_catch_simps load_begin_def Let_def
      dest: report_error split: sum.splits if_splits)

lemma cm_handle_pending:
  "length (cm_inflight m) \<le> (if is_answer e then Suc else id) (length (cm_inflight (cm_handle e m)))"
  by (cases e) (auto simp: length_remove1 Let_def split: prod.split)


lemma cpage_effect_keeps:
  assumes "toasts_ok (cs_toasts (cp_store c))"
  shows "toasts_ok (cs_toasts (cp_store (page_change f c)))
    \<and> cs_signed_out (cp_store (page_change f c)) = cs_signed_out (cp_store c)
    \<and> length (cm_inflight (cp_machine c)) \<le> length (cm_inflight (cp_machine (page_change f c)))"
proof (cases f)
  case (DoDhcp x)
  then show ?thesis using assms run_actions_keeps by (cases x) (simp_all add: on_store_def)
next
  case (DoPassword x)
  then show ?thesis using assms password_toasts(1)
    by (cases x) (simp_all add: submit_password_def set_form_def on_store_def split_beta Let_def)
qed (use assms run_actions_keeps cm_handle_toasts [of Save] cm_handle_toasts [of Reload] in
  \<open>simp_all add: on_store_def send_def split_beta Let_def save_begin_def load_begin_def\<close>)

lemma cpage_toasts:
  assumes "toasts_ok (cs_toasts (cp_store c))" and "\<And>g. e = Answer g \<Longrightarrow> is_answer g"
  shows "toasts_ok (cs_toasts (cp_store (cpage_handle e c)))"
proof (cases e)
  case (Answer g)
  then show ?thesis using assms cm_handle_toasts [of g] by (simp add: cpage_handle_def send_def)
next
  case (PasswordAnswer mine r)
  then show ?thesis using assms(1) password_toasts(2)
    by (simp add: cpage_handle_def answer_password_def set_form_def on_store_def split_beta Let_def)
qed (use cpage_effect_keeps [OF assms(1)] in \<open>simp add: cpage_handle_def\<close>)

lemma cpage_signed_out:
  assumes "cs_signed_out (cp_store (cpage_handle e c))" and "\<not> cs_signed_out (cp_store c)"
    and "toasts_ok (cs_toasts (cp_store c))" and "\<And>g. e = Answer g \<Longrightarrow> is_answer g"
  shows "\<exists>g. e = Answer g \<and> refused (result_of g)"
proof (cases e)
  case (Answer g)
  then show ?thesis using assms cm_handle_signed_out [of g "cp_machine c"] by (simp add: cpage_handle_def send_def)
next
  case (PasswordAnswer mine r)
  then show ?thesis using assms(1,2)
    by (simp add: cpage_handle_def answer_password_def set_form_def on_store_def split_beta Let_def split: if_splits)
qed (use assms(1,2) cpage_effect_keeps [OF assms(3)] in \<open>simp add: cpage_handle_def\<close>)

lemma cpage_pending:
  assumes "toasts_ok (cs_toasts (cp_store c))"
  shows "length (cm_inflight (cp_machine c))
    \<le> (case e of Answer g \<Rightarrow> Suc | _ \<Rightarrow> id) (length (cm_inflight (cp_machine (cpage_handle e c))))"
proof (cases e)
  case (Answer g)
  then show ?thesis using cm_handle_pending [of "cp_machine c" g]
    by (auto simp: cpage_handle_def send_def split: if_splits)
next
  case (PasswordAnswer mine r)
  then show ?thesis
    by (simp add: cpage_handle_def answer_password_def set_form_def on_store_def split_beta Let_def)
qed (use cpage_effect_keeps [OF assms] in \<open>simp add: cpage_handle_def\<close>)

text \<open>The configuration page inside the panel: its events with the panel's toasts.\<close>

definition with_toasts :: "toaster \<Rightarrow> cpage \<Rightarrow> cpage" where
  "with_toasts t = on_store (\<lambda>s. s\<lparr>cs_toasts := t\<rparr>)"

lemma with_toasts_simps [simp]:
  "cs_toasts (cp_store (with_toasts t c)) = t" "cp_active (with_toasts t c) = cp_active c"
  "cs_signed_out (cp_store (with_toasts t c)) = cs_signed_out (cp_store c)"
  "cm_inflight (cp_machine (with_toasts t c)) = cm_inflight (cp_machine c)"
  "machine_ok (cp_machine (with_toasts t c)) = machine_ok (cp_machine c)"
  by (simp_all add: with_toasts_def on_store_def machine_ok_def)

lemma view_with_toasts [simp]: "cpage_view (with_toasts t c) = cpage_view c"
  by (simp add: cpage_view_def with_toasts_def on_store_def ConfigPageInner_def)

lemma enabled_with_toasts [simp]: "cpage_enabled (with_toasts t c) e = cpage_enabled c e"
proof (cases e)
  case (Answer g)
  have "cm_enabled ((cp_machine c)\<lparr>cm_store := (cp_store c)\<lparr>cs_toasts := t\<rparr>\<rparr>) g = cm_enabled (cp_machine c) g"
    by (cases g) (simp_all add: page_shown_def)
  with Answer show ?thesis by (simp add: with_toasts_def on_store_def)
next
  case (Effect f)
  then show ?thesis by simp (simp add: with_toasts_def on_store_def)
qed (simp add: with_toasts_def on_store_def)

lemma on_config_OnConfig:
  "pn_page p = OnConfig c \<Longrightarrow> on_config e p =
     p\<lparr>pn_page := OnConfig (cpage_handle e (with_toasts (pn_toasts p) c)),
       pn_toasts := cs_toasts (cp_store (cpage_handle e (with_toasts (pn_toasts p) c)))\<rparr>"
  by (simp add: on_config_def with_toasts_def Let_def)

lemma on_config_step:
  assumes "panel_ok b p" and c: "pn_page p = OnConfig c" and en: "cpage_enabled c e"
  shows "toasts_ok (pn_toasts (on_config e p))"
    and "\<exists>c'. pn_page (on_config e p) = OnConfig c' \<and> machine_ok (cp_machine c')
      \<and> (cs_signed_out (cp_store c') \<longrightarrow> (\<exists>g. e = Answer g \<and> refused (result_of g)))"
    and "total_pending p \<le> (case e of Answer g \<Rightarrow> Suc | _ \<Rightarrow> id) (total_pending (on_config e p))"
    and "pn_app (on_config e p) = pn_app p"
proof -
  let ?c = "with_toasts (pn_toasts p) c"
  have ok: "toasts_ok (pn_toasts p)" "machine_ok (cp_machine c)" "\<not> cs_signed_out (cp_store c)"
    using assms(1) c by (simp_all add: panel_ok_def)
  have ans: "e = Answer g \<Longrightarrow> is_answer g" for g using en by auto
  have t: "toasts_ok (cs_toasts (cp_store ?c))" using ok(1) by simp
  show "toasts_ok (pn_toasts (on_config e p))"
    using cpage_toasts [OF t ans] by (simp add: on_config_OnConfig [OF c])
  have "machine_ok (cp_machine (cpage_handle e ?c))"
    by (rule machine_ok_cpage) (use ok en in simp_all)
  moreover have "\<exists>g. e = Answer g \<and> refused (result_of g)" if "cs_signed_out (cp_store (cpage_handle e ?c))"
    by (rule cpage_signed_out [OF that _ t ans]) (use ok(3) in simp)
  ultimately show "\<exists>c'. pn_page (on_config e p) = OnConfig c' \<and> machine_ok (cp_machine c')
      \<and> (cs_signed_out (cp_store c') \<longrightarrow> (\<exists>g. e = Answer g \<and> refused (result_of g)))"
    by (simp add: on_config_OnConfig [OF c])
  show "total_pending p \<le> (case e of Answer g \<Rightarrow> Suc | _ \<Rightarrow> id) (total_pending (on_config e p))"
    using cpage_pending [OF t, of e]
    by (cases e) (simp_all add: on_config_OnConfig [OF c] total_pending_def c)
  show "pn_app (on_config e p) = pn_app p" by (simp add: on_config_OnConfig [OF c])
qed

subsection \<open>What the panel offers\<close>

lemma no_handlers_offers: "handlers d = [] \<Longrightarrow> \<not> offers d e"
  using offers_handler live_handlers_subset by fastforce

lemma dash_parts_no_handlers [simp]:
  "handlers (rcode_badge q) = []" "concat (map handlers (in_ms v)) = []" "handlers (rate_badge s) = []"
  "handlers (upstream_row u) = []" "handlers (upstream_item u) = []" "handlers (rule_bar m r) = []"
  "handlers (recent_row f q) = []" "handlers (recent_item f q) = []"
  by (simp_all add: rcode_badge_def in_ms_def rate_badge_def upstream_row_def upstream_item_def rule_bar_def
      recent_row_def recent_item_def view_simps split_beta)

lemma dash_cards_no_handlers [simp]:
  "handlers (rcode_card stats) = []" "handlers (latency_card us) = []" "handlers (upstream_card us) = []"
  "handlers (rules_card rs) = []" "handlers (recent_card f qs) = []"
  by (simp_all add: rcode_card_def latency_card_def upstream_card_def rules_card_def recent_card_def view_simps
      and_then_def comp_def split_beta Let_def)

lemma offers_Dashboard: "Dashboard_view ep f g now d = Some v \<Longrightarrow> \<not> offers v e"
  by (rule no_handlers_offers)
    (auto simp: Dashboard_view_def dash_content_def Let_def view_simps and_then_def split: if_splits)

lemma offers_panel_view:
  assumes "panel_ok b p" and "offers (panel_view b p) u"
  shows "case u of
      UConfig e \<Rightarrow> \<exists>c. pn_page p = OnConfig c \<and> cpage_enabled c (Effect e)
    | ULog e \<Rightarrow> \<exists>q v. pn_page p = OnQueryLog q \<and> QueryLog_view (b_stamp b) (qm_page q) = Some v \<and> offers v e
    | UShell e \<Rightarrow> \<exists>pg. screen_of b p = Protected pg \<and> pn_page p \<noteq> NoPage
    | ULogin e \<Rightarrow> screen_of b p = LoginScreen \<and> offers (Login_view (pn_form p)) e
    | UToast i \<Rightarrow> i \<in> t_id ` set (ts_list (pn_toasts p))"
proof -
  from assms have live: "\<not> pn_blank p" by (auto simp: panel_view_def)
  then have pg: "page_of (pn_page p) = (case screen_of b p of Protected pg \<Rightarrow> Some pg | _ \<Rightarrow> None)"
    using assms(1) by (simp add: panel_ok_def)
  from assms(2) live consider (screen) d where "d \<in> set (screen_view b p)" "offers d u"
    | (toast) i where "u = UToast i" "offers (Toasts_view (pn_toasts p)) i"
    by (auto simp: panel_view_def list_ex_iff offers_map)
  then show ?thesis
  proof cases
    case toast
    then show ?thesis by (simp add: offers_Toasts)
  next
    case screen
    show ?thesis
    proof (cases "screen_of b p")
      case (Protected pg')
      with pg have "pn_page p \<noteq> NoPage" by auto
      from screen Protected obtain v where v: "page_view b (pn_page p) = Some v"
        "offers v u \<or> (\<exists>e. u = UShell e)"
        by (cases "page_view b (pn_page p)") (auto simp: screen_view_def offers_Layout)
      from v(2) show ?thesis
      proof
        assume "offers v u"
        with v(1) \<open>pn_page p \<noteq> NoPage\<close> show ?thesis
          by (cases "pn_page p") (auto simp: offers_Dashboard offers_map split: if_splits)
      qed (use Protected \<open>pn_page p \<noteq> NoPage\<close> in auto)
    qed (use screen in \<open>auto simp: screen_view_def offers_map Loading_view_def\<close>)
  qed
qed


subsection \<open>Every change keeps the invariant\<close>

lemma count_remove1: "count_list (remove1 x xs) y = (if x = y then count_list xs y - 1 else count_list xs y)"
  by (induction xs) auto

definition requests_after :: "app_event \<Rightarrow> nat \<Rightarrow> nat" where
  "requests_after e n = (case e of PageAnswer r \<Rightarrow> n - 1 | StartPageRequest \<Rightarrow> Suc n | _ \<Rightarrow> n)"

lemma count_app_handle:
  "count_list (app_inflight (app_handle m e a)) PageReq = requests_after e (count_list (app_inflight a) PageReq)"
  by (cases e) (simp_all add: requests_after_def count_remove1 split_beta)

lemma on_app_simps [simp]:
  "pn_form (on_app b e p) = pn_form p" "pn_toasts (on_app b e p) = pn_toasts p"
  "pn_page (on_app b e p) = pn_page p" "pn_late (on_app b e p) = pn_late p"
  "pn_blank (on_app b e p) = pn_blank p" "total_pending (on_app b e p) = total_pending p"
  "pn_app (on_app b e p) = app_handle (b_matches b) e (pn_app p)"
  by (simp_all add: on_app_def total_pending_def)

lemma status_page_answer: "refused r \<Longrightarrow> app_status (app_handle m (PageAnswer r) a) = Anon"
  by (cases r) (simp_all add: refused_def handle_auth_error_def)

lemma config_sound_no_change:
  "panel_ok b p \<Longrightarrow> pn_page q = pn_page p \<or> (\<forall>c. pn_page q \<noteq> OnConfig c) \<Longrightarrow> config_sound q"
  by (auto simp: panel_ok_def config_sound_def)

lemma qm_handle_pending:
  "length (qm_inflight q) \<le> (case e of RowsAnswer _ _ \<Rightarrow> Suc | _ \<Rightarrow> id) (length (qm_inflight (qm_handle e q)))"
  by (cases e) (auto simp: with_filter_def start_load_def Let_def length_remove1)

lemma no_answer_offered: "QueryLog_view f s = Some v \<Longrightarrow> offers v e \<Longrightarrow> e \<noteq> RowsAnswer q r"
proof -
  assume v: "QueryLog_view f s = Some v" "offers v e"
  have "dom_all (\<lambda>e. \<forall>q r. e \<noteq> RowsAnswer q r) v"
    using v(1) by (auto simp: QueryLog_view_def view_simps row_cells_def row_card_def rcode_badge_def in_ms_def
        and_then_def split: if_splits)
  from offers_all [OF v(2) this] show ?thesis by blast
qed


lemma changed_ok_user:
  assumes ok: "panel_ok b p" and off: "offers (panel_view b p) u"
  shows "changed_ok (user_change b u p) \<and> pn_blank (user_change b u p) = pn_blank p"
proof -
  have base: "count_list (app_inflight (pn_app p)) PageReq = total_pending p" "toasts_ok (pn_toasts p)"
    using ok by (simp_all add: panel_ok_def)
  note sound = config_sound_no_change [OF ok]
  show ?thesis
  proof (cases u)
    case (UConfig e)
    obtain c where c: "pn_page p = OnConfig c" "cpage_enabled c (Effect e)"
      using offers_panel_view [OF ok off] UConfig by auto
    note step = on_config_step [OF ok c]
    have "config_sound (on_config (Effect e) p)" using step(2) by (auto simp: config_sound_def)
    moreover have "pn_blank (on_config (Effect e) p) = pn_blank p" by (simp add: on_config_OnConfig [OF c(1)])
    ultimately show ?thesis using UConfig step base by (simp add: changed_ok_def)
  next
    case (ULog e)
    obtain q v where q: "pn_page p = OnQueryLog q" "QueryLog_view (b_stamp b) (qm_page q) = Some v" "offers v e"
      using offers_panel_view [OF ok off] ULog by auto
    have "length (qm_inflight q) \<le> length (qm_inflight (qm_handle e q))"
      using qm_handle_pending [of q e] no_answer_offered [OF q(2,3)] by (cases e) auto
    moreover have "config_sound (on_log e p)" by (simp add: on_log_def q(1) config_sound_def)
    ultimately show ?thesis using ULog base q(1) by (simp add: changed_ok_def on_log_def total_pending_def)
  next
    case (UShell e)
    have "config_sound (user_change b u p)" by (rule sound) (cases e; simp add: UShell)
    then show ?thesis using UShell base
      by (cases e) (simp_all add: changed_ok_def on_app_def total_pending_def)
  next
    case (ULogin e)
    have "config_sound (user_change b u p)" by (rule sound) (simp add: ULogin Let_def)
    then show ?thesis using ULogin base by (simp add: changed_ok_def on_app_def total_pending_def Let_def)
  next
    case (UToast i)
    have "config_sound (user_change b u p)" by (rule sound) (simp add: UToast)
    then show ?thesis using UToast base by (simp add: changed_ok_def total_pending_def toasts_ok_dismiss)
  qed
qed

lemma sum_list_remove1: "x \<in> set xs \<Longrightarrow> sum_list (map f xs) = f x + sum_list (map f (remove1 x xs))" for f :: "'a \<Rightarrow> nat"
  by (induction xs) auto

lemma changed_ok_late:
  assumes ok: "panel_ok b p" and l: "l \<in> set (pn_late p)"
  shows "changed_ok (panel_change b (LateDone l r) p) \<and> pn_blank (panel_change b (LateDone l r) p) = pn_blank p"
proof -
  have base: "count_list (app_inflight (pn_app p)) PageReq = total_pending p" "toasts_ok (pn_toasts p)"
    using ok by (simp_all add: panel_ok_def)
  have "pn_page (panel_change b (LateDone l r) p) = pn_page p" by (cases l) (simp_all add: split_beta Let_def)
  then have "config_sound (panel_change b (LateDone l r) p)" using config_sound_no_change [OF ok] by blast
  moreover have "toasts_ok (pn_toasts (panel_change b (LateDone l r) p))"
    using base(2) save_toasts password_toasts(2)
    by (cases l) (simp_all add: split_beta Let_def)
  moreover have "count_list (app_inflight (pn_app (panel_change b (LateDone l r) p))) PageReq
      \<le> total_pending (panel_change b (LateDone l r) p)"
    using base(1) sum_list_remove1 [OF l, of late_pending]
    by (cases l) (simp_all add: split_beta Let_def count_app_handle requests_after_def count_remove1 total_pending_def)
  ultimately show ?thesis by (cases l) (simp_all add: changed_ok_def split_beta Let_def)
qed

lemma changed_ok_config:
  assumes ok: "panel_ok b p" and c: "pn_page p = OnConfig c" "cpage_enabled c (Answer g)"
  shows "changed_ok (panel_change b (ConfigDone g) p)"
proof -
  note step = on_config_step [OF ok c]
  have base: "count_list (app_inflight (pn_app p)) PageReq = total_pending p" using ok by (simp add: panel_ok_def)
  have "config_sound (panel_change b (ConfigDone g) p)"
    using step(2) status_page_answer by (fastforce simp: config_sound_def step(4) simp del: app_handle.simps)
  moreover have "count_list (app_inflight (pn_app (panel_change b (ConfigDone g) p))) PageReq
      \<le> total_pending (panel_change b (ConfigDone g) p)"
    using step(3) base by (simp add: step(4) count_remove1)
  ultimately show ?thesis using step(1) by (simp add: changed_ok_def)
qed

lemma changed_ok_change:
  assumes ok: "panel_ok b p" and en: "panel_enabled b p e"
  shows "changed_ok (panel_change b e p) \<and> \<not> pn_blank (panel_change b e p)"
proof -
  have base: "count_list (app_inflight (pn_app p)) PageReq = total_pending p" "toasts_ok (pn_toasts p)"
    using ok by (simp_all add: panel_ok_def)
  have live: "\<not> pn_blank p" and poss: "event_possible b p e" using en by (simp_all add: panel_enabled_def)
  note sound = config_sound_no_change [OF ok]
  show ?thesis
  proof (cases e)
    case (User u)
    then show ?thesis using changed_ok_user [OF ok] poss live by simp
  next
    case (LateDone l r)
    then show ?thesis using changed_ok_late [OF ok, of l r] poss live by simp
  next
    case (ConfigDone g)
    then obtain c where c: "pn_page p = OnConfig c" "cpage_enabled c (Answer g)"
      using poss by (auto split: mounted.splits)
    then show ?thesis using ConfigDone changed_ok_config [OF ok c] live by (simp add: on_config_OnConfig)
  next
    case (PasswordDone mine r)
    then obtain c where c: "pn_page p = OnConfig c" "cpage_enabled c (PasswordAnswer mine r)"
      using poss by (auto split: mounted.splits)
    note step = on_config_step [OF ok c]
    have "config_sound (on_config (PasswordAnswer mine r) p)" using step(2) by (auto simp: config_sound_def)
    then show ?thesis using PasswordDone step base live
      by (simp add: changed_ok_def) (simp add: on_config_OnConfig [OF c(1)])
  next
    case (DashDone r)
    then obtain d n where d: "pn_page p = OnDashboard d n" "0 < n" using poss by (auto split: mounted.splits)
    then show ?thesis using DashDone base live
      by (auto simp: changed_ok_def config_sound_def total_pending_def count_remove1 simp del: dash_end.simps)
  next
    case (LogDone q r)
    then obtain m where m: "pn_page p = OnQueryLog m" "q \<in> set (qm_inflight m)" using poss by (auto split: mounted.splits)
    then show ?thesis using LogDone base live qm_handle_pending [of m "RowsAnswer q r"]
      by (auto simp: changed_ok_def config_sound_def total_pending_def count_remove1 on_log_def on_app_def
        length_remove1 simp del: qlog_end.simps)
  next
    case LogTick
    then obtain m where m: "pn_page p = OnQueryLog m" using poss by (auto split: mounted.splits)
    then show ?thesis using LogTick base live
      by (simp add: changed_ok_def config_sound_def total_pending_def on_log_def start_load_def)
  next
    case DashTick
    then obtain d n where d: "pn_page p = OnDashboard d n" using poss by (cases "pn_page p") auto
    then show ?thesis using DashTick base live
      by (simp add: changed_ok_def config_sound_def total_pending_def)
  next
    case (LoginDone mine t r)
    have "config_sound (panel_change b e p)"
      by (rule sound) (simp add: LoginDone login_answer_def Let_def)
    then show ?thesis using LoginDone base live
      by (auto simp: changed_ok_def login_answer_def Let_def count_app_handle requests_after_def total_pending_def
        simp del: app_handle.simps)
  next
    case (ToastTimer i)
    have "config_sound (panel_change b e p)" by (rule sound) (simp add: ToastTimer)
    then show ?thesis using ToastTimer base live by (simp add: changed_ok_def total_pending_def toasts_ok_dismiss)
  next
    case (Visit s)
    have "config_sound (panel_change b e p)" by (rule sound) (simp add: Visit)
    then show ?thesis using Visit base live by (simp add: changed_ok_def)
  next
    case Redirected
    have "config_sound (panel_change b e p)" by (rule sound) (simp add: Redirected)
    then show ?thesis using Redirected base live by (simp add: changed_ok_def)
  next
    case (ProbeDone r)
    have "config_sound (panel_change b e p)" by (rule sound) (simp add: ProbeDone)
    then show ?thesis using ProbeDone base live by (simp add: changed_ok_def count_remove1)
  next
    case (LogoutDone r)
    have "config_sound (panel_change b e p)" by (rule sound) (simp add: LogoutDone)
    then show ?thesis using LogoutDone base live by (simp add: changed_ok_def count_remove1 split_beta)
  qed
qed

lemma panel_ok_handle: "panel_ok b p \<Longrightarrow> panel_enabled b p e \<Longrightarrow> panel_ok b (panel_handle b e p)"
  unfolding panel_handle_def using changed_ok_change panel_ok_settle by blast

lemma panel_ok_initial: "panel_ok b (initial_panel b path)"
  unfolding initial_panel_def
  by (rule panel_ok_settle) (simp_all add: changed_ok_def initial_app_def total_pending_def toasts_ok_start config_sound_def)

lemma panel_reach_ok: "panel_reach b p \<Longrightarrow> panel_ok b p"
  by (induction rule: panel_reach.induct) (simp_all add: panel_ok_initial panel_ok_handle)

end
