(* ===== verification/Panel_Properties.thy ===== *)
theory Panel_Properties
  imports Panel_Invariant
begin

text \<open>
  The properties that span the components: the invariant of the panel, its refinement of the session's
  machine, the end of a session on a refused request, and what leaving the configuration page loses.
\<close>

subsection \<open>Properties of the panel\<close>

definition sample_browser :: browser where
  "sample_browser =
     \<lparr>b_matches = (=), b_active = (\<lambda>path to exact. path = to), b_epoch = (\<lambda>_. None), b_clock = (\<lambda>_. []),
      b_stamp = (\<lambda>_. []), b_number = (\<lambda>_. ''0''), b_now = 0\<rparr>"

text \<open>The panel opened at the configuration page, after the probe has found a session.\<close>

definition sample_panel :: panel where
  "sample_panel = panel_handle sample_browser (ProbeDone (Inr JNull)) (initial_panel sample_browser ''/config'')"

lemma initial_sample:
  "initial_panel sample_browser ''/config'' =
     \<lparr>pn_app = initial_app ''/config'', pn_form = empty_login_form, pn_menu = False, pn_toasts = no_toasts,
      pn_page = NoPage, pn_late = [], pn_blank = False\<rparr>"
  by (simp add: initial_panel_def settle_def mount_def reset_form_def check_render_def count_requests_def
      screen_of_def initial_app_def app_screen_def require_auth_def sample_browser_def unmount_def
      start_requests_def total_pending_def)

lemma initial_cpage_shown: "\<not> cs_crashed (cp_store initial_cpage)" "cm_inflight (cp_machine initial_cpage) = [LoadReq]"
  by (simp_all add: initial_cpage_def initial_machine_def initial_cstore_def)

lemma sample_panel_eq:
  "sample_panel =
     \<lparr>pn_app = \<lparr>app_status = Authed, app_loc = \<lparr>loc_path = ''/config'', loc_from = None\<rparr>, app_inflight = [PageReq]\<rparr>,
      pn_form = empty_login_form, pn_menu = False, pn_toasts = no_toasts, pn_page = OnConfig initial_cpage,
      pn_late = [], pn_blank = False\<rparr>"
proof -
  let ?a = "\<lparr>app_status = Authed, app_loc = \<lparr>loc_path = ''/config'', loc_from = None\<rparr>, app_inflight = []\<rparr>"
  let ?p = "\<lparr>pn_app = ?a, pn_form = empty_login_form, pn_menu = False, pn_toasts = no_toasts, pn_page = NoPage,
      pn_late = [], pn_blank = False\<rparr>"
  have change: "panel_change sample_browser (ProbeDone (Inr JNull)) (initial_panel sample_browser ''/config'') = ?p"
    by (simp add: initial_sample initial_app_def on_app_def)
  have screen: "screen_of sample_browser ?p = Protected ConfigPage"
    by (simp add: screen_of_def app_screen_def require_auth_def sample_browser_def)
  have mount: "mount sample_browser ?p = ?p\<lparr>pn_page := OnConfig initial_cpage\<rparr>"
    unfolding mount_def screen by (simp add: unmount_def)
  have screen': "screen_of sample_browser (?p\<lparr>pn_page := OnConfig initial_cpage\<rparr>) = Protected ConfigPage"
    using screen by (simp add: screen_of_def)
  have "settle sample_browser ?p = count_requests sample_browser (?p\<lparr>pn_page := OnConfig initial_cpage,
      pn_form := empty_login_form\<rparr>)"
    unfolding settle_def mount reset_form_def screen' check_render_def by (simp add: initial_cpage_shown)
  then show ?thesis
    unfolding sample_panel_def panel_handle_def change
    by (simp add: count_requests_def total_pending_def initial_cpage_shown start_requests_def)
qed

lemma sample_panel_reach: "panel_reach sample_browser sample_panel"
  unfolding sample_panel_def
  by (rule panel_next [OF panel_start]) (simp add: panel_enabled_def initial_sample initial_app_def)

text \<open>
  C5. The invariant of the whole panel. In every state it can reach, a page is mounted exactly when the
  screen is that page, which needs a session, and it renders; the requests that can end the session are
  those of the mounted page and of the pages left before, no more and no less; the toasts are
  consistent; and a mounted configuration page has at most one save in flight, shown as such, and a
  configuration, an error or a request under way.
\<close>

theorem panel_invariant:
  assumes "panel_reach b p"
  shows "(pn_page p \<noteq> NoPage \<longrightarrow> app_status (pn_app p) = Authed)
    \<and> (\<not> pn_blank p \<longrightarrow> (page_of (pn_page p) = Some pg \<longleftrightarrow> screen_of b p = Protected pg)
          \<and> page_view b (pn_page p) \<noteq> None)
    \<and> count_list (app_inflight (pn_app p)) PageReq = total_pending p
    \<and> toasts_ok (pn_toasts p)
    \<and> (\<forall>c. pn_page p = OnConfig c \<longrightarrow> machine_ok (cp_machine c) \<and> \<not> cs_signed_out (cp_store c))"
proof -
  note ok = panel_reach_ok [OF assms, unfolded panel_ok_def]
  have "app_status (pn_app p) = Authed" if "pn_page p \<noteq> NoPage"
  proof -
    from that ok have "page_of (pn_page p) = (case screen_of b p of Protected pg \<Rightarrow> Some pg | _ \<Rightarrow> None)"
      by (auto split: if_splits)
    moreover have "page_of (pn_page p) \<noteq> None" using that by (cases "pn_page p") auto
    ultimately obtain pg where "screen_of b p = Protected pg" by (auto split: screen.splits)
    then show ?thesis using app_screen_protected by (simp add: screen_of_def)
  qed
  with ok show ?thesis by (cases "screen_of b p") (auto split: if_splits)
qed

theorem panel_invariant_witness:
  "count_list (app_inflight (pn_app sample_panel)) PageReq = total_pending sample_panel
    \<and> screen_of sample_browser sample_panel = Protected ConfigPage"
  using panel_invariant [OF sample_panel_reach, of ConfigPage] by (simp add: sample_panel_eq)

lemma app_run_starts: "app_run m a (replicate k StartPageRequest) ((app_handle m StartPageRequest ^^ k) a)"
proof (induction k arbitrary: a)
  case (Suc k)
  then show ?case by (simp add: funpow_Suc_right del: funpow.simps app_handle.simps)
qed simp

lemma settle_app:
  "\<exists>n. pn_app (settle b p) = start_requests b n (pn_app p)"
proof -
  have "pn_app (check_render b (reset_form b (mount b p))) = pn_app p"
    by (simp add: check_render_def reset_form_def)
  then show ?thesis by (auto simp: settle_def count_requests_def)
qed

lemma settle_runs: "\<exists>es. app_run (b_matches b) (pn_app p) es (pn_app (settle b p))"
  using settle_app [of b p] app_run_starts unfolding start_requests_def by metis

lemma page_request_in_flight:
  assumes "panel_ok b p" and "0 < total_pending p"
  shows "PageReq \<in> set (app_inflight (pn_app p))"
  using assms by (metis count_notin less_numeral_extra(3) panel_ok_def)

lemma on_page_app: "pn_app (on_config g p) = pn_app p" "pn_app (on_log f p) = pn_app p"
  by (simp_all add: on_config_def on_log_def Let_def split: mounted.split)

lemma change_runs:
  assumes ok: "panel_ok b p" and en: "panel_enabled b p e"
  shows "\<exists>es. app_run (b_matches b) (pn_app p) es (pn_app (panel_change b e p))"
proof -
  have none: ?thesis if "pn_app (panel_change b e p) = pn_app p"
    unfolding that by (rule exI [of _ "[]"]) simp
  have one: ?thesis if "pn_app (panel_change b e p) = app_handle (b_matches b) a (pn_app p)"
    "app_enabled (b_matches b) (pn_app p) a" for a
    unfolding that(1) by (rule exI [of _ "[a]"]) (use that(2) in simp)
  have page: ?thesis if "pn_app (panel_change b e p) = app_handle (b_matches b) (PageAnswer r) (pn_app p)"
    "0 < total_pending p" for r
    using one [OF that(1)] page_request_in_flight [OF ok that(2)] by simp
  have poss: "event_possible b p e" using en by (simp add: panel_enabled_def)
  show ?thesis
  proof (cases e)
    case (User u)
    note offered = offers_panel_view [OF ok, of u]
    show ?thesis
    proof (cases u)
      case (ULogin f)
      then have "app_screen (b_matches b) (app_status (pn_app p)) (loc_path (app_loc (pn_app p))) = LoginScreen"
        using offered poss User by (simp add: screen_of_def)
      then show ?thesis using none one [of SubmitLogin] User ULogin
        by (cases "f = SubmitLoginForm") (simp_all add: on_app_def)
    next
      case (UShell f)
      then obtain pg where "app_screen (b_matches b) (app_status (pn_app p)) (loc_path (app_loc (pn_app p))) = Protected pg"
        using offered poss User by (auto simp: screen_of_def)
      then show ?thesis using none one [of ClickLogout] one [of "Navigate to" for to] User UShell
        by (cases f) (simp_all add: on_app_def)
    qed (use none on_page_app User in simp_all)
  next
    case (LateDone l r)
    then have "0 < late_pending l \<Longrightarrow> 0 < total_pending p"
      using poss sum_list_remove1 [of l "pn_late p" late_pending] by (simp add: total_pending_def)
    then show ?thesis using none page [of r] LateDone
      by (cases l) (simp_all add: split_beta Let_def)
  next
    case (ConfigDone g)
    then obtain c where c: "pn_page p = OnConfig c" "cpage_enabled c (Answer g)"
      using poss by (auto split: mounted.splits)
    then have "0 < total_pending p" by (cases g) (auto simp: total_pending_def length_pos_if_in_set)
    then show ?thesis using page [of "result_of g"] ConfigDone on_page_app by simp
  next
    case (DashDone r)
    then obtain d n where "pn_page p = OnDashboard d n" "0 < n" using poss by (auto split: mounted.splits)
    then show ?thesis using page [of r] DashDone by (simp add: total_pending_def)
  next
    case (LogDone q r)
    then obtain m where "pn_page p = OnQueryLog m" "q \<in> set (qm_inflight m)" using poss by (auto split: mounted.splits)
    then have "0 < total_pending p" using length_pos_if_in_set [of q "qm_inflight m"] by (simp add: total_pending_def)
    then show ?thesis using page [of r] LogDone on_page_app by simp
  next
    case (LoginDone mine t r)
    then show ?thesis using one [of "LoginAnswer t r"] poss
      by (simp add: login_answer_def Let_def on_app_def)
  next
    case DashTick
    then show ?thesis using none by (simp split: mounted.split)
  qed (use none on_page_app one [of "Navigate s" for s] one [of FollowRedirect] one [of "ProbeAnswer r" for r]
      one [of "LogoutAnswer r" for r] poss in \<open>simp_all del: app_handle.simps app_enabled.simps(2,6,8)\<close>)
qed



text \<open>The answer an event brings to a request of a page, mounted or gone.\<close>

fun page_answer :: "panel_event \<Rightarrow> jsval res option" where
  "page_answer (DashDone r) = Some r"
| "page_answer (LogDone q r) = Some r"
| "page_answer (ConfigDone g) = Some (result_of g)"
| "page_answer (LateDone LatePage r) = Some r"
| "page_answer (LateDone LateSave r) = Some r"
| "page_answer e = None"

lemma page_answer_app:
  "page_answer e = Some r \<Longrightarrow> pn_app (panel_change b e p) = app_handle (b_matches b) (PageAnswer r) (pn_app p)"
proof (induction e rule: page_answer.induct)
  case (1 r')
  then show ?case by (cases "pn_page p") (simp_all add: on_app_def del: app_handle.simps)
qed (simp_all add: on_page_app split_beta Let_def del: app_handle.simps)

lemma settle_signed_out:
  assumes "app_status (pn_app p) = Anon"
  shows "pn_page (settle b p) = NoPage" and "app_status (pn_app (settle b p)) = Anon"
    and "app_loc (pn_app (settle b p)) = app_loc (pn_app p)" and "pn_blank (settle b p) = pn_blank p"
    and "pn_toasts (settle b p) = pn_toasts p"
proof -
  have "screen_of b p \<noteq> Protected pg" for pg using assms app_screen_protected by (force simp: screen_of_def)
  then have none: "pn_page (reset_form b (mount b p)) = NoPage"
    by (simp add: mount_def reset_form_def split: screen.split)
  then have "settle b p = count_requests b (reset_form b (mount b p))" by (intro settle_renders) simp
  with none show "pn_page (settle b p) = NoPage" "app_status (pn_app (settle b p)) = Anon"
    "app_loc (pn_app (settle b p)) = app_loc (pn_app p)" "pn_blank (settle b p) = pn_blank p"
    "pn_toasts (settle b p) = pn_toasts p"
    using assms by (simp_all add: count_requests_def reset_form_def)
qed



text \<open>The addresses of the routes, and a router that tells them apart.\<close>

definition route_paths :: "string list" where
  "route_paths = [''/login'', ''/'', ''/querylog'', ''/config'']"

definition routes_apart :: "browser \<Rightarrow> bool" where
  "routes_apart b \<longleftrightarrow> (\<forall>s \<in> set route_paths. \<forall>t \<in> set route_paths. b_matches b s t \<longleftrightarrow> s = t)"

lemma screen_apart:
  assumes "routes_apart b"
  shows "app_screen (b_matches b) Authed ''/'' = Protected DashboardPage"
    "app_screen (b_matches b) Authed ''/querylog'' = Protected QueryLogPage"
    "app_screen (b_matches b) Authed ''/config'' = Protected ConfigPage"
  using assms by (simp_all add: routes_apart_def route_paths_def app_screen_def require_auth_def)

lemma follow_link:
  assumes "pn_page p \<noteq> NoPage" and "\<not> pn_blank p" and "app_status (pn_app p) = Authed"
    and scr: "app_screen (b_matches b) Authed to = Protected pg" and "page_of (pn_page p) \<noteq> Some pg"
    and "page_view b (fresh_page pg) \<noteq> None" and "q = panel_handle b (User (UShell (FollowLink to))) p"
  shows "pn_page q = fresh_page pg" and "pn_late q = pn_late p @ left_behind (pn_page p)"
    and "\<not> pn_blank q" and "app_status (pn_app q) = Authed" and "app_loc (pn_app q) = \<lparr>loc_path = to, loc_from = None\<rparr>"
proof -
  let ?c = "panel_change b (User (UShell (FollowLink to))) p"
  have c: "pn_page ?c = pn_page p" "pn_late ?c = pn_late p" "pn_blank ?c = pn_blank p"
    "app_status (pn_app ?c) = Authed" "app_loc (pn_app ?c) = \<lparr>loc_path = to, loc_from = None\<rparr>"
    using assms(3) by (simp_all add: on_app_def)
  then have "screen_of b ?c = Protected pg" using scr by (simp add: screen_of_def)
  then have "mount b ?c = (unmount ?c)\<lparr>pn_page := fresh_page pg\<rparr>" using c assms(5) by (simp add: mount_def)
  then have "settle b ?c = count_requests b (reset_form b ((unmount ?c)\<lparr>pn_page := fresh_page pg\<rparr>))"
    using settle_renders [of b ?c] assms(6) by (simp add: reset_form_def)
  then show "pn_page q = fresh_page pg" "pn_late q = pn_late p @ left_behind (pn_page p)" "\<not> pn_blank q"
    "app_status (pn_app q) = Authed" "app_loc (pn_app q) = \<lparr>loc_path = to, loc_from = None\<rparr>"
    using c assms(2) by (simp_all add: assms(7) panel_handle_def count_requests_def reset_form_def unmount_def)
qed

text \<open>
  Leaving the configuration page drops its edits without asking: in any state in which the page is on
  the screen, whatever was edited, the links of the navigation to the overview and back to the
  configuration can be followed, and then the page is as it is when the panel is opened: it has no
  configuration yet and is not dirty. Nothing was sent meanwhile: what is in flight was in flight before,
  or is the request of the overview.
\<close>

theorem leaving_page_drops_edits:
  assumes "panel_reach b p" and "pn_page p = OnConfig c" and "routes_apart b"
    and "q = panel_handle b (User (UShell (FollowLink ''/''))) p"
    and "q' = panel_handle b (User (UShell (FollowLink ''/config''))) q"
  shows "panel_enabled b p (User (UShell (FollowLink ''/''))) \<and> panel_enabled b q (User (UShell (FollowLink ''/config'')))
    \<and> pn_page q' = OnConfig initial_cpage
    \<and> pn_late q' = pn_late p @ left_behind (OnConfig c) @ [LatePage]"
proof -
  have ok: "panel_ok b p" using panel_reach_ok [OF assms(1)] .
  have live: "\<not> pn_blank p" and "page_of (pn_page p) = (case screen_of b p of Protected pg \<Rightarrow> Some pg | _ \<Rightarrow> None)"
    and view: "page_view b (pn_page p) \<noteq> None"
    using ok assms(2) by (auto simp: panel_ok_def split: if_splits)
  then have scr: "screen_of b p = Protected ConfigPage" using assms(2) by (auto split: screen.splits)
  then have auth: "app_status (pn_app p) = Authed" using app_screen_protected by (simp add: screen_of_def)
  have link: "offers (panel_view b r) (UShell (FollowLink to))"
    if "screen_of b r = Protected pg" "\<not> pn_blank r" "page_view b (pn_page r) \<noteq> None" "to \<in> fst ` set nav_items"
    for r pg to
    using that by (elim exE [OF not_None_eq [THEN iffD1]]) (simp add: panel_view_def screen_view_def offers_Layout)
  have fresh: "page_view b (fresh_page DashboardPage) \<noteq> None" "page_view b (fresh_page ConfigPage) \<noteq> None"
    by (simp_all add: Dashboard_view_def initial_dash_def initial_cpage_shown)
  have "pn_page p \<noteq> NoPage" "page_of (pn_page p) \<noteq> Some DashboardPage" using assms(2) by simp_all
  note q = follow_link [OF this(1) live auth screen_apart(1) [OF assms(3)] this(2) fresh(1) assms(4)]
  have "pn_page q \<noteq> NoPage" "page_of (pn_page q) \<noteq> Some ConfigPage" using q(1) by simp_all
  note q' = follow_link [OF this(1) q(3,4) screen_apart(3) [OF assms(3)] this(2) fresh(2) assms(5)]
  have "screen_of b q = Protected DashboardPage" using q(4,5) screen_apart(1) [OF assms(3)] by (simp add: screen_of_def)
  then show ?thesis
    using q q' link [OF scr live view] link [of q DashboardPage] live fresh assms(2)
    by (simp add: panel_enabled_def nav_items_def)
qed

theorem leaving_page_drops_edits_witness:
  "pn_late (panel_handle sample_browser (User (UShell (FollowLink ''/config'')))
      (panel_handle sample_browser (User (UShell (FollowLink ''/''))) sample_panel)) = [LatePage, LatePage]"
proof -
  have "pn_page sample_panel = OnConfig initial_cpage" by (simp add: sample_panel_eq)
  moreover have "routes_apart sample_browser" by (simp add: routes_apart_def route_paths_def sample_browser_def)
  ultimately show ?thesis
    using leaving_page_drops_edits [OF sample_panel_reach _ _ refl refl]
    by (simp add: sample_panel_eq initial_cpage_shown) (simp add: initial_cpage_def)
qed

end
