(* ===== verification/Rust_Bytes.thy ===== *)
theory Rust_Bytes
  imports Prelude "HOL-Library.Word"
begin

text \<open>
  Shared ground of the models of the backend (\<open>src/src\<close>, Rust): bytes and machine integers at their
  width, their little- and big-endian encodings, and the string functions of the standard library the
  code calls. A \<open>str\<close> is its UTF-8 bytes, one \<open>char\<close> per byte, as everywhere in this development.

  Arithmetic is the one of the release profile, which does not check for overflow: it wraps, and a shift
  uses the amount modulo the width.
\<close>

unbundle bit_operations_syntax

type_synonym byte = "8 word"

subsection \<open>Bytes and strings\<close>

definition byte_of :: "char \<Rightarrow> byte" where
  "byte_of c = word_of_nat (of_char c)"

definition char_of_byte :: "byte \<Rightarrow> char" where
  "char_of_byte b = (char_of :: nat \<Rightarrow> char) (unat b)"

definition as_bytes :: "string \<Rightarrow> byte list" where
  "as_bytes s = map byte_of s"

definition str_of_bytes :: "byte list \<Rightarrow> string" where
  "str_of_bytes bs = map char_of_byte bs"

lemma of_char_less_256: "(of_char c :: nat) < 256"
  using nat_of_char_less_256 [of c] by simp

lemma unat_byte_of [simp]: "unat (byte_of c) = of_char c"
  using of_char_less_256 [of c] by (simp add: byte_of_def unat_of_nat take_bit_nat_eq_self)

lemma char_of_byte_of [simp]: "char_of_byte (byte_of c) = c"
  by (simp add: char_of_byte_def)

lemma str_of_as_bytes [simp]: "str_of_bytes (as_bytes s) = s"
  by (induction s) (simp_all add: str_of_bytes_def as_bytes_def)

lemma length_as_bytes [simp]: "length (as_bytes s) = length s"
  by (simp add: as_bytes_def)

lemma byte_of_inject [simp]: "byte_of a = byte_of b \<longleftrightarrow> a = b"
  by (metis char_of_byte_of)

lemma as_bytes_inject [simp]: "as_bytes s = as_bytes t \<longleftrightarrow> s = t"
  by (metis str_of_as_bytes)

subsection \<open>Little- and big-endian integers\<close>

text \<open>\<open>w.to_le_bytes()\<close> and \<open>w.to_be_bytes()\<close> of an integer of \<open>n\<close> bytes, and their inverses.\<close>

definition le_bytes :: "nat \<Rightarrow> 'a::len word \<Rightarrow> byte list" where
  "le_bytes n w = map (\<lambda>i. ucast (drop_bit (8 * i) w)) [0..<n]"

definition be_bytes :: "nat \<Rightarrow> 'a::len word \<Rightarrow> byte list" where
  "be_bytes n w = rev (le_bytes n w)"

definition from_be :: "byte list \<Rightarrow> 'a::len word" where
  "from_be bs = word_rcat bs"

definition from_le :: "byte list \<Rightarrow> 'a::len word" where
  "from_le bs = from_be (rev bs)"

lemma length_le_bytes [simp]: "length (le_bytes n w) = n"
  by (simp add: le_bytes_def)

lemma length_be_bytes [simp]: "length (be_bytes n w) = n"
  by (simp add: be_bytes_def)

lemma from_le_bytes:
  assumes "8 * n = LENGTH('a)"
  shows "from_le (le_bytes n w) = (w :: 'a::len word)"
proof (rule bit_word_eqI)
  fix k assume k: "k < LENGTH('a)"
  then have d: "k div 8 < n" using assms by (simp add: div_less_iff_less_mult)
  then have "le_bytes n w ! (k div 8) = ucast (drop_bit (8 * (k div 8)) w)"
    by (simp add: le_bytes_def)
  then show "bit (from_le (le_bytes n w) :: 'a word) k \<longleftrightarrow> bit w k"
    using k d by (simp add: from_le_def from_be_def word_rcat_def bit_word_of_int_iff
      bit_horner_sum_uint_exp_iff [where ?'a = 8, simplified] bit_ucast_iff bit_drop_bit_eq)
qed

lemma from_be_bytes: "8 * n = LENGTH('a) \<Longrightarrow> from_be (be_bytes n w) = (w :: 'a::len word)"
  using from_le_bytes [of n w] by (simp add: be_bytes_def from_le_def)

lemma unat_ucast_up:
  assumes "LENGTH('a) \<le> LENGTH('b)"
  shows "unat (ucast (w :: 'a::len word) :: 'b::len word) = unat w"
proof -
  have "unat w < 2 ^ LENGTH('a)" by (rule unsigned_less)
  also have "(2 :: nat) ^ LENGTH('a) \<le> 2 ^ LENGTH('b)" using assms by (rule power_increasing) simp
  finally show ?thesis by (simp add: unsigned_ucast_eq take_bit_nat_eq_self)
qed

subsection \<open>Results and slices\<close>

text \<open>The operator \<open>?\<close> on a result, \<open>&data[offset..offset + n]\<close>, and the pieces of \<open>n\<close> bytes of a slice.\<close>

fun and_then :: "'e + 'a \<Rightarrow> ('a \<Rightarrow> 'e + 'b) \<Rightarrow> 'e + 'b" where
  "and_then (Inl e) f = Inl e"
| "and_then (Inr x) f = f x"

definition subslice :: "nat \<Rightarrow> nat \<Rightarrow> 'a list \<Rightarrow> 'a list" where
  "subslice offset n data = take n (drop offset data)"

definition pieces :: "nat \<Rightarrow> 'a list \<Rightarrow> 'a list list" where
  "pieces n data = map (\<lambda>i. subslice (n * i) n data) [0..<length data div n]"

lemma and_then_Inr_iff: "and_then r f = Inr y \<longleftrightarrow> (\<exists>x. r = Inr x \<and> f x = Inr y)"
  by (cases r) auto

lemma subslice_append: "subslice (length xs + o') n (xs @ ys) = subslice o' n ys"
  by (simp add: subslice_def)

lemma subslice_here [simp]: "length xs = n \<Longrightarrow> subslice 0 n (xs @ ys) = xs"
  by (simp add: subslice_def)

lemma pieces_concat:
  assumes "0 < n" and "\<forall>x \<in> set xs. length (f x) = n"
  shows "pieces n (concat (map f xs)) = map f xs"
  using assms(2)
proof (induction xs)
  case (Cons x xs)
  let ?ys = "concat (map f xs)"
  have len: "length ?ys = n * length xs" using Cons.prems by (induction xs) auto
  have "pieces n (f x @ ?ys) = map (\<lambda>i. subslice (n * i) n (f x @ ?ys)) (0 # map Suc [0..<length xs])"
    using Cons.prems len assms(1)
    by (simp add: pieces_def map_Suc_upt upt_conv_Cons del: upt_Suc map_map)
  also have "\<dots> = f x # map (\<lambda>i. subslice (n * i) n ?ys) [0..<length xs]"
    using Cons.prems by (simp add: subslice_def add.commute)
  also have "map (\<lambda>i. subslice (n * i) n ?ys) [0..<length xs] = map f xs"
    using Cons len assms(1) by (simp add: pieces_def)
  finally show ?case by simp
qed (simp add: pieces_def)

subsection \<open>UTF-8\<close>

text \<open>\<open>std::str::from_utf8\<close> accepts exactly the well-formed byte sequences of the Unicode standard.\<close>

definition continuation :: "byte \<Rightarrow> bool" where
  "continuation b \<longleftrightarrow> 0x80 \<le> b \<and> b \<le> 0xBF"

definition second_of_three :: "byte \<Rightarrow> byte \<Rightarrow> bool" where
  "second_of_three b c \<longleftrightarrow>
     (if b = 0xE0 then 0xA0 \<le> c \<and> c \<le> 0xBF
      else if b = 0xED then 0x80 \<le> c \<and> c \<le> 0x9F else continuation c)"

definition second_of_four :: "byte \<Rightarrow> byte \<Rightarrow> bool" where
  "second_of_four b c \<longleftrightarrow>
     (if b = 0xF0 then 0x90 \<le> c \<and> c \<le> 0xBF
      else if b = 0xF4 then 0x80 \<le> c \<and> c \<le> 0x8F else continuation c)"

fun utf8_valid :: "byte list \<Rightarrow> bool" where
  "utf8_valid [] = True"
| "utf8_valid (b # bs) =
     (if b < 0x80 then utf8_valid bs
      else if 0xC2 \<le> b \<and> b \<le> 0xDF then
        (case bs of c # cs \<Rightarrow> continuation c \<and> utf8_valid cs | _ \<Rightarrow> False)
      else if 0xE0 \<le> b \<and> b \<le> 0xEF then
        (case bs of c # d # cs \<Rightarrow> second_of_three b c \<and> continuation d \<and> utf8_valid cs | _ \<Rightarrow> False)
      else if 0xF0 \<le> b \<and> b \<le> 0xF4 then
        (case bs of c # d # e # cs \<Rightarrow>
           second_of_four b c \<and> continuation d \<and> continuation e \<and> utf8_valid cs | _ \<Rightarrow> False)
      else False)"

subsection \<open>Strings of the standard library\<close>

text \<open>\<open>s.trim_end_matches('.')\<close>, \<open>s.to_ascii_lowercase()\<close>, \<open>s.strip_prefix(p)\<close>.\<close>

definition trim_end_char :: "char \<Rightarrow> string \<Rightarrow> string" where
  "trim_end_char d s = rev (dropWhile (\<lambda>c. c = d) (rev s))"

definition to_ascii_lowercase :: "string \<Rightarrow> string" where
  "to_ascii_lowercase s = map ascii_lower s"

definition is_ascii_uppercase :: "char \<Rightarrow> bool" where
  "is_ascii_uppercase c \<longleftrightarrow> 65 \<le> (of_char c :: nat) \<and> (of_char c :: nat) \<le> 90"

definition strip_prefix :: "string \<Rightarrow> string \<Rightarrow> string option" where
  "strip_prefix p s = (if take (length p) s = p then Some (drop (length p) s) else None)"

lemma strip_prefix_append [simp]: "strip_prefix p (p @ s) = Some s"
  by (simp add: strip_prefix_def)

lemma strip_prefix_Some_iff: "strip_prefix p s = Some r \<longleftrightarrow> s = p @ r"
  by (auto simp: strip_prefix_def) (metis append_take_drop_id)

lemma strip_prefix_None_iff: "strip_prefix p s = None \<longleftrightarrow> \<not> prefix p s"
  by (metis not_None_eq prefix_def strip_prefix_Some_iff)

lemma ascii_lower_id: "\<not> is_ascii_uppercase c \<Longrightarrow> ascii_lower c = c"
  by (auto simp add: ascii_lower_def is_ascii_uppercase_def Let_def)

lemma to_ascii_lowercase_id: "\<not> list_ex is_ascii_uppercase s \<Longrightarrow> to_ascii_lowercase s = s"
  by (induction s) (auto simp: to_ascii_lowercase_def ascii_lower_id)

lemma ascii_lower_not_upper: "\<not> is_ascii_uppercase (ascii_lower c)"
  by (simp add: ascii_lower_def is_ascii_uppercase_def Let_def)

lemma ascii_lower_dot [simp]: "ascii_lower c = CHR ''.'' \<longleftrightarrow> c = CHR ''.''"
proof
  assume h: "ascii_lower c = CHR ''.''"
  show "c = CHR ''.''"
  proof (cases "is_ascii_uppercase c")
    case True
    then have "ascii_lower c = (char_of :: nat \<Rightarrow> char) (of_char c + 32)" "of_char c + 32 < (256 :: nat)"
      by (auto simp: ascii_lower_def is_ascii_uppercase_def Let_def)
    then have "(of_char (ascii_lower c) :: nat) = of_char c + 32" by simp
    with h True show ?thesis by (simp add: is_ascii_uppercase_def)
  qed (use h in \<open>simp add: ascii_lower_id\<close>)
qed (simp add: ascii_lower_def)

end
