(* ===== verification/Drs_Match.thy ===== *)
theory Drs_Match
  imports Rust_Bytes
begin

text \<open>
  Matching against a loaded rule set, \<open>src/src/ruleset/drs.rs\<close>: names against exact names, suffixes,
  keywords, patterns and exceptions, and addresses and ports against ranges.

  An FST of the \<open>fst\<close> crate is the set of its keys: the code only asks whether a key is in it. A compiled
  \<open>RegexSet\<close> is the predicate \<open>is_match\<close>.
\<close>

subsection \<open>Keys of the suffix set\<close>

text \<open>
  \<open>normalize_domain\<close>, \<open>reverse_labels\<close> and \<open>suffix_to_fst_key\<close>: \<open>google.com\<close> has the key
  \<open>com.google.\<close>.
\<close>

definition normalize_domain :: "string \<Rightarrow> string" where
  "normalize_domain s =
     (let trimmed = trim_end_char CHR ''.'' s
      in if \<not> list_ex is_ascii_uppercase trimmed then trimmed else to_ascii_lowercase trimmed)"

definition reverse_labels :: "string \<Rightarrow> string" where
  "reverse_labels d = join ''.'' (rev (split_on CHR ''.'' d))"

definition suffix_to_fst_key :: "string \<Rightarrow> string" where
  "suffix_to_fst_key s = reverse_labels s @ ''.''"

text \<open>
  \<open>suffix_match_heap\<close>: the labels from the last to the first are appended to a key, each followed by
  a dot, and every key on the way is looked up.
\<close>

fun heap_keys :: "string set \<Rightarrow> string \<Rightarrow> string list \<Rightarrow> bool" where
  "heap_keys fs key [] = False"
| "heap_keys fs key (l # ls) =
     (let key' = key @ l @ ''.'' in key' \<in> fs \<or> heap_keys fs key' ls)"

definition suffix_match_heap :: "string set \<Rightarrow> string \<Rightarrow> bool" where
  "suffix_match_heap fs domain = heap_keys fs [] (rev (split_on CHR ''.'' domain))"

text \<open>
  \<open>suffix_match_zero_alloc\<close>: the same on the stack. \<open>label_starts\<close> is the loop that fills the array of
  label starts (\<open>i\<close> the index of the next byte, \<open>starts\<close> the used part of the array) and gives up when
  its 128 places are taken; \<open>stack_keys\<close> is the loop that fills the buffer of 256 bytes (\<open>buf\<close> its
  used part, \<open>n\<close> the labels left) and gives up when the next label does not fit.
\<close>

fun label_starts :: "nat \<Rightarrow> nat list \<Rightarrow> string \<Rightarrow> nat list option" where
  "label_starts i starts [] = Some starts"
| "label_starts i starts (b # bs) =
     (if b = CHR ''.'' then
        if 128 \<le> length starts then None else label_starts (i + 1) (starts @ [i + 1]) bs
      else label_starts (i + 1) starts bs)"

fun stack_keys :: "string set \<Rightarrow> string \<Rightarrow> nat list \<Rightarrow> nat \<Rightarrow> string \<Rightarrow> bool" where
  "stack_keys fs domain starts 0 buf = False"
| "stack_keys fs domain starts (Suc i) buf =
     (let label_start = starts ! i;
          label_end = (if i + 1 < length starts then starts ! (i + 1) - 1 else length domain);
          label_len = label_end - label_start
      in if length buf + label_len + 1 > 256 then suffix_match_heap fs domain
         else let buf' = buf @ take label_len (drop label_start domain) @ ''.''
              in buf' \<in> fs \<or> stack_keys fs domain starts i buf')"

definition suffix_match_zero_alloc :: "string set \<Rightarrow> string \<Rightarrow> bool" where
  "suffix_match_zero_alloc fs domain =
     (if domain = [] then False
      else case label_starts 0 [0] domain of
             None \<Rightarrow> suffix_match_heap fs domain
           | Some starts \<Rightarrow> stack_keys fs domain starts (length starts) [])"

subsection \<open>A loaded rule set\<close>

text \<open>
  \<open>DrsFile\<close> without the counters that only the statistics read. A match result says which kind of entry
  matched.
\<close>

datatype match_result =
  MDomain | MDomainSuffix | MDomainKeyword | MDomainRegex | MIpv4Cidr | MIpv6Cidr | MPort

record drs_file =
  domain_fst :: "string set option"
  suffix_fst :: "string set option"
  keyword_list :: "string list"
  regexes :: "(string \<Rightarrow> bool) option"
  ipv4_ranges :: "(32 word \<times> 32 word) list"
  ipv6_ranges :: "(128 word \<times> 128 word) list"
  ports :: "(16 word \<times> 16 word) list"
  exclude_domain_fst :: "string set option"
  exclude_suffix_fst :: "string set option"
  exclude_regexes :: "(string \<Rightarrow> bool) option"
  has_domain_matchers :: bool
  has_suffix_matchers :: bool
  has_keyword_matchers :: bool
  has_regex_matchers :: bool
  has_ip_matchers :: bool
  has_port_matchers :: bool
  build_time :: "64 word"
  source_hash :: "byte list"

definition domain_is_excluded :: "drs_file \<Rightarrow> string \<Rightarrow> bool" where
  "domain_is_excluded d domain =
     ((case exclude_domain_fst d of None \<Rightarrow> False | Some fs \<Rightarrow> domain \<in> fs)
      \<or> (case exclude_suffix_fst d of None \<Rightarrow> False | Some fs \<Rightarrow> suffix_match_zero_alloc fs domain)
      \<or> (case exclude_regexes d of None \<Rightarrow> False | Some re \<Rightarrow> re domain))"

definition matches_normalized :: "drs_file \<Rightarrow> string \<Rightarrow> match_result option" where
  "matches_normalized d domain =
     (if domain_is_excluded d domain then None
      else if has_domain_matchers d
              \<and> (case domain_fst d of None \<Rightarrow> False | Some fs \<Rightarrow> domain \<in> fs) then Some MDomain
      else if has_suffix_matchers d
              \<and> (case suffix_fst d of None \<Rightarrow> False | Some fs \<Rightarrow> suffix_match_zero_alloc fs domain)
           then Some MDomainSuffix
      else if has_keyword_matchers d \<and> list_ex (\<lambda>kw. sublist kw domain) (keyword_list d)
           then Some MDomainKeyword
      else if has_regex_matchers d
              \<and> (case regexes d of None \<Rightarrow> False | Some re \<Rightarrow> re domain) then Some MDomainRegex
      else None)"

definition matches :: "drs_file \<Rightarrow> string \<Rightarrow> match_result option" where
  "matches d domain =
     (if \<not> has_domain_matchers d \<and> \<not> has_suffix_matchers d
         \<and> \<not> has_keyword_matchers d \<and> \<not> has_regex_matchers d then None
      else let trimmed = trim_end_char CHR ''.'' domain
           in if \<not> list_ex is_ascii_uppercase trimmed then matches_normalized d trimmed
              else matches_normalized d (to_ascii_lowercase trimmed))"

subsection \<open>Ranges of addresses and ports\<close>

text \<open>
  \<open>ipv4_cidr_to_range\<close> and \<open>ipv6_cidr_to_range\<close>: the prefix is a byte and \<open>32 - prefix\<close> is computed in
  bytes; a shift by it uses the amount modulo the width.
\<close>

definition ipv4_cidr_to_range :: "32 word \<Rightarrow> byte \<Rightarrow> 32 word \<times> 32 word" where
  "ipv4_cidr_to_range addr plen =
     (if plen = 0 then (0, - 1)
      else let mask = NOT (push_bit (unat (32 - plen) mod 32) 1 - 1);
               start = addr AND mask
           in (start, start OR NOT mask))"

definition ipv6_cidr_to_range :: "128 word \<Rightarrow> byte \<Rightarrow> 128 word \<times> 128 word" where
  "ipv6_cidr_to_range addr plen =
     (if plen = 0 then (0, - 1)
      else let mask = NOT (push_bit (unat (128 - plen) mod 128) 1 - 1);
               start = addr AND mask
           in (start, start OR NOT mask))"

text \<open>\<open>merge_ranges\<close>: sorted by their start, ranges that overlap the last one of the output extend it.\<close>

fun merge_loop :: "('a::linorder \<times> 'a) list \<Rightarrow> ('a \<times> 'a) list \<Rightarrow> ('a \<times> 'a) list" where
  "merge_loop out [] = out"
| "merge_loop out ((s, e) # rs) =
     (if out \<noteq> [] \<and> s \<le> snd (last out)
      then merge_loop (if snd (last out) < e then butlast out @ [(fst (last out), e)] else out) rs
      else merge_loop (out @ [(s, e)]) rs)"

definition merge_ranges :: "('a::linorder \<times> 'a) list \<Rightarrow> ('a \<times> 'a) list" where
  "merge_ranges rs = (if length rs \<le> 1 then rs else merge_loop [] (sort_key fst rs))"

text \<open>\<open>binary_search_range\<close>, the loop on \<open>lo\<close> and \<open>hi\<close>.\<close>

function search_range :: "('a::linorder \<times> 'a) list \<Rightarrow> 'a \<Rightarrow> nat \<Rightarrow> nat \<Rightarrow> bool" where
  "search_range rs v lo hi =
     (if lo < hi then
        let mid = lo + (hi - lo) div 2; (s, e) = rs ! mid
        in if v < s then search_range rs v lo mid
           else if e < v then search_range rs v (mid + 1) hi
           else True
      else False)"
  by pat_completeness auto
termination by (relation "measure (\<lambda>(rs, v, lo, hi). hi - lo)") auto

declare search_range.simps [simp del]

definition binary_search_range :: "('a::linorder \<times> 'a) list \<Rightarrow> 'a \<Rightarrow> bool" where
  "binary_search_range rs v = search_range rs v 0 (length rs)"

text \<open>
  \<open>matches_ip\<close> and \<open>matches_port\<close>. An IPv6 address is read big-endian; \<open>to_ipv4_mapped\<close> recognises
  \<open>::ffff:a.b.c.d\<close>.
\<close>

datatype ip_addr = V4 "32 word" | V6 "128 word"

definition to_ipv4_mapped :: "128 word \<Rightarrow> 32 word option" where
  "to_ipv4_mapped v = (if drop_bit 32 v = 0xFFFF then Some (ucast v) else None)"

fun matches_ip :: "drs_file \<Rightarrow> ip_addr \<Rightarrow> match_result option" where
  "matches_ip d (V4 v) =
     (if \<not> has_ip_matchers d then None
      else if binary_search_range (ipv4_ranges d) v then Some MIpv4Cidr else None)"
| "matches_ip d (V6 v) =
     (if \<not> has_ip_matchers d then None
      else case to_ipv4_mapped v of
             Some v4 \<Rightarrow> if binary_search_range (ipv4_ranges d) v4 then Some MIpv4Cidr else None
           | None \<Rightarrow> if binary_search_range (ipv6_ranges d) v then Some MIpv6Cidr else None)"

definition matches_port :: "drs_file \<Rightarrow> 16 word \<Rightarrow> bool" where
  "matches_port d port =
     (has_port_matchers d \<and> list_ex (\<lambda>(s, e). s \<le> port \<and> port \<le> e) (ports d))"

section \<open>Suffixes\<close>

subsection \<open>The two suffix matchers agree\<close>

text \<open>Where the labels of a name start.\<close>

primrec offsets :: "nat \<Rightarrow> string list \<Rightarrow> nat list" where
  "offsets p [] = []"
| "offsets p (l # ls) = p # offsets (p + length l + 1) ls"

lemma length_offsets [simp]: "length (offsets p ls) = length ls"
  by (induction ls arbitrary: p) auto

lemma label_starts_offsets:
  "label_starts i starts bs = Some st \<Longrightarrow>
     st = starts @ offsets (i + length (hd (split_on CHR ''.'' bs)) + 1) (tl (split_on CHR ''.'' bs))"
proof (induction bs arbitrary: i starts)
  case (Cons b bs)
  from Cons.prems show ?case
    by (cases "split_on CHR ''.'' bs") (auto split: if_splits dest!: Cons.IH)
qed simp

lemma label_starts_split:
  assumes "label_starts 0 [0] d = Some st"
  shows "st = offsets 0 (split_on CHR ''.'' d)"
proof -
  obtain w ws where "split_on CHR ''.'' d = w # ws" by (cases "split_on CHR ''.'' d") auto
  then show ?thesis using label_starts_offsets [OF assms] by simp
qed

lemma offsets_nth_ge: "i < length ls \<Longrightarrow> p \<le> offsets p ls ! i"
proof (induction ls arbitrary: p i)
  case (Cons l ls)
  show ?case
  proof (cases i)
    case (Suc j)
    then show ?thesis using Cons.IH [of j "p + length l + 1"] Cons.prems by simp
  qed simp
qed simp

lemma offsets_end:
  "i < length ls \<Longrightarrow>
     (if i + 1 < length ls then offsets p ls ! (i + 1) - 1 else p + length (join ''.'' ls))
       = offsets p ls ! i + length (ls ! i)"
proof (induction ls arbitrary: p i)
  case (Cons l ls)
  show ?case
  proof (cases i)
    case 0
    then show ?thesis by (cases ls) auto
  next
    case (Suc j)
    with Cons.prems have j: "j < length ls" by simp
    then obtain l' ls' where "ls = l' # ls'" by (cases ls) auto
    then show ?thesis using Cons.IH [OF j, of "p + length l + 1"] Suc by (auto simp: algebra_simps)
  qed
qed simp

lemma take_label:
  "i < length ls \<Longrightarrow> take (length (ls ! i)) (drop (offsets p ls ! i - p) (join ''.'' ls)) = ls ! i"
proof (induction ls arbitrary: p i)
  case (Cons l ls)
  show ?case
  proof (cases i)
    case 0
    then show ?thesis by (cases ls) auto
  next
    case (Suc j)
    with Cons.prems have j: "j < length ls" by simp
    then obtain l' ls' where ls: "ls = l' # ls'" by (cases ls) auto
    have "p + length l + 1 \<le> offsets (p + length l + 1) ls ! j" using j by (rule offsets_nth_ge)
    then have "offsets (p + length l + 1) ls ! j - p
        = length (l @ ''.'') + (offsets (p + length l + 1) ls ! j - (p + length l + 1))" by simp
    then have "drop (offsets (p + length l + 1) ls ! j - p) (l @ ''.'' @ join ''.'' ls)
        = drop (offsets (p + length l + 1) ls ! j - (p + length l + 1)) (join ''.'' ls)"
      by (simp only: append_assoc [symmetric] drop_append drop_all diff_add_inverse) simp
    then show ?thesis using Cons.IH [OF j, of "p + length l + 1"] Suc ls by simp
  qed
qed simp

lemma stack_keys_heap:
  assumes "st = offsets 0 (split_on CHR ''.'' d)" and "i \<le> length st"
    and "suffix_match_heap fs d = heap_keys fs buf (rev (take i (split_on CHR ''.'' d)))"
  shows "stack_keys fs d st i buf = suffix_match_heap fs d"
  using assms(2,3)
proof (induction i arbitrary: buf)
  case (Suc i)
  let ?ls = "split_on CHR ''.'' d"
  let ?e = "if i + 1 < length st then st ! (i + 1) - 1 else length d"
  have i: "i < length ?ls" using Suc.prems(1) assms(1) by simp
  have "?e = st ! i + length (?ls ! i)"
    using offsets_end [OF i, of 0] assms(1) by (simp add: join_split_on split: if_splits)
  then have len: "?e - st ! i = length (?ls ! i)" by simp
  have lab: "take (length (?ls ! i)) (drop (st ! i) d) = ?ls ! i"
    using take_label [OF i, of 0] assms(1) by (simp add: join_split_on)
  let ?buf = "buf @ ?ls ! i @ ''.''"
  have heap: "suffix_match_heap fs d \<longleftrightarrow> ?buf \<in> fs \<or> heap_keys fs ?buf (rev (take i ?ls))"
    using Suc.prems(2) i by (simp add: take_Suc_conv_app_nth Let_def)
  have "stack_keys fs d st i ?buf = suffix_match_heap fs d" if "?buf \<notin> fs"
    using Suc.IH [of ?buf] Suc.prems(1) heap that by simp
  then show ?case
    using heap by (simp only: stack_keys.simps Let_def len lab) (cases "?buf \<in> fs"; simp)
qed simp

lemma zero_alloc_heap: "suffix_match_zero_alloc fs d \<longleftrightarrow> d \<noteq> [] \<and> suffix_match_heap fs d"
proof (cases "label_starts 0 [0] d")
  case (Some st)
  have st: "st = offsets 0 (split_on CHR ''.'' d)" using Some by (rule label_starts_split)
  have "stack_keys fs d st (length st) [] = suffix_match_heap fs d"
    using st by (intro stack_keys_heap) (simp_all add: suffix_match_heap_def)
  with Some show ?thesis by (simp add: suffix_match_zero_alloc_def)
qed (simp add: suffix_match_zero_alloc_def)

subsection \<open>What a suffix matches\<close>

text \<open>
  A suffix matches itself and every name that ends with it after a dot. On labels: the labels of the
  suffix end the labels of the name.
\<close>

definition label_suffix :: "string \<Rightarrow> string \<Rightarrow> bool" where
  "label_suffix s d \<longleftrightarrow> s = d \<or> suffix (CHR ''.'' # s) d"

lemma split_on_dot_append: "split_on c (xs @ c # ys) = split_on c xs @ split_on c ys"
  by (induction xs) (auto split: list.splits)

lemma join_append: "xs \<noteq> [] \<Longrightarrow> ys \<noteq> [] \<Longrightarrow> join sep (xs @ ys) = join sep xs @ sep @ join sep ys"
proof (induction sep xs rule: join.induct)
  case (2 sep x)
  then show ?case by (cases ys) auto
qed auto

lemma label_suffix_labels:
  "label_suffix s d \<longleftrightarrow> suffix (split_on CHR ''.'' s) (split_on CHR ''.'' d)"
proof
  assume "label_suffix s d"
  then show "suffix (split_on CHR ''.'' s) (split_on CHR ''.'' d)"
    by (auto simp: label_suffix_def suffix_def split_on_dot_append)
next
  assume "suffix (split_on CHR ''.'' s) (split_on CHR ''.'' d)"
  then obtain zs where zs: "split_on CHR ''.'' d = zs @ split_on CHR ''.'' s"
    by (auto simp: suffix_def)
  have "d = join ''.'' (zs @ split_on CHR ''.'' s)" using zs join_split_on [of "CHR ''.''" d] by simp
  then have "d = (if zs = [] then s else join ''.'' zs @ ''.'' @ s)"
    by (simp add: join_append join_split_on)
  then show "label_suffix s d" by (auto simp: label_suffix_def suffix_def split: if_splits)
qed

text \<open>The key of a list of labels, and the keys looked up: those of the final segments of the name.\<close>

definition key_of_labels :: "string list \<Rightarrow> string" where
  "key_of_labels ls = concat (map (\<lambda>l. l @ ''.'') ls)"

lemma join_dot_key: "ls \<noteq> [] \<Longrightarrow> join ''.'' ls @ ''.'' = key_of_labels ls"
  by (induction "''.''" ls rule: join.induct) (auto simp: key_of_labels_def)

lemma suffix_to_fst_key_labels: "suffix_to_fst_key s = key_of_labels (rev (split_on CHR ''.'' s))"
  by (simp add: suffix_to_fst_key_def reverse_labels_def join_dot_key)

lemma heap_keys_prefixes:
  "heap_keys fs key ls \<longleftrightarrow> (\<exists>ys. ys \<noteq> [] \<and> prefix ys ls \<and> key @ key_of_labels ys \<in> fs)"
proof (induction ls arbitrary: key)
  case (Cons l ls)
  have "(\<exists>ys. ys \<noteq> [] \<and> prefix ys (l # ls) \<and> key @ key_of_labels ys \<in> fs)
    \<longleftrightarrow> (\<exists>zs. prefix zs ls \<and> key @ key_of_labels (l # zs) \<in> fs)"
    by (auto simp: prefix_Cons)
  also have "\<dots> \<longleftrightarrow> key @ l @ ''.'' \<in> fs
      \<or> (\<exists>zs. zs \<noteq> [] \<and> prefix zs ls \<and> (key @ l @ ''.'') @ key_of_labels zs \<in> fs)"
    by (simp add: key_of_labels_def) (metis Nil_prefix append_Nil2 concat.simps(1) list.simps(8))
  finally show ?case using Cons.IH [of "key @ l @ ''.''"] by (simp add: Let_def)
qed simp

lemma heap_suffix: "suffix_match_heap fs d \<longleftrightarrow> (\<exists>s. label_suffix s d \<and> suffix_to_fst_key s \<in> fs)"
proof
  assume "suffix_match_heap fs d"
  then obtain ys where ys: "ys \<noteq> []" "prefix ys (rev (split_on CHR ''.'' d))" "key_of_labels ys \<in> fs"
    by (auto simp: suffix_match_heap_def heap_keys_prefixes)
  then have suf: "suffix (rev ys) (split_on CHR ''.'' d)" by (simp add: suffix_to_prefix)
  then have "\<forall>w \<in> set (rev ys). CHR ''.'' \<notin> set w"
    using split_on_free [of "CHR ''.''" d] set_mono_suffix [OF suf] by auto
  then have "split_on CHR ''.'' (join ''.'' (rev ys)) = rev ys"
    using ys(1) by (intro split_on_join) auto
  then have "label_suffix (join ''.'' (rev ys)) d" "suffix_to_fst_key (join ''.'' (rev ys)) \<in> fs"
    using suf ys(3) by (simp_all add: label_suffix_labels suffix_to_fst_key_labels)
  then show "\<exists>s. label_suffix s d \<and> suffix_to_fst_key s \<in> fs" by blast
next
  assume "\<exists>s. label_suffix s d \<and> suffix_to_fst_key s \<in> fs"
  then obtain s where "prefix (rev (split_on CHR ''.'' s)) (rev (split_on CHR ''.'' d))"
    "key_of_labels (rev (split_on CHR ''.'' s)) \<in> fs"
    by (auto simp: label_suffix_labels suffix_to_fst_key_labels suffix_to_prefix)
  then show "suffix_match_heap fs d"
    unfolding suffix_match_heap_def heap_keys_prefixes
    by (intro exI [of _ "rev (split_on CHR ''.'' s)"]) simp
qed

lemma suffix_to_fst_key_inject [simp]: "suffix_to_fst_key s = suffix_to_fst_key t \<longleftrightarrow> s = t"
proof
  have labels: "split_on CHR ''.'' (reverse_labels u) = rev (split_on CHR ''.'' u)" for u
    unfolding reverse_labels_def
    by (rule split_on_join) (use split_on_free [of "CHR ''.''" u] in auto)
  assume "suffix_to_fst_key s = suffix_to_fst_key t"
  then have "reverse_labels s = reverse_labels t" by (simp add: suffix_to_fst_key_def)
  then have "split_on CHR ''.'' s = split_on CHR ''.'' t" using labels by (metis rev_rev_ident)
  then show "s = t" using join_split_on by metis
qed simp

lemma suffix_set_matches:
  "suffix_match_zero_alloc (suffix_to_fst_key ` S) d \<longleftrightarrow> d \<noteq> [] \<and> (\<exists>s \<in> S. label_suffix s d)"
  by (auto simp: zero_alloc_heap heap_suffix)

text \<open>
  C11. The two suffix matchers agree on every name that is not empty, whatever its length and the number
  of its labels: the one on the stack falls back to the other as soon as a name has more than 128 labels
  or its key outgrows the buffer. On the keys of a list of suffixes both find exactly the names that are
  a suffix of the list or end with one after a dot.
\<close>

theorem suffix_matchers_agree:
  "(suffix_match_zero_alloc fs d \<longleftrightarrow> d \<noteq> [] \<and> suffix_match_heap fs d)
   \<and> (suffix_match_heap (suffix_to_fst_key ` S) d \<longleftrightarrow> S \<inter> {s. label_suffix s d} \<noteq> {})"
  by (auto simp: zero_alloc_heap heap_suffix)

end
