(* ===== verification/Drs_Ranges.thy ===== *)
theory Drs_Ranges
  imports Drs_Match
begin

text \<open>
  The ranges of addresses of a rule set (\<open>src/src/ruleset/drs.rs\<close>): what a CIDR block contains, and that
  merging the ranges and searching the result by bisection finds exactly the addresses of the blocks.
\<close>

subsection \<open>CIDR blocks\<close>

lemma low_mask: "push_bit k 1 - 1 = (mask k :: 'a::len word)"
  by (simp add: mask_eq_exp_minus_1 push_bit_eq_mult)

lemma unat_drop_bit: "unat (drop_bit k (v :: 'a::len word)) = unat v div 2 ^ k"
  by (simp only: unat_drop_bit_eq drop_bit_eq_div [where ?'a = nat])

lemma block_of_index: "(0 :: nat) < n \<Longrightarrow> n * q \<le> v \<and> v \<le> n * q + (n - 1) \<longleftrightarrow> v div n = q"
proof
  assume "0 < n" "n * q \<le> v \<and> v \<le> n * q + (n - 1)"
  then have "n * q \<le> v" "v < n * Suc q" by auto
  then show "v div n = q" by (intro div_nat_eqI) (simp_all add: mult.commute)
next
  assume n: "0 < n" and q: "v div n = q"
  have "v mod n \<le> n - 1" using n mod_less_divisor [of n v] by linarith
  moreover have "v = n * q + v mod n" using mult_div_mod_eq [of n v] q by simp
  ultimately show "n * q \<le> v \<and> v \<le> n * q + (n - 1)" by linarith
qed

text \<open>An address lies between the ends of a block exactly when its upper bits are those of the block.\<close>

lemma block_bounds:
  fixes a v :: "'a::len word"
  assumes k: "k < LENGTH('a)"
  shows "a AND NOT (mask k) \<le> v \<and> v \<le> (a AND NOT (mask k)) OR mask k
    \<longleftrightarrow> drop_bit k v = drop_bit k a"
proof -
  let ?s = "a AND NOT (mask k)" and ?q = "unat a div 2 ^ k"
  have A: "unat a < 2 ^ LENGTH('a)" by (rule unsigned_less)
  have le: "2 ^ k * ?q \<le> unat a" by simp
  have lo: "?s = push_bit k (drop_bit k a)" by (rule bit_word_eqI) (auto simp: bit_simps)
  have us: "unat ?s = 2 ^ k * ?q"
    unfolding lo unsigned_push_bit_eq unat_drop_bit
    using le_less_trans [OF le A] by (simp add: push_bit_eq_mult mult.commute take_bit_nat_eq_self)
  have "?s OR mask k = ?s + mask k"
    by (rule disjunctive_add [symmetric]) (auto simp: bit_simps)
  moreover have um: "unat (mask k :: 'a word) = 2 ^ k - 1"
  proof -
    have "unat (mask k :: 'a word) = take_bit LENGTH('a) (mask k)"
      by (subst of_nat_mask_eq [symmetric]) (simp only: unat_of_nat take_bit_eq_mod)
    also have "\<dots> = mask k" using k by (simp only: take_bit_of_mask min_absorb2 less_imp_le)
    finally show ?thesis by (simp only: mask_eq_exp_minus_1)
  qed
  moreover have "unat ?s + unat (mask k :: 'a word) < 2 ^ LENGTH('a)"
  proof -
    have "?q < 2 ^ (LENGTH('a) - k)"
      using A k by (simp add: less_mult_imp_div_less power_add [symmetric])
    then have "2 ^ k * Suc ?q \<le> 2 ^ k * 2 ^ (LENGTH('a) - k)" by (intro mult_le_mono2) simp
    also have "\<dots> = 2 ^ LENGTH('a)" using k by (simp add: power_add [symmetric])
    finally have "2 ^ k * ?q + 2 ^ k \<le> 2 ^ LENGTH('a)" by simp
    moreover have "(0 :: nat) < 2 ^ k" by simp
    ultimately show ?thesis unfolding us um by linarith
  qed
  ultimately have ue: "unat (?s OR mask k) = 2 ^ k * ?q + (2 ^ k - 1)"
    using us by (simp add: unat_word_ariths)
  show ?thesis
    unfolding word_le_nat_alt us ue word_unat_eq_iff unat_drop_bit
    by (rule block_of_index) simp
qed

text \<open>\<open>unat (32 - p)\<close> is the distance to the width for every legal prefix length.\<close>

lemma unat_distance:
  "unat (p :: byte) \<le> n \<Longrightarrow> n < 256 \<Longrightarrow> unat (word_of_nat n - p) = n - unat p"
  by (simp add: unat_sub word_le_nat_alt unat_of_nat take_bit_nat_eq_self)

definition in_block :: "'a::len word \<Rightarrow> byte \<Rightarrow> 'a word \<Rightarrow> bool" where
  "in_block a p v \<longleftrightarrow> p = 0 \<or> drop_bit (LENGTH('a) - unat p) v = drop_bit (LENGTH('a) - unat p) a"

lemma ipv4_range_block:
  assumes "unat p \<le> 32"
  shows "fst (ipv4_cidr_to_range a p) \<le> v \<and> v \<le> snd (ipv4_cidr_to_range a p) \<longleftrightarrow> in_block a p v"
proof (cases "p = 0")
  case False
  have width: "LENGTH(32) = 32" by simp
  from False have "0 < unat p" by (simp add: unat_gt_0)
  with assms have k: "unat (32 - p) = 32 - unat p" "32 - unat p < 32"
    using unat_distance [of p 32] by simp_all
  then show ?thesis
    using False block_bounds [of "32 - unat p" a v] width
    by (simp only: ipv4_cidr_to_range_def in_block_def Let_def low_mask mod_less if_False
      fst_conv snd_conv bit.double_compl k width simp_thms)
qed (simp add: ipv4_cidr_to_range_def in_block_def)

lemma ipv6_range_block:
  assumes "unat p \<le> 128"
  shows "fst (ipv6_cidr_to_range a p) \<le> v \<and> v \<le> snd (ipv6_cidr_to_range a p) \<longleftrightarrow> in_block a p v"
proof (cases "p = 0")
  case False
  have width: "LENGTH(128) = 128" by simp
  from False have "0 < unat p" by (simp add: unat_gt_0)
  with assms have k: "unat (128 - p) = 128 - unat p" "128 - unat p < 128"
    using unat_distance [of p 128] by simp_all
  then show ?thesis
    using False block_bounds [of "128 - unat p" a v] width
    by (simp only: ipv6_cidr_to_range_def in_block_def Let_def low_mask mod_less if_False
      fst_conv snd_conv bit.double_compl k width simp_thms)
qed (simp add: ipv6_cidr_to_range_def in_block_def)

subsection \<open>Merged ranges\<close>

definition in_ranges :: "('a::linorder \<times> 'a) list \<Rightarrow> 'a \<Rightarrow> bool" where
  "in_ranges rs v \<longleftrightarrow> list_ex (\<lambda>(s, e). s \<le> v \<and> v \<le> e) rs"

lemma in_ranges_simps [simp]:
  "\<not> in_ranges [] v"
  "in_ranges ((s, e) # rs) v \<longleftrightarrow> s \<le> v \<and> v \<le> e \<or> in_ranges rs v"
  "in_ranges (rs @ rs') v \<longleftrightarrow> in_ranges rs v \<or> in_ranges rs' v"
  by (simp_all add: in_ranges_def)

text \<open>Ranges in order, none touching the next one.\<close>

definition separated :: "('a::linorder \<times> 'a) list \<Rightarrow> bool" where
  "separated rs \<longleftrightarrow> sorted_wrt (\<lambda>a b. snd a < fst b) rs \<and> (\<forall>r \<in> set rs. fst r \<le> snd r)"

lemma separated_snoc:
  "separated (rs @ [r]) \<longleftrightarrow> separated rs \<and> (\<forall>q \<in> set rs. snd q < fst r) \<and> fst r \<le> snd r"
  by (auto simp: separated_def sorted_wrt_append)

lemma merge_loop_correct:
  assumes "sorted (map fst rs)" "\<forall>r \<in> set rs. fst r \<le> snd r" "separated out"
    and "\<forall>q \<in> set out. \<forall>r \<in> set rs. fst q \<le> fst r"
  shows "separated (merge_loop out rs)
    \<and> (\<forall>v. in_ranges (merge_loop out rs) v \<longleftrightarrow> in_ranges out v \<or> in_ranges rs v)"
  using assms
proof (induction out rs rule: merge_loop.induct)
  case (2 out s e rs)
  have sorted: "sorted (map fst rs)" "\<forall>r \<in> set rs. s \<le> fst r" and valid: "s \<le> e"
    using "2.prems" by auto
  show ?case
  proof (cases "out \<noteq> [] \<and> s \<le> snd (last out)")
    case True
    then obtain us a b where out: "out = us @ [(a, b)]" "s \<le> b"
      by (cases out rule: rev_cases) auto
    have ab: "a \<le> b" "a \<le> s" "separated us" "\<forall>q \<in> set us. snd q < a"
      using "2.prems" out by (auto simp: separated_snoc)
    let ?out = "if b < e then us @ [(a, e)] else out"
    have grown: "(if snd (last out) < e then butlast out @ [(fst (last out), e)] else out) = ?out"
      using out by simp
    have "separated ?out" using ab out "2.prems"(3) by (auto simp: separated_snoc)
    moreover have "\<forall>q \<in> set ?out. \<forall>r \<in> set rs. fst q \<le> fst r"
      using "2.prems"(4) out by auto
    ultimately have "separated (merge_loop ?out rs)
      \<and> (\<forall>v. in_ranges (merge_loop ?out rs) v \<longleftrightarrow> in_ranges ?out v \<or> in_ranges rs v)"
      using "2.IH"(1) [OF True, unfolded grown] "2.prems"(2) sorted(1) by simp
    moreover have "in_ranges ?out v \<longleftrightarrow> in_ranges out v \<or> s \<le> v \<and> v \<le> e" for v
      using out ab valid by auto
    ultimately show ?thesis using True by (simp only: merge_loop.simps grown if_True simp_thms in_ranges_simps) blast
  next
    case False
    have "\<forall>q \<in> set out. snd q < s"
    proof (cases out rule: rev_cases)
      case (snoc us q)
      with False "2.prems"(3) show ?thesis by (force simp: separated_snoc)
    qed simp
    then have "separated (out @ [(s, e)])" using "2.prems"(3) valid by (simp add: separated_snoc)
    moreover have "\<forall>q \<in> set (out @ [(s, e)]). \<forall>r \<in> set rs. fst q \<le> fst r"
      using "2.prems"(4) sorted(2) by auto
    ultimately show ?thesis using "2.IH"(2) [OF False] "2.prems"(2) sorted(1) False by auto
  qed
qed simp

lemma in_ranges_set: "in_ranges rs v \<longleftrightarrow> (\<exists>r \<in> set rs. fst r \<le> v \<and> v \<le> snd r)"
  by (simp add: in_ranges_def list_ex_iff split_beta)

lemma merge_ranges_correct:
  assumes "\<forall>r \<in> set rs. fst r \<le> snd r"
  shows "separated (merge_ranges rs) \<and> (\<forall>v. in_ranges (merge_ranges rs) v \<longleftrightarrow> in_ranges rs v)"
proof (cases "length rs \<le> 1")
  case True
  then show ?thesis using assms by (cases rs) (auto simp: merge_ranges_def separated_def)
next
  case False
  have "in_ranges (sort_key fst rs) v \<longleftrightarrow> in_ranges rs v" for v by (simp add: in_ranges_set)
  then show ?thesis
    using merge_loop_correct [of "sort_key fst rs" "[]"] False assms
    by (simp add: merge_ranges_def) (simp add: separated_def)
qed

subsection \<open>Search by bisection\<close>

lemma separated_nth:
  assumes "separated rs" "i < j" "j < length rs"
  shows "snd (rs ! i) < fst (rs ! j)"
  using assms by (auto simp: separated_def sorted_wrt_iff_nth_less)

lemma search_range_correct:
  assumes "separated rs" "hi \<le> length rs"
  shows "search_range rs v lo hi \<longleftrightarrow> (\<exists>i. lo \<le> i \<and> i < hi \<and> fst (rs ! i) \<le> v \<and> v \<le> snd (rs ! i))"
  using assms
proof (induction rs v lo hi rule: search_range.induct)
  case (1 rs v lo hi)
  show ?case
  proof (cases "lo < hi")
    case True
    define mid where "mid = lo + (hi - lo) div 2"
    have mid: "lo \<le> mid" "mid < hi" using True by (auto simp: mid_def)
    have valid: "\<And>i. i < length rs \<Longrightarrow> fst (rs ! i) \<le> snd (rs ! i)"
      using "1.prems"(1) by (simp add: separated_def)
    obtain s e where se: "rs ! mid = (s, e)" by (cases "rs ! mid")
    consider "v < s" | "e < v" "\<not> v < s" | "s \<le> v" "v \<le> e" by fastforce
    then show ?thesis
    proof cases
      case 1
      have "i < mid" if "i < hi" "fst (rs ! i) \<le> v" for i
      proof (rule ccontr)
        assume "\<not> i < mid"
        then have "s \<le> fst (rs ! i)"
          using separated_nth [OF "1.prems"(1), of mid i] valid [of mid] se mid that(1) "1.prems"(2)
          by (cases "i = mid") auto
        with that(2) 1 show False by simp
      qed
      moreover have "search_range rs v lo hi = search_range rs v lo mid"
        using True 1 se by (subst search_range.simps) (simp add: mid_def [symmetric] Let_def)
      ultimately show ?thesis
        using "1.IH"(1) [OF True mid_def se [symmetric] refl 1 "1.prems"(1)] mid "1.prems"(2) by fastforce
    next
      case 2
      have "mid < i" if "lo \<le> i" "i < hi" "v \<le> snd (rs ! i)" for i
      proof (rule ccontr)
        assume "\<not> mid < i"
        then have "snd (rs ! i) \<le> e"
          using separated_nth [OF "1.prems"(1), of i mid] valid [of mid] se mid "1.prems"(2)
          by (cases "i = mid") auto
        with that(3) 2 show False by simp
      qed
      moreover have "search_range rs v lo hi = search_range rs v (mid + 1) hi"
        using True 2 se by (subst search_range.simps) (simp add: mid_def [symmetric] Let_def)
      ultimately show ?thesis
        using "1.IH"(2) [OF True mid_def se [symmetric] refl 2(2,1) "1.prems"] mid
        by (metis Suc_eq_plus1 Suc_leD Suc_leI le_trans)
    next
      case 3
      have "search_range rs v lo hi"
        using True leD [OF 3(1)] leD [OF 3(2)] se by (subst search_range.simps) (simp add: mid_def [symmetric] Let_def)
      then show ?thesis using 3 se mid by (metis fst_conv snd_conv)
    qed
  next
    case False
    then show ?thesis by (subst search_range.simps) auto
  qed
qed

lemma merged_search:
  assumes "\<forall>r \<in> set rs. fst r \<le> snd r"
  shows "binary_search_range (merge_ranges rs) v \<longleftrightarrow> in_ranges rs v"
proof -
  have m: "separated (merge_ranges rs)" "in_ranges (merge_ranges rs) v \<longleftrightarrow> in_ranges rs v"
    using merge_ranges_correct [OF assms] by blast+
  have "binary_search_range (merge_ranges rs) v \<longleftrightarrow> in_ranges (merge_ranges rs) v"
    unfolding binary_search_range_def search_range_correct [OF m(1) order_refl] in_ranges_set
    by (metis in_set_conv_nth less_eq_nat.simps(1))
  then show ?thesis using m(2) by simp
qed



end
