(* ===== verification/Drs_File.thy ===== *)
theory Drs_File
  imports Drs_Ranges "HOL-Library.List_Lexorder" "HOL-Library.Char_ord"
begin

text \<open>
  The binary format of a rule set: reading and writing (\<open>src/src/ruleset/drs.rs\<close>, \<open>format.rs\<close>).

  The crates \<open>fst\<close> and \<open>regex\<close> are parameters, the fields of \<open>codec\<close>: \<open>fst_build\<close> serializes a sorted
  list of distinct keys and \<open>fst_new\<close> reads the bytes back, \<open>re_valid\<close> says that a pattern compiles and
  \<open>re_match\<close> that it matches somewhere in a name. The counters kept for the statistics are left out, but
  for the two that decide whether a set is looked at.
\<close>

record codec =
  fst_new :: "byte list \<Rightarrow> string + string set"
  fst_build :: "string list \<Rightarrow> byte list"
  re_valid :: "string \<Rightarrow> bool"
  re_match :: "string \<Rightarrow> string \<Rightarrow> bool"

datatype drs_error =
  Truncated nat nat
| BadMagic "byte list"
| UnsupportedVersion byte
| UnknownSection byte
| InvalidUtf8
| InvalidFst string
| LoadedInvalidRegex
| DomainTooLong string nat

subsection \<open>Sections\<close>

datatype section_type =
  SDomain | SDomainSuffix | SDomainKeyword | SDomainRegex | SDomainFst | SDomainSuffixFst
| SExcludeDomainFst | SExcludeSuffixFst | SExcludeDomainRegex | SIpCidrV4 | SIpCidrV6 | SPort

fun section_byte :: "section_type \<Rightarrow> byte" where
  "section_byte SDomain = 0x01"
| "section_byte SDomainSuffix = 0x02"
| "section_byte SDomainKeyword = 0x03"
| "section_byte SDomainRegex = 0x04"
| "section_byte SDomainFst = 0x05"
| "section_byte SDomainSuffixFst = 0x06"
| "section_byte SExcludeDomainFst = 0x07"
| "section_byte SExcludeSuffixFst = 0x08"
| "section_byte SExcludeDomainRegex = 0x09"
| "section_byte SIpCidrV4 = 0x10"
| "section_byte SIpCidrV6 = 0x11"
| "section_byte SPort = 0x20"

definition section_from_u8 :: "byte \<Rightarrow> drs_error + section_type" where
  "section_from_u8 b =
     (if b = 0x01 then Inr SDomain
      else if b = 0x02 then Inr SDomainSuffix
      else if b = 0x03 then Inr SDomainKeyword
      else if b = 0x04 then Inr SDomainRegex
      else if b = 0x05 then Inr SDomainFst
      else if b = 0x06 then Inr SDomainSuffixFst
      else if b = 0x07 then Inr SExcludeDomainFst
      else if b = 0x08 then Inr SExcludeSuffixFst
      else if b = 0x09 then Inr SExcludeDomainRegex
      else if b = 0x10 then Inr SIpCidrV4
      else if b = 0x11 then Inr SIpCidrV6
      else if b = 0x20 then Inr SPort
      else Inl (UnknownSection b))"

definition write_section_header :: "section_type \<Rightarrow> 32 word \<Rightarrow> 32 word \<Rightarrow> byte list" where
  "write_section_header ty entry_count byte_len =
     section_byte ty # le_bytes 4 entry_count @ le_bytes 4 byte_len"

definition read_section_header ::
    "byte list \<Rightarrow> nat \<Rightarrow> drs_error + section_type \<times> 32 word \<times> 32 word \<times> nat" where
  "read_section_header data offset =
     (if length data < offset + 9 then Inl (Truncated (offset + 9) (length data))
      else and_then (section_from_u8 (data ! offset)) (\<lambda>ty.
        Inr (ty, from_le (subslice (offset + 1) 4 data), from_le (subslice (offset + 5) 4 data), 9)))"

text \<open>
  A section of strings, each after its length in a byte (the loop on \<open>i\<close> that the sections of keywords,
  of patterns and of excepted patterns repeat).
\<close>

function read_strings :: "byte list \<Rightarrow> nat \<Rightarrow> drs_error + string list" where
  "read_strings sec i =
     (if i < length sec then
        let l = unat (sec ! i); j = i + 1
        in if length sec < j + l then Inl (Truncated (j + l) (length sec))
           else let s = subslice j l sec
                in if \<not> utf8_valid s then Inl InvalidUtf8
                   else and_then (read_strings sec (j + l)) (\<lambda>ss. Inr (str_of_bytes s # ss))
      else Inr [])"
  by pat_completeness auto
termination by (relation "measure (\<lambda>(sec, i). length sec - i)") auto

declare read_strings.simps [simp del]

text \<open>The entries of the sections of fixed width.\<close>

definition read_ipv4 :: "byte list \<Rightarrow> 32 word \<times> 32 word" where
  "read_ipv4 entry = ipv4_cidr_to_range (from_le (subslice 0 4 entry)) (entry ! 4)"

definition read_ipv6 :: "byte list \<Rightarrow> 128 word \<times> 128 word" where
  "read_ipv6 entry = ipv6_cidr_to_range (from_be (subslice 0 16 entry)) (entry ! 16)"

definition read_port :: "byte list \<Rightarrow> 16 word \<times> 16 word" where
  "read_port entry = (from_le (subslice 0 2 entry), from_le (subslice 2 2 entry))"

definition read_entries :: "nat \<Rightarrow> (byte list \<Rightarrow> 'a) \<Rightarrow> byte list \<Rightarrow> drs_error + 'a list" where
  "read_entries entry_len f sec =
     (if length sec mod entry_len \<noteq> 0
      then Inl (Truncated ((length sec div entry_len + 1) * entry_len) (length sec))
      else Inr (map f (pieces entry_len sec)))"

text \<open>What the loop over the sections has read so far: the mutable variables of \<open>from_bytes_v2\<close>.\<close>

record drs_parts =
  p_domain :: "string set option"
  p_suffix :: "string set option"
  p_ex_domain :: "string set option"
  p_ex_suffix :: "string set option"
  p_keywords :: "string list"
  p_regexes :: "string list"
  p_ex_regexes :: "string list"
  p_ipv4 :: "(32 word \<times> 32 word) list"
  p_ipv6 :: "(128 word \<times> 128 word) list"
  p_ports :: "(16 word \<times> 16 word) list"
  p_domain_count :: nat
  p_suffix_count :: nat

definition no_parts :: drs_parts where
  "no_parts = \<lparr>p_domain = None, p_suffix = None, p_ex_domain = None, p_ex_suffix = None,
     p_keywords = [], p_regexes = [], p_ex_regexes = [], p_ipv4 = [], p_ipv6 = [], p_ports = [],
     p_domain_count = 0, p_suffix_count = 0\<rparr>"

definition load_fst :: "codec \<Rightarrow> byte list \<Rightarrow> drs_error + string set" where
  "load_fst c bytes = (case fst_new c bytes of Inl e \<Rightarrow> Inl (InvalidFst e) | Inr fs \<Rightarrow> Inr fs)"

fun read_section ::
    "codec \<Rightarrow> section_type \<Rightarrow> 32 word \<Rightarrow> byte list \<Rightarrow> drs_parts \<Rightarrow> drs_error + drs_parts" where
  "read_section c SDomainFst n sec p =
     and_then (load_fst c sec) (\<lambda>fs. Inr (p\<lparr>p_domain := Some fs, p_domain_count := unat n\<rparr>))"
| "read_section c SDomainSuffixFst n sec p =
     and_then (load_fst c sec) (\<lambda>fs. Inr (p\<lparr>p_suffix := Some fs, p_suffix_count := unat n\<rparr>))"
| "read_section c SDomainKeyword n sec p =
     and_then (read_strings sec 0) (\<lambda>ss. Inr (p\<lparr>p_keywords := p_keywords p @ ss\<rparr>))"
| "read_section c SDomainRegex n sec p =
     and_then (read_strings sec 0) (\<lambda>ss. Inr (p\<lparr>p_regexes := p_regexes p @ ss\<rparr>))"
| "read_section c SExcludeDomainFst n sec p =
     and_then (load_fst c sec) (\<lambda>fs. Inr (p\<lparr>p_ex_domain := Some fs\<rparr>))"
| "read_section c SExcludeSuffixFst n sec p =
     and_then (load_fst c sec) (\<lambda>fs. Inr (p\<lparr>p_ex_suffix := Some fs\<rparr>))"
| "read_section c SExcludeDomainRegex n sec p =
     and_then (read_strings sec 0) (\<lambda>ss. Inr (p\<lparr>p_ex_regexes := p_ex_regexes p @ ss\<rparr>))"
| "read_section c SIpCidrV4 n sec p =
     and_then (read_entries 5 read_ipv4 sec) (\<lambda>rs. Inr (p\<lparr>p_ipv4 := p_ipv4 p @ rs\<rparr>))"
| "read_section c SIpCidrV6 n sec p =
     and_then (read_entries 17 read_ipv6 sec) (\<lambda>rs. Inr (p\<lparr>p_ipv6 := p_ipv6 p @ rs\<rparr>))"
| "read_section c SPort n sec p =
     and_then (read_entries 4 read_port sec) (\<lambda>rs. Inr (p\<lparr>p_ports := p_ports p @ rs\<rparr>))"
| "read_section c SDomain n sec p = Inr p"
| "read_section c SDomainSuffix n sec p = Inr p"

text \<open>The loop over the sections; the first argument counts the sections left.\<close>

primrec read_sections ::
    "codec \<Rightarrow> byte list \<Rightarrow> nat \<Rightarrow> nat \<Rightarrow> drs_parts \<Rightarrow> drs_error + drs_parts" where
  "read_sections c data 0 offset p = Inr p"
| "read_sections c data (Suc k) offset p =
     and_then (read_section_header data offset) (\<lambda>(ty, n, byte_len, hdr_len).
       let start = offset + hdr_len; len = unat byte_len
       in if length data < start + len then Inl (Truncated (start + len) (length data))
          else and_then (read_section c ty n (subslice start len data) p)
                 (read_sections c data k (start + len)))"

subsection \<open>Loading\<close>

definition compile_set :: "codec \<Rightarrow> string list \<Rightarrow> drs_error + (string \<Rightarrow> bool) option" where
  "compile_set c patterns =
     (if patterns = [] then Inr None
      else if \<not> list_all (re_valid c) patterns then Inl LoadedInvalidRegex
      else Inr (Some (\<lambda>d. list_ex (\<lambda>p. re_match c p d) patterns)))"

definition header_len :: nat where
  "header_len = 54"

definition magic :: "byte list" where
  "magic = as_bytes ''DRS'' @ [0]"

definition from_bytes_v2 :: "codec \<Rightarrow> byte list \<Rightarrow> drs_error + drs_file" where
  "from_bytes_v2 c data =
     and_then (read_sections c data (unat (from_le (subslice 46 4 data) :: 32 word)) header_len no_parts) (\<lambda>p.
     and_then (compile_set c (p_regexes p)) (\<lambda>regexes.
     and_then (compile_set c (p_ex_regexes p)) (\<lambda>ex_regexes.
       let v4 = merge_ranges (p_ipv4 p); v6 = merge_ranges (p_ipv6 p)
       in Inr \<lparr>domain_fst = p_domain p, suffix_fst = p_suffix p, keyword_list = p_keywords p,
                regexes = regexes, ipv4_ranges = v4, ipv6_ranges = v6, ports = p_ports p,
                exclude_domain_fst = p_ex_domain p, exclude_suffix_fst = p_ex_suffix p,
                exclude_regexes = ex_regexes,
                has_domain_matchers = 0 < p_domain_count p,
                has_suffix_matchers = 0 < p_suffix_count p,
                has_keyword_matchers = p_keywords p \<noteq> [],
                has_regex_matchers = regexes \<noteq> None,
                has_ip_matchers = v4 \<noteq> [] \<or> v6 \<noteq> [],
                has_port_matchers = p_ports p \<noteq> [],
                build_time = from_le (subslice 6 8 data),
                source_hash = subslice 14 32 data\<rparr>)))"

text \<open>Version 1: two sets after the header, each present when its flag is set and its length is not zero.\<close>

definition load_v1_set :: "codec \<Rightarrow> bool \<Rightarrow> byte list \<Rightarrow> drs_error + string set option" where
  "load_v1_set c flag bytes =
     (if flag \<and> 0 < length bytes then and_then (load_fst c bytes) (\<lambda>fs. Inr (Some fs)) else Inr None)"

definition from_bytes_v1 :: "codec \<Rightarrow> byte list \<Rightarrow> drs_error + drs_file" where
  "from_bytes_v1 c data =
     (let flags = data ! 5;
          domain_len = unat (from_le (subslice 46 4 data) :: 32 word);
          suffix_len = unat (from_le (subslice 50 4 data) :: 32 word);
          total_needed = header_len + domain_len + suffix_len
      in if length data < header_len then Inl (Truncated header_len (length data))
         else if length data < total_needed then Inl (Truncated total_needed (length data))
         else
           and_then (load_v1_set c (flags AND 1 \<noteq> 0) (subslice header_len domain_len data)) (\<lambda>domains.
           and_then (load_v1_set c (flags AND 2 \<noteq> 0)
               (subslice (header_len + domain_len) suffix_len data)) (\<lambda>suffixes.
           Inr \<lparr>domain_fst = domains, suffix_fst = suffixes, keyword_list = [],
                regexes = None, ipv4_ranges = [], ipv6_ranges = [], ports = [],
                exclude_domain_fst = None, exclude_suffix_fst = None, exclude_regexes = None,
                has_domain_matchers = (case domains of None \<Rightarrow> False | Some fs \<Rightarrow> 0 < card fs),
                has_suffix_matchers = (case suffixes of None \<Rightarrow> False | Some fs \<Rightarrow> 0 < card fs),
                has_keyword_matchers = False, has_regex_matchers = False,
                has_ip_matchers = False, has_port_matchers = False,
                build_time = from_le (subslice 6 8 data),
                source_hash = subslice 14 32 data\<rparr>)))"

definition from_bytes :: "codec \<Rightarrow> byte list \<Rightarrow> drs_error + drs_file" where
  "from_bytes c data =
     (if length data < header_len then Inl (Truncated header_len (length data))
      else if take 4 data \<noteq> magic then Inl (BadMagic (take 4 data))
      else if data ! 4 = 1 then from_bytes_v1 c data
      else if data ! 4 = 2 then from_bytes_v2 c data
      else Inl (UnsupportedVersion (data ! 4)))"

subsection \<open>Writing\<close>

text \<open>The entries a rule set is compiled from: the arguments of \<open>write_v2\<close>.\<close>

record drs_entries =
  e_domains :: "string list"
  e_suffixes :: "string list"
  e_keywords :: "string list"
  e_regexes :: "string list"
  e_ipv4 :: "(32 word \<times> byte) list"
  e_ipv6 :: "(128 word \<times> byte) list"
  e_ports :: "(16 word \<times> 16 word) list"
  e_ex_domains :: "string list"
  e_ex_suffixes :: "string list"
  e_ex_regexes :: "string list"

definition fst_keys :: "string list \<Rightarrow> string list" where
  "fst_keys keys = remdups_adj (sort keys)"

definition build_set_fst :: "codec \<Rightarrow> string list \<Rightarrow> drs_error + byte list \<times> 32 word" where
  "build_set_fst c keys =
     (if keys = [] then Inr ([], 0)
      else case find (\<lambda>k. 253 < length k) (fst_keys keys) of
             Some k \<Rightarrow> Inl (DomainTooLong k (length k))
           | None \<Rightarrow> Inr (fst_build c (fst_keys keys), word_of_nat (length (fst_keys keys))))"

definition short_enough :: "string \<Rightarrow> bool" where
  "short_enough s \<longleftrightarrow> length s \<le> 255"

definition string_entry :: "string \<Rightarrow> byte list" where
  "string_entry s = word_of_nat (length s) # as_bytes s"

definition build_string_section :: "string list \<Rightarrow> byte list \<times> 32 word" where
  "build_string_section items =
     (let kept = filter short_enough items
      in (concat (map string_entry kept), word_of_nat (length kept)))"

definition build_ipv4_section :: "(32 word \<times> byte) list \<Rightarrow> byte list \<times> 32 word" where
  "build_ipv4_section cidrs =
     (concat (map (\<lambda>(addr, plen). le_bytes 4 addr @ [plen]) cidrs), word_of_nat (length cidrs))"

definition build_ipv6_section :: "(128 word \<times> byte) list \<Rightarrow> byte list \<times> 32 word" where
  "build_ipv6_section cidrs =
     (concat (map (\<lambda>(addr, plen). be_bytes 16 addr @ [plen]) cidrs), word_of_nat (length cidrs))"

definition build_port_section :: "(16 word \<times> 16 word) list \<Rightarrow> byte list \<times> 32 word" where
  "build_port_section ps =
     (concat (map (\<lambda>(s, e). le_bytes 2 s @ le_bytes 2 e) ps), word_of_nat (length ps))"

definition section_bytes :: "section_type \<times> byte list \<times> 32 word \<Rightarrow> byte list" where
  "section_bytes = (\<lambda>(ty, bytes, n). write_section_header ty n (word_of_nat (length bytes)) @ bytes)"

text \<open>The sections in the order they are written, before the empty ones are left out.\<close>

definition all_sections ::
    "codec \<Rightarrow> drs_entries \<Rightarrow> drs_error + (section_type \<times> byte list \<times> 32 word) list" where
  "all_sections c e =
     and_then (build_set_fst c (e_domains e)) (\<lambda>domains.
     and_then (build_set_fst c (map suffix_to_fst_key (e_suffixes e))) (\<lambda>suffixes.
     and_then (build_set_fst c (e_ex_domains e)) (\<lambda>ex_domains.
     and_then (build_set_fst c (map suffix_to_fst_key (e_ex_suffixes e))) (\<lambda>ex_suffixes.
       Inr [(SDomainFst, domains), (SDomainSuffixFst, suffixes),
            (SDomainKeyword, build_string_section (e_keywords e)),
            (SDomainRegex, build_string_section (e_regexes e)),
            (SIpCidrV4, build_ipv4_section (e_ipv4 e)), (SIpCidrV6, build_ipv6_section (e_ipv6 e)),
            (SPort, build_port_section (e_ports e)),
            (SExcludeDomainFst, ex_domains), (SExcludeSuffixFst, ex_suffixes),
            (SExcludeDomainRegex, build_string_section (e_ex_regexes e))]))))"

definition file_header :: "64 word \<Rightarrow> byte list \<Rightarrow> 32 word \<Rightarrow> byte list" where
  "file_header time hash section_count =
     magic @ [2, 0] @ le_bytes 8 time @ hash @ le_bytes 4 section_count @ [0, 0, 0, 0]"

definition write_v2 :: "codec \<Rightarrow> 64 word \<Rightarrow> byte list \<Rightarrow> drs_entries \<Rightarrow> drs_error + byte list" where
  "write_v2 c time hash e =
     and_then (all_sections c e) (\<lambda>sections.
       let written = filter (\<lambda>(ty, bytes, n). bytes \<noteq> []) sections
       in Inr (file_header time hash (word_of_nat (length written)) @ concat (map section_bytes written)))"

end
