(* ===== verification/Drs_Roundtrip.thy ===== *)
theory Drs_Roundtrip
  imports Drs_File
begin

text \<open>
  Writing a rule set and loading it again (\<open>src/src/ruleset/drs.rs\<close>): what is read back section by
  section, that the loaded rule set matches exactly what the entries it was compiled from say, and that a
  file cut short is refused.
\<close>

subsection \<open>Sections one after the other\<close>

lemma section_from_byte [simp]: "section_from_u8 (section_byte ty) = Inr ty"
  by (cases ty) (simp_all add: section_from_u8_def)

lemma length_section_bytes: "length (section_bytes (ty, b, n)) = 9 + length b"
  by (simp add: section_bytes_def write_section_header_def)

lemma read_header:
  "read_section_header (pre @ write_section_header ty n l @ rest) (length pre) = Inr (ty, n, l, 9)"
proof -
  let ?data = "pre @ write_section_header ty n l @ rest"
  have "subslice (length pre + 1) 4 ?data = le_bytes 4 n"
    using subslice_append [of "pre @ [section_byte ty]" 0 4] by (simp add: write_section_header_def)
  moreover have "subslice (length pre + 5) 4 ?data = le_bytes 4 l"
    using subslice_append [of "pre @ section_byte ty # le_bytes 4 n" 0 4]
    by (simp add: write_section_header_def)
  moreover have "?data ! length pre = section_byte ty" by (simp add: write_section_header_def)
  ultimately show ?thesis
    by (simp add: read_section_header_def from_le_bytes) (simp add: write_section_header_def)
qed

lemma section_split: "section_bytes (ty, b, n) = write_section_header ty n (word_of_nat (length b)) @ b"
  by (simp add: section_bytes_def)

lemma length_header [simp]: "length (write_section_header ty n l) = 9"
  by (simp add: write_section_header_def)

lemma read_sections_here:
  assumes "length b < 2 ^ 32"
  shows "read_sections c (pre @ section_bytes (ty, b, n) @ post) (Suc k) (length pre) p
    = and_then (read_section c ty n b p)
        (read_sections c (pre @ section_bytes (ty, b, n) @ post) k
          (length (pre @ section_bytes (ty, b, n))))"
proof -
  let ?data = "pre @ section_bytes (ty, b, n) @ post"
  let ?head = "write_section_header ty n (word_of_nat (length b))"
  have len: "unat (word_of_nat (length b) :: 32 word) = length b"
    using assms by (simp add: unat_of_nat take_bit_nat_eq_self)
  have "subslice (length pre + 9) (length b) ?data = b"
    using subslice_append [of "pre @ ?head" 0 "length b" "b @ post"] by (simp add: section_split)
  moreover have "read_section_header ?data (length pre) = Inr (ty, n, word_of_nat (length b), 9)"
    by (simp add: section_split read_header)
  ultimately show ?thesis
    by (simp add: Let_def len length_section_bytes add.assoc)
qed

primrec apply_sections ::
    "codec \<Rightarrow> (section_type \<times> byte list \<times> 32 word) list \<Rightarrow> drs_parts \<Rightarrow> drs_error + drs_parts" where
  "apply_sections c [] p = Inr p"
| "apply_sections c (s # ss) p =
     and_then (read_section c (fst s) (snd (snd s)) (fst (snd s)) p) (apply_sections c ss)"

definition fits :: "section_type \<times> byte list \<times> 32 word \<Rightarrow> bool" where
  "fits s \<longleftrightarrow> length (fst (snd s)) < 2 ^ 32"

lemma read_sections_all:
  assumes "list_all fits ss"
  shows "read_sections c (pre @ concat (map section_bytes ss) @ post) (length ss) (length pre) p
    = apply_sections c ss p"
  using assms
proof (induction ss arbitrary: pre p)
  case (Cons s ss)
  obtain ty b n where s: "s = (ty, b, n)" by (cases s)
  have "read_sections c ((pre @ section_bytes s) @ concat (map section_bytes ss) @ post) (length ss)
      (length (pre @ section_bytes s)) q = apply_sections c ss q" for q
    by (rule Cons.IH) (use Cons.prems in simp)
  moreover have "length b < 2 ^ 32" using Cons.prems s by (simp add: fits_def)
  ultimately show ?case
    using read_sections_here [of b c pre ty n "concat (map section_bytes ss) @ post" "length ss" p]
    by (cases "read_section c ty n b p") (simp_all add: s del: read_sections.simps)
qed simp

text \<open>A file cut short anywhere after its header is refused as truncated.\<close>

lemma read_sections_cut:
  assumes "list_all fits ss" "apply_sections c ss p = Inr q"
    and "length pre \<le> m" "m < length (pre @ concat (map section_bytes ss))"
  shows "\<exists>need. read_sections c (take m (pre @ concat (map section_bytes ss))) (length ss) (length pre) p
    = Inl (Truncated need m)"
  using assms
proof (induction ss arbitrary: pre p)
  case (Cons s ss)
  obtain ty b n where s: "s = (ty, b, n)" by (cases s)
  let ?all = "pre @ section_bytes s @ concat (map section_bytes ss)"
  let ?rest = "concat (map section_bytes ss)"
  have b: "length b < 2 ^ 32" using Cons.prems(1) s by (simp add: fits_def)
  have m: "m < length ?all" using Cons.prems(4) by simp
  consider "m < length pre + 9" | "length pre + 9 \<le> m" "m < length (pre @ section_bytes s)"
    | "length (pre @ section_bytes s) \<le> m" by linarith
  then show ?case
  proof cases
    case 1
    have "length (take m ?all) = m" using m by simp
    then have "read_section_header (take m ?all) (length pre) = Inl (Truncated (length pre + 9) m)"
      using 1 by (simp only: read_section_header_def if_True)
    then show ?thesis by simp
  next
    case 2
    let ?head = "write_section_header ty n (word_of_nat (length b))"
    have cut: "take m ?all = pre @ ?head @ take (m - length pre - 9) b" (is "_ = ?cut")
      using 2 by (simp add: s section_split)
    have "length ?cut = m" using 2 by (simp add: s section_split)
    moreover have "unat (word_of_nat (length b) :: 32 word) = length b"
      using b by (simp add: unat_of_nat take_bit_nat_eq_self)
    moreover have "m < length pre + 9 + length b" using 2 by (simp add: s section_split)
    ultimately have "read_sections c ?cut (Suc (length ss)) (length pre) p
        = Inl (Truncated (length pre + 9 + length b) m)"
      by (simp only: read_sections.simps read_header and_then.simps prod.case Let_def if_True)
    then show ?thesis using cut by (simp del: read_sections.simps)
  next
    case 3
    have "take m ?all = (pre @ section_bytes s) @ take (m - length (pre @ section_bytes s)) ?rest"
      using 3 by simp
    obtain p' where p': "read_section c ty n b p = Inr p'" "apply_sections c ss p' = Inr q"
      using Cons.prems(2) s by (auto simp: and_then_Inr_iff)
    have "\<exists>need. read_sections c (take m ((pre @ section_bytes s) @ ?rest)) (length ss)
        (length (pre @ section_bytes s)) p' = Inl (Truncated need m)"
      using Cons.IH [OF _ p'(2) 3] Cons.prems(1) m by simp
    moreover have "read_sections c (pre @ section_bytes s @ take (m - length (pre @ section_bytes s)) ?rest)
        (Suc (length ss)) (length pre) p
      = read_sections c (pre @ section_bytes s @ take (m - length (pre @ section_bytes s)) ?rest)
          (length ss) (length (pre @ section_bytes s)) p'"
      using p'(1) unfolding s by (simp only: read_sections_here [OF b] and_then.simps)
    ultimately show ?thesis
      using 3 by (simp del: read_sections.simps)
  qed
qed simp

lemma read_strings_all:
  assumes "\<forall>s \<in> set ss. short_enough s \<and> utf8_valid (as_bytes s)"
  shows "read_strings (pre @ concat (map string_entry ss)) (length pre) = Inr ss"
  using assms
proof (induction ss arbitrary: pre)
  case Nil
  then show ?case by (subst read_strings.simps) simp
next
  case (Cons s ss)
  let ?sec = "pre @ string_entry s @ concat (map string_entry ss)"
  have len: "unat (word_of_nat (length s) :: byte) = length s"
    using Cons.prems by (simp add: short_enough_def unat_of_nat take_bit_nat_eq_self)
  have "subslice (length pre + 1) (length s) ?sec = as_bytes s"
    using subslice_append [of "pre @ [word_of_nat (length s)]" 0 "length s" "as_bytes s @ concat (map string_entry ss)"]
    by (simp add: string_entry_def)
  moreover have "?sec ! length pre = word_of_nat (length s)" by (simp add: string_entry_def)
  moreover have "read_strings ?sec (length pre + 1 + length s) = Inr ss"
    using Cons.IH [of "pre @ string_entry s"] Cons.prems by (simp add: string_entry_def [of s])
  moreover have "length pre < length ?sec" "length pre + 1 + length s \<le> length ?sec"
    by (simp_all add: string_entry_def)
  ultimately show ?case
    using Cons.prems by (subst read_strings.simps) (simp add: Let_def len)
qed

lemma read_string_section:
  assumes "\<forall>s \<in> set ss. utf8_valid (as_bytes s)"
  shows "read_strings (fst (build_string_section ss)) 0 = Inr (filter short_enough ss)"
  using read_strings_all [of "filter short_enough ss" "[]"] assms
  by (simp add: build_string_section_def Let_def)

subsection \<open>What each section puts into the parts\<close>

definition codec_ok :: "codec \<Rightarrow> bool" where
  "codec_ok c \<longleftrightarrow> (\<forall>keys. sorted_wrt (<) keys \<longrightarrow>
     fst_build c keys \<noteq> [] \<and> fst_new c (fst_build c keys) = Inr (set keys))"

definition apply_one ::
    "codec \<Rightarrow> section_type \<times> byte list \<times> 32 word \<Rightarrow> drs_parts \<Rightarrow> drs_error + drs_parts" where
  "apply_one c s p =
     (if fst (snd s) = [] then Inr p else read_section c (fst s) (snd (snd s)) (fst (snd s)) p)"

lemma apply_sections_filter:
  "apply_sections c (filter (\<lambda>(ty, bytes, n). bytes \<noteq> []) (s # ss)) p
     = and_then (apply_one c s p) (apply_sections c (filter (\<lambda>(ty, bytes, n). bytes \<noteq> []) ss))"
  by (auto simp: apply_one_def split_beta)

lemma sorted_remdups_adj_distinct: "sorted xs \<Longrightarrow> distinct (remdups_adj xs)"
  by (induction xs rule: remdups_adj.induct) auto

lemma fst_keys_ok: "sorted_wrt (<) (fst_keys keys)" "set (fst_keys keys) = set keys"
  by (simp_all add: fst_keys_def strict_sorted_iff sorted_remdups_adj_distinct)

lemma length_fst_keys: "length (fst_keys keys) \<le> length keys"
  using remdups_adj_length [of "sort keys"] by (simp add: fst_keys_def)

lemma fst_keys_empty [simp]: "fst_keys keys = [] \<longleftrightarrow> keys = []"
  by (metis fst_keys_ok(2) set_empty)

definition built_set :: "string list \<Rightarrow> string set option" where
  "built_set keys = (if keys = [] then None else Some (set keys))"

lemma build_set_cases:
  assumes "codec_ok c" "build_set_fst c keys = Inr (b, n)"
  obtains "keys = []" "b = []" | "keys \<noteq> []" "b \<noteq> []" "load_fst c b = Inr (set keys)"
    "n = word_of_nat (length (fst_keys keys))"
  using assms fst_keys_ok [of keys]
  by (cases "keys = []") (auto simp: build_set_fst_def codec_ok_def load_fst_def split: option.splits)

lemma word_length_fst_keys:
  "length keys < 2 ^ 32 \<Longrightarrow> unat (word_of_nat (length (fst_keys keys)) :: 32 word) = length (fst_keys keys)"
  using length_fst_keys [of keys] by (simp add: unat_of_nat take_bit_nat_eq_self)

lemma apply_domain_fst:
  assumes "codec_ok c" "build_set_fst c keys = Inr s" "length keys < 2 ^ 32"
    "p_domain p = None" "p_domain_count p = 0"
  shows "apply_one c (SDomainFst, s) p
    = Inr (p\<lparr>p_domain := built_set keys, p_domain_count := length (fst_keys keys)\<rparr>)"
proof -
  obtain b n where s: "s = (b, n)" by (cases s)
  from assms(1) assms(2) [unfolded s] show ?thesis
    by (rule build_set_cases)
      (use assms s word_length_fst_keys in \<open>auto simp: apply_one_def built_set_def fst_keys_def\<close>)
qed

lemma apply_suffix_fst:
  assumes "codec_ok c" "build_set_fst c keys = Inr s" "length keys < 2 ^ 32"
    "p_suffix p = None" "p_suffix_count p = 0"
  shows "apply_one c (SDomainSuffixFst, s) p
    = Inr (p\<lparr>p_suffix := built_set keys, p_suffix_count := length (fst_keys keys)\<rparr>)"
proof -
  obtain b n where s: "s = (b, n)" by (cases s)
  from assms(1) assms(2) [unfolded s] show ?thesis
    by (rule build_set_cases)
      (use assms s word_length_fst_keys in \<open>auto simp: apply_one_def built_set_def fst_keys_def\<close>)
qed

lemma apply_ex_domain_fst:
  assumes "codec_ok c" "build_set_fst c keys = Inr s" "p_ex_domain p = None"
  shows "apply_one c (SExcludeDomainFst, s) p = Inr (p\<lparr>p_ex_domain := built_set keys\<rparr>)"
proof -
  obtain b n where s: "s = (b, n)" by (cases s)
  from assms(1) assms(2) [unfolded s] show ?thesis
    by (rule build_set_cases) (use assms s in \<open>auto simp: apply_one_def built_set_def\<close>)
qed

lemma apply_ex_suffix_fst:
  assumes "codec_ok c" "build_set_fst c keys = Inr s" "p_ex_suffix p = None"
  shows "apply_one c (SExcludeSuffixFst, s) p = Inr (p\<lparr>p_ex_suffix := built_set keys\<rparr>)"
proof -
  obtain b n where s: "s = (b, n)" by (cases s)
  from assms(1) assms(2) [unfolded s] show ?thesis
    by (rule build_set_cases) (use assms s in \<open>auto simp: apply_one_def built_set_def\<close>)
qed

lemma build_string_empty: "fst (build_string_section ss) = [] \<Longrightarrow> filter short_enough ss = []"
  by (cases "filter short_enough ss") (simp_all add: build_string_section_def string_entry_def Let_def)

lemma apply_strings:
  assumes "\<forall>s \<in> set ss. utf8_valid (as_bytes s)"
  shows "apply_one c (SDomainKeyword, build_string_section ss) p
      = Inr (p\<lparr>p_keywords := p_keywords p @ filter short_enough ss\<rparr>)"
    and "apply_one c (SDomainRegex, build_string_section ss) p
      = Inr (p\<lparr>p_regexes := p_regexes p @ filter short_enough ss\<rparr>)"
    and "apply_one c (SExcludeDomainRegex, build_string_section ss) p
      = Inr (p\<lparr>p_ex_regexes := p_ex_regexes p @ filter short_enough ss\<rparr>)"
  using build_string_empty [of ss] read_string_section [OF assms]
  by (auto simp: apply_one_def)

lemma read_entries_all:
  assumes "0 < n" "\<forall>x \<in> set xs. length (f x) = n"
  shows "read_entries n g (concat (map f xs)) = Inr (map (g \<circ> f) xs)"
proof -
  have "length (concat (map f xs)) = n * length xs" using assms(2) by (induction xs) auto
  then show ?thesis using pieces_concat [OF assms] by (simp add: read_entries_def)
qed

lemma apply_ipv4:
  "apply_one c (SIpCidrV4, build_ipv4_section cidrs) p
     = Inr (p\<lparr>p_ipv4 := p_ipv4 p @ map (\<lambda>(a, l). ipv4_cidr_to_range a l) cidrs\<rparr>)"
proof -
  have "read_ipv4 (le_bytes 4 a @ [l]) = ipv4_cidr_to_range a l" for a l
    by (simp add: read_ipv4_def nth_append from_le_bytes)
  then have "map (read_ipv4 \<circ> (\<lambda>(a, l). le_bytes 4 a @ [l])) cidrs = map (\<lambda>(a, l). ipv4_cidr_to_range a l) cidrs"
    by auto
  then have "read_entries 5 read_ipv4 (fst (build_ipv4_section cidrs))
      = Inr (map (\<lambda>(a, l). ipv4_cidr_to_range a l) cidrs)"
    unfolding build_ipv4_section_def fst_conv by (subst read_entries_all) auto
  then show ?thesis by (cases cidrs) (auto simp: apply_one_def build_ipv4_section_def le_bytes_def be_bytes_def upt_rec)
qed

lemma apply_ipv6:
  "apply_one c (SIpCidrV6, build_ipv6_section cidrs) p
     = Inr (p\<lparr>p_ipv6 := p_ipv6 p @ map (\<lambda>(a, l). ipv6_cidr_to_range a l) cidrs\<rparr>)"
proof -
  have "read_ipv6 (be_bytes 16 a @ [l]) = ipv6_cidr_to_range a l" for a l
    by (simp add: read_ipv6_def nth_append from_be_bytes)
  then have "map (read_ipv6 \<circ> (\<lambda>(a, l). be_bytes 16 a @ [l])) cidrs = map (\<lambda>(a, l). ipv6_cidr_to_range a l) cidrs"
    by auto
  then have "read_entries 17 read_ipv6 (fst (build_ipv6_section cidrs))
      = Inr (map (\<lambda>(a, l). ipv6_cidr_to_range a l) cidrs)"
    unfolding build_ipv6_section_def fst_conv by (subst read_entries_all) auto
  then show ?thesis by (cases cidrs) (auto simp: apply_one_def build_ipv6_section_def le_bytes_def be_bytes_def upt_rec)
qed

lemma apply_ports:
  "apply_one c (SPort, build_port_section ps) p = Inr (p\<lparr>p_ports := p_ports p @ ps\<rparr>)"
proof -
  have "subslice 2 2 (le_bytes 2 a @ le_bytes 2 b) = le_bytes 2 b" for a b :: "16 word"
    using subslice_append [of "le_bytes 2 a" 0 2 "le_bytes 2 b"] subslice_here [of "le_bytes 2 b" 2 "[]"] by simp
  then have "read_port (le_bytes 2 a @ le_bytes 2 b) = (a, b)" for a b
    by (simp add: read_port_def from_le_bytes)
  then have "map (read_port \<circ> (\<lambda>(a, b). le_bytes 2 a @ le_bytes 2 b)) ps = ps"
    by (simp add: comp_def split_beta)
  then have "read_entries 4 read_port (fst (build_port_section ps)) = Inr ps"
    unfolding build_port_section_def fst_conv by (subst read_entries_all) auto
  then show ?thesis by (cases ps) (auto simp: apply_one_def build_port_section_def le_bytes_def be_bytes_def upt_rec)
qed

subsection \<open>A compiled file, loaded\<close>

text \<open>
  What the types and the builder guarantee of the entries: strings are UTF-8, patterns compile, prefix
  lengths are legal, and there are fewer than \<open>2 ^ 32\<close> names and suffixes.
\<close>

definition entries_ok :: "codec \<Rightarrow> drs_entries \<Rightarrow> bool" where
  "entries_ok c e \<longleftrightarrow>
     length (e_domains e) < 2 ^ 32 \<and> length (e_suffixes e) < 2 ^ 32
     \<and> list_all (\<lambda>s. utf8_valid (as_bytes s)) (e_keywords e @ e_regexes e @ e_ex_regexes e)
     \<and> list_all (re_valid c) (e_regexes e @ e_ex_regexes e)
     \<and> list_all (\<lambda>(a, l). unat l \<le> 32) (e_ipv4 e) \<and> list_all (\<lambda>(a, l). unat l \<le> 128) (e_ipv6 e)"

definition parts_of :: "drs_entries \<Rightarrow> drs_parts" where
  "parts_of e = \<lparr>
     p_domain = built_set (e_domains e),
     p_suffix = built_set (map suffix_to_fst_key (e_suffixes e)),
     p_ex_domain = built_set (e_ex_domains e),
     p_ex_suffix = built_set (map suffix_to_fst_key (e_ex_suffixes e)),
     p_keywords = filter short_enough (e_keywords e),
     p_regexes = filter short_enough (e_regexes e),
     p_ex_regexes = filter short_enough (e_ex_regexes e),
     p_ipv4 = map (\<lambda>(a, l). ipv4_cidr_to_range a l) (e_ipv4 e),
     p_ipv6 = map (\<lambda>(a, l). ipv6_cidr_to_range a l) (e_ipv6 e),
     p_ports = e_ports e,
     p_domain_count = length (fst_keys (e_domains e)),
     p_suffix_count = length (fst_keys (map suffix_to_fst_key (e_suffixes e)))\<rparr>"

lemma apply_sections_Nil_filter [simp]: "apply_sections c (filter P []) p = Inr p"
  by simp

lemma sections_give_parts:
  assumes "codec_ok c" "entries_ok c e" "all_sections c e = Inr ss"
  shows "apply_sections c (filter (\<lambda>(ty, bytes, n). bytes \<noteq> []) ss) no_parts = Inr (parts_of e)"
proof -
  obtain a b x y where sets: "build_set_fst c (e_domains e) = Inr a"
    "build_set_fst c (map suffix_to_fst_key (e_suffixes e)) = Inr b"
    "build_set_fst c (e_ex_domains e) = Inr x"
    "build_set_fst c (map suffix_to_fst_key (e_ex_suffixes e)) = Inr y"
    and ss: "ss = [(SDomainFst, a), (SDomainSuffixFst, b),
            (SDomainKeyword, build_string_section (e_keywords e)),
            (SDomainRegex, build_string_section (e_regexes e)),
            (SIpCidrV4, build_ipv4_section (e_ipv4 e)), (SIpCidrV6, build_ipv6_section (e_ipv6 e)),
            (SPort, build_port_section (e_ports e)),
            (SExcludeDomainFst, x), (SExcludeSuffixFst, y),
            (SExcludeDomainRegex, build_string_section (e_ex_regexes e))]"
    using assms(3) by (auto simp: all_sections_def and_then_Inr_iff)
  have "\<forall>s \<in> set (e_keywords e). utf8_valid (as_bytes s)" "\<forall>s \<in> set (e_regexes e). utf8_valid (as_bytes s)"
    "\<forall>s \<in> set (e_ex_regexes e). utf8_valid (as_bytes s)" "length (e_domains e) < 2 ^ 32"
    "length (map suffix_to_fst_key (e_suffixes e)) < 2 ^ 32"
    using assms(2) by (auto simp: entries_ok_def list_all_iff)
  then show ?thesis
    unfolding ss apply_sections_filter
    by (simp add: apply_domain_fst [OF assms(1) sets(1)] apply_suffix_fst [OF assms(1) sets(2)]
        apply_ex_domain_fst [OF assms(1) sets(3)] apply_ex_suffix_fst [OF assms(1) sets(4)]
        apply_strings apply_ipv4 apply_ipv6 apply_ports no_parts_def parts_of_def
        del: filter.simps)
qed

lemma header_fields:
  assumes "length hash = 32"
  shows "length (file_header t hash n) = 54"
    and "take 4 (file_header t hash n @ body) = magic"
    and "(file_header t hash n @ body) ! 4 = 2"
    and "subslice 6 8 (file_header t hash n @ body) = le_bytes 8 t"
    and "subslice 14 32 (file_header t hash n @ body) = hash"
    and "subslice 46 4 (file_header t hash n @ body) = le_bytes 4 n"
proof -
  have m: "magic = [0x44, 0x52, 0x53, 0]" by (simp add: magic_def as_bytes_def byte_of_def)
  show "length (file_header t hash n) = 54" using assms by (simp add: file_header_def m)
  show "take 4 (file_header t hash n @ body) = magic" by (simp add: file_header_def m)
  show "(file_header t hash n @ body) ! 4 = 2" by (simp add: file_header_def m)
  show "subslice 6 8 (file_header t hash n @ body) = le_bytes 8 t"
    by (simp add: file_header_def m subslice_def)
  show "subslice 14 32 (file_header t hash n @ body) = hash"
    using subslice_append [of "magic @ [2, 0] @ le_bytes 8 t" 0 32] assms by (simp add: file_header_def m)
  show "subslice 46 4 (file_header t hash n @ body) = le_bytes 4 n"
    using subslice_append [of "magic @ [2, 0] @ le_bytes 8 t @ hash" 0 4] assms
    by (simp add: file_header_def m)
qed

definition patterns_match :: "codec \<Rightarrow> string list \<Rightarrow> (string \<Rightarrow> bool) option" where
  "patterns_match c ps = (if ps = [] then None else Some (\<lambda>d. list_ex (\<lambda>p. re_match c p d) ps))"

lemma compile_set_valid: "list_all (re_valid c) ps \<Longrightarrow> compile_set c ps = Inr (patterns_match c ps)"
  by (simp add: compile_set_def patterns_match_def)

definition file_of :: "codec \<Rightarrow> 64 word \<Rightarrow> byte list \<Rightarrow> drs_parts \<Rightarrow> drs_file" where
  "file_of c time hash p =
     \<lparr>domain_fst = p_domain p, suffix_fst = p_suffix p, keyword_list = p_keywords p,
      regexes = patterns_match c (p_regexes p), ipv4_ranges = merge_ranges (p_ipv4 p),
      ipv6_ranges = merge_ranges (p_ipv6 p), ports = p_ports p,
      exclude_domain_fst = p_ex_domain p, exclude_suffix_fst = p_ex_suffix p,
      exclude_regexes = patterns_match c (p_ex_regexes p),
      has_domain_matchers = 0 < p_domain_count p,
      has_suffix_matchers = 0 < p_suffix_count p,
      has_keyword_matchers = p_keywords p \<noteq> [],
      has_regex_matchers = patterns_match c (p_regexes p) \<noteq> None,
      has_ip_matchers = merge_ranges (p_ipv4 p) \<noteq> [] \<or> merge_ranges (p_ipv6 p) \<noteq> [],
      has_port_matchers = p_ports p \<noteq> [],
      build_time = time, source_hash = hash\<rparr>"

lemma written_fits:
  assumes "length (concat (map section_bytes ss)) < 2 ^ 32"
  shows "list_all fits ss"
  unfolding list_all_iff
proof
  fix s assume "s \<in> set ss"
  then have "length (section_bytes s) \<le> length (concat (map section_bytes ss))"
    by (induction ss) auto
  then show "fits s" using assms by (cases s) (simp add: fits_def length_section_bytes)
qed

text \<open>What \<open>write_v2\<close> wrote, as a header and sections.\<close>

lemma write_v2_sections:
  assumes "codec_ok c" "entries_ok c e" "write_v2 c time hash e = Inr bytes"
  obtains ss where "bytes = file_header time hash (word_of_nat (length ss)) @ concat (map section_bytes ss)"
    and "length ss \<le> 10" and "apply_sections c ss no_parts = Inr (parts_of e)"
proof -
  obtain all where all: "all_sections c e = Inr all"
    and b: "bytes = file_header time hash (word_of_nat (length (filter (\<lambda>(ty, bytes, n). bytes \<noteq> []) all)))
      @ concat (map section_bytes (filter (\<lambda>(ty, bytes, n). bytes \<noteq> []) all))"
    using assms(3) by (auto simp: write_v2_def and_then_Inr_iff Let_def)
  have "length all = 10" using all by (auto simp: all_sections_def and_then_Inr_iff)
  then have "length (filter (\<lambda>(ty, bytes, n). bytes \<noteq> []) all) \<le> 10"
    by (metis length_filter_le)
  then show thesis using b sections_give_parts [OF assms(1,2) all] that by blast
qed

lemma written_file_loads:
  assumes "codec_ok c" "entries_ok c e" "length hash = 32"
    and "write_v2 c time hash e = Inr bytes" "length bytes < 2 ^ 32"
  shows "from_bytes c bytes = Inr (file_of c time hash (parts_of e))"
proof -
  obtain ss where bytes: "bytes = file_header time hash (word_of_nat (length ss)) @ concat (map section_bytes ss)"
    and ten: "length ss \<le> 10" and parts: "apply_sections c ss no_parts = Inr (parts_of e)"
    using write_v2_sections [OF assms(1,2,4)] by blast
  note h = header_fields [OF assms(3)]
  have "list_all fits ss" using assms(5) bytes by (intro written_fits) simp
  then have "read_sections c bytes (length ss) header_len no_parts = Inr (parts_of e)"
    using read_sections_all [of ss c "file_header time hash (word_of_nat (length ss))" "[]" no_parts] parts h(1)
    by (simp add: bytes header_len_def)
  moreover have "unat (word_of_nat (length ss) :: 32 word) = length ss"
    using ten by (simp add: unat_of_nat take_bit_nat_eq_self)
  moreover have "list_all (re_valid c) (p_regexes (parts_of e))" "list_all (re_valid c) (p_ex_regexes (parts_of e))"
    using assms(2) by (auto simp: entries_ok_def parts_of_def list_all_iff)
  ultimately show ?thesis
    using h by (simp add: from_bytes_def from_bytes_v2_def bytes header_len_def from_le_bytes
      compile_set_valid file_of_def Let_def)
qed

text \<open>What the entries say: the reference the loaded file is compared with.\<close>

definition names_match :: "codec \<Rightarrow> string list \<Rightarrow> string list \<Rightarrow> string list \<Rightarrow> string list \<Rightarrow> string \<Rightarrow> bool" where
  "names_match c exact sufs words patterns d \<longleftrightarrow>
     d \<in> set exact \<or> d \<noteq> [] \<and> list_ex (\<lambda>s. label_suffix s d) sufs
     \<or> list_ex (\<lambda>w. short_enough w \<and> sublist w d) words
     \<or> list_ex (\<lambda>p. short_enough p \<and> re_match c p d) patterns"

definition entry_matches :: "codec \<Rightarrow> drs_entries \<Rightarrow> string \<Rightarrow> bool" where
  "entry_matches c e d \<longleftrightarrow>
     names_match c (e_domains e) (e_suffixes e) (e_keywords e) (e_regexes e) d
     \<and> \<not> names_match c (e_ex_domains e) (e_ex_suffixes e) [] (e_ex_regexes e) d"

lemma built_set_case [simp]:
  "(case built_set keys of None \<Rightarrow> False | Some fs \<Rightarrow> d \<in> fs) \<longleftrightarrow> d \<in> set keys"
  by (simp add: built_set_def)

lemma built_suffixes_case [simp]:
  "(case built_set (map suffix_to_fst_key keys) of None \<Rightarrow> False | Some fs \<Rightarrow> suffix_match_zero_alloc fs d)
    \<longleftrightarrow> d \<noteq> [] \<and> list_ex (\<lambda>s. label_suffix s d) keys"
  by (simp add: built_set_def suffix_set_matches list_ex_iff)

lemma patterns_case [simp]:
  "(case patterns_match c (filter short_enough ps) of None \<Rightarrow> False | Some re \<Rightarrow> re d)
    \<longleftrightarrow> list_ex (\<lambda>p. short_enough p \<and> re_match c p d) ps"
  by (auto simp: patterns_match_def list_ex_iff filter_empty_conv)

lemma names_of_file:
  "matches_normalized (file_of c time hash (parts_of e)) d \<noteq> None \<longleftrightarrow> entry_matches c e d"
proof -
  let ?f = "file_of c time hash (parts_of e)"
  have ex: "domain_is_excluded ?f d
      \<longleftrightarrow> names_match c (e_ex_domains e) (e_ex_suffixes e) [] (e_ex_regexes e) d"
    by (simp add: domain_is_excluded_def file_of_def parts_of_def names_match_def)
  have dom: "(has_domain_matchers ?f \<and> (case domain_fst ?f of None \<Rightarrow> False | Some fs \<Rightarrow> d \<in> fs))
      \<longleftrightarrow> d \<in> set (e_domains e)"
    by (auto simp: file_of_def parts_of_def)
  have suf: "(has_suffix_matchers ?f
      \<and> (case suffix_fst ?f of None \<Rightarrow> False | Some fs \<Rightarrow> suffix_match_zero_alloc fs d))
      \<longleftrightarrow> d \<noteq> [] \<and> list_ex (\<lambda>s. label_suffix s d) (e_suffixes e)"
    by (auto simp: file_of_def parts_of_def)
  have kw: "(has_keyword_matchers ?f \<and> list_ex (\<lambda>kw. sublist kw d) (keyword_list ?f))
      \<longleftrightarrow> list_ex (\<lambda>w. short_enough w \<and> sublist w d) (e_keywords e)"
    by (auto simp: file_of_def parts_of_def list_ex_iff filter_empty_conv)
  have re: "(has_regex_matchers ?f \<and> (case regexes ?f of None \<Rightarrow> False | Some r \<Rightarrow> r d))
      \<longleftrightarrow> list_ex (\<lambda>p. short_enough p \<and> re_match c p d) (e_regexes e)"
    using patterns_case [where c = c and ps = "e_regexes e" and d = d] 
    by (cases "patterns_match c (filter short_enough (e_regexes e))") (simp_all add: file_of_def parts_of_def)
  show ?thesis
    unfolding matches_normalized_def ex dom suf kw re
    by (simp add: entry_matches_def names_match_def)
qed

lemma ranges_nonempty: "merge_ranges rs = [] \<longleftrightarrow> rs = []"
proof -
  have "out \<noteq> [] \<Longrightarrow> merge_loop out ss \<noteq> []" for out ss :: "('a \<times> 'a) list"
    by (induction out ss rule: merge_loop.induct) auto
  then show ?thesis
    using length_sort [of fst rs] by (cases "sort_key fst rs") (auto simp: merge_ranges_def)
qed


lemma blocks_searched:
  fixes r :: "'a::len word \<Rightarrow> byte \<Rightarrow> 'a word \<times> 'a word"
  assumes "list_all (\<lambda>(a, l). P l) cs"
    and r: "\<And>a l v. P l \<Longrightarrow> fst (r a l) \<le> v \<and> v \<le> snd (r a l) \<longleftrightarrow> in_block a l v"
  shows "binary_search_range (merge_ranges (map (\<lambda>(a, l). r a l) cs)) v
    \<longleftrightarrow> list_ex (\<lambda>(a, l). in_block a l v) cs"
proof -
  have valid: "fst (r a l) \<le> snd (r a l)" if "P l" for a l
    using r [OF that, of a a] by (auto simp: in_block_def)
  have "in_ranges (map (\<lambda>(a, l). r a l) cs) v \<longleftrightarrow> list_ex (\<lambda>(a, l). in_block a l v) cs"
    using assms(1) by (induction cs) (auto simp: in_ranges_def split_beta r)
  moreover have "\<forall>q \<in> set (map (\<lambda>(a, l). r a l) cs). fst q \<le> snd q"
    using assms(1) valid by (auto simp: list_all_iff)
  ultimately show ?thesis by (simp only: merged_search)
qed

lemma ipv4_of_file:
  assumes "entries_ok c e"
  shows "matches_ip (file_of c time hash (parts_of e)) (V4 v) \<noteq> None
    \<longleftrightarrow> list_ex (\<lambda>(a, l). in_block a l v) (e_ipv4 e)"
proof -
  have "binary_search_range (merge_ranges (map (\<lambda>(a, l). ipv4_cidr_to_range a l) (e_ipv4 e))) v
      \<longleftrightarrow> list_ex (\<lambda>(a, l). in_block a l v) (e_ipv4 e)"
    by (rule blocks_searched [where P = "\<lambda>l. unat l \<le> 32"])
      (use assms ipv4_range_block in \<open>auto simp: entries_ok_def\<close>)
  then show ?thesis by (auto simp: file_of_def parts_of_def ranges_nonempty)
qed

lemma ipv6_of_file:
  assumes "entries_ok c e" "to_ipv4_mapped v = None"
  shows "matches_ip (file_of c time hash (parts_of e)) (V6 v) \<noteq> None
    \<longleftrightarrow> list_ex (\<lambda>(a, l). in_block a l v) (e_ipv6 e)"
proof -
  have "binary_search_range (merge_ranges (map (\<lambda>(a, l). ipv6_cidr_to_range a l) (e_ipv6 e))) v
      \<longleftrightarrow> list_ex (\<lambda>(a, l). in_block a l v) (e_ipv6 e)"
    by (rule blocks_searched [where P = "\<lambda>l. unat l \<le> 128"])
      (use assms(1) ipv6_range_block in \<open>auto simp: entries_ok_def\<close>)
  then show ?thesis using assms(2) by (auto simp: file_of_def parts_of_def ranges_nonempty)
qed

lemma port_of_file:
  "matches_port (file_of c time hash (parts_of e)) port \<longleftrightarrow> list_ex (\<lambda>(s, t). s \<le> port \<and> port \<le> t) (e_ports e)"
  by (auto simp: matches_port_def file_of_def parts_of_def list_ex_iff)

text \<open>
  C13. A rule set that is written to a file and loaded again matches exactly what its entries say: a name
  when an exact entry, a suffix at a dot, a keyword or a pattern applies and no exception does; an address
  when a CIDR block contains it; a port when a range does. Keywords and patterns of more than 255 bytes
  are dropped without notice. The build time and the fingerprint are read back.
\<close>

theorem compiled_file_matches_entries:
  assumes "codec_ok c" "entries_ok c e" "length hash = 32"
    and "write_v2 c time hash e = Inr bytes" "length bytes < 2 ^ 32"
  shows "\<exists>f. from_bytes c bytes = Inr f
    \<and> (matches_normalized f d \<noteq> None \<longleftrightarrow> entry_matches c e d)
    \<and> (matches_ip f (V4 v) \<noteq> None \<longleftrightarrow> list_ex (\<lambda>(a, l). in_block a l v) (e_ipv4 e))
    \<and> (matches_ip f (V6 w) \<noteq> None \<longleftrightarrow>
        (case to_ipv4_mapped w of
           Some v \<Rightarrow> list_ex (\<lambda>(a, l). in_block a l v) (e_ipv4 e)
         | None \<Rightarrow> list_ex (\<lambda>(a, l). in_block a l w) (e_ipv6 e)))
    \<and> (matches_port f port \<longleftrightarrow> list_ex (\<lambda>(s, t). s \<le> port \<and> port \<le> t) (e_ports e))
    \<and> build_time f = time \<and> source_hash f = hash"
proof (intro exI conjI)
  let ?f = "file_of c time hash (parts_of e)"
  show "from_bytes c bytes = Inr ?f" by (rule written_file_loads) (fact assms)+
  show "matches_normalized ?f d \<noteq> None \<longleftrightarrow> entry_matches c e d" by (rule names_of_file)
  show "matches_ip ?f (V4 v) \<noteq> None \<longleftrightarrow> list_ex (\<lambda>(a, l). in_block a l v) (e_ipv4 e)"
    by (rule ipv4_of_file) fact
  have mapped: "matches_ip ?f (V6 w) = matches_ip ?f (V4 x)" if "to_ipv4_mapped w = Some x" for x
    using that by simp
  show "matches_ip ?f (V6 w) \<noteq> None \<longleftrightarrow>
      (case to_ipv4_mapped w of
         Some v \<Rightarrow> list_ex (\<lambda>(a, l). in_block a l v) (e_ipv4 e)
       | None \<Rightarrow> list_ex (\<lambda>(a, l). in_block a l w) (e_ipv6 e))"
  proof (cases "to_ipv4_mapped w")
    case None
    then show ?thesis using ipv6_of_file [OF assms(2) None] by simp
  next
    case (Some x)
    then show ?thesis using ipv4_of_file [OF assms(2), where v = x] mapped [OF Some] by simp
  qed
  show "matches_port ?f port \<longleftrightarrow> list_ex (\<lambda>(s, t). s \<le> port \<and> port \<le> t) (e_ports e)"
    by (rule port_of_file)
qed (simp_all add: file_of_def)


text \<open>
  C14. A file that lost its end, at any byte, is refused as truncated: it is never loaded as a smaller
  rule set, and reading it never runs past its end.
\<close>

theorem cut_file_is_refused:
  assumes "codec_ok c" "entries_ok c e" "length hash = 32"
    and "write_v2 c time hash e = Inr bytes" "length bytes < 2 ^ 32" "m < length bytes"
  shows "\<exists>need. from_bytes c (take m bytes) = Inl (Truncated need m)"
proof (cases "m < header_len")
  case True
  then show ?thesis using assms(6) by (simp add: from_bytes_def min_def)
next
  case False
  obtain ss where bytes: "bytes = file_header time hash (word_of_nat (length ss)) @ concat (map section_bytes ss)"
    and ten: "length ss \<le> 10" and parts: "apply_sections c ss no_parts = Inr (parts_of e)"
    using write_v2_sections [OF assms(1,2,4)] by blast
  let ?head = "file_header time hash (word_of_nat (length ss))"
  note h = header_fields [OF assms(3)]
  have m: "length ?head \<le> m" using False h(1) by (simp add: header_len_def)
  then have cut: "take m bytes = ?head @ take (m - 54) (concat (map section_bytes ss))"
    by (simp add: bytes h(1))
  have "list_all fits ss" using assms(5) bytes by (intro written_fits) simp
  then obtain need where
    "read_sections c (take m bytes) (length ss) (length ?head) no_parts = Inl (Truncated need m)"
    using read_sections_cut [OF _ parts m] assms(6) unfolding bytes by blast
  moreover have "unat (word_of_nat (length ss) :: 32 word) = length ss"
    using ten by (simp add: unat_of_nat take_bit_nat_eq_self)
  ultimately have "from_bytes_v2 c (take m bytes) = Inl (Truncated need m)"
    using h by (simp add: from_bytes_v2_def cut from_le_bytes header_len_def)
  moreover have "length (take m bytes) = m" using assms(6) by simp
  moreover have "take 4 (take m bytes) = magic" "take m bytes ! 4 = 2"
    unfolding cut by (rule h(2), rule h(3))
  ultimately show ?thesis
    using False by (auto simp only: from_bytes_def if_False) simp
qed

lemma reverse_labels_end:
  assumes "s \<noteq> []" "hd s \<noteq> CHR ''.''"
  shows "last (reverse_labels s) \<noteq> CHR ''.'' \<and> reverse_labels s \<noteq> []"
proof -
  obtain w ws where ls: "split_on CHR ''.'' s = w # ws" by (cases "split_on CHR ''.'' s") auto
  have free: "CHR ''.'' \<notin> set w" using split_on_free [of "CHR ''.''" s] ls by simp
  have "w \<noteq> []" using assms ls by (cases s) (auto split: if_splits list.splits)
  then have "last w \<noteq> CHR ''.''" using free last_in_set by metis
  then show ?thesis
    using \<open>w \<noteq> []\<close> by (cases "rev ws = []") (auto simp: reverse_labels_def ls join_append)
qed

lemma key_ends_with_dot: "suffix_to_fst_key s = xs \<Longrightarrow> xs \<noteq> [] \<and> last xs = CHR ''.''"
  by (auto simp: suffix_to_fst_key_def)

lemma dotless_keys_never_match:
  assumes "\<forall>s \<in> S. s = [] \<or> hd s \<noteq> CHR ''.''"
  shows "\<not> suffix_match_zero_alloc (reverse_labels ` S) d"
proof
  assume "suffix_match_zero_alloc (reverse_labels ` S) d"
  then obtain t s where s: "s \<in> S" "suffix_to_fst_key t = reverse_labels s"
    by (auto simp: zero_alloc_heap heap_suffix)
  then have "last (reverse_labels s) = CHR ''.''" "reverse_labels s \<noteq> []"
    using key_ends_with_dot by blast+
  then show False
    using assms s(1) reverse_labels_end by (cases "s = []") (auto simp: reverse_labels_def)
qed

lemma from_bytes_v1_fields:
  assumes "from_bytes c data = Inr f" "data ! 4 = 1"
  shows "exclude_domain_fst f = None" "exclude_suffix_fst f = None" "exclude_regexes f = None"
    "\<not> has_keyword_matchers f" "\<not> has_regex_matchers f"
    "has_domain_matchers f = (case domain_fst f of None \<Rightarrow> False | Some fs \<Rightarrow> 0 < card fs)"
proof -
  have "from_bytes_v1 c data = Inr f" using assms by (simp add: from_bytes_def split: if_splits)
  then show "exclude_domain_fst f = None" "exclude_suffix_fst f = None" "exclude_regexes f = None"
    "\<not> has_keyword_matchers f" "\<not> has_regex_matchers f"
    "has_domain_matchers f = (case domain_fst f of None \<Rightarrow> False | Some fs \<Rightarrow> 0 < card fs)"
    by (auto simp: from_bytes_v1_def and_then_Inr_iff Let_def split: if_splits)
qed

text \<open>
  The suffixes of a file of version 1 never match. The keys of its suffix set are reversed names
  without the final dot, as the comment at the loading says, but every key that is looked up ends with a
  dot and nothing else looks at the set; only the exact names of such a file have an effect.
\<close>

theorem v1_suffixes_never_match:
  assumes "from_bytes c data = Inr f" "data ! 4 = 1"
    and "suffix_fst f = Some (reverse_labels ` S)" "\<forall>s \<in> S. s = [] \<or> hd s \<noteq> CHR ''.''"
    and "domain_fst f = Some (set (n # names))"
  shows "matches_normalized f d = (if d \<in> set (n # names) then Some MDomain else None)"
  using from_bytes_v1_fields [OF assms(1,2)] dotless_keys_never_match [OF assms(4)] assms(3,5)
  by (simp add: matches_normalized_def domain_is_excluded_def card_gt_0_iff)

subsection \<open>A concrete codec and file\<close>

text \<open>
  The witnesses use a concrete serialization of a set of keys: every character after a 1, a 0 at the end
  of a key, and a 1 in front of everything.
\<close>

definition sample_key :: "string \<Rightarrow> byte list" where
  "sample_key k = concat (map (\<lambda>ch. [1, byte_of ch]) k) @ [0]"

function sample_keys :: "byte list \<Rightarrow> string \<Rightarrow> string list" where
  "sample_keys bs cur =
     (case bs of
        [] \<Rightarrow> []
      | b # bs' \<Rightarrow> if b = 0 then cur # sample_keys bs' []
                  else (case bs' of [] \<Rightarrow> [] | x # bs'' \<Rightarrow> sample_keys bs'' (cur @ [char_of_byte x])))"
  by pat_completeness auto
termination by (relation "measure (length \<circ> fst)") auto

declare sample_keys.simps [simp del]

definition sample_codec :: codec where
  "sample_codec = \<lparr>fst_new = (\<lambda>bs. Inr (set (sample_keys (tl bs) []))),
     fst_build = (\<lambda>keys. 1 # concat (map sample_key keys)),
     re_valid = (\<lambda>p. True), re_match = (\<lambda>p d. suffix p d)\<rparr>"

lemma sample_keys_key: "sample_keys (concat (map (\<lambda>ch. [1, byte_of ch]) k) @ 0 # rest) cur
    = (cur @ k) # sample_keys rest []"
proof (induction k arbitrary: cur)
  case Nil
  then show ?case by (subst sample_keys.simps) simp
next
  case (Cons ch k)
  then show ?case by (subst sample_keys.simps) simp
qed

lemma sample_keys_all: "sample_keys (concat (map sample_key keys)) [] = keys"
proof (induction keys)
  case Nil
  then show ?case by (subst sample_keys.simps) simp
next
  case (Cons k keys)
  then show ?case using sample_keys_key [of k "concat (map sample_key keys)" "[]"]
    by (simp add: sample_key_def [of k])
qed

lemma sample_codec_ok: "codec_ok sample_codec"
  by (simp add: codec_ok_def sample_codec_def sample_keys_all)

definition sample_entries :: drs_entries where
  "sample_entries = \<lparr>e_domains = [''a.b''], e_suffixes = [''c.d''], e_keywords = [''ads''], e_regexes = [],
     e_ipv4 = [(0x0A000000, 8)], e_ipv6 = [], e_ports = [(80, 90)],
     e_ex_domains = [''ok.c.d''], e_ex_suffixes = [], e_ex_regexes = []\<rparr>"

lemma sample_entries_ok: "entries_ok sample_codec sample_entries"
  by (simp add: entries_ok_def sample_entries_def sample_codec_def as_bytes_def byte_of_def)

lemma sample_written:
  "\<exists>bytes. write_v2 sample_codec 7 (replicate 32 0) sample_entries = Inr bytes \<and> 9 < length bytes \<and> length bytes < 2 ^ 32"
  by (simp add: write_v2_def all_sections_def build_set_fst_def fst_keys_def sample_entries_def
    sample_codec_def sample_key_def suffix_to_fst_key_def reverse_labels_def Let_def
    build_string_section_def build_ipv4_section_def build_ipv6_section_def build_port_section_def
    string_entry_def short_enough_def section_bytes_def write_section_header_def file_header_def
    magic_def)

lemma sample_matches:
  "entry_matches sample_codec sample_entries ''x.c.d'' \<and> \<not> entry_matches sample_codec sample_entries ''ok.c.d''"
  by (simp add: entry_matches_def names_match_def sample_entries_def label_suffix_def suffix_def
    short_enough_def)


theorem compiled_file_matches_entries_witness:
  "\<exists>bytes f. write_v2 sample_codec 7 (replicate 32 0) sample_entries = Inr bytes
    \<and> from_bytes sample_codec bytes = Inr f \<and> matches_normalized f ''x.c.d'' \<noteq> None
    \<and> matches_ip f (V4 0x0A010203) \<noteq> None \<and> matches_port f 85"
proof -
  obtain bytes where bytes: "write_v2 sample_codec 7 (replicate 32 0) sample_entries = Inr bytes"
    "length bytes < 2 ^ 32" using sample_written by blast
  have "length (replicate 32 (0 :: byte)) = 32" by simp
  from compiled_file_matches_entries [OF sample_codec_ok sample_entries_ok this bytes,
      of "''x.c.d''" "0x0A010203" 0 85]
  obtain f where f: "from_bytes sample_codec bytes = Inr f"
    "matches_normalized f ''x.c.d'' \<noteq> None \<longleftrightarrow> entry_matches sample_codec sample_entries ''x.c.d''"
    "matches_ip f (V4 0x0A010203) \<noteq> None \<longleftrightarrow> list_ex (\<lambda>(a, l). in_block a l 0x0A010203) (e_ipv4 sample_entries)"
    "matches_port f 85 \<longleftrightarrow> list_ex (\<lambda>(s, t). s \<le> 85 \<and> 85 \<le> t) (e_ports sample_entries)"
    by blast
  have "list_ex (\<lambda>(a, l). in_block a l 0x0A010203) (e_ipv4 sample_entries)"
    "list_ex (\<lambda>(s, t). s \<le> 85 \<and> 85 \<le> t) (e_ports sample_entries)"
    by (simp_all add: sample_entries_def in_block_def)
  with f sample_matches bytes(1) show ?thesis by blast
qed

theorem cut_file_is_refused_witness:
  "\<exists>bytes need. write_v2 sample_codec 7 (replicate 32 0) sample_entries = Inr bytes
    \<and> from_bytes sample_codec (take 9 bytes) = Inl (Truncated need 9)"
proof -
  obtain bytes where bytes: "write_v2 sample_codec 7 (replicate 32 0) sample_entries = Inr bytes"
    "length bytes < 2 ^ 32" "9 < length bytes" using sample_written by blast
  then show ?thesis
    using cut_file_is_refused [OF sample_codec_ok sample_entries_ok _ bytes] by auto
qed

definition sample_v1 :: "byte list" where
  "sample_v1 = magic @ [1, 3] @ le_bytes 8 (0 :: 64 word) @ replicate 32 0
     @ le_bytes 4 (4 :: 32 word) @ le_bytes 4 (8 :: 32 word)
     @ (1 # sample_key ''a'') @ (1 # sample_key ''d.c'')"

theorem v1_suffixes_never_match_witness:
  "\<exists>f. from_bytes sample_codec sample_v1 = Inr f \<and> suffix_fst f = Some {''d.c''}
    \<and> matches_normalized f ''x.c.d'' = None"
proof -
  have m: "magic = [0x44, 0x52, 0x53, 0]" by (simp add: magic_def as_bytes_def byte_of_def)
  have keys: "sample_keys (tl (1 # sample_key k)) [] = [k]" for k
    using sample_keys_all [of "[k]"] by simp
  let ?head = "magic @ [1, 3] @ le_bytes 8 (0 :: 64 word) @ replicate 32 0"
  have lens: "subslice 46 4 sample_v1 = le_bytes 4 (4 :: 32 word)"
    "subslice 50 4 sample_v1 = le_bytes 4 (8 :: 32 word)"
    using subslice_append [of ?head 0 4] subslice_append [of "?head @ le_bytes 4 (4 :: 32 word)" 0 4]
    by (simp_all add: sample_v1_def m)
  let ?head2 = "?head @ le_bytes 4 (4 :: 32 word) @ le_bytes 4 (8 :: 32 word)"
  have sets: "subslice 54 4 sample_v1 = 1 # sample_key ''a''"
    "subslice 58 8 sample_v1 = 1 # sample_key ''d.c''"
    using subslice_append [of ?head2 0 4] subslice_append [of "?head2 @ 1 # sample_key ''a''" 0 8]
    by (simp_all add: sample_v1_def m sample_key_def subslice_def)
  have "\<exists>f. from_bytes sample_codec sample_v1 = Inr f \<and> suffix_fst f = Some {''d.c''} \<and> domain_fst f = Some {''a''}"
    using keys [of "''a''"] keys [of "''d.c''"] lens sets
    by (simp add: from_bytes_def from_bytes_v1_def from_le_bytes load_v1_set_def load_fst_def
      sample_codec_def header_len_def Let_def) (simp add: sample_v1_def m sample_key_def)
  then obtain f where f: "from_bytes sample_codec sample_v1 = Inr f" "suffix_fst f = Some {''d.c''}"
    "domain_fst f = Some {''a''}" by blast
  have "sample_v1 ! 4 = 1" by (simp add: sample_v1_def m)
  moreover have "reverse_labels ` {''c.d''} = {''d.c''}" by (simp add: reverse_labels_def)
  ultimately have "matches_normalized f ''x.c.d'' = None"
    using v1_suffixes_never_match [of sample_codec sample_v1 f "{''c.d''}" "''a''" "[]"] f by simp
  with f show ?thesis by blast
qed

end
