(* ===== verification/Rust_Text.thy ===== *)
theory Rust_Text
  imports Rust_Bytes
begin

text \<open>
  Functions of the Rust standard library on text that several parts of the backend use: trimming and
  splitting at white space (the property White_Space of Unicode), and reading unsigned numbers
  (\<open>str::parse\<close>: an optional plus sign, at least one digit, no more than the type can hold).
\<close>

definition rust_white :: "string list" where
  "rust_white = map utf8_cp
     ([9, 10, 11, 12, 13, 32, 133, 160, 5760] @ [8192..<8203] @ [8232, 8233, 8239, 8287, 12288])"

definition str_trim :: "string \<Rightarrow> string" where
  "str_trim s = rev (strip_front (map rev rust_white) (rev (strip_front rust_white s)))"

text \<open>\<open>s.split_whitespace()\<close>, with the word being read in front.\<close>

function split_words :: "string \<Rightarrow> string \<Rightarrow> string list" where
  "split_words word [] = (if word = [] then [] else [word])"
| "split_words word (c # cs) =
     (case find (\<lambda>w. w \<noteq> [] \<and> prefix w (c # cs)) rust_white of
        Some w \<Rightarrow> (if word = [] then [] else [word]) @ split_words [] (drop (length w - 1) cs)
      | None \<Rightarrow> split_words (word @ [c]) cs)"
  by pat_completeness auto
termination by (relation "measure (\<lambda>(word, s). length s)") auto

definition lines_of :: "string \<Rightarrow> string list" where
  "lines_of s = split_on (CHR 0x0A) s"

definition parse_unsigned_max :: "nat \<Rightarrow> string \<Rightarrow> nat option" where
  "parse_unsigned_max limit s =
     (let digits = (case strip_prefix ''+'' s of Some r \<Rightarrow> r | None \<Rightarrow> s)
      in if digits = [] \<or> \<not> list_all is_digit digits then None
         else if limit < str_nat digits then None else Some (str_nat digits))"

definition parse_u8 :: "string \<Rightarrow> nat option" where
  "parse_u8 = parse_unsigned_max (2 ^ 8 - 1)"

definition parse_u16 :: "string \<Rightarrow> nat option" where
  "parse_u16 = parse_unsigned_max (2 ^ 16 - 1)"

definition parse_u64 :: "string \<Rightarrow> nat option" where
  "parse_u64 = parse_unsigned_max (2 ^ 64 - 1)"

text \<open>\<open>s.split_once(c)\<close>, and the same at the last \<open>c\<close>.\<close>

definition split_once :: "char \<Rightarrow> string \<Rightarrow> (string \<times> string) option" where
  "split_once c s = (if c \<in> set s then Some (takeWhile (\<lambda>d. d \<noteq> c) s, tl (dropWhile (\<lambda>d. d \<noteq> c) s)) else None)"

definition rsplit_once :: "char \<Rightarrow> string \<Rightarrow> (string \<times> string) option" where
  "rsplit_once c s = map_option (\<lambda>(a, b). (rev b, rev a)) (split_once c (rev s))"

lemma split_once_append: "c \<notin> set a \<Longrightarrow> split_once c (a @ c # b) = Some (a, b)"
  by (auto simp: split_once_def takeWhile_append dropWhile_append)

lemma rsplit_once_append: "c \<notin> set b \<Longrightarrow> rsplit_once c (a @ c # b) = Some (a, b)"
  by (simp add: rsplit_once_def split_once_append)

lemma parse_unsigned_nat_str: "n \<le> limit \<Longrightarrow> parse_unsigned_max limit (nat_str n) = Some n"
proof -
  assume "n \<le> limit"
  have "hd (nat_str n) \<noteq> CHR ''+''"
    using nat_str_digits [of n] nat_str_nonempty [of n] by (cases "nat_str n") (auto simp: is_digit_def)
  then have "strip_prefix ''+'' (nat_str n) = None"
    using nat_str_nonempty [of n] by (cases "nat_str n") (auto simp: strip_prefix_def)
  then show ?thesis
    using \<open>n \<le> limit\<close> nat_str_digits [of n] nat_str_nonempty [of n]
    by (simp add: parse_unsigned_max_def list_all_iff)
qed

lemma rust_white_graphic: "\<forall>w \<in> set rust_white. w \<noteq> [] \<and> (\<forall>c \<in> set w. \<not> graphic c)"
  by (simp add: rust_white_def utf8_cp_def graphic_def upt_rec)

lemma str_trim_graphic:
  assumes "\<forall>c \<in> set s. graphic c"
  shows "str_trim s = s"
proof -
  have apart: "\<not> prefix w t" if "w \<in> set rust_white \<union> rev ` set rust_white" "set t = set s" for w t
  proof
    assume "prefix w t"
    then have "set w \<subseteq> set s" using that(2) by (metis set_mono_prefix)
    moreover have "w \<noteq> []" "\<forall>c \<in> set w. \<not> graphic c" using that(1) rust_white_graphic by auto
    ultimately show False using assms by (cases w) auto
  qed
  have "strip_front rust_white s = s" by (rule strip_front_id) (use apart in blast)
  moreover have "strip_front (map rev rust_white) (rev s) = rev s" by (rule strip_front_id) (use apart in auto)
  ultimately show ?thesis by (simp add: str_trim_def)
qed

end
