(* ===== verification/Rule_Source.thy ===== *)
theory Rule_Source
  imports Drs_File Rust_Text
begin

text \<open>
  What a rule set is compiled from: one rule (\<open>src/src/ruleset/parser/mod.rs\<close>), the checks and readers
  the three source formats share (\<open>drs.rs\<close>), and the buckets the rules are sorted into
  (\<open>src/src/ruleset/builder.rs\<close>).

  The environment of a build is a parameter: the crates behind \<open>codec\<close>, the reader of IP addresses of the
  standard library, \<open>regex::escape\<close>, and the readers of YAML and JSON texts.
\<close>

subsection \<open>Rules\<close>

datatype entry_type =
  Domain | DomainSuffix | DomainKeyword | DomainRegex | Ipv4Cidr | Ipv6Cidr | Port
| ExcludeDomain | ExcludeDomainSuffix | ExcludeDomainRegex

record rule_entry =
  ru_type :: entry_type
  ru_domain :: string
  ru_cidr :: "(ip_addr \<times> byte) option"
  ru_port :: "(16 word \<times> 16 word) option"

definition domain_entry :: "string \<Rightarrow> entry_type \<Rightarrow> rule_entry" where
  "domain_entry domain ty = \<lparr>ru_type = ty, ru_domain = domain, ru_cidr = None, ru_port = None\<rparr>"

definition cidr_entry :: "ip_addr \<Rightarrow> byte \<Rightarrow> entry_type \<Rightarrow> rule_entry" where
  "cidr_entry addr plen ty = \<lparr>ru_type = ty, ru_domain = [], ru_cidr = Some (addr, plen), ru_port = None\<rparr>"

definition port_entry :: "16 word \<Rightarrow> 16 word \<Rightarrow> rule_entry" where
  "port_entry s e = \<lparr>ru_type = Port, ru_domain = [], ru_cidr = None, ru_port = Some (s, e)\<rparr>"

subsection \<open>Checks and readers\<close>

definition ascii_alnum :: "char \<Rightarrow> bool" where
  "ascii_alnum c \<longleftrightarrow>
     (let n = (of_char c :: nat) in 48 \<le> n \<and> n \<le> 57 \<or> 65 \<le> n \<and> n \<le> 90 \<or> 97 \<le> n \<and> n \<le> 122)"

definition domain_char :: "char \<Rightarrow> bool" where
  "domain_char c \<longleftrightarrow> ascii_alnum c \<or> c = CHR ''.'' \<or> c = CHR ''-''"

definition looks_like_domain :: "string \<Rightarrow> bool" where
  "looks_like_domain s \<longleftrightarrow>
     s \<noteq> [] \<and> length s \<le> 253 \<and> hd s \<noteq> CHR ''.'' \<and> last s \<noteq> CHR ''.'' \<and> list_all domain_char s"

datatype cidr_problem = NoPrefixLength | BadPrefix string | PrefixTooLong | BadCidrAddr string

definition as_ipv4 :: "(string \<Rightarrow> ip_addr option) \<Rightarrow> string \<Rightarrow> 32 word option" where
  "as_ipv4 ip s = (case ip s of Some (V4 a) \<Rightarrow> Some a | _ \<Rightarrow> None)"

definition as_ipv6 :: "(string \<Rightarrow> ip_addr option) \<Rightarrow> string \<Rightarrow> 128 word option" where
  "as_ipv6 ip s = (case ip s of Some (V6 a) \<Rightarrow> Some a | _ \<Rightarrow> None)"

definition parse_ipv4_cidr :: "(string \<Rightarrow> ip_addr option) \<Rightarrow> string \<Rightarrow> cidr_problem + 32 word \<times> byte" where
  "parse_ipv4_cidr ip s =
     (case split_once CHR ''/'' s of
        None \<Rightarrow> Inl NoPrefixLength
      | Some (addr_str, prefix_str) \<Rightarrow>
          (case parse_u8 prefix_str of
             None \<Rightarrow> Inl (BadPrefix prefix_str)
           | Some plen \<Rightarrow>
               if 32 < plen then Inl PrefixTooLong
               else (case as_ipv4 ip addr_str of
                       None \<Rightarrow> Inl (BadCidrAddr addr_str)
                     | Some a \<Rightarrow> Inr (fst (ipv4_cidr_to_range a (word_of_nat plen)), word_of_nat plen))))"

definition parse_ipv6_cidr :: "(string \<Rightarrow> ip_addr option) \<Rightarrow> string \<Rightarrow> cidr_problem + 128 word \<times> byte" where
  "parse_ipv6_cidr ip s =
     (case split_once CHR ''/'' s of
        None \<Rightarrow> Inl NoPrefixLength
      | Some (addr_str, prefix_str) \<Rightarrow>
          (case parse_u8 prefix_str of
             None \<Rightarrow> Inl (BadPrefix prefix_str)
           | Some plen \<Rightarrow>
               if 128 < plen then Inl PrefixTooLong
               else (case as_ipv6 ip addr_str of
                       None \<Rightarrow> Inl (BadCidrAddr addr_str)
                     | Some a \<Rightarrow> Inr (fst (ipv6_cidr_to_range a (word_of_nat plen)), word_of_nat plen))))"

definition parse_port_range :: "string \<Rightarrow> (16 word \<times> 16 word) option" where
  "parse_port_range s =
     (case split_once CHR ''-'' s of
        Some (a, b) \<Rightarrow>
          (case (parse_u16 a, parse_u16 b) of
             (Some start, Some stop) \<Rightarrow>
               if stop < start then None else Some (word_of_nat start, word_of_nat stop)
           | _ \<Rightarrow> None)
      | None \<Rightarrow> map_option (\<lambda>p. (word_of_nat p, word_of_nat p)) (parse_u16 s))"

subsection \<open>Errors\<close>

datatype source_problem =
  YamlText string | UnknownBehavior string | NoPayload
| JsonText string | ExpectedRules | RuleNotObject | NotString string nat | NotStrings string
| BadCidr cidr_problem | BadPortText string | BadPortNumber | BadPortElement | BadPortValue

datatype build_error =
  ParseError nat source_problem
| InvalidRegex string
| WrongFamily
| ReadFailed string string
| HashFailed string
| NotWritten drs_error

subsection \<open>Environment\<close>

datatype yaml =
  YNull | YBool bool | YNumber string | YString string | YSequence "yaml list"
| YMapping "(yaml \<times> yaml) list" | YTagged string yaml

datatype json_number = PosInt nat | NegInt int | Float string

datatype json =
  SNull | SBool bool | SNumber json_number | SString string | SArray "json list" | SObject "(string \<times> json) list"

record source_env =
  so_codec :: codec
  so_ip :: "string \<Rightarrow> ip_addr option"
  so_escape :: "string \<Rightarrow> string"
  so_yaml :: "string \<Rightarrow> string + yaml"
  so_json :: "string \<Rightarrow> string + json"

abbreviation valid_regex :: "source_env \<Rightarrow> string \<Rightarrow> bool" where
  "valid_regex v \<equiv> re_valid (so_codec v)"

text \<open>
  A CIDR text in a rule: one with a colon is read as IPv6. The same in two parsers; \<open>line\<close> is the line or
  the rule the error names.
\<close>

definition cidr_rules :: "source_env \<Rightarrow> nat \<Rightarrow> string \<Rightarrow> build_error + rule_entry list" where
  "cidr_rules v line s =
     (let s = str_trim s
      in if s = [] then Inr []
         else if CHR '':'' \<in> set s then
           (case parse_ipv6_cidr (so_ip v) s of
              Inl e \<Rightarrow> Inl (ParseError line (BadCidr e))
            | Inr (a, plen) \<Rightarrow> Inr [cidr_entry (V6 a) plen Ipv6Cidr])
         else
           (case parse_ipv4_cidr (so_ip v) s of
              Inl e \<Rightarrow> Inl (ParseError line (BadCidr e))
            | Inr (a, plen) \<Rightarrow> Inr [cidr_entry (V4 a) plen Ipv4Cidr]))"

subsection \<open>Buckets\<close>

definition no_entries :: drs_entries where
  "no_entries = \<lparr>e_domains = [], e_suffixes = [], e_keywords = [], e_regexes = [], e_ipv4 = [], e_ipv6 = [],
     e_ports = [], e_ex_domains = [], e_ex_suffixes = [], e_ex_regexes = []\<rparr>"

definition push_rule :: "codec \<Rightarrow> rule_entry \<Rightarrow> drs_entries \<Rightarrow> build_error + drs_entries" where
  "push_rule c r b =
     (case ru_type r of
        Domain \<Rightarrow> Inr (b\<lparr>e_domains := e_domains b @ [ru_domain r]\<rparr>)
      | DomainSuffix \<Rightarrow> Inr (b\<lparr>e_suffixes := e_suffixes b @ [ru_domain r]\<rparr>)
      | DomainKeyword \<Rightarrow> Inr (b\<lparr>e_keywords := e_keywords b @ [ru_domain r]\<rparr>)
      | DomainRegex \<Rightarrow>
          if re_valid c (ru_domain r) then Inr (b\<lparr>e_regexes := e_regexes b @ [ru_domain r]\<rparr>)
          else Inl (InvalidRegex (ru_domain r))
      | Ipv4Cidr \<Rightarrow>
          (case ru_cidr r of
             None \<Rightarrow> Inr b
           | Some (V4 a, plen) \<Rightarrow> Inr (b\<lparr>e_ipv4 := e_ipv4 b @ [(a, plen)]\<rparr>)
           | Some (V6 a, plen) \<Rightarrow> Inl WrongFamily)
      | Ipv6Cidr \<Rightarrow>
          (case ru_cidr r of
             None \<Rightarrow> Inr b
           | Some (V6 a, plen) \<Rightarrow> Inr (b\<lparr>e_ipv6 := e_ipv6 b @ [(a, plen)]\<rparr>)
           | Some (V4 a, plen) \<Rightarrow> Inl WrongFamily)
      | Port \<Rightarrow> (case ru_port r of None \<Rightarrow> Inr b | Some (s, e) \<Rightarrow> Inr (b\<lparr>e_ports := e_ports b @ [(s, e)]\<rparr>))
      | ExcludeDomain \<Rightarrow> Inr (b\<lparr>e_ex_domains := e_ex_domains b @ [ru_domain r]\<rparr>)
      | ExcludeDomainSuffix \<Rightarrow> Inr (b\<lparr>e_ex_suffixes := e_ex_suffixes b @ [ru_domain r]\<rparr>)
      | ExcludeDomainRegex \<Rightarrow>
          if re_valid c (ru_domain r) then Inr (b\<lparr>e_ex_regexes := e_ex_regexes b @ [ru_domain r]\<rparr>)
          else Inl (InvalidRegex (ru_domain r)))"

fun push_all :: "codec \<Rightarrow> rule_entry list \<Rightarrow> drs_entries \<Rightarrow> build_error + drs_entries" where
  "push_all c [] b = Inr b"
| "push_all c (r # rs) b = and_then (push_rule c r b) (push_all c rs)"

subsection \<open>Building\<close>

datatype input_format = Mihomo | Adguard | Singbox

text \<open>
  \<open>build_from_files\<close>: the parsers are given as \<open>parse\<close>, the reading of a file and the fingerprint of the
  inputs as functions. The result is what is written to the output.
\<close>

fun collect_rules :: "(input_format \<Rightarrow> string \<Rightarrow> build_error + rule_entry list) \<Rightarrow> codec
    \<Rightarrow> (string \<Rightarrow> string + string) \<Rightarrow> (string \<times> input_format) list \<Rightarrow> drs_entries \<Rightarrow> build_error + drs_entries" where
  "collect_rules parse c read [] b = Inr b"
| "collect_rules parse c read ((path, fmt) # inputs) b =
     (case read path of
        Inl e \<Rightarrow> Inl (ReadFailed path e)
      | Inr content \<Rightarrow>
          and_then (parse fmt content) (\<lambda>rules.
          and_then (push_all c rules b) (collect_rules parse c read inputs)))"

definition build_from_files :: "(input_format \<Rightarrow> string \<Rightarrow> build_error + rule_entry list) \<Rightarrow> codec
    \<Rightarrow> (string \<Rightarrow> string + string) \<Rightarrow> (string list \<Rightarrow> string + byte list) \<Rightarrow> 64 word
    \<Rightarrow> (string \<times> input_format) list \<Rightarrow> build_error + byte list" where
  "build_from_files parse c read hash_inputs time inputs =
     and_then (collect_rules parse c read inputs no_entries) (\<lambda>buckets.
       case hash_inputs (map fst inputs) of
         Inl e \<Rightarrow> Inl (HashFailed e)
       | Inr hash \<Rightarrow>
           (case write_v2 c time hash buckets of Inl e \<Rightarrow> Inl (NotWritten e) | Inr bytes \<Rightarrow> Inr bytes))"

end
