(* ===== verification/Adguard_List.thy ===== *)
theory Adguard_List
  imports Rule_Source
begin

text \<open>The parser of AdGuard filter lists, \<open>src/src/ruleset/parser/adguard.rs\<close>.\<close>

subsection \<open>Parts of a line\<close>

definition supported_modifiers :: "string list" where
  "supported_modifiers = [''important'', ''dnsrewrite'', ''dnstype'', ''domain'', ''app'', ''network'']"

definition normalize_domain_str :: "string \<Rightarrow> string" where
  "normalize_domain_str s = to_ascii_lowercase (trim_end_char CHR ''.'' s)"

definition looks_like_ipcidr :: "(string \<Rightarrow> ip_addr option) \<Rightarrow> string \<Rightarrow> bool" where
  "looks_like_ipcidr ip line =
     (let s = trim_end_char CHR ''.'' line; parts = split_on CHR ''.'' s
      in if 3 \<le> length parts \<and> length parts \<le> 4
            \<and> list_all (\<lambda>p. p \<noteq> [] \<and> length p \<le> 3 \<and> list_all is_digit p \<and> parse_u8 p \<noteq> None) parts then True
         else if sublist ''::'' s \<and> length (split_on CHR '':'' s) \<le> 8 then
           (case as_ipv6 ip s of Some a \<Rightarrow> a \<noteq> 0 | None \<Rightarrow> False)
         else False)"

definition raw_stop :: "char \<Rightarrow> bool" where
  "raw_stop c \<longleftrightarrow> c \<in> set '' $|^*/:!#?&[]()~@''"

definition is_raw_domain_line :: "(string \<Rightarrow> ip_addr option) \<Rightarrow> string \<Rightarrow> bool" where
  "is_raw_domain_line ip line =
     (if list_ex raw_stop line then False
      else if prefix ''.'' line \<or> prefix ''-'' line then False
      else if looks_like_ipcidr ip line then False
      else looks_like_domain (to_ascii_lowercase line))"

definition split_modifiers :: "string \<Rightarrow> string \<times> string list" where
  "split_modifiers s =
     (case split_once CHR ''$'' s of
        Some (body, mods) \<Rightarrow> (body, map str_trim (split_on CHR '','' mods))
      | None \<Rightarrow> (s, []))"

definition modifiers_supported :: "string list \<Rightarrow> bool" where
  "modifiers_supported mods =
     list_all (\<lambda>m. let name = hd (split_on CHR ''='' m) in \<not> prefix ''~'' name \<and> name \<in> set supported_modifiers) mods"

text \<open>Not a line of a hosts file, such a line without a rule, or with one.\<close>

definition try_parse_hosts_line :: "(string \<Rightarrow> ip_addr option) \<Rightarrow> string \<Rightarrow> rule_entry option option" where
  "try_parse_hosts_line ip s =
     (case split_words [] s of
        ip_part # domain # _ \<Rightarrow>
          if ip ip_part = None then None
          else if domain = [] then Some None
          else (let lower = to_ascii_lowercase domain
                in if lower \<in> {''localhost'', ''localhost.localdomain''} then Some None
                   else if \<not> looks_like_domain lower then Some None
                   else Some (Some (domain_entry lower Domain)))
      | _ \<Rightarrow> None)"

definition strip_scheme :: "string \<Rightarrow> string" where
  "strip_scheme s =
     (case strip_prefix ''https://'' s of Some rest \<Rightarrow> rest | None \<Rightarrow>
      (case strip_prefix ''http://'' s of Some rest \<Rightarrow> rest | None \<Rightarrow> s))"

definition strip_anchors :: "string \<Rightarrow> string" where
  "strip_anchors s =
     str_trim (hd (split_on CHR ''^'' (trim_end_char CHR ''|'' (hd (split_on CHR ''/'' s)))))"

subsection \<open>Patterns\<close>

text \<open>One character of the source text: the bytes of a longer one are kept together.\<close>

definition escape_byte :: "char \<Rightarrow> string" where
  "escape_byte c =
     (if c = CHR ''.'' then [CHR 0x5C, CHR ''.'']
      else if c = CHR ''-'' \<or> c = CHR ''_'' \<or> ascii_alnum c \<or> continuation (byte_of c) then [c]
      else [CHR 0x5C, c])"

definition escape_regex_range :: "string \<Rightarrow> string" where
  "escape_regex_range s = concat (map escape_byte s)"

fun wildcard_parts :: "string \<Rightarrow> string list \<Rightarrow> string" where
  "wildcard_parts before [] = []"
| "wildcard_parts before (part # parts) =
     (if before = [] \<and> prefix ''.'' part then
        ''(?:[^.]+'' @ [CHR 0x5C] @ ''.)*''
          @ (if tl part = [] then [] else ''(?:'' @ [CHR 0x5C] @ ''.)?'' @ escape_regex_range (tl part))
      else ''.*'' @ escape_regex_range part) @ wildcard_parts part parts"

definition build_wildcard_regex :: "string \<Rightarrow> string" where
  "build_wildcard_regex domain =
     (let parts = split_on CHR ''*'' domain
      in ''^'' @ escape_regex_range (hd parts) @ wildcard_parts (hd parts) (tl parts) @ ''$'')"

definition build_wildcard_end_anchored :: "string \<Rightarrow> string" where
  "build_wildcard_end_anchored body = join ''.*'' (map escape_regex_range (split_on CHR ''*'' body)) @ ''$''"

definition parse_wildcard_or_plain :: "source_env \<Rightarrow> string \<Rightarrow> entry_type \<Rightarrow> rule_entry option" where
  "parse_wildcard_or_plain v s default_type =
     (let host = str_trim (trim_end_char CHR ''|'' (hd (split_on CHR ''^'' (hd (split_on CHR ''/'' s)))));
          trimmed = trim_end_char CHR ''.'' host;
          as_regex = (let pattern = build_wildcard_regex host
                      in if valid_regex v pattern then Some (domain_entry pattern DomainRegex) else None)
      in if host = [] then None
         else if CHR ''*'' \<notin> set host then
           (if trimmed = [] \<or> \<not> looks_like_domain trimmed then None
            else Some (domain_entry (normalize_domain_str trimmed) default_type))
         else (case strip_prefix ''*.'' host of
                 Some rest \<Rightarrow>
                   (let rest_clean = trim_end_char CHR ''.'' rest
                    in if rest_clean \<noteq> [] \<and> CHR ''*'' \<notin> set rest_clean \<and> looks_like_domain rest_clean
                       then Some (domain_entry (normalize_domain_str rest_clean) default_type)
                       else as_regex)
               | None \<Rightarrow> as_regex))"

subsection \<open>A line\<close>

datatype line_result = Silent | Rule rule_entry | Skipped

definition rule_or_skip :: "rule_entry option \<Rightarrow> line_result" where
  "rule_or_skip r = (case r of Some e \<Rightarrow> Rule e | None \<Rightarrow> Skipped)"

definition regex_rule :: "source_env \<Rightarrow> bool \<Rightarrow> string \<Rightarrow> line_result" where
  "regex_rule v is_exclude pattern =
     (if valid_regex v pattern
      then Rule (domain_entry pattern (if is_exclude then ExcludeDomainRegex else DomainRegex)) else Skipped)"

definition has_end_anchor :: "string \<Rightarrow> bool" where
  "has_end_anchor rule_body \<longleftrightarrow> CHR ''^'' \<in> set (trim_end_char CHR ''|'' (hd (split_on CHR ''/'' rule_body)))"

definition single_pipe_line :: "source_env \<Rightarrow> bool \<Rightarrow> bool \<Rightarrow> string \<Rightarrow> line_result" where
  "single_pipe_line v is_exclude has_end rest =
     (let trimmed = trim_end_char CHR ''.'' (strip_anchors rest)
      in if trimmed = [] then Skipped
         else if has_end then
           (if looks_like_domain trimmed
            then Rule (domain_entry (normalize_domain_str trimmed) (if is_exclude then ExcludeDomain else Domain))
            else Skipped)
         else regex_rule v is_exclude (''^'' @ so_escape v trimmed))"

definition end_anchored_line :: "source_env \<Rightarrow> bool \<Rightarrow> string \<Rightarrow> line_result" where
  "end_anchored_line v is_exclude rule_body =
     (let body = trim_end_char CHR ''.'' (strip_anchors rule_body)
      in if body = [] then Skipped
         else if CHR ''*'' \<in> set body then regex_rule v is_exclude (build_wildcard_end_anchored body)
         else if looks_like_domain body then
           regex_rule v is_exclude (so_escape v (normalize_domain_str body) @ ''$'')
         else Skipped)"

definition body_line :: "source_env \<Rightarrow> bool \<Rightarrow> string \<Rightarrow> line_result" where
  "body_line v is_exclude rule_body =
     (let suffix_type = (if is_exclude then ExcludeDomainSuffix else DomainSuffix);
          has_end = has_end_anchor rule_body
      in case strip_prefix ''||'' rule_body of
           Some rest \<Rightarrow> rule_or_skip (parse_wildcard_or_plain v (strip_anchors rest) suffix_type)
         | None \<Rightarrow>
             (case strip_prefix ''|'' rule_body of
                Some rest \<Rightarrow> single_pipe_line v is_exclude has_end rest
              | None \<Rightarrow>
                  if has_end then end_anchored_line v is_exclude rule_body
                  else rule_or_skip (parse_wildcard_or_plain v rule_body suffix_type)))"

definition slash_line :: "source_env \<Rightarrow> bool \<Rightarrow> string \<Rightarrow> line_result" where
  "slash_line v is_exclude rest =
     (case split_once CHR ''/'' rest of
        Some (pattern, _) \<Rightarrow> if pattern \<noteq> [] then regex_rule v is_exclude pattern else Skipped
      | None \<Rightarrow> Skipped)"

definition adguard_line :: "source_env \<Rightarrow> string \<Rightarrow> line_result" where
  "adguard_line v line =
     (if prefix ''!'' line \<or> prefix ''#'' line then Silent
      else if sublist ''##'' line \<or> sublist ''#@#'' line \<or> sublist ''#?#'' line then Silent
      else if is_raw_domain_line (so_ip v) line then Rule (domain_entry (normalize_domain_str line) Domain)
      else
        (let is_exclude = prefix ''@@'' line;
             working_line = (if is_exclude then drop 2 line else line)
         in case strip_prefix ''/'' working_line of
              Some rest \<Rightarrow> slash_line v is_exclude rest
            | None \<Rightarrow>
                (let (rule_body, modifiers) = split_modifiers working_line
                 in if \<not> modifiers_supported modifiers then Skipped
                    else case try_parse_hosts_line (so_ip v) rule_body of
                           Some (Some e) \<Rightarrow> Rule e
                         | Some None \<Rightarrow> Silent
                         | None \<Rightarrow> body_line v is_exclude (strip_scheme rule_body))))"

subsection \<open>The report\<close>

record adguard_report =
  ag_entries :: "rule_entry list"
  ag_total_lines :: nat
  ag_ignored_lines :: nat
  ag_ignored_samples :: "(nat \<times> string) list"

definition empty_report :: adguard_report where
  "empty_report = \<lparr>ag_entries = [], ag_total_lines = 0, ag_ignored_lines = 0, ag_ignored_samples = []\<rparr>"

definition record_skip :: "nat \<Rightarrow> string \<Rightarrow> adguard_report \<Rightarrow> adguard_report" where
  "record_skip line_no line r =
     r\<lparr>ag_ignored_lines := ag_ignored_lines r + 1,
       ag_ignored_samples := (if length (ag_ignored_samples r) < 10
         then ag_ignored_samples r @ [(line_no, line)] else ag_ignored_samples r)\<rparr>"

definition adguard_step :: "source_env \<Rightarrow> nat \<times> string \<Rightarrow> adguard_report \<Rightarrow> adguard_report" where
  "adguard_step v = (\<lambda>(line_no, raw_line) r.
     let line = str_trim raw_line
     in if line = [] then r
        else let counted = r\<lparr>ag_total_lines := ag_total_lines r + 1\<rparr>
             in case adguard_line v line of
                  Silent \<Rightarrow> counted
                | Rule e \<Rightarrow> counted\<lparr>ag_entries := ag_entries counted @ [e]\<rparr>
                | Skipped \<Rightarrow> record_skip line_no line counted)"

definition adguard_parse :: "source_env \<Rightarrow> string \<Rightarrow> adguard_report" where
  "adguard_parse v input =
     (let ls = lines_of input in fold (adguard_step v) (zip [1..<length ls + 1] ls) empty_report)"

end
