(* ===== verification/Rule_Payloads.thy ===== *)
theory Rule_Payloads
  imports Rule_Source
begin

text \<open>
  The parsers of mihomo payloads (\<open>src/src/ruleset/parser/mihomo.rs\<close>) and of sing-box rule sets
  (\<open>src/src/ruleset/parser/singbox.rs\<close>), on the values that the YAML and JSON readers give.
\<close>

subsection \<open>YAML values\<close>

fun untag :: "yaml \<Rightarrow> yaml" where
  "untag (YTagged tag y) = untag y"
| "untag y = y"

definition yaml_get :: "string \<Rightarrow> yaml \<Rightarrow> yaml option" where
  "yaml_get key y = (case untag y of YMapping m \<Rightarrow> map_of m (YString key) | _ \<Rightarrow> None)"

definition yaml_str :: "yaml \<Rightarrow> string option" where
  "yaml_str y = (case untag y of YString s \<Rightarrow> Some s | _ \<Rightarrow> None)"

definition yaml_sequence :: "yaml \<Rightarrow> yaml list option" where
  "yaml_sequence y = (case untag y of YSequence ys \<Rightarrow> Some ys | _ \<Rightarrow> None)"

subsection \<open>Mihomo\<close>

datatype behavior = BDomain | BIpCidr | BClassical | BAuto

definition parse_behavior :: "string \<Rightarrow> build_error + behavior" where
  "parse_behavior s =
     (let name = to_ascii_lowercase (str_trim s)
      in if name = ''domain'' then Inr BDomain
         else if name = ''ipcidr'' then Inr BIpCidr
         else if name = ''classical'' then Inr BClassical
         else if name = [] then Inr BAuto
         else Inl (ParseError 0 (UnknownBehavior name)))"

text \<open>A name with its final dots removed and in lower case, when it is one.\<close>

definition named_rules :: "string \<Rightarrow> entry_type \<Rightarrow> rule_entry list" where
  "named_rules s ty =
     (let lower = to_ascii_lowercase (trim_end_char CHR ''.'' s)
      in if looks_like_domain lower then [domain_entry lower ty] else [])"

definition keyword_rules :: "string \<Rightarrow> rule_entry list" where
  "keyword_rules s = (if s = [] then [] else [domain_entry (to_ascii_lowercase s) DomainKeyword])"

definition pattern_rules :: "source_env \<Rightarrow> string \<Rightarrow> rule_entry list" where
  "pattern_rules v s = (if valid_regex v s then [domain_entry s DomainRegex] else [])"

definition port_rules :: "nat \<Rightarrow> string \<Rightarrow> build_error + rule_entry list" where
  "port_rules line s =
     (case parse_port_range s of
        None \<Rightarrow> Inl (ParseError line (BadPortText s))
      | Some (start, stop) \<Rightarrow> Inr [port_entry start stop])"

definition to_ascii_uppercase :: "string \<Rightarrow> string" where
  "to_ascii_uppercase s =
     map (\<lambda>c. let n = (of_char c :: nat) in if 97 \<le> n \<and> n \<le> 122 then char_of (n - 32) else c) s"

definition typed_line :: "source_env \<Rightarrow> nat \<Rightarrow> string \<Rightarrow> string \<Rightarrow> build_error + rule_entry list" where
  "typed_line v line ty val =
     (let kind = to_ascii_uppercase ty
      in if kind = ''DOMAIN'' then Inr (named_rules val Domain)
         else if kind = ''DOMAIN-SUFFIX'' then Inr (named_rules val DomainSuffix)
         else if kind = ''DOMAIN-KEYWORD'' then Inr (keyword_rules val)
         else if kind = ''DOMAIN-REGEX'' then Inr (pattern_rules v val)
         else if kind = ''IP-CIDR'' \<or> kind = ''IP-CIDR6'' then cidr_rules v line val
         else if kind = ''PORT'' then port_rules line val
         else Inr [])"

definition looks_like_ipv4_cidr :: "(string \<Rightarrow> ip_addr option) \<Rightarrow> string \<Rightarrow> bool" where
  "looks_like_ipv4_cidr ip s =
     (case split_once CHR ''/'' s of
        None \<Rightarrow> False
      | Some (addr, plen) \<Rightarrow> as_ipv4 ip addr \<noteq> None \<and> parse_u8 plen \<noteq> None)"

definition is_bare_classical_keyword :: "string \<Rightarrow> bool" where
  "is_bare_classical_keyword s \<longleftrightarrow>
     \<not> list_ex (\<lambda>b. b \<in> set ''.:/,'') s
     \<and> s \<in> {''MATCH'', ''DIRECT'', ''REJECT'', ''PASS'', ''REJECT-DROP'', ''COMPATIBLE''}"

definition suffix_shorthand :: "string \<Rightarrow> string option" where
  "suffix_shorthand s =
     (case strip_prefix ''+.'' s of Some rest \<Rightarrow> Some rest | None \<Rightarrow>
      (case strip_prefix ''*.'' s of Some rest \<Rightarrow> Some rest | None \<Rightarrow> strip_prefix ''.'' s))"

definition auto_line :: "source_env \<Rightarrow> nat \<Rightarrow> string \<Rightarrow> build_error + rule_entry list" where
  "auto_line v line s =
     (if is_bare_classical_keyword s then Inr []
      else if CHR ''/'' \<in> set s \<and> as_ipv4 (so_ip v) s \<noteq> None \<or> looks_like_ipv4_cidr (so_ip v) s
      then cidr_rules v line s
      else if CHR '':'' \<in> set s \<and> CHR ''/'' \<in> set s then cidr_rules v line s
      else Inr (named_rules s Domain))"

definition classical_or_auto :: "source_env \<Rightarrow> nat \<Rightarrow> behavior \<Rightarrow> string \<Rightarrow> build_error + rule_entry list" where
  "classical_or_auto v line b s =
     (case split_once CHR '','' s of
        Some (ty, rest) \<Rightarrow> typed_line v line (str_trim ty) (str_trim (hd (split_on CHR '','' (str_trim rest))))
      | None \<Rightarrow>
          (case suffix_shorthand s of
             Some rest \<Rightarrow> Inr (named_rules rest DomainSuffix)
           | None \<Rightarrow>
               let otherwise = (if b = BAuto then auto_line v line s else Inr [])
               in case strip_prefix ''keyword:'' s of
                    Some rest \<Rightarrow> if rest \<noteq> [] then Inr (keyword_rules rest) else otherwise
                  | None \<Rightarrow> otherwise))"

definition payload_item :: "source_env \<Rightarrow> behavior \<Rightarrow> nat \<Rightarrow> yaml \<Rightarrow> build_error + rule_entry list" where
  "payload_item v b line item =
     (case yaml_str item of
        None \<Rightarrow> Inr []
      | Some text \<Rightarrow>
          (let s = str_trim text
           in if s = [] then Inr []
              else case b of
                     BDomain \<Rightarrow> Inr (named_rules s Domain)
                   | BIpCidr \<Rightarrow> cidr_rules v line s
                   | _ \<Rightarrow> classical_or_auto v line b s))"

text \<open>The rules of one item after the other, up to the first error; \<open>n\<close> numbers the items from 1.\<close>

fun each_numbered :: "(nat \<Rightarrow> 'a \<Rightarrow> build_error + rule_entry list) \<Rightarrow> nat \<Rightarrow> 'a list \<Rightarrow> build_error + rule_entry list" where
  "each_numbered f n [] = Inr []"
| "each_numbered f n (x # xs) =
     and_then (f n x) (\<lambda>rs. and_then (each_numbered f (n + 1) xs) (\<lambda>rest. Inr (rs @ rest)))"

definition mihomo_parse :: "source_env \<Rightarrow> behavior \<Rightarrow> string \<Rightarrow> build_error + rule_entry list" where
  "mihomo_parse v b input =
     (case so_yaml v input of
        Inl e \<Rightarrow> Inl (ParseError 0 (YamlText e))
      | Inr doc \<Rightarrow>
          and_then (case Option.bind (yaml_get ''behavior'' doc) yaml_str of
                      Some name \<Rightarrow> parse_behavior name | None \<Rightarrow> Inr b) (\<lambda>effective.
            case Option.bind (yaml_get ''payload'' doc) yaml_sequence of
              None \<Rightarrow> Inl (ParseError 0 NoPayload)
            | Some payload \<Rightarrow> each_numbered (payload_item v effective) 1 payload))"

subsection \<open>Sing-box\<close>

text \<open>The elements of a list of strings, or a single string, one after the other.\<close>

fun string_elements :: "nat \<Rightarrow> string \<Rightarrow> (string \<Rightarrow> build_error + rule_entry list) \<Rightarrow> nat \<Rightarrow> json list
    \<Rightarrow> build_error + rule_entry list" where
  "string_elements idx fld cb i [] = Inr []"
| "string_elements idx fld cb i (x # xs) =
     (case x of
        SString s \<Rightarrow> and_then (cb s) (\<lambda>rs. and_then (string_elements idx fld cb (i + 1) xs) (\<lambda>rest. Inr (rs @ rest)))
      | _ \<Rightarrow> Inl (ParseError idx (NotString fld i)))"

definition string_array :: "nat \<Rightarrow> string \<Rightarrow> (string \<Rightarrow> build_error + rule_entry list) \<Rightarrow> json
    \<Rightarrow> build_error + rule_entry list" where
  "string_array idx fld cb val =
     (case val of
        SArray xs \<Rightarrow> string_elements idx fld cb 0 xs
      | SString s \<Rightarrow> cb s
      | _ \<Rightarrow> Inl (ParseError idx (NotStrings fld)))"

definition singbox_domain :: "entry_type \<Rightarrow> string \<Rightarrow> rule_entry list" where
  "singbox_domain ty s = named_rules (str_trim s) ty"

definition port_number :: "nat \<Rightarrow> json_number \<Rightarrow> build_error + rule_entry list" where
  "port_number idx n =
     (case n of
        PosInt k \<Rightarrow> if k < 2 ^ 16 then Inr [port_entry (word_of_nat k) (word_of_nat k)]
                    else Inl (ParseError idx BadPortNumber)
      | _ \<Rightarrow> Inl (ParseError idx BadPortNumber))"

definition port_string :: "nat \<Rightarrow> string \<Rightarrow> build_error + rule_entry list" where
  "port_string idx s = (if str_trim s = [] then Inr [] else port_rules idx (str_trim s))"

fun port_elements :: "nat \<Rightarrow> json list \<Rightarrow> build_error + rule_entry list" where
  "port_elements idx [] = Inr []"
| "port_elements idx (x # xs) =
     and_then (case x of
                 SNumber n \<Rightarrow> port_number idx n
               | SString s \<Rightarrow> port_string idx s
               | _ \<Rightarrow> Inl (ParseError idx BadPortElement))
       (\<lambda>rs. and_then (port_elements idx xs) (\<lambda>rest. Inr (rs @ rest)))"

definition parse_port_value :: "nat \<Rightarrow> json \<Rightarrow> build_error + rule_entry list" where
  "parse_port_value idx val =
     (case val of
        SArray xs \<Rightarrow> port_elements idx xs
      | SString s \<Rightarrow> port_string idx s
      | SNumber (PosInt k) \<Rightarrow> port_number idx (PosInt k)
      | _ \<Rightarrow> Inl (ParseError idx BadPortValue))"

definition singbox_field :: "source_env \<Rightarrow> nat \<Rightarrow> string \<times> json \<Rightarrow> build_error + rule_entry list" where
  "singbox_field v idx = (\<lambda>(key, val).
     if key = ''domain'' then string_array idx key (\<lambda>s. Inr (singbox_domain Domain s)) val
     else if key = ''domain_suffix'' then
       string_array idx key (\<lambda>s. Inr (singbox_domain DomainSuffix
         (case strip_prefix ''.'' s of Some rest \<Rightarrow> rest | None \<Rightarrow> s))) val
     else if key = ''domain_keyword'' then string_array idx key (\<lambda>s. Inr (keyword_rules s)) val
     else if key = ''domain_regex'' then string_array idx key (\<lambda>s. Inr (pattern_rules v s)) val
     else if key = ''ip_cidr'' then string_array idx key (cidr_rules v idx) val
     else if key = ''port'' then parse_port_value idx val
     else Inr [])"

definition singbox_rule :: "source_env \<Rightarrow> nat \<Rightarrow> json \<Rightarrow> build_error + rule_entry list" where
  "singbox_rule v idx rule =
     (case rule of
        SObject obj \<Rightarrow> each_numbered (\<lambda>_. singbox_field v idx) 0 obj
      | _ \<Rightarrow> Inl (ParseError idx RuleNotObject))"

definition singbox_parse :: "source_env \<Rightarrow> string \<Rightarrow> build_error + rule_entry list" where
  "singbox_parse v input =
     (case so_json v input of
        Inl e \<Rightarrow> Inl (ParseError 0 (JsonText e))
      | Inr doc \<Rightarrow>
          (case doc of
             SObject obj \<Rightarrow>
               (case map_of obj ''rules'' of
                  Some (SArray rules) \<Rightarrow> each_numbered (singbox_rule v) 1 rules
                | _ \<Rightarrow> singbox_rule v 1 doc)
           | _ \<Rightarrow> Inl (ParseError 0 ExpectedRules)))"

end
