(* ===== verification/Rule_Compiler.thy ===== *)
theory Rule_Compiler
  imports Adguard_List Rule_Payloads Drs_Roundtrip
begin

text \<open>
  The compiler of rule sets as a whole: what the parsers return is accepted by the builder, and the
  compiled file means what the rules mean; then what lines of the three formats come to.
\<close>

definition parse_source :: "source_env \<Rightarrow> input_format \<Rightarrow> string \<Rightarrow> build_error + rule_entry list" where
  "parse_source v fmt content =
     (case fmt of
        Mihomo \<Rightarrow> mihomo_parse v BAuto content
      | Adguard \<Rightarrow> Inr (ag_entries (adguard_parse v content))
      | Singbox \<Rightarrow> singbox_parse v content)"

subsection \<open>Rules that the parsers return\<close>

definition rule_ok :: "source_env \<Rightarrow> rule_entry \<Rightarrow> bool" where
  "rule_ok v r =
     (case ru_type r of
        Ipv4Cidr \<Rightarrow> (case ru_cidr r of Some (V4 a, l) \<Rightarrow> unat l \<le> 32 | _ \<Rightarrow> False)
      | Ipv6Cidr \<Rightarrow> (case ru_cidr r of Some (V6 a, l) \<Rightarrow> unat l \<le> 128 | _ \<Rightarrow> False)
      | Port \<Rightarrow> (case ru_port r of Some (s, e) \<Rightarrow> s \<le> e | None \<Rightarrow> False)
      | DomainKeyword \<Rightarrow> ru_domain r \<noteq> []
      | DomainRegex \<Rightarrow> valid_regex v (ru_domain r)
      | ExcludeDomainRegex \<Rightarrow> valid_regex v (ru_domain r)
      | _ \<Rightarrow> looks_like_domain (ru_domain r))"

lemma rule_ok_domain_entry:
  "rule_ok v (domain_entry d ty) \<longleftrightarrow>
     (case ty of
        Ipv4Cidr \<Rightarrow> False | Ipv6Cidr \<Rightarrow> False | Port \<Rightarrow> False | DomainKeyword \<Rightarrow> d \<noteq> []
      | DomainRegex \<Rightarrow> valid_regex v d | ExcludeDomainRegex \<Rightarrow> valid_regex v d | _ \<Rightarrow> looks_like_domain d)"
  by (simp add: rule_ok_def domain_entry_def split: entry_type.splits)

lemma ascii_lower_code:
  "(of_char (ascii_lower c) :: nat) = (if is_ascii_uppercase c then of_char c + 32 else of_char c)"
  by (auto simp: ascii_lower_def is_ascii_uppercase_def Let_def)

lemma domain_char_lower [simp]: "domain_char (ascii_lower c) \<longleftrightarrow> domain_char c"
proof (cases "is_ascii_uppercase c")
  case True
  then have "ascii_alnum (ascii_lower c)" "ascii_alnum c"
    using ascii_lower_code [of c] by (auto simp: ascii_alnum_def is_ascii_uppercase_def Let_def)
  then show ?thesis by (simp add: domain_char_def)
qed (simp add: ascii_lower_id)

lemma looks_like_domain_lower [simp]: "looks_like_domain (to_ascii_lowercase s) \<longleftrightarrow> looks_like_domain s"
  by (auto simp: looks_like_domain_def to_ascii_lowercase_def list_all_iff hd_map last_map)

lemma trim_end_char_id: "s = [] \<or> last s \<noteq> c \<Longrightarrow> trim_end_char c s = s"
  by (cases s rule: rev_cases) (auto simp: trim_end_char_def)

lemma looks_like_domain_normalized [simp]:
  "looks_like_domain (normalize_domain_str s) \<longleftrightarrow> looks_like_domain (trim_end_char CHR ''.'' s)"
  by (simp add: normalize_domain_str_def)

lemma trim_looks_like_domain: "looks_like_domain s \<Longrightarrow> trim_end_char c s = s \<or> c \<noteq> CHR ''.''"
  by (auto simp: looks_like_domain_def intro!: trim_end_char_id)

lemma named_rules_ok: "list_all (rule_ok v) (named_rules s Domain)" "list_all (rule_ok v) (named_rules s DomainSuffix)"
  by (simp_all add: named_rules_def rule_ok_domain_entry Let_def)

lemma keyword_rules_ok: "list_all (rule_ok v) (keyword_rules s)"
  by (simp add: keyword_rules_def rule_ok_domain_entry to_ascii_lowercase_def)

lemma pattern_rules_ok: "list_all (rule_ok v) (pattern_rules v s)"
  by (simp add: pattern_rules_def rule_ok_domain_entry)

lemma small_unat: "n \<le> 255 \<Longrightarrow> unat (word_of_nat n :: byte) = n" "n < 2 ^ 16 \<Longrightarrow> unat (word_of_nat n :: 16 word) = n"
  by (simp_all add: unat_of_nat take_bit_nat_eq_self)

definition all_rules :: "('a \<Rightarrow> bool) \<Rightarrow> 'e + 'a list \<Rightarrow> bool" where
  "all_rules P r = (case r of Inl e \<Rightarrow> True | Inr xs \<Rightarrow> list_all P xs)"

lemma all_rules_simps [simp]: "all_rules P (Inl e)" "all_rules P (Inr xs) = list_all P xs"
  by (simp_all add: all_rules_def)

lemma all_rules_bind: "all_rules P r \<Longrightarrow> (\<And>xs. list_all P xs \<Longrightarrow> all_rules P (f xs)) \<Longrightarrow> all_rules P (and_then r f)"
  by (cases r) simp_all

lemma all_rules_append: "all_rules P r \<Longrightarrow> all_rules P s \<Longrightarrow> all_rules P (and_then r (\<lambda>xs. and_then s (\<lambda>ys. Inr (xs @ ys))))"
  by (cases r; cases s) simp_all

lemma cidr_rules_ok: "all_rules (rule_ok v) (cidr_rules v line s)"
  by (auto simp: cidr_rules_def Let_def parse_ipv4_cidr_def parse_ipv6_cidr_def cidr_entry_def rule_ok_def
    small_unat split: option.splits sum.splits)

lemma word_of_nat_mono: "b < 2 ^ 16 \<Longrightarrow> a \<le> b \<Longrightarrow> (word_of_nat a :: 16 word) \<le> word_of_nat b"
  by (simp add: word_le_nat_alt small_unat)

lemma parse_u16_bound: "parse_u16 s = Some n \<Longrightarrow> n < 2 ^ 16"
  by (auto simp: parse_u16_def parse_unsigned_max_def Let_def split: if_splits)

lemma port_rules_ok: "all_rules (rule_ok v) (port_rules line s)"
  by (auto simp: port_rules_def parse_port_range_def port_entry_def rule_ok_def
    intro!: word_of_nat_mono dest: parse_u16_bound split: option.splits prod.splits if_splits)

lemma each_numbered_ok: "(\<And>n x. all_rules P (f n x)) \<Longrightarrow> all_rules P (each_numbered f n xs)"
  by (induction xs arbitrary: n) (simp_all add: all_rules_append)

lemma mihomo_rules_ok: "all_rules (rule_ok v) (mihomo_parse v b input)"
proof -
  have typed: "all_rules (rule_ok v) (typed_line v line ty val)" for line ty val
    by (simp add: typed_line_def Let_def named_rules_ok keyword_rules_ok pattern_rules_ok cidr_rules_ok port_rules_ok)
  have auto: "all_rules (rule_ok v) (auto_line v line s)" for line s
    by (simp add: auto_line_def named_rules_ok cidr_rules_ok)
  have "all_rules (rule_ok v) (classical_or_auto v line bh s)" for line bh s
    by (simp add: classical_or_auto_def Let_def typed auto named_rules_ok keyword_rules_ok split: option.splits)
  then have "all_rules (rule_ok v) (payload_item v bh line item)" for bh line item
    by (simp add: payload_item_def Let_def named_rules_ok cidr_rules_ok split: option.splits behavior.splits)
  then have each: "all_rules (rule_ok v) (each_numbered (payload_item v bh) n items)" for bh n items
    by (rule each_numbered_ok)
  show ?thesis
  proof (cases "so_yaml v input")
    case (Inr doc)
    have "all_rules (rule_ok v) (and_then e (\<lambda>bh. case p of None \<Rightarrow> Inl (ParseError 0 NoPayload)
        | Some payload \<Rightarrow> each_numbered (payload_item v bh) 1 payload))" for e p
      by (cases e) (auto simp: each split: option.splits)
    then show ?thesis using Inr by (simp add: mihomo_parse_def)
  qed (simp add: mihomo_parse_def)
qed

lemma singbox_rules_ok: "all_rules (rule_ok v) (singbox_parse v input)"
proof -
  have strings: "all_rules (rule_ok v) (string_array idx fld cb val)" if "\<And>s. all_rules (rule_ok v) (cb s)" for idx fld cb val
  proof -
    have "all_rules (rule_ok v) (string_elements idx fld cb i xs)" for i xs
      by (induction xs arbitrary: i) (auto intro!: all_rules_append that split: json.splits)
    then show ?thesis using that by (simp add: string_array_def split: json.splits)
  qed
  have number: "all_rules (rule_ok v) (port_number idx n)" for idx n
    by (simp add: port_number_def port_entry_def rule_ok_def split: json_number.splits)
  have string: "all_rules (rule_ok v) (port_string idx s)" for idx s
    by (simp add: port_string_def port_rules_ok)
  have "all_rules (rule_ok v) (port_elements idx xs)" for idx xs
    by (induction xs) (auto intro!: all_rules_append number string split: json.splits)
  then have port: "all_rules (rule_ok v) (parse_port_value idx val)" for idx val
    by (simp add: parse_port_value_def number string split: json.splits json_number.splits)
  have fields: "all_rules (rule_ok v) (string_array idx fld (\<lambda>s. Inr (singbox_domain Domain s)) val)"
    "all_rules (rule_ok v) (string_array idx fld (\<lambda>s. Inr (singbox_domain DomainSuffix (g s))) val)"
    "all_rules (rule_ok v) (string_array idx fld (\<lambda>s. Inr (keyword_rules s)) val)"
    "all_rules (rule_ok v) (string_array idx fld (\<lambda>s. Inr (pattern_rules v s)) val)"
    "all_rules (rule_ok v) (string_array idx fld (cidr_rules v idx) val)" for idx fld val g
    by (rule strings, simp add: singbox_domain_def named_rules_ok keyword_rules_ok pattern_rules_ok cidr_rules_ok)+
  have "all_rules (rule_ok v) (singbox_field v idx kv)" for idx kv
    by (cases kv) (simp add: singbox_field_def fields port)
  then have "all_rules (rule_ok v) (singbox_rule v idx rule)" for idx rule
    by (simp add: singbox_rule_def each_numbered_ok split: json.splits)
  then show ?thesis
    by (simp add: singbox_parse_def each_numbered_ok split: sum.splits json.splits option.splits)
qed

lemma normalized_ok: "looks_like_domain s \<Longrightarrow> looks_like_domain (normalize_domain_str s)"
  using trim_looks_like_domain [of s "CHR ''.''"] by simp

lemma wildcard_or_plain_ok:
  assumes "parse_wildcard_or_plain v s ty = Some r" "ty = DomainSuffix \<or> ty = ExcludeDomainSuffix"
  shows "rule_ok v r"
  using assms
  by (auto simp: parse_wildcard_or_plain_def Let_def rule_ok_domain_entry normalized_ok
    split: if_splits option.splits entry_type.splits simp del: looks_like_domain_normalized)

lemma body_line_ok: "body_line v x body = Rule r \<Longrightarrow> rule_ok v r"
  by (auto simp: body_line_def Let_def rule_or_skip_def single_pipe_line_def end_anchored_line_def regex_rule_def
      rule_ok_domain_entry normalized_ok
    split: option.splits if_splits dest: wildcard_or_plain_ok simp del: looks_like_domain_normalized)

lemma adguard_line_ok: "adguard_line v line = Rule r \<Longrightarrow> rule_ok v r"
  by (auto simp: adguard_line_def Let_def is_raw_domain_line_def slash_line_def regex_rule_def rule_ok_domain_entry
      normalized_ok try_parse_hosts_line_def
    split: option.splits if_splits prod.splits list.splits dest: body_line_ok simp del: looks_like_domain_normalized)

text \<open>The report, line by line.\<close>

definition line_rules :: "source_env \<Rightarrow> string \<Rightarrow> rule_entry list" where
  "line_rules v raw =
     (if str_trim raw = [] then [] else case adguard_line v (str_trim raw) of Rule e \<Rightarrow> [e] | _ \<Rightarrow> [])"

definition skipped :: "source_env \<Rightarrow> string \<Rightarrow> bool" where
  "skipped v raw \<longleftrightarrow> str_trim raw \<noteq> [] \<and> adguard_line v (str_trim raw) = Skipped"

lemma adguard_step_sel:
  "ag_entries (adguard_step v (n, raw) r) = ag_entries r @ line_rules v raw"
  "ag_total_lines (adguard_step v (n, raw) r) = ag_total_lines r + (if str_trim raw = [] then 0 else 1)"
  "ag_ignored_lines (adguard_step v (n, raw) r) = ag_ignored_lines r + (if skipped v raw then 1 else 0)"
  "ag_ignored_samples (adguard_step v (n, raw) r) =
     (if skipped v raw \<and> length (ag_ignored_samples r) < 10
      then ag_ignored_samples r @ [(n, str_trim raw)] else ag_ignored_samples r)"
  by (auto simp: adguard_step_def line_rules_def skipped_def record_skip_def Let_def split: line_result.splits)

lemma adguard_accounts: "ag_entries (adguard_parse v input) = concat (map (line_rules v) (lines_of input))"
proof -
  have "ag_entries (fold (adguard_step v) xs r) = ag_entries r @ concat (map (line_rules v \<circ> snd) xs)" for xs r
    by (induction xs arbitrary: r) (auto simp: adguard_step_sel)
  moreover have "map snd (zip [1..<length ls + 1] ls) = ls" for ls :: "string list"
    by (rule map_snd_zip) (simp del: upt_Suc)
  ultimately show ?thesis
    by (simp add: adguard_parse_def empty_report_def Let_def map_map [symmetric] del: map_map upt_Suc)
qed

text \<open>
  Every line of a filter list is accounted for: the report counts the lines that are not blank, each of
  them all_rules at most one rule, in order, and the skipped ones are counted, the first ten with their
  numbers and texts.
\<close>

theorem adguard_accounts_for_every_line:
  "ag_entries (adguard_parse v input) = concat (map (line_rules v) (lines_of input))
   \<and> ag_total_lines (adguard_parse v input) = length (filter (\<lambda>l. str_trim l \<noteq> []) (lines_of input))
   \<and> ag_ignored_lines (adguard_parse v input) = length (filter (skipped v) (lines_of input))
   \<and> ag_ignored_samples (adguard_parse v input)
       = take 10 (map (\<lambda>(n, l). (n, str_trim l)) (filter (\<lambda>(n, l). skipped v l)
           (zip [1..<length (lines_of input) + 1] (lines_of input))))"
proof -
  have "ag_entries (fold (adguard_step v) xs empty_report) = concat (map (line_rules v \<circ> snd) xs)
      \<and> ag_total_lines (fold (adguard_step v) xs empty_report) = length (filter (\<lambda>(n, l). str_trim l \<noteq> []) xs)
      \<and> ag_ignored_lines (fold (adguard_step v) xs empty_report) = length (filter (\<lambda>(n, l). skipped v l) xs)
      \<and> ag_ignored_samples (fold (adguard_step v) xs empty_report)
          = take 10 (map (\<lambda>(n, l). (n, str_trim l)) (filter (\<lambda>(n, l). skipped v l) xs))" for xs
  proof (induction xs rule: rev_induct)
    case Nil
    then show ?case by (simp add: empty_report_def)
  next
    case (snoc x xs)
    then show ?case by (cases x) (auto simp: adguard_step_sel)
  qed
  moreover have numbered: "map snd (zip [1..<length ls + 1] ls) = ls" for ls :: "string list"
    by (rule map_snd_zip) (simp del: upt_Suc)
  moreover have "length (filter (\<lambda>(n, l). P l) (zip [1..<length ls + 1] ls)) = length (filter P ls)" for P and ls :: "string list"
  proof -
    have "length (filter (P \<circ> snd) (zip [1..<length ls + 1] ls)) = length (filter P (map snd (zip [1..<length ls + 1] ls)))"
      by (simp only: filter_map length_map)
    then show ?thesis unfolding numbered by (simp add: comp_def case_prod_unfold del: upt_Suc)
  qed
  ultimately show ?thesis
    by (simp add: adguard_parse_def Let_def map_map [symmetric] del: map_map upt_Suc)
qed

subsection \<open>Compiling\<close>

lemma parsed_rules_ok: "all_rules (rule_ok v) (parse_source v fmt content)"
proof -
  have "list_all (rule_ok v) (line_rules v l)" for l
    by (auto simp: line_rules_def dest: adguard_line_ok split: line_result.splits)
  then have "list_all (rule_ok v) (ag_entries (adguard_parse v content))"
    by (simp add: adguard_accounts list_all_iff)
  then show ?thesis by (simp add: parse_source_def mihomo_rules_ok singbox_rules_ok split: input_format.splits)
qed

definition of_type :: "entry_type \<Rightarrow> rule_entry list \<Rightarrow> string list" where
  "of_type ty rs = map ru_domain (filter (\<lambda>r. ru_type r = ty) rs)"

fun ipv4_of :: "rule_entry \<Rightarrow> (32 word \<times> byte) list" where
  "ipv4_of r = (case (ru_type r, ru_cidr r) of (Ipv4Cidr, Some (V4 a, l)) \<Rightarrow> [(a, l)] | _ \<Rightarrow> [])"

fun ipv6_of :: "rule_entry \<Rightarrow> (128 word \<times> byte) list" where
  "ipv6_of r = (case (ru_type r, ru_cidr r) of (Ipv6Cidr, Some (V6 a, l)) \<Rightarrow> [(a, l)] | _ \<Rightarrow> [])"

fun ports_of :: "rule_entry \<Rightarrow> (16 word \<times> 16 word) list" where
  "ports_of r = (case (ru_type r, ru_port r) of (Port, Some p) \<Rightarrow> [p] | _ \<Rightarrow> [])"

definition buckets_of :: "rule_entry list \<Rightarrow> drs_entries" where
  "buckets_of rs = \<lparr>
     e_domains = of_type Domain rs, e_suffixes = of_type DomainSuffix rs,
     e_keywords = of_type DomainKeyword rs, e_regexes = of_type DomainRegex rs,
     e_ipv4 = concat (map ipv4_of rs), e_ipv6 = concat (map ipv6_of rs), e_ports = concat (map ports_of rs),
     e_ex_domains = of_type ExcludeDomain rs, e_ex_suffixes = of_type ExcludeDomainSuffix rs,
     e_ex_regexes = of_type ExcludeDomainRegex rs\<rparr>"

lemma push_one: "rule_ok v r \<Longrightarrow> push_rule (so_codec v) r (buckets_of rs) = Inr (buckets_of (rs @ [r]))"
  by (cases "ru_type r")
    (auto simp: push_rule_def rule_ok_def buckets_of_def of_type_def split: option.splits prod.splits ip_addr.splits)

lemma push_all_rules:
  "list_all (rule_ok v) rs \<Longrightarrow> push_all (so_codec v) rs (buckets_of qs) = Inr (buckets_of (qs @ rs))"
  by (induction rs arbitrary: qs) (simp_all add: push_one)

text \<open>Every input is read and parsed; \<open>rss\<close> are the rules of each.\<close>

definition read_as :: "source_env \<Rightarrow> (string \<Rightarrow> string + string) \<Rightarrow> string \<times> input_format \<Rightarrow> rule_entry list \<Rightarrow> bool" where
  "read_as v read = (\<lambda>(path, fmt) rs. \<exists>content. read path = Inr content \<and> parse_source v fmt content = Inr rs)"

lemma collect_all:
  "list_all2 (read_as v read) inputs rss \<Longrightarrow>
     collect_rules (parse_source v) (so_codec v) read inputs (buckets_of qs) = Inr (buckets_of (qs @ concat rss))"
proof (induction inputs rss arbitrary: qs rule: list_all2_induct)
  case (Cons i inputs rs rss)
  obtain path fmt where i: "i = (path, fmt)" by fastforce
  then obtain content where c: "read path = Inr content" "parse_source v fmt content = Inr rs"
    using Cons.hyps(1) by (auto simp: read_as_def)
  then have "list_all (rule_ok v) rs" using parsed_rules_ok [of v fmt content] by simp
  then show ?case using c Cons.IH [of "qs @ rs"] by (simp add: i push_all_rules)
qed simp

lemma read_rules_ok: "list_all2 (read_as v read) inputs rss \<Longrightarrow> list_all (rule_ok v) (concat rss)"
proof (induction inputs rss rule: list_all2_induct)
  case (Cons i inputs rs rss)
  then obtain path fmt content where "parse_source v fmt content = Inr rs"
    by (cases i) (auto simp: read_as_def)
  then have "list_all (rule_ok v) rs" using parsed_rules_ok [of v fmt content] by simp
  then show ?case using Cons.IH by simp
qed simp

lemma no_entries_buckets: "no_entries = buckets_of []"
  by (simp add: no_entries_def buckets_of_def of_type_def)

lemma build_is_write:
  assumes "list_all2 (read_as v read) inputs rss" "hash_inputs (map fst inputs) = Inr hash"
  shows "build_from_files (parse_source v) (so_codec v) read hash_inputs time inputs
    = (case write_v2 (so_codec v) time hash (buckets_of (concat rss)) of Inl e \<Rightarrow> Inl (NotWritten e) | Inr bytes \<Rightarrow> Inr bytes)"
  using collect_all [OF assms(1), of "[]"] assms(2) by (simp add: build_from_files_def no_entries_buckets)

lemma length_join: "ws \<noteq> [] \<Longrightarrow> length (join [d] ws) = sum_list (map length ws) + length ws - 1"
  by (induction "[d]" ws rule: join.induct) auto

lemma suffix_key_length: "length (suffix_to_fst_key s) = length s + 1"
proof -
  let ?ws = "split_on CHR ''.'' s"
  have "length (reverse_labels s) = length (join ''.'' ?ws)"
    by (simp add: reverse_labels_def length_join rev_map [symmetric] sum_list_rev)
  then show ?thesis by (simp add: suffix_to_fst_key_def join_split_on)
qed

lemma find_in: "find P xs = Some x \<Longrightarrow> P x \<and> x \<in> set xs"
  by (auto simp: find_Some_iff)

lemma rule_ok_short:
  "rule_ok v r \<Longrightarrow> ru_type r \<in> {Domain, DomainSuffix, ExcludeDomain, ExcludeDomainSuffix} \<Longrightarrow> length (ru_domain r) \<le> 253"
  by (auto simp: rule_ok_def looks_like_domain_def)

lemma build_set_short: "(\<And>k. k \<in> set keys \<Longrightarrow> length k \<le> 253) \<Longrightarrow> \<exists>x. build_set_fst c keys = Inr x"
  by (fastforce simp: build_set_fst_def fst_keys_def not_less split: option.splits dest: find_in)

lemma build_set_long:
  assumes "k \<in> set keys" "253 < length k" "\<And>k. k \<in> set keys \<Longrightarrow> length k \<le> 254"
  shows "\<exists>k. build_set_fst c keys = Inl (DomainTooLong k 254)"
proof -
  obtain q where q: "find (\<lambda>k. 253 < length k) (fst_keys keys) = Some q"
    using assms(1,2) by (cases "find (\<lambda>k. 253 < length k) (fst_keys keys)") (auto simp: find_None_iff fst_keys_def)
  then have "q \<in> set keys" "253 < length q" by (auto simp: fst_keys_def dest: find_in)
  then have "length q = 254" using assms(3) [of q] by simp
  then show ?thesis using q assms(1) by (auto simp: build_set_fst_def)
qed

lemma rules_short:
  "list_all (rule_ok v) rs \<Longrightarrow> k \<in> set (of_type ty rs) \<Longrightarrow> ty \<in> {Domain, DomainSuffix, ExcludeDomain, ExcludeDomainSuffix} \<Longrightarrow>
     length k \<le> 253"
  by (auto simp: of_type_def list_all_iff dest!: rule_ok_short)

lemma exact_set_built:
  assumes "list_all (rule_ok v) rs" "ty \<in> {Domain, ExcludeDomain}"
  shows "\<exists>x. build_set_fst c (of_type ty rs) = Inr x"
  by (rule build_set_short) (use assms rules_short in blast)

lemma suffix_set_built:
  assumes "list_all (rule_ok v) rs" "ty \<in> {DomainSuffix, ExcludeDomainSuffix}"
  shows "if list_ex (\<lambda>r. ru_type r = ty \<and> length (ru_domain r) = 253) rs
      then \<exists>k. build_set_fst c (map suffix_to_fst_key (of_type ty rs)) = Inl (DomainTooLong k 254)
      else \<exists>z. build_set_fst c (map suffix_to_fst_key (of_type ty rs)) = Inr z"
proof -
  let ?keys = "map suffix_to_fst_key (of_type ty rs)"
  have short: "length s \<le> 253" if "s \<in> set (of_type ty rs)" for s using rules_short [OF assms(1) that] assms(2) by blast
  have keys: "length k \<le> 254" if "k \<in> set ?keys" for k using that short by (auto simp: suffix_key_length)
  have "(\<exists>k \<in> set ?keys. 253 < length k) \<longleftrightarrow> (\<exists>s \<in> set (of_type ty rs). length s = 253)"
  proof -
    have "253 < length (suffix_to_fst_key s) \<longleftrightarrow> length s = 253" if "s \<in> set (of_type ty rs)" for s
      using short [OF that] by (auto simp: suffix_key_length)
    then show ?thesis by auto
  qed
  then have long: "(\<exists>k \<in> set ?keys. 253 < length k) \<longleftrightarrow> list_ex (\<lambda>r. ru_type r = ty \<and> length (ru_domain r) = 253) rs"
    unfolding of_type_def list_ex_iff by auto
  show ?thesis
  proof (cases "\<exists>k \<in> set ?keys. 253 < length k")
    case True
    then show ?thesis using build_set_long [of _ ?keys] keys long by auto
  next
    case False
    then have "\<exists>x. build_set_fst c ?keys = Inr x" by (intro build_set_short) (auto simp: not_less)
    then show ?thesis using False long by simp
  qed
qed

text \<open>
  C30. What the parsers of the three formats return, the builder accepts: once the inputs are read and parsed
  the build succeeds, unless some suffix has the full length of 253 bytes, which the parsers let through and
  the writer refuses because its key has one byte more.
\<close>

theorem only_a_longest_suffix_breaks_the_build:
  assumes "list_all2 (read_as v read) inputs rss" "hash_inputs (map fst inputs) = Inr hash"
  shows "case build_from_files (parse_source v) (so_codec v) read hash_inputs time inputs of
      Inr bytes \<Rightarrow> \<not> list_ex (\<lambda>r. ru_type r \<in> {DomainSuffix, ExcludeDomainSuffix} \<and> length (ru_domain r) = 253) (concat rss)
    | Inl e \<Rightarrow> list_ex (\<lambda>r. ru_type r \<in> {DomainSuffix, ExcludeDomainSuffix} \<and> length (ru_domain r) = 253) (concat rss)
        \<and> (\<exists>k. e = NotWritten (DomainTooLong k 254))"
proof -
  let ?rs = "concat rss" and ?c = "so_codec v"
  have ok: "list_all (rule_ok v) ?rs" by (rule read_rules_ok [OF assms(1)])
  obtain x y where exact: "build_set_fst ?c (of_type Domain ?rs) = Inr x" "build_set_fst ?c (of_type ExcludeDomain ?rs) = Inr y"
    using exact_set_built [OF ok] by blast
  let ?long = "\<lambda>ty. list_ex (\<lambda>r. ru_type r = ty \<and> length (ru_domain r) = 253) ?rs"
    and ?set = "\<lambda>ty. build_set_fst ?c (map suffix_to_fst_key (of_type ty ?rs))"
  have either: "list_ex (\<lambda>r. ru_type r \<in> {DomainSuffix, ExcludeDomainSuffix} \<and> length (ru_domain r) = 253) ?rs
      \<longleftrightarrow> ?long DomainSuffix \<or> ?long ExcludeDomainSuffix"
    unfolding list_ex_iff by blast
  note written = build_is_write [where hash_inputs = hash_inputs, OF assms] write_v2_def all_sections_def buckets_of_def
  consider (first) k where "?long DomainSuffix" "?set DomainSuffix = Inl (DomainTooLong k 254)"
    | (second) k z where "\<not> ?long DomainSuffix" "?long ExcludeDomainSuffix" "?set DomainSuffix = Inr z"
        "?set ExcludeDomainSuffix = Inl (DomainTooLong k 254)"
    | (none) y z where "\<not> ?long DomainSuffix" "\<not> ?long ExcludeDomainSuffix" "?set DomainSuffix = Inr z" "?set ExcludeDomainSuffix = Inr y"
    using suffix_set_built [OF ok, of DomainSuffix ?c] suffix_set_built [OF ok, of ExcludeDomainSuffix ?c] by (auto split: if_splits)
  then show ?thesis
    by cases (use exact in \<open>unfold either, simp_all add: written Let_def\<close>)
qed

subsection \<open>The compiled file means what the rules mean\<close>

definition is_exception :: "rule_entry \<Rightarrow> bool" where
  "is_exception r \<longleftrightarrow> ru_type r \<in> {ExcludeDomain, ExcludeDomainSuffix, ExcludeDomainRegex}"

definition rule_names :: "codec \<Rightarrow> rule_entry \<Rightarrow> string \<Rightarrow> bool" where
  "rule_names c r x =
     (case ru_type r of
        Domain \<Rightarrow> x = ru_domain r
      | ExcludeDomain \<Rightarrow> x = ru_domain r
      | DomainSuffix \<Rightarrow> x \<noteq> [] \<and> label_suffix (ru_domain r) x
      | ExcludeDomainSuffix \<Rightarrow> x \<noteq> [] \<and> label_suffix (ru_domain r) x
      | DomainKeyword \<Rightarrow> short_enough (ru_domain r) \<and> sublist (ru_domain r) x
      | DomainRegex \<Rightarrow> short_enough (ru_domain r) \<and> re_match c (ru_domain r) x
      | ExcludeDomainRegex \<Rightarrow> short_enough (ru_domain r) \<and> re_match c (ru_domain r) x
      | _ \<Rightarrow> False)"

fun rule_covers :: "rule_entry \<Rightarrow> 32 word \<Rightarrow> bool" where
  "rule_covers r a = list_ex (\<lambda>(b, l). in_block b l a) (ipv4_of r)"

fun rule_ports :: "rule_entry \<Rightarrow> 16 word \<Rightarrow> bool" where
  "rule_ports r p = list_ex (\<lambda>(s, e). s \<le> p \<and> p \<le> e) (ports_of r)"

lemma of_type_ex: "x \<in> set (of_type ty rs) \<longleftrightarrow> (\<exists>r \<in> set rs. ru_type r = ty \<and> ru_domain r = x)"
  by (auto simp: of_type_def)

lemma list_ex_of_type: "list_ex P (of_type ty rs) \<longleftrightarrow> (\<exists>r \<in> set rs. ru_type r = ty \<and> P (ru_domain r))"
  by (auto simp: of_type_def list_ex_iff)

lemma rules_name:
  "names_match c (of_type Domain rs) (of_type DomainSuffix rs) (of_type DomainKeyword rs) (of_type DomainRegex rs) x
     \<longleftrightarrow> (\<exists>r \<in> set rs. \<not> is_exception r \<and> rule_names c r x)"
  "names_match c (of_type ExcludeDomain rs) (of_type ExcludeDomainSuffix rs) [] (of_type ExcludeDomainRegex rs) x
     \<longleftrightarrow> (\<exists>r \<in> set rs. is_exception r \<and> rule_names c r x)"
proof -
  have "\<not> is_exception r \<and> rule_names c r x \<longleftrightarrow>
      ru_type r = Domain \<and> ru_domain r = x \<or> x \<noteq> [] \<and> ru_type r = DomainSuffix \<and> label_suffix (ru_domain r) x
      \<or> ru_type r = DomainKeyword \<and> short_enough (ru_domain r) \<and> sublist (ru_domain r) x
      \<or> ru_type r = DomainRegex \<and> short_enough (ru_domain r) \<and> re_match c (ru_domain r) x" for r
    by (cases "ru_type r") (auto simp: is_exception_def rule_names_def)
  then show "names_match c (of_type Domain rs) (of_type DomainSuffix rs) (of_type DomainKeyword rs) (of_type DomainRegex rs) x
     \<longleftrightarrow> (\<exists>r \<in> set rs. \<not> is_exception r \<and> rule_names c r x)"
    unfolding names_match_def of_type_ex list_ex_of_type by blast
  have "is_exception r \<and> rule_names c r x \<longleftrightarrow>
      ru_type r = ExcludeDomain \<and> ru_domain r = x \<or> x \<noteq> [] \<and> ru_type r = ExcludeDomainSuffix \<and> label_suffix (ru_domain r) x
      \<or> ru_type r = ExcludeDomainRegex \<and> short_enough (ru_domain r) \<and> re_match c (ru_domain r) x" for r
    by (cases "ru_type r") (auto simp: is_exception_def rule_names_def)
  then show "names_match c (of_type ExcludeDomain rs) (of_type ExcludeDomainSuffix rs) [] (of_type ExcludeDomainRegex rs) x
     \<longleftrightarrow> (\<exists>r \<in> set rs. is_exception r \<and> rule_names c r x)"
    unfolding names_match_def of_type_ex list_ex_of_type by (simp del: of_type_ex) blast
qed

text \<open>The texts of the rules are strings of Rust, and a list is shorter than the counters of the file.\<close>

definition rust_rules :: "rule_entry list \<Rightarrow> bool" where
  "rust_rules rs \<longleftrightarrow> list_all (\<lambda>r. utf8_valid (as_bytes (ru_domain r))) rs \<and> length rs < 2 ^ 32"

lemma length_of_type: "length (of_type ty rs) \<le> length rs"
  by (simp add: of_type_def)

lemma block_rules_ok:
  assumes "rule_ok v r"
  shows "list_all (\<lambda>(a, l). unat l \<le> 32) (ipv4_of r)" "list_all (\<lambda>(a, l). unat l \<le> 128) (ipv6_of r)"
  using assms by (cases "ru_type r"; simp add: rule_ok_def split: option.splits prod.splits ip_addr.splits)+

lemma buckets_ok:
  assumes "list_all (rule_ok v) rs" "rust_rules rs"
  shows "entries_ok (so_codec v) (buckets_of rs)"
proof -
  have "length (of_type ty rs) < 2 ^ 32" for ty
    using assms(2) length_of_type [of ty rs] by (simp add: rust_rules_def)
  moreover have "list_all (\<lambda>s. utf8_valid (as_bytes s)) (of_type ty rs)" for ty
    using assms(2) by (auto simp: rust_rules_def list_all_iff of_type_def)
  moreover have "list_all (valid_regex v) (of_type DomainRegex rs)" "list_all (valid_regex v) (of_type ExcludeDomainRegex rs)"
    using assms(1) by (auto simp: rule_ok_def list_all_iff of_type_def)
  moreover have "list_all (\<lambda>(a, l). unat l \<le> 32) (concat (map ipv4_of rs))"
    "list_all (\<lambda>(a, l). unat l \<le> 128) (concat (map ipv6_of rs))"
    using assms(1) by (induction rs) (simp_all del: ipv4_of.simps ipv6_of.simps, (intro block_rules_ok, blast)+)
  ultimately show ?thesis by (simp add: entries_ok_def buckets_of_def)
qed

text \<open>The fingerprint of the inputs is a SHA-256.\<close>

definition fingerprints :: "(string list \<Rightarrow> string + byte list) \<Rightarrow> bool" where
  "fingerprints hash_inputs \<longleftrightarrow> (\<forall>ps h. hash_inputs ps = Inr h \<longrightarrow> length h = 32)"

lemma compiled_rules:
  assumes "codec_ok (so_codec v)" "list_all2 (read_as v read) inputs rss" "rust_rules (concat rss)"
    and "fingerprints hash_inputs"
    and "build_from_files (parse_source v) (so_codec v) read hash_inputs time inputs = Inr bytes" "length bytes < 2 ^ 32"
  shows "\<exists>f. from_bytes (so_codec v) bytes = Inr f
    \<and> (\<forall>x. matches_normalized f x \<noteq> None \<longleftrightarrow>
          (\<exists>r \<in> set (concat rss). \<not> is_exception r \<and> rule_names (so_codec v) r x)
        \<and> \<not> (\<exists>r \<in> set (concat rss). is_exception r \<and> rule_names (so_codec v) r x))
    \<and> (\<forall>a. matches_ip f (V4 a) \<noteq> None \<longleftrightarrow> (\<exists>r \<in> set (concat rss). rule_covers r a))
    \<and> (\<forall>p. matches_port f p \<longleftrightarrow> (\<exists>r \<in> set (concat rss). rule_ports r p))"
proof -
  let ?b = "buckets_of (concat rss)"
  obtain hash where hash: "hash_inputs (map fst inputs) = Inr hash"
    using assms(5) collect_all [OF assms(2), of "[]"]
    by (auto simp: build_from_files_def no_entries_buckets split: sum.splits)
  have written: "write_v2 (so_codec v) time hash ?b = Inr bytes"
    using build_is_write [where hash_inputs = hash_inputs, OF assms(2) hash, of time] assms(5) by (simp split: sum.splits)
  have ok: "entries_ok (so_codec v) ?b" by (rule buckets_ok [OF read_rules_ok [OF assms(2)] assms(3)])
  have length32: "length hash = 32" using assms(4) hash by (simp add: fingerprints_def)
  let ?f = "file_of (so_codec v) time hash (parts_of ?b)"
  have load: "from_bytes (so_codec v) bytes = Inr ?f"
    by (rule written_file_loads [OF assms(1) ok length32 written assms(6)])
  have names: "matches_normalized ?f x \<noteq> None \<longleftrightarrow> entry_matches (so_codec v) ?b x" for x by (rule names_of_file)
  have ip: "matches_ip ?f (V4 a) \<noteq> None \<longleftrightarrow> list_ex (\<lambda>(b, l). in_block b l a) (e_ipv4 ?b)" for a
    by (rule ipv4_of_file [OF ok])
  have port: "matches_port ?f p \<longleftrightarrow> list_ex (\<lambda>(s, e). s \<le> p \<and> p \<le> e) (e_ports ?b)" for p by (rule port_of_file)
  have ex: "list_ex P (concat (map g rs)) \<longleftrightarrow> (\<exists>r \<in> set rs. list_ex P (g r))" for P g and rs :: "rule_entry list"
    by (auto simp: list_ex_iff)
  have fields: "e_ipv4 ?b = concat (map ipv4_of (concat rss))" "e_ports ?b = concat (map ports_of (concat rss))"
    by (simp_all add: buckets_of_def)
  have meaning: "entry_matches (so_codec v) ?b x \<longleftrightarrow>
      (\<exists>r \<in> set (concat rss). \<not> is_exception r \<and> rule_names (so_codec v) r x)
      \<and> \<not> (\<exists>r \<in> set (concat rss). is_exception r \<and> rule_names (so_codec v) r x)" for x
    unfolding entry_matches_def rules_name [symmetric] by (simp add: buckets_of_def)
  show ?thesis
    using load names ip port unfolding meaning fields ex rule_covers.simps rule_ports.simps by blast
qed

end
