(* ===== verification/Rule_Compiler_Properties.thy ===== *)
theory Rule_Compiler_Properties
  imports Rule_Compiler
begin

text \<open>
  What the sources of rule sets come to: the theorems go from the text of a line to what the compiled and
  loaded file matches.
\<close>


subsection \<open>Lines of a filter list\<close>

lemma domain_char_plain [simp]:
  "\<not> domain_char CHR ''/''" "\<not> domain_char CHR ''^''" "\<not> domain_char CHR ''|''" "\<not> domain_char CHR ''*''"
  "\<not> domain_char CHR ''$''" "\<not> domain_char CHR ''#''" "\<not> domain_char CHR '':''" "\<not> domain_char CHR ''@''"
  "\<not> domain_char CHR ''!''" "\<not> domain_char CHR '',''" "\<not> domain_char CHR ''+''" "\<not> domain_char (CHR 0x0A)"
  by (simp_all add: domain_char_def ascii_alnum_def)

lemma domain_char_graphic: "domain_char c \<Longrightarrow> graphic c"
  by (auto simp: domain_char_def ascii_alnum_def graphic_def Let_def)

text \<open>Graphic characters that mean nothing to the parser at the front of a line or inside it.\<close>

definition plain_char :: "char \<Rightarrow> bool" where
  "plain_char c \<longleftrightarrow> domain_char c \<or> c = CHR ''*''"

lemma plain_char_graphic: "plain_char c \<Longrightarrow> graphic c"
  by (auto simp: plain_char_def domain_char_graphic) (simp add: graphic_def)

lemma plain_char_not [simp]:
  "\<not> plain_char CHR ''/''" "\<not> plain_char CHR ''^''" "\<not> plain_char CHR ''|''" "\<not> plain_char CHR ''$''"
  "\<not> plain_char CHR ''#''" "\<not> plain_char CHR '':''" "\<not> plain_char CHR ''@''" "\<not> plain_char CHR ''!''"
  by (simp_all add: plain_char_def)

lemma not_in_plain: "list_all P w \<Longrightarrow> \<not> P c \<Longrightarrow> c \<notin> set w"
  by (auto simp: list_all_iff)

lemma split_words_graphic: "\<forall>c \<in> set s. graphic c \<Longrightarrow> split_words w s = (if w @ s = [] then [] else [w @ s])"
proof (induction s arbitrary: w)
  case (Cons c cs)
  have "find (\<lambda>x. x \<noteq> [] \<and> prefix x (c # cs)) rust_white = None"
    using Cons.prems rust_white_graphic by (fastforce simp: find_None_iff prefix_Cons)
  then show ?case using Cons by simp
qed simp

lemma hosts_line_graphic: "\<forall>c \<in> set s. graphic c \<Longrightarrow> try_parse_hosts_line ip s = None"
  by (simp add: try_parse_hosts_line_def split_words_graphic)

lemma sublist_char: "sublist (c # xs) s \<Longrightarrow> c \<in> set s"
  using set_mono_sublist by fastforce

lemma split_once_none: "c \<notin> set s \<Longrightarrow> split_once c s = None"
  by (simp add: split_once_def)

text \<open>A line of the form \<open>||w^\<close> or \<open>@@||w^\<close>.\<close>

lemma piped_line:
  assumes w: "list_all plain_char w"
  shows "adguard_line v ((if x then ''@@'' else []) @ ''||'' @ w @ ''^'')
    = rule_or_skip (parse_wildcard_or_plain v w (if x then ExcludeDomainSuffix else DomainSuffix))"
proof -
  have g: "\<forall>c \<in> set w. graphic c" using w by (auto simp: list_all_iff plain_char_graphic)
  have gl: "\<forall>c \<in> set (''||'' @ w @ ''^''). graphic c" using g by (auto simp: graphic_def)
  note not_in = not_in_plain [OF w]
  have hash: "CHR ''#'' \<notin> set ((if x then ''@@'' else []) @ ''||'' @ w @ ''^'')" using not_in by auto
  have body: "body_line v x (''||'' @ w @ ''^'')
      = rule_or_skip (parse_wildcard_or_plain v w (if x then ExcludeDomainSuffix else DomainSuffix))"
  proof -
    have "strip_anchors (w @ ''^'') = w"
      using not_in g by (simp add: strip_anchors_def split_on_plain trim_end_char_id split_on_append [of _ w "[]", simplified]
        str_trim_graphic)
    then show ?thesis
      using strip_prefix_append [of "''||''" "w @ ''^''"] by (simp add: body_line_def Let_def)
  qed
  have scheme: "strip_scheme (''||'' @ w @ ''^'') = ''||'' @ w @ ''^''"
    by (simp add: strip_scheme_def strip_prefix_None_iff [THEN iffD2])
  have raw: "\<not> is_raw_domain_line ip ((if x then ''@@'' else []) @ ''||'' @ w @ ''^'')" for ip
    by (simp add: is_raw_domain_line_def raw_stop_def)
  have quiet: "\<not> sublist (CHR ''#'' # q) ((if x then ''@@'' else []) @ ''||'' @ w @ ''^'')" for q
    using hash sublist_char by metis
  have start: "\<not> prefix ''!'' ((if x then ''@@'' else []) @ ''||'' @ w @ ''^'')"
      "\<not> prefix ''#'' ((if x then ''@@'' else []) @ ''||'' @ w @ ''^'')"
      "prefix ''@@'' ((if x then ''@@'' else []) @ ''||'' @ w @ ''^'') \<longleftrightarrow> x"
    by (auto split: if_splits)
  have work: "(if x then drop 2 ((if x then ''@@'' else []) @ ''||'' @ w @ ''^'') else (if x then ''@@'' else []) @ ''||'' @ w @ ''^'')
      = ''||'' @ w @ ''^''" by simp
  have slash: "strip_prefix ''/'' (''||'' @ w @ ''^'') = None" by (simp add: strip_prefix_None_iff [THEN iffD2])
  have mods: "split_modifiers (''||'' @ w @ ''^'') = (''||'' @ w @ ''^'', [])"
    using not_in by (simp add: split_modifiers_def split_once_none)
  show ?thesis
    unfolding adguard_line_def Let_def start work if_not_P [OF quiet] slash mods prod.case option.case
    using raw quiet by (simp add: modifiers_supported_def hosts_line_graphic [OF gl, simplified] scheme [simplified] body [simplified])
qed

lemma plain_host:
  assumes "list_all plain_char w" "w \<noteq> []"
  shows "parse_wildcard_or_plain v w ty =
     (let as_regex = (if valid_regex v (build_wildcard_regex w) then Some (domain_entry (build_wildcard_regex w) DomainRegex) else None)
      in if CHR ''*'' \<notin> set w then
           (if trim_end_char CHR ''.'' w = [] \<or> \<not> looks_like_domain (trim_end_char CHR ''.'' w) then None
            else Some (domain_entry (normalize_domain_str (trim_end_char CHR ''.'' w)) ty))
         else (case strip_prefix ''*.'' w of
                 Some rest \<Rightarrow>
                   (let rest_clean = trim_end_char CHR ''.'' rest
                    in if rest_clean \<noteq> [] \<and> CHR ''*'' \<notin> set rest_clean \<and> looks_like_domain rest_clean
                       then Some (domain_entry (normalize_domain_str rest_clean) ty)
                       else as_regex)
               | None \<Rightarrow> as_regex))"
proof -
  have g: "\<forall>c \<in> set w. graphic c" using assms(1) by (auto simp: list_all_iff plain_char_graphic)
  note not_in = not_in_plain [OF assms(1)]
  have "last w \<noteq> CHR ''|''" using not_in assms(2) by (metis last_in_set plain_char_not(3))
  then have "str_trim (trim_end_char CHR ''|'' (hd (split_on CHR ''^'' (hd (split_on CHR ''/'' w))))) = w"
    using not_in g by (simp add: split_on_plain trim_end_char_id str_trim_graphic)
  then show ?thesis using assms(2) by (simp add: parse_wildcard_or_plain_def Let_def)
qed

lemma lower_id: "list_all (\<lambda>c. \<not> is_ascii_uppercase c) d \<Longrightarrow> to_ascii_lowercase d = d"
  by (rule to_ascii_lowercase_id) (auto simp: list_ex_iff list_all_iff)

definition lower_domain :: "string \<Rightarrow> bool" where
  "lower_domain d \<longleftrightarrow> looks_like_domain d \<and> list_all (\<lambda>c. \<not> is_ascii_uppercase c) d"

lemma domain_line:
  assumes "lower_domain d"
  shows "adguard_line v ((if x then ''@@'' else []) @ ''||'' @ d @ ''^'')
    = Rule (domain_entry d (if x then ExcludeDomainSuffix else DomainSuffix))"
proof -
  have d: "list_all plain_char d" "d \<noteq> []" "last d \<noteq> CHR ''.''" "CHR ''*'' \<notin> set d"
    using assms by (auto simp: lower_domain_def looks_like_domain_def plain_char_def list_all_iff)
  then have "parse_wildcard_or_plain v d ty = Some (domain_entry d ty)" for ty
    using assms by (simp add: plain_host trim_end_char_id normalize_domain_str_def lower_domain_def lower_id)
  then show ?thesis unfolding piped_line [OF d(1)] by (simp add: rule_or_skip_def)
qed

lemma domain_chars_graphic: "lower_domain d \<Longrightarrow> \<forall>c \<in> set d. graphic c"
  by (auto simp: lower_domain_def looks_like_domain_def list_all_iff domain_char_graphic)

lemma domain_line_rules:
  assumes "lower_domain d"
  shows "line_rules v (''||'' @ d @ ''^'') = [domain_entry d DomainSuffix]"
proof -
  have "\<forall>c \<in> set (''||'' @ d @ ''^''). graphic c" using domain_chars_graphic [OF assms] by (auto simp: graphic_def)
  then have "str_trim (''||'' @ d @ ''^'') = ''||'' @ d @ ''^''" by (rule str_trim_graphic)
  then show ?thesis using domain_line [OF assms, of v False] by (simp add: line_rules_def)
qed

text \<open>
  From the source text to the match: when a filter list with a line \<open>||d^\<close> is compiled and loaded, \<open>d\<close> and
  every name below it match, whatever else the list says, unless an exception of the list names them.
\<close>

theorem listed_domain_is_covered:
  assumes "read path = Inr content" "(''||'' @ d @ ''^'') \<in> set (lines_of content)" "lower_domain d"
    and "codec_ok (so_codec v)" "rust_rules (ag_entries (adguard_parse v content))"
    and "fingerprints hash_inputs"
    and "build_from_files (parse_source v) (so_codec v) read hash_inputs time [(path, Adguard)] = Inr bytes"
    and "length bytes < 2 ^ 32"
  shows "\<exists>f. from_bytes (so_codec v) bytes = Inr f
    \<and> (\<forall>x. x = d \<or> suffix (CHR ''.'' # d) x \<longrightarrow> matches_normalized f x \<noteq> None
         \<or> (\<exists>r \<in> set (ag_entries (adguard_parse v content)). is_exception r \<and> rule_names (so_codec v) r x))"
proof -
  let ?rs = "ag_entries (adguard_parse v content)" and ?r = "domain_entry d DomainSuffix"
  have "list_all2 (read_as v read) [(path, Adguard)] [?rs]"
    using assms(1) by (simp add: read_as_def parse_source_def)
  from compiled_rules [OF assms(4) this _ assms(6,7,8)] assms(5)
  obtain f where f: "from_bytes (so_codec v) bytes = Inr f"
    "\<And>x. matches_normalized f x \<noteq> None \<longleftrightarrow> (\<exists>r \<in> set ?rs. \<not> is_exception r \<and> rule_names (so_codec v) r x)
        \<and> \<not> (\<exists>r \<in> set ?rs. is_exception r \<and> rule_names (so_codec v) r x)" by auto
  have "?r \<in> set (line_rules v (''||'' @ d @ ''^''))" using domain_line_rules [OF assms(3)] by simp
  then have r: "?r \<in> set ?rs" using assms(2) by (auto simp: adguard_accounts)
  have "d \<noteq> []" using assms(3) by (simp add: lower_domain_def looks_like_domain_def)
  then have "\<not> is_exception ?r \<and> rule_names (so_codec v) ?r x" if "x = d \<or> suffix (CHR ''.'' # d) x" for x
    using that by (auto simp: is_exception_def rule_names_def domain_entry_def label_suffix_def)
  then show ?thesis using f r by blast
qed

text \<open>A list of one line.\<close>

lemma one_line:
  assumes "\<forall>c \<in> set line. graphic c" "line \<noteq> []" "adguard_line v line = Rule r"
  shows "ag_entries (adguard_parse v line) = [r]"
proof -
  have "CHR 0x0A \<notin> set line" using assms(1) by (auto simp: graphic_def)
  then have "lines_of line = [line]" by (simp add: lines_of_def split_on_plain)
  then show ?thesis using assms by (simp add: adguard_accounts line_rules_def str_trim_graphic)
qed

lemma one_rule_file:
  assumes "read path = Inr content" "ag_entries (adguard_parse v content) = [r]" "\<not> is_exception r"
    and "codec_ok (so_codec v)" "utf8_valid (as_bytes (ru_domain r))"
    and "fingerprints hash_inputs"
    and "build_from_files (parse_source v) (so_codec v) read hash_inputs time [(path, Adguard)] = Inr bytes"
    and "length bytes < 2 ^ 32"
  shows "\<exists>f. from_bytes (so_codec v) bytes = Inr f \<and> (\<forall>x. matches_normalized f x \<noteq> None \<longleftrightarrow> rule_names (so_codec v) r x)"
proof -
  have "list_all2 (read_as v read) [(path, Adguard)] [[r]]"
    using assms(1,2) by (simp add: read_as_def parse_source_def)
  from compiled_rules [OF assms(4) this _ assms(6,7,8)] assms(3,5) show ?thesis by (auto simp: rust_rules_def)
qed

text \<open>
  C31. An exception with a wildcard does the opposite: the line \<open>@@||w^\<close>, with a star in \<open>w\<close> that is not just
  a leading \<open>*.\<close>, becomes a rule that matches, so a list of this one line matches every name that
  it is to let through.
\<close>

theorem wildcard_exception_matches:
  assumes "read path = Inr (''@@||'' @ w @ ''^'')" "list_all plain_char w" "CHR ''*'' \<in> set w"
    and "\<not> prefix ''*.'' w \<or> CHR ''*'' \<in> set (trim_end_char CHR ''.'' (drop 2 w))"
    and "valid_regex v (build_wildcard_regex w)" "short_enough (build_wildcard_regex w)"
    and "utf8_valid (as_bytes (build_wildcard_regex w))" "codec_ok (so_codec v)"
    and "fingerprints hash_inputs"
    and "build_from_files (parse_source v) (so_codec v) read hash_inputs time [(path, Adguard)] = Inr bytes"
    and "length bytes < 2 ^ 32"
  shows "\<exists>f. from_bytes (so_codec v) bytes = Inr f
    \<and> (\<forall>x. matches_normalized f x \<noteq> None \<longleftrightarrow> re_match (so_codec v) (build_wildcard_regex w) x)"
proof -
  let ?r = "domain_entry (build_wildcard_regex w) DomainRegex"
  have "w \<noteq> []" using assms(3) by auto
  then have "parse_wildcard_or_plain v w ExcludeDomainSuffix = Some ?r"
    using assms(3,4,5) by (auto simp: plain_host [OF assms(2)] Let_def strip_prefix_Some_iff split: option.splits)
  then have line: "adguard_line v (''@@||'' @ w @ ''^'') = Rule ?r"
    using piped_line [OF assms(2), of v True] by (simp add: rule_or_skip_def)
  have g: "\<forall>c \<in> set (''@@||'' @ w @ ''^''). graphic c"
    using assms(2) by (auto simp: list_all_iff plain_char_graphic) (simp_all add: graphic_def)
  have one: "ag_entries (adguard_parse v (''@@||'' @ w @ ''^'')) = [?r]"
    by (rule one_line [OF g _ line]) simp
  have "\<not> is_exception ?r" "utf8_valid (as_bytes (ru_domain ?r))"
    using assms(7) by (simp_all add: is_exception_def domain_entry_def)
  from one_rule_file [OF assms(1) one this(1) assms(8) this(2) assms(9,10,11)] assms(6)
  show ?thesis by (simp add: rule_names_def domain_entry_def)
qed

text \<open>A line that has none of the special parts before its body.\<close>

lemma body_reached:
  assumes "\<forall>c \<in> set line. graphic c" "CHR ''#'' \<notin> set line" "CHR ''$'' \<notin> set line" "CHR ''@'' \<notin> set line"
    and "\<not> is_raw_domain_line (so_ip v) line" "\<not> prefix ''!'' line" "\<not> prefix ''/'' line"
  shows "adguard_line v line = body_line v False (strip_scheme line)"
proof -
  have "\<not> sublist (CHR ''#'' # q) line" for q using assms(2) sublist_char by metis
  moreover have "\<not> prefix ''#'' line" "\<not> prefix ''@@'' line" using assms(2,4) by (auto simp: prefix_def)
  moreover have "split_modifiers line = (line, [])" using assms(3) by (simp add: split_modifiers_def split_once_none)
  ultimately show ?thesis
    using assms(1,5,6,7)
    by (simp add: adguard_line_def Let_def modifiers_supported_def hosts_line_graphic strip_prefix_None_iff [THEN iffD2])
qed

lemma no_scheme: "CHR '':'' \<notin> set s \<Longrightarrow> strip_scheme s = s"
  by (auto simp: strip_scheme_def strip_prefix_def split: option.splits dest: in_set_takeD)
    (metis in_set_takeD list.set_intros(1) set_subset_Cons subset_iff)+

text \<open>
  A rule for a path of an address becomes a pattern for names: of the line \<open>/p/rest\<close> the part up to the
  second slash is taken as a regular expression and the rest is dropped, so a list of this one line matches
  every name in which \<open>p\<close> occurs.
\<close>

theorem path_rule_matches_names:
  assumes "read path = Inr (''/'' @ p @ ''/'' @ rest)" "\<forall>c \<in> set (p @ rest). graphic c" "CHR ''#'' \<notin> set (p @ rest)"
    and "CHR ''/'' \<notin> set p" "p \<noteq> []" "valid_regex v p" "short_enough p" "utf8_valid (as_bytes p)"
    and "codec_ok (so_codec v)" "fingerprints hash_inputs"
    and "build_from_files (parse_source v) (so_codec v) read hash_inputs time [(path, Adguard)] = Inr bytes"
    and "length bytes < 2 ^ 32"
  shows "\<exists>f. from_bytes (so_codec v) bytes = Inr f
    \<and> (\<forall>x. matches_normalized f x \<noteq> None \<longleftrightarrow> re_match (so_codec v) p x)"
proof -
  let ?line = "''/'' @ p @ ''/'' @ rest" and ?r = "domain_entry p DomainRegex"
  have "\<not> sublist (CHR ''#'' # q) ?line" for q
    using assms(3) sublist_char [of "CHR ''#''" q ?line] by auto
  moreover have "\<not> is_raw_domain_line ip ?line" for ip by (simp add: is_raw_domain_line_def raw_stop_def)
  moreover have "split_once CHR ''/'' (p @ ''/'' @ rest) = Some (p, rest)"
    using split_once_append [OF assms(4), of rest] by simp
  ultimately have line: "adguard_line v ?line = Rule ?r"
    using assms(5,6) by (simp add: adguard_line_def Let_def strip_prefix_def slash_line_def regex_rule_def)
  have g: "\<forall>c \<in> set ?line. graphic c" using assms(2) by (auto simp: graphic_def)
  have one: "ag_entries (adguard_parse v ?line) = [?r]" by (rule one_line [OF g _ line]) simp
  have "\<not> is_exception ?r" "utf8_valid (as_bytes (ru_domain ?r))"
    using assms(8) by (simp_all add: is_exception_def domain_entry_def)
  from one_rule_file [OF assms(1) one this(1) assms(9) this(2) assms(10,11,12)] assms(7)
  show ?thesis by (simp add: rule_names_def domain_entry_def)
qed

text \<open>
  Capital letters silence a rule for the beginning of a name: names are compared in lower case, but the
  pattern of a line \<open>|s\<close> keeps its letters, so with a capital in \<open>s\<close> a list of this one line matches
  nothing at all.
\<close>

theorem capitals_silence_a_beginning:
  assumes "read path = Inr (''|'' @ s)" "list_all domain_char s" "last s \<noteq> CHR ''.''" "list_ex is_ascii_uppercase s"
    and "\<And>d. re_match (so_codec v) (''^'' @ so_escape v s) d \<longleftrightarrow> prefix s d"
    and "valid_regex v (''^'' @ so_escape v s)" "utf8_valid (as_bytes (''^'' @ so_escape v s))"
    and "codec_ok (so_codec v)" "fingerprints hash_inputs"
    and "build_from_files (parse_source v) (so_codec v) read hash_inputs time [(path, Adguard)] = Inr bytes"
    and "length bytes < 2 ^ 32"
  shows "\<exists>f. from_bytes (so_codec v) bytes = Inr f \<and> (\<forall>x. matches_normalized f (normalize_domain x) = None)"
proof -
  let ?r = "domain_entry (''^'' @ so_escape v s) DomainRegex"
  have plain: "list_all plain_char s" using assms(2) by (auto simp: list_all_iff plain_char_def)
  note not_in = not_in_plain [OF assms(2)]
  have g: "\<forall>c \<in> set s. graphic c" using assms(2) by (auto simp: list_all_iff domain_char_graphic)
  have gl: "\<forall>c \<in> set (''|'' @ s). graphic c" using g by (simp add: graphic_def)
  have s: "s \<noteq> []" using assms(4) by auto
  have hd: "hd s \<noteq> CHR ''|''" using not_in s by (metis domain_char_plain(3) hd_in_set)
  have "last s \<noteq> CHR ''|''" using not_in s by (metis domain_char_plain(3) last_in_set)
  then have anchors: "strip_anchors s = s"
    using not_in g by (simp add: strip_anchors_def split_on_plain trim_end_char_id str_trim_graphic)
  have has: "\<not> has_end_anchor (''|'' @ s)"
    using not_in \<open>last s \<noteq> CHR ''|''\<close> s by (simp add: has_end_anchor_def split_on_plain trim_end_char_id)
  have "strip_prefix ''||'' (''|'' @ s) = None" using hd s by (cases s) (auto simp: strip_prefix_def)
  moreover have "strip_prefix ''|'' (''|'' @ s) = Some s" by (simp add: strip_prefix_def)
  ultimately have "body_line v False (''|'' @ s) = Rule ?r"
    using has anchors s assms(3,6)
    by (simp add: body_line_def single_pipe_line_def regex_rule_def trim_end_char_id Let_def)
  moreover have "adguard_line v (''|'' @ s) = body_line v False (strip_scheme (''|'' @ s))"
    by (rule body_reached) (use gl not_in in \<open>auto simp: is_raw_domain_line_def raw_stop_def\<close>)
  moreover have "strip_scheme (''|'' @ s) = ''|'' @ s" using not_in by (intro no_scheme) auto
  ultimately have line: "adguard_line v (''|'' @ s) = Rule ?r" by simp
  have one: "ag_entries (adguard_parse v (''|'' @ s)) = [?r]" by (rule one_line [OF gl _ line]) simp
  have "\<not> is_exception ?r" "utf8_valid (as_bytes (ru_domain ?r))"
    using assms(7) by (simp_all add: is_exception_def domain_entry_def)
  from one_rule_file [OF assms(1) one this(1) assms(8) this(2) assms(9,10,11)]
  obtain f where f: "from_bytes (so_codec v) bytes = Inr f"
    "\<And>x. matches_normalized f x \<noteq> None \<longleftrightarrow> rule_names (so_codec v) ?r x" by blast
  have "\<not> prefix s (normalize_domain x)" for x
  proof
    assume "prefix s (normalize_domain x)"
    then have "set s \<subseteq> set (normalize_domain x)" by (rule set_mono_prefix)
    moreover have "\<not> list_ex is_ascii_uppercase (normalize_domain x)"
      by (auto simp: normalize_domain_def Let_def list_ex_iff to_ascii_lowercase_def ascii_lower_not_upper)
    ultimately show False using assms(4) by (auto simp: list_ex_iff)
  qed
  then have "\<not> rule_names (so_codec v) ?r (normalize_domain x)" for x
    using assms(5) by (simp add: rule_names_def domain_entry_def)
  then show ?thesis using f by blast
qed

text \<open>
  An address in a list becomes a suffix of names: a line that is an IPv4 address passes for a name, since
  digits and dots do, and becomes a suffix rule instead of being left out.
\<close>

theorem address_line_becomes_a_suffix:
  assumes "looks_like_ipcidr (so_ip v) a" "list_all (\<lambda>c. is_digit c \<or> c = CHR ''.'') a" "looks_like_domain a"
  shows "adguard_line v a = Rule (domain_entry a DomainSuffix)"
proof -
  have chars: "list_all domain_char a" "list_all (\<lambda>c. \<not> is_ascii_uppercase c) a"
    using assms(2) by (auto simp: list_all_iff domain_char_def ascii_alnum_def is_digit_def is_ascii_uppercase_def Let_def)
  have plain: "list_all plain_char a" using chars(1) by (auto simp: list_all_iff plain_char_def)
  note not_in = not_in_plain [OF chars(1)]
  have g: "\<forall>c \<in> set a. graphic c" using chars(1) by (auto simp: list_all_iff domain_char_graphic)
  have a: "a \<noteq> []" "last a \<noteq> CHR ''.''" using assms(3) by (simp_all add: looks_like_domain_def)
  have "\<not> prefix p a" if "hd p \<in> {CHR ''|'', CHR ''!'', CHR ''/''}" "p \<noteq> []" for p
  proof
    assume "prefix p a"
    then have "hd p \<in> set a" using that(2) by (metis hd_in_set set_mono_prefix subsetD)
    then show False using that(1) not_in by auto
  qed
  note front = this
  have "\<not> is_raw_domain_line (so_ip v) a" using assms(1) by (simp add: is_raw_domain_line_def)
  then have "adguard_line v a = body_line v False (strip_scheme a)"
    using g not_in front by (intro body_reached) auto
  moreover have "strip_scheme a = a" using not_in by (intro no_scheme) auto
  moreover have "\<not> has_end_anchor a"
  proof -
    have "last a \<noteq> CHR ''|''" using not_in a by (metis domain_char_plain(3) last_in_set)
    then show ?thesis using not_in by (simp add: has_end_anchor_def split_on_plain trim_end_char_id)
  qed
  moreover have "parse_wildcard_or_plain v a DomainSuffix = Some (domain_entry a DomainSuffix)"
    using a not_in assms(3) chars(2)
    by (simp add: plain_host [OF plain] trim_end_char_id normalize_domain_str_def lower_id)
  ultimately show ?thesis using front [of "''||''"] front [of "''|''"] by (simp add: body_line_def strip_prefix_None_iff [THEN iffD2] rule_or_skip_def)
qed

subsection \<open>The three formats\<close>

lemma named_lower: "lower_domain d \<Longrightarrow> named_rules d ty = [domain_entry d ty]"
  by (simp add: lower_domain_def looks_like_domain_def named_rules_def trim_end_char_id lower_id Let_def)

lemma each_one: "(\<And>n x. x \<in> set xs \<Longrightarrow> f n (g x) = Inr [h x]) \<Longrightarrow> each_numbered f n (map g xs) = Inr (map h xs)"
  by (induction xs arbitrary: n) simp_all

lemma domain_str_trim: "lower_domain d \<Longrightarrow> str_trim d = d"
  by (rule str_trim_graphic) (rule domain_chars_graphic)

lemma lower_domain_plain: "lower_domain d \<Longrightarrow> list_all domain_char d"
  by (simp add: lower_domain_def looks_like_domain_def)

lemma uppercase_kinds [simp]:
  "to_ascii_uppercase ''DOMAIN-SUFFIX'' = ''DOMAIN-SUFFIX''" "to_ascii_uppercase ''DOMAIN-REGEX'' = ''DOMAIN-REGEX''"
  by code_simp+

lemma suffix_item:
  assumes "lower_domain d"
  shows "payload_item v BAuto n (YString (''DOMAIN-SUFFIX,'' @ d)) = Inr [domain_entry d DomainSuffix]"
proof -
  have comma: "CHR '','' \<notin> set d" using not_in_plain [OF lower_domain_plain [OF assms]] by simp
  have "str_trim (''DOMAIN-SUFFIX,'' @ d) = ''DOMAIN-SUFFIX,'' @ d"
    using domain_chars_graphic [OF assms] by (intro str_trim_graphic) (auto simp: graphic_def)
  moreover have "split_once CHR '','' (''DOMAIN-SUFFIX,'' @ d) = Some (''DOMAIN-SUFFIX'', d)"
    using split_once_append [of "CHR '',''" "''DOMAIN-SUFFIX''" d] by simp
  moreover have "str_trim ''DOMAIN-SUFFIX'' = ''DOMAIN-SUFFIX''" by (rule str_trim_graphic) (simp add: graphic_def)
  ultimately show ?thesis
    using comma assms
    by (simp add: payload_item_def yaml_str_def classical_or_auto_def typed_line_def Let_def split_on_plain
      domain_str_trim named_lower)
qed


text \<open>
  Two traps of the mihomo format: a regular expression is cut at its first comma, and in a payload of
  behavior \<open>domain\<close> the entries for a domain with everything below it are dropped without an error.
\<close>

theorem mihomo_loses_rules:
  assumes "\<forall>c \<in> set (p @ q). graphic c" "CHR '','' \<notin> set p" "lower_domain d"
    and "so_yaml v y = Inr (YMapping [(YString ''payload'', YSequence [YString (''DOMAIN-REGEX,'' @ p @ '','' @ q)])])"
    and "so_yaml v z = Inr (YMapping [(YString ''behavior'', YString ''domain''),
           (YString ''payload'', YSequence [YString (''+.'' @ d)])])"
  shows "mihomo_parse v BAuto y = Inr (pattern_rules v p) \<and> mihomo_parse v BAuto z = Inr []"
proof
  have "str_trim (''DOMAIN-REGEX,'' @ p @ '','' @ q) = ''DOMAIN-REGEX,'' @ p @ '','' @ q"
    "str_trim (p @ '','' @ q) = p @ '','' @ q" "str_trim p = p" "str_trim ''DOMAIN-REGEX'' = ''DOMAIN-REGEX''"
    using assms(1) by (auto simp: graphic_def intro!: str_trim_graphic)
  moreover have "split_once CHR '','' (''DOMAIN-REGEX,'' @ p @ '','' @ q) = Some (''DOMAIN-REGEX'', p @ '','' @ q)"
    using split_once_append [of "CHR '',''" "''DOMAIN-REGEX''" "p @ '','' @ q"] by simp
  moreover have "hd (split_on CHR '','' (p @ '','' @ q)) = p"
    using split_on_append [OF assms(2), of q] by simp
  ultimately have "payload_item v BAuto 1 (YString (''DOMAIN-REGEX,'' @ p @ '','' @ q)) = Inr (pattern_rules v p)"
    by (simp add: payload_item_def yaml_str_def classical_or_auto_def typed_line_def Let_def)
  then show "mihomo_parse v BAuto y = Inr (pattern_rules v p)"
    using assms(4) by (simp add: mihomo_parse_def yaml_get_def yaml_sequence_def)
  have "str_trim (''+.'' @ d) = ''+.'' @ d"
    using domain_chars_graphic [OF assms(3)] by (intro str_trim_graphic) (auto simp: graphic_def)
  moreover have "str_trim ''domain'' = ''domain''" by (rule str_trim_graphic) (simp add: graphic_def)
  moreover have "to_ascii_lowercase ''domain'' = ''domain''" by code_simp
  moreover have "named_rules (''+.'' @ d) Domain = []"
  proof -
    have "\<not> looks_like_domain (trim_end_char CHR ''.'' (''+.'' @ d))"
      using assms(3) by (simp add: trim_end_char_id lower_domain_def looks_like_domain_def)
    then show ?thesis by (simp add: named_rules_def Let_def)
  qed
  ultimately show "mihomo_parse v BAuto z = Inr []"
    using assms(5) by (simp add: mihomo_parse_def yaml_get_def yaml_sequence_def yaml_str_def parse_behavior_def
      payload_item_def Let_def)
qed

subsection \<open>Witnesses\<close>

definition sample_re :: "string \<Rightarrow> string \<Rightarrow> bool" where
  "sample_re p d =
     (if p = build_wildcard_regex ''ads*.com'' then prefix ''ads'' d \<and> suffix ''.com'' d
      else case p of [] \<Rightarrow> True | c # s \<Rightarrow> if c = CHR ''^'' then prefix s d else sublist p d)"

definition sample_source :: source_env where
  "sample_source = \<lparr>so_codec = sample_codec\<lparr>re_match := sample_re\<rparr>, so_ip = (\<lambda>_. None), so_escape = (\<lambda>s. s),
     so_yaml = (\<lambda>s. if s = ''y'' then Inr (YMapping [(YString ''payload'', YSequence [YString ''DOMAIN-SUFFIX,a.b''])])
       else if s = ''x'' then Inr (YMapping [(YString ''payload'', YSequence [YString ''DOMAIN-REGEX,a{1,3}''])])
       else Inr (YMapping [(YString ''behavior'', YString ''domain''), (YString ''payload'', YSequence [YString ''+.a.b''])])),
     so_json = (\<lambda>_. Inr (SObject [(''rules'', SArray [SObject [(''domain_suffix'', SArray [SString ''a.b''])]])]))\<rparr>"

definition sample_hash :: "string list \<Rightarrow> string + byte list" where
  "sample_hash ps = Inr (replicate 32 0)"

lemma sample_source_ok: "codec_ok (so_codec sample_source)" "valid_regex sample_source p" "fingerprints sample_hash"
  "so_escape sample_source s = s" "so_ip sample_source = (\<lambda>_. None)" "re_match (so_codec sample_source) = sample_re"
  by (simp_all add: sample_source_def sample_codec_def codec_ok_def sample_keys_all fingerprints_def sample_hash_def)

lemma sample_wildcard: "build_wildcard_regex ''ads*.com'' = ''^ads.*'' @ [CHR 0x5C] @ ''.com$''"
  by code_simp

lemma build_one:
  assumes "ag_entries (adguard_parse sample_source content) = [r]"
    and "write_v2 (so_codec sample_source) 7 (replicate 32 0) (buckets_of [r]) = Inr bytes"
  shows "build_from_files (parse_source sample_source) (so_codec sample_source) (\<lambda>_. Inr content) sample_hash 7 [(''a'', Adguard)]
    = Inr bytes"
proof -
  have "list_all2 (read_as sample_source (\<lambda>_. Inr content)) [(''a'', Adguard)] [[r]]"
    using assms(1) by (simp add: read_as_def parse_source_def)
  from build_is_write [OF this, of sample_hash "replicate 32 0" 7] assms(2) show ?thesis by (simp add: sample_hash_def)
qed

lemma regex_written:
  assumes "length p \<le> 255"
  shows "\<exists>bytes. write_v2 c 7 (replicate 32 0) (buckets_of [domain_entry p DomainRegex]) = Inr bytes \<and> length bytes < 2 ^ 32"
  using assms
  by (simp add: write_v2_def all_sections_def build_set_fst_def buckets_of_def of_type_def domain_entry_def Let_def
    build_string_section_def build_ipv4_section_def build_ipv6_section_def build_port_section_def as_bytes_def
    string_entry_def short_enough_def section_bytes_def write_section_header_def file_header_def magic_def)

lemma suffix_written:
  "\<exists>bytes. write_v2 (so_codec sample_source) 7 (replicate 32 0) (buckets_of [domain_entry ''a.b'' DomainSuffix]) = Inr bytes
     \<and> length bytes < 2 ^ 32"
  by (simp add: write_v2_def all_sections_def build_set_fst_def buckets_of_def of_type_def domain_entry_def Let_def
    build_string_section_def build_ipv4_section_def build_ipv6_section_def build_port_section_def
    fst_keys_def suffix_to_fst_key_def reverse_labels_def sample_source_def sample_codec_def sample_key_def
    section_bytes_def write_section_header_def file_header_def magic_def as_bytes_def)

lemma sample_lower: "lower_domain ''a.b''"
  by (simp add: lower_domain_def looks_like_domain_def domain_char_def ascii_alnum_def is_ascii_uppercase_def)


theorem listed_domain_is_covered_witness:
  "\<exists>bytes f. build_from_files (parse_source sample_source) (so_codec sample_source) (\<lambda>_. Inr ''||a.b^'') sample_hash 7
       [(''a'', Adguard)] = Inr bytes
     \<and> from_bytes (so_codec sample_source) bytes = Inr f \<and> matches_normalized f ''x.a.b'' \<noteq> None"
proof -
  have lines: "lines_of ''||a.b^'' = [''||'' @ ''a.b'' @ ''^'']" by (simp add: lines_of_def)
  then have one: "ag_entries (adguard_parse sample_source ''||a.b^'') = [domain_entry ''a.b'' DomainSuffix]"
    using domain_line_rules [OF sample_lower, of sample_source] by (simp add: adguard_accounts)
  obtain bytes where bytes: "write_v2 (so_codec sample_source) 7 (replicate 32 0) (buckets_of [domain_entry ''a.b'' DomainSuffix]) = Inr bytes"
    "length bytes < 2 ^ 32" using suffix_written by blast
  note built = build_one [OF one bytes(1)]
  have mem: "(''||'' @ ''a.b'' @ ''^'') \<in> set (lines_of ''||a.b^'')" using lines by simp
  have rules: "rust_rules (ag_entries (adguard_parse sample_source ''||a.b^''))"
    unfolding one by (simp add: rust_rules_def domain_entry_def as_bytes_def byte_of_def)
  obtain f where f: "from_bytes (so_codec sample_source) bytes = Inr f"
    "matches_normalized f ''x.a.b'' \<noteq> None \<or> (\<exists>r \<in> set (ag_entries (adguard_parse sample_source ''||a.b^'')).
        is_exception r \<and> rule_names (so_codec sample_source) r ''x.a.b'')"
    using listed_domain_is_covered [where path = "''a''" and read = "\<lambda>_. Inr ''||a.b^''", OF refl mem sample_lower
        sample_source_ok(1) rules sample_source_ok(3) built bytes(2)] by (auto simp: suffix_def)
  then show ?thesis using built f one by (auto simp: is_exception_def domain_entry_def)
qed

theorem wildcard_exception_matches_witness:
  "\<exists>bytes f. build_from_files (parse_source sample_source) (so_codec sample_source) (\<lambda>_. Inr ''@@||ads*.com^'') sample_hash 7
       [(''a'', Adguard)] = Inr bytes
     \<and> from_bytes (so_codec sample_source) bytes = Inr f \<and> matches_normalized f ''ads1.com'' \<noteq> None"
proof -
  let ?p = "build_wildcard_regex ''ads*.com''" and ?w = "''ads*.com''"
  have w: "list_all plain_char ?w" "CHR ''*'' \<in> set ?w" "\<not> prefix ''*.'' ?w \<or> CHR ''*'' \<in> set (trim_end_char CHR ''.'' (drop 2 ?w))"
    by (simp_all add: plain_char_def domain_char_def ascii_alnum_def)
  have p: "short_enough ?p" "utf8_valid (as_bytes ?p)"
    by (simp_all add: sample_wildcard short_enough_def as_bytes_def byte_of_def)
  have one: "ag_entries (adguard_parse sample_source ''@@||ads*.com^'') = [domain_entry ?p DomainRegex]"
  proof -
    have "parse_wildcard_or_plain sample_source ?w ExcludeDomainSuffix = Some (domain_entry ?p DomainRegex)"
      using plain_host [OF w(1)] by (simp add: sample_source_ok strip_prefix_def)
    then have "adguard_line sample_source ''@@||ads*.com^'' = Rule (domain_entry ?p DomainRegex)"
      using piped_line [OF w(1), of sample_source True] by (simp add: rule_or_skip_def)
    then show ?thesis by (intro one_line) (simp_all add: graphic_def)
  qed
  obtain bytes where bytes: "write_v2 (so_codec sample_source) 7 (replicate 32 0) (buckets_of [domain_entry ?p DomainRegex]) = Inr bytes"
    "length bytes < 2 ^ 32" using regex_written [of ?p] p(1) by (auto simp: short_enough_def)
  note built = build_one [OF one bytes(1)]
  have content: "(\<lambda>_ :: string. Inr ''@@||ads*.com^'' :: string + string) ''a'' = Inr (''@@||'' @ ?w @ ''^'')" by simp
  obtain f where "from_bytes (so_codec sample_source) bytes = Inr f"
    "matches_normalized f ''ads1.com'' \<noteq> None \<longleftrightarrow> re_match (so_codec sample_source) ?p ''ads1.com''"
    using wildcard_exception_matches [where read = "\<lambda>_. Inr ''@@||ads*.com^''", OF content w sample_source_ok(2) p
        sample_source_ok(1,3) built bytes(2)] by blast
  then show ?thesis using built by (auto simp: sample_source_ok sample_re_def suffix_def)
qed

theorem path_rule_matches_names_witness:
  "\<exists>bytes f. build_from_files (parse_source sample_source) (so_codec sample_source) (\<lambda>_. Inr ''/banner/ads.js'') sample_hash 7
       [(''a'', Adguard)] = Inr bytes
     \<and> from_bytes (so_codec sample_source) bytes = Inr f \<and> matches_normalized f ''banners.org'' \<noteq> None"
proof -
  let ?p = "''banner''"
  have one: "ag_entries (adguard_parse sample_source ''/banner/ads.js'') = [domain_entry ?p DomainRegex]"
  proof -
    have "adguard_line sample_source ''/banner/ads.js'' = Rule (domain_entry ?p DomainRegex)"
      using sample_source_ok(2) by (simp add: adguard_line_def is_raw_domain_line_def raw_stop_def Let_def strip_prefix_def
        slash_line_def regex_rule_def split_once_def sublist_code)
    then show ?thesis by (intro one_line) (simp_all add: graphic_def)
  qed
  obtain bytes where bytes: "write_v2 (so_codec sample_source) 7 (replicate 32 0) (buckets_of [domain_entry ?p DomainRegex]) = Inr bytes"
    "length bytes < 2 ^ 32" using regex_written [of ?p] by auto
  note built = build_one [OF one bytes(1)]
  have content: "(\<lambda>_ :: string. Inr ''/banner/ads.js'' :: string + string) ''a'' = Inr (''/'' @ ?p @ ''/'' @ ''ads.js'')" by simp
  have chars: "\<forall>c \<in> set (?p @ ''ads.js''). graphic c" "CHR ''#'' \<notin> set (?p @ ''ads.js'')" "CHR ''/'' \<notin> set ?p" "?p \<noteq> []"
    by (simp_all add: graphic_def)
  have p: "short_enough ?p" "utf8_valid (as_bytes ?p)" by (simp_all add: short_enough_def as_bytes_def byte_of_def)
  obtain f where "from_bytes (so_codec sample_source) bytes = Inr f"
    "matches_normalized f ''banners.org'' \<noteq> None \<longleftrightarrow> re_match (so_codec sample_source) ?p ''banners.org''"
    using path_rule_matches_names [where read = "\<lambda>_. Inr ''/banner/ads.js''", OF content chars sample_source_ok(2) p
        sample_source_ok(1,3) built bytes(2)] by blast
  then show ?thesis using built by (auto simp: sample_source_ok sample_re_def sample_wildcard sublist_code)
qed

definition longest_name :: string where
  "longest_name = replicate 253 CHR ''a''"

lemma longest_lower: "lower_domain longest_name"
  by (simp add: lower_domain_def looks_like_domain_def longest_name_def list_all_iff domain_char_def ascii_alnum_def
    is_ascii_uppercase_def)

theorem only_a_longest_suffix_breaks_the_build_witness:
  "\<exists>k. build_from_files (parse_source sample_source) (so_codec sample_source) (\<lambda>_. Inr (''||'' @ longest_name @ ''^''))
     sample_hash 7 [(''a'', Adguard)] = Inl (NotWritten (DomainTooLong k 254))"
proof -
  let ?r = "domain_entry longest_name DomainSuffix" and ?content = "''||'' @ longest_name @ ''^''"
  have line: "adguard_line sample_source ?content = Rule ?r"
    using domain_line [OF longest_lower, of sample_source False] by simp
  have "\<forall>c \<in> set ?content. graphic c" by (simp add: longest_name_def graphic_def)
  then have one: "ag_entries (adguard_parse sample_source ?content) = [?r]" by (rule one_line) (use line in simp_all)
  have all: "list_all2 (read_as sample_source (\<lambda>_. Inr ?content)) [(''a'', Adguard)] [[?r]]"
    using one by (simp add: read_as_def parse_source_def)
  have hash: "sample_hash (map fst [(''a'', Adguard)]) = Inr (replicate 32 0)" by (simp add: sample_hash_def)
  have long: "list_ex (\<lambda>r. ru_type r \<in> {DomainSuffix, ExcludeDomainSuffix} \<and> length (ru_domain r) = 253) (concat [[?r]])"
    by (simp add: domain_entry_def longest_name_def)
  show ?thesis
    using only_a_longest_suffix_breaks_the_build [where hash_inputs = sample_hash and time = 7, OF all hash] long
    by (auto split: sum.splits)
qed

theorem capitals_silence_a_beginning_witness:
  "\<exists>bytes f. build_from_files (parse_source sample_source) (so_codec sample_source) (\<lambda>_. Inr ''|Ads'') sample_hash 7
       [(''a'', Adguard)] = Inr bytes
     \<and> from_bytes (so_codec sample_source) bytes = Inr f \<and> matches_normalized f (normalize_domain ''ads.com'') = None"
proof -
  let ?s = "''Ads''" and ?p = "''^Ads''"
  have s: "list_all domain_char ?s" "last ?s \<noteq> CHR ''.''" "list_ex is_ascii_uppercase ?s"
    by (simp_all add: domain_char_def ascii_alnum_def is_ascii_uppercase_def)
  have law: "re_match (so_codec sample_source) (''^'' @ so_escape sample_source ?s) d \<longleftrightarrow> prefix ?s d" for d
    by (simp add: sample_source_ok sample_re_def sample_wildcard)
  have utf: "utf8_valid (as_bytes (''^'' @ so_escape sample_source ?s))"
    by (simp add: sample_source_ok as_bytes_def byte_of_def)
  have one: "ag_entries (adguard_parse sample_source ''|Ads'') = [domain_entry ?p DomainRegex]"
  proof -
    have "str_trim ?s = ?s" by (rule str_trim_graphic) (simp add: graphic_def)
    then have "body_line sample_source False ''|Ads'' = Rule (domain_entry ?p DomainRegex)"
      by (simp add: body_line_def single_pipe_line_def regex_rule_def strip_anchors_def has_end_anchor_def strip_prefix_def
        trim_end_char_def sample_source_ok Let_def)
    moreover have "strip_scheme ''|Ads'' = ''|Ads''" by (simp add: strip_scheme_def strip_prefix_def)
    moreover have "adguard_line sample_source ''|Ads'' = body_line sample_source False (strip_scheme ''|Ads'')"
      by (rule body_reached) (simp_all add: graphic_def is_raw_domain_line_def raw_stop_def)
    ultimately have "adguard_line sample_source ''|Ads'' = Rule (domain_entry ?p DomainRegex)" by simp
    then show ?thesis by (intro one_line) (simp_all add: graphic_def)
  qed
  obtain bytes where bytes: "write_v2 (so_codec sample_source) 7 (replicate 32 0) (buckets_of [domain_entry ?p DomainRegex]) = Inr bytes"
    "length bytes < 2 ^ 32" using regex_written [of ?p] by auto
  note built = build_one [OF one bytes(1)]
  have content: "(\<lambda>_ :: string. Inr ''|Ads'' :: string + string) ''a'' = Inr (''|'' @ ?s)" by simp
  obtain f where "from_bytes (so_codec sample_source) bytes = Inr f"
    "\<And>x. matches_normalized f (normalize_domain x) = None"
    using capitals_silence_a_beginning [where read = "\<lambda>_. Inr ''|Ads''", OF content s law sample_source_ok(2) utf
        sample_source_ok(1,3) built bytes(2)] by blast
  then show ?thesis using built by blast
qed


theorem mihomo_loses_rules_witness:
  "mihomo_parse sample_source BAuto ''x'' = Inr [domain_entry ''a{1'' DomainRegex]
   \<and> mihomo_parse sample_source BAuto ''z'' = Inr []"
  using mihomo_loses_rules [of "''a{1''" "''3}''" "''a.b''" sample_source "''x''" "''z''"] sample_lower sample_source_ok(2)
  by (simp add: graphic_def pattern_rules_def) (simp add: sample_source_def)

theorem address_line_becomes_a_suffix_witness:
  "adguard_line sample_source ''1.2.3.4'' = Rule (domain_entry ''1.2.3.4'' DomainSuffix)"
proof (rule address_line_becomes_a_suffix)
  show "looks_like_ipcidr (so_ip sample_source) ''1.2.3.4''" unfolding sample_source_ok by code_simp
  show "list_all (\<lambda>c. is_digit c \<or> c = CHR ''.'') ''1.2.3.4''" by (simp add: is_digit_def)
  show "looks_like_domain ''1.2.3.4''" by (simp add: looks_like_domain_def domain_char_def ascii_alnum_def)
qed

end
