(* ===== verification/Backend_Config.thy ===== *)
theory Backend_Config
  imports Drs_Match
begin

text \<open>
  The configuration of the backend, \<open>src/src/config.rs\<close>: its data, what its equality compares, and the check
  \<open>validate\<close>. The shape of the file is in \<open>Config_File\<close>.

  An \<open>IndexMap\<close> is an association list with distinct keys; its equality does not look at the order. A
  path is compared by its components. Addresses are values: their texts, like the YAML text itself, are
  the business of the standard library and of \<open>serde_yaml\<close>.
\<close>

subsection \<open>Data\<close>

record sock_addr =
  sa_ip :: ip_addr
  sa_port :: "16 word"

datatype ip_strategy = IpDefault | OnlyIpv4 | OnlyIpv6 | PreferIpv4 | PreferIpv6

datatype log_level = LogOff | LogError | LogWarn | LogInfo | LogDebug

datatype strategy = RoundRobin | Fastest

record upstream_group =
  ug_servers :: "string list"
  ug_strategy :: strategy
  ug_insecure :: bool
  ug_client_subnet :: "string option"

record ruleset_entry =
  re_path :: string
  re_upstream :: string

record cache_config =
  cc_enable :: bool
  cc_size :: nat
  cc_min_ttl :: "32 word"
  cc_max_ttl :: "32 word"

record firewall_config =
  fw_enable :: bool
  fw_backend :: string
  fw_localhost_hijack :: bool
  fw_lan_hijack :: bool
  fw_lan_cidr :: "string option"
  fw_lan_interface :: "string option"

record web_auth_config =
  wa_enable :: bool
  wa_username :: string
  wa_password_hash :: string

record web_config =
  wc_enable :: bool
  wc_listen :: sock_addr
  wc_query_log_size :: nat
  wc_sqlite_path :: string
  wc_web_dir :: "string option"
  wc_auth :: web_auth_config

record static_lease =
  sl_mac :: string
  sl_ip :: "32 word"
  sl_hostname :: "string option"

record dhcp_v4_config =
  v4_enable :: bool
  v4_interface :: string
  v4_range :: "32 word \<times> 32 word"
  v4_lease_time :: string
  v4_subnet :: "32 word"
  v4_gateway :: "32 word"
  v4_dns :: "32 word list"
  v4_domain :: "string option"
  v4_lease_file :: string
  v4_arp_probe :: bool
  v4_static_leases :: "static_lease list"

datatype dhcp_v6_mode = Stateless | Stateful

record dhcp_v6_config =
  v6_enable :: bool
  v6_interface :: string
  v6_mode :: dhcp_v6_mode
  v6_prefix :: "string option"
  v6_dns :: "128 word list"
  v6_domain :: "string option"
  v6_lease_file :: string
  v6_lease_time :: string

record ra_config =
  ra_enable :: bool
  ra_interface :: string
  ra_preference :: string
  ra_interval :: "32 word"
  ra_managed :: bool
  ra_other :: bool
  ra_router_lifetime :: "16 word"
  ra_rdnss :: "128 word list"
  ra_dns_lifetime :: "16 word"
  ra_suppress_other_routers :: bool

record dhcp_config =
  dh_v4 :: "dhcp_v4_config option"
  dh_v6 :: "dhcp_v6_config option"
  dh_ra :: "ra_config option"

record config =
  c_log_level :: log_level
  c_listen :: sock_addr
  c_manage_resolv_conf :: bool
  c_strategy :: ip_strategy
  c_default_nameserver :: "sock_addr list"
  c_groups :: "(string \<times> upstream_group) list"
  c_rulesets :: "ruleset_entry list"
  c_hosts :: "(string \<times> ip_addr) list"
  c_cache :: cache_config
  c_firewall :: "firewall_config option"
  c_dhcp :: dhcp_config
  c_web :: web_config

subsection \<open>Equality\<close>

text \<open>Maps that keep the order of insertion are equal when they hold the same keys and values.\<close>

definition index_eq :: "(string \<times> 'v) list \<Rightarrow> (string \<times> 'v) list \<Rightarrow> bool" where
  "index_eq m n \<longleftrightarrow> length m = length n \<and> list_all (\<lambda>(k, v). map_of n k = Some v) m"

text \<open>
  \<open>PathBuf\<close>: repeated separators, a separator at the end and the components \<open>.\<close> but a leading one do not
  count.
\<close>

definition path_components :: "string \<Rightarrow> bool \<times> string list" where
  "path_components p =
     (let ps = split_on CHR ''/'' p
      in (prefix ''/'' p, (if hd ps = ''.'' then [''.''] else []) @ filter (\<lambda>q. q \<noteq> [] \<and> q \<noteq> ''.'') ps))"

definition ruleset_key :: "ruleset_entry \<Rightarrow> (bool \<times> string list) \<times> string" where
  "ruleset_key e = (path_components (re_path e), re_upstream e)"

lemma index_eq_refl: "distinct (map fst m) \<Longrightarrow> index_eq m m"
  by (auto simp: index_eq_def list_all_iff)

subsection \<open>Validation\<close>

datatype config_error =
  NoNameserver
| ResolvConfPort "16 word"
| NeedsDefaultNameserver
| UnknownUpstream string string
| EmptyPasswordHash
| EmptyUsername
| EmptyQueryLog

text \<open>\<open>s.split(sep)\<close> for a separator that is a string.\<close>

function split_str :: "string \<Rightarrow> string \<Rightarrow> string \<Rightarrow> string list" where
  "split_str sep cur s =
     (if s = [] then [cur]
      else if sep \<noteq> [] \<and> prefix sep s then cur # split_str sep [] (drop (length sep) s)
      else split_str sep (cur @ [hd s]) (tl s))"
  by pat_completeness auto
termination
  by (relation "measure (\<lambda>(sep, cur, s). length s)") (auto simp: prefix_def)

declare split_str.simps [simp del]

text \<open>The part of a server's URL that \<open>validate\<close> takes for its host; \<open>is_ip\<close> is \<open>parse::<IpAddr>().is_ok()\<close>.\<close>

definition url_host :: "string \<Rightarrow> string" where
  "url_host s =
     (let host = (case split_str ''://'' [] s of _ # h # _ \<Rightarrow> h | _ \<Rightarrow> [])
      in hd (split_on CHR '':'' (hd (split_on CHR ''/'' host))))"

definition has_domain_upstream :: "(string \<Rightarrow> bool) \<Rightarrow> config \<Rightarrow> bool" where
  "has_domain_upstream is_ip c =
     list_ex (\<lambda>(_, g).
       list_ex (\<lambda>s. prefix ''tls://'' s \<or> prefix ''https://'' s \<or> prefix ''quic://'' s) (ug_servers g)
       \<and> list_ex (\<lambda>s. \<not> is_ip (url_host s)) (ug_servers g)) (c_groups c)"

definition firewall_enabled :: "config \<Rightarrow> bool" where
  "firewall_enabled c = (case c_firewall c of None \<Rightarrow> False | Some f \<Rightarrow> fw_enable f)"

definition validate :: "(string \<Rightarrow> bool) \<Rightarrow> config \<Rightarrow> config_error option" where
  "validate is_ip c =
     (let web = c_web c; auth = wc_auth web
      in if map_of (c_groups c) ''default'' = None then Some NoNameserver
         else if c_manage_resolv_conf c \<and> sa_port (c_listen c) \<noteq> 53
              then Some (ResolvConfPort (sa_port (c_listen c)))
         else if (firewall_enabled c \<or> c_manage_resolv_conf c) \<and> c_default_nameserver c = []
                 \<and> has_domain_upstream is_ip c then Some NeedsDefaultNameserver
         else case find (\<lambda>e. map_of (c_groups c) (re_upstream e) = None) (c_rulesets c) of
                Some e \<Rightarrow> Some (UnknownUpstream (re_path e) (re_upstream e))
              | None \<Rightarrow>
                  if wc_enable web \<and> wa_enable auth \<and> wa_password_hash auth = [] then Some EmptyPasswordHash
                  else if wc_enable web \<and> wa_enable auth \<and> wa_username auth = [] then Some EmptyUsername
                  else if wc_enable web \<and> wc_query_log_size web = 0 then Some EmptyQueryLog
                  else None)"

definition dhcp_domain_of :: "dhcp_config \<Rightarrow> string option" where
  "dhcp_domain_of d =
     (case Option.bind (dh_v4 d) v4_domain of
        Some s \<Rightarrow> Some s
      | None \<Rightarrow> Option.bind (dh_v6 d) v6_domain)"

end
