(* ===== verification/Runtime.thy ===== *)
theory Runtime
  imports Backend_Config
begin

text \<open>
  The running backend and the hot reload of its configuration, \<open>src/src/runtime/mod.rs\<close>: the handle that
  holds the configuration, the router, the DNS listener, the firewall rules and the DHCP services, how it
  is started, and \<open>apply\<close> with every early return, so that what a failed reload has already changed is
  part of its result.

  A shared pointer is modelled by what it points to. The listener keeps the router it was started with:
  its tasks own a clone of the \<open>Arc\<close>, not the \<open>ArcSwap\<close> of the handle. Instances of \<open>DynamicHosts\<close> have an
  identity, a number, because the router and the DHCP services may hold different ones.

  What the outside world does is the parameter \<open>env\<close> of each call: which rule set files load, which server
  URLs parse, which addresses can be bound, whether the firewall tool and the write of the file succeed,
  and which texts are IP addresses.
\<close>

subsection \<open>State\<close>

record dynamic_hosts_ref =
  dr_instance :: nat
  dr_domain :: "string option"

record router =
  ro_hosts :: "(string \<times> ip_addr) list"
  ro_rules :: "(drs_file \<times> string) list"
  ro_groups :: "(string \<times> upstream_group) list"
  ro_cache :: "cache_config option"
  ro_strategy :: ip_strategy
  ro_dynamic :: dynamic_hosts_ref

record dns_listener =
  li_addr :: sock_addr
  li_router :: router

record runtime =
  rt_config :: config
  rt_router :: router
  rt_dynamic :: dynamic_hosts_ref
  rt_listener :: dns_listener
  rt_firewall :: "(firewall_config \<times> 16 word) option"
  rt_dhcp :: "dhcp_config \<times> dynamic_hosts_ref"
  rt_file :: config

record env =
  base_dir :: string
  load_drs :: "string \<Rightarrow> drs_file option"
  server_parses :: "string \<Rightarrow> bool"
  can_bind :: "sock_addr \<Rightarrow> bool"
  fw_installs :: "firewall_config \<Rightarrow> bool"
  can_save :: bool
  is_ip :: "string \<Rightarrow> bool"

datatype apply_error =
  InvalidConfig config_error
| BadServer string
| BadRuleset string
| BindFailed sock_addr
| FirewallFailed
| SaveFailed

record apply_report =
  applied :: "string list"
  ignored :: "string list"

subsection \<open>Building a router\<close>

text \<open>\<open>resolve_path\<close>, and \<open>Path::join\<close> for a relative path.\<close>

definition resolve_path :: "string \<Rightarrow> string \<Rightarrow> string" where
  "resolve_path base path =
     (if path = [] \<or> prefix ''/'' path then path
      else if base = [] \<or> suffix ''/'' base then base @ path else base @ ''/'' @ path)"

fun load_rules :: "env \<Rightarrow> ruleset_entry list \<Rightarrow> apply_error + (drs_file \<times> string) list" where
  "load_rules v [] = Inr []"
| "load_rules v (e # es) =
     (case load_drs v (resolve_path (base_dir v) (re_path e)) of
        None \<Rightarrow> Inl (BadRuleset (re_path e))
      | Some d \<Rightarrow> and_then (load_rules v es) (\<lambda>rules. Inr ((d, re_upstream e) # rules)))"

definition router_of ::
    "env \<Rightarrow> config \<Rightarrow> dynamic_hosts_ref \<Rightarrow> apply_error + router" where
  "router_of v c dyn =
     (case find (\<lambda>s. \<not> server_parses v s) (concat (map (ug_servers \<circ> snd) (c_groups c))) of
        Some s \<Rightarrow> Inl (BadServer s)
      | None \<Rightarrow>
          and_then (load_rules v (c_rulesets c)) (\<lambda>rules.
            Inr \<lparr>ro_hosts = c_hosts c, ro_rules = rules, ro_groups = c_groups c,
                 ro_cache = (if cc_enable (c_cache c) then Some (c_cache c) else None),
                 ro_strategy = c_strategy c, ro_dynamic = dyn\<rparr>))"

subsection \<open>Starting\<close>

definition install_firewall :: "env \<Rightarrow> firewall_config option \<Rightarrow> 16 word
    \<Rightarrow> apply_error + (firewall_config \<times> 16 word) option" where
  "install_firewall v fw port =
     (case fw of
        None \<Rightarrow> Inr None
      | Some f \<Rightarrow>
          if \<not> fw_enable f then Inr None
          else if fw_installs v f then Inr (Some (f, port)) else Inl FirewallFailed)"

definition start_runtime :: "env \<Rightarrow> config \<Rightarrow> apply_error + runtime" where
  "start_runtime v c =
     (let dyn = \<lparr>dr_instance = 0, dr_domain = dhcp_domain_of (c_dhcp c)\<rparr>
      in and_then (router_of v c dyn) (\<lambda>r.
         if \<not> can_bind v (c_listen c) then Inl (BindFailed (c_listen c))
         else and_then (install_firewall v (c_firewall c) (sa_port (c_listen c))) (\<lambda>fw.
           Inr \<lparr>rt_config = c, rt_router = r, rt_dynamic = dyn,
                rt_listener = \<lparr>li_addr = c_listen c, li_router = r\<rparr>,
                rt_firewall = fw, rt_dhcp = (c_dhcp c, dyn), rt_file = c\<rparr>)))"

subsection \<open>Applying a new configuration\<close>

text \<open>The fields that are kept whatever the new configuration says, and the report of the ignored ones.\<close>

definition lock_readonly :: "config \<Rightarrow> config \<Rightarrow> config \<times> string list" where
  "lock_readonly old new =
     (let listen_differs = wc_listen (c_web new) \<noteq> wc_listen (c_web old);
          new1 = (if listen_differs
                  then new\<lparr>c_web := (c_web new)\<lparr>wc_listen := wc_listen (c_web old)\<rparr>\<rparr> else new);
          a = wc_auth (c_web new1); b = wc_auth (c_web old);
          auth_differs = (wa_username a \<noteq> wa_username b \<or> wa_password_hash a \<noteq> wa_password_hash b);
          new2 = (if auth_differs
                  then new1\<lparr>c_web := (c_web new1)\<lparr>wc_auth :=
                         a\<lparr>wa_username := wa_username b, wa_password_hash := wa_password_hash b\<rparr>\<rparr>\<rparr>
                  else new1)
      in (new2, (if listen_differs then [''web.listen''] else [])
                @ (if auth_differs then [''web.auth (use change-password API)''] else [])))"

definition routing_changed :: "config \<Rightarrow> config \<Rightarrow> bool" where
  "routing_changed old new \<longleftrightarrow>
     c_default_nameserver old \<noteq> c_default_nameserver new
     \<or> \<not> index_eq (c_groups old) (c_groups new)
     \<or> map ruleset_key (c_rulesets old) \<noteq> map ruleset_key (c_rulesets new)
     \<or> \<not> index_eq (c_hosts old) (c_hosts new)
     \<or> c_cache old \<noteq> c_cache new
     \<or> c_strategy old \<noteq> c_strategy new"

text \<open>
  The numbered steps of \<open>apply\<close>. A step takes the handle and the report and gives the handle it leaves,
  with an error or the report; \<open>after_step\<close> is the \<open>?\<close> behind a step.
\<close>

type_synonym step = "runtime \<times> (apply_error + apply_report)"

definition after_step :: "step \<Rightarrow> (runtime \<Rightarrow> apply_report \<Rightarrow> step) \<Rightarrow> step" where
  "after_step s f = (case s of (rt, Inl e) \<Rightarrow> (rt, Inl e) | (rt, Inr rep) \<Rightarrow> f rt rep)"

definition note_applied :: "string \<Rightarrow> apply_report \<Rightarrow> apply_report" where
  "note_applied what rep = rep\<lparr>applied := applied rep @ [what]\<rparr>"

definition note_ignored :: "string \<Rightarrow> apply_report \<Rightarrow> apply_report" where
  "note_ignored what rep = rep\<lparr>ignored := ignored rep @ [what]\<rparr>"

definition routing_step :: "env \<Rightarrow> config \<Rightarrow> config \<Rightarrow> runtime \<Rightarrow> apply_report \<Rightarrow> step" where
  "routing_step v old new rt rep =
     (let domain_changed = (dhcp_domain_of (c_dhcp old) \<noteq> dhcp_domain_of (c_dhcp new));
          rt1 = (if domain_changed
                 then rt\<lparr>rt_dynamic := \<lparr>dr_instance = Suc (dr_instance (rt_dynamic rt)),
                           dr_domain = dhcp_domain_of (c_dhcp new)\<rparr>\<rparr>
                 else rt)
      in if routing_changed old new \<or> domain_changed then
           case router_of v new (rt_dynamic rt1) of
             Inl e \<Rightarrow> (rt1, Inl e)
           | Inr r \<Rightarrow> (rt1\<lparr>rt_router := r\<rparr>, Inr (note_applied ''dns-routing'' rep))
         else (rt1, Inr rep))"

definition listen_step :: "env \<Rightarrow> config \<Rightarrow> config \<Rightarrow> runtime \<Rightarrow> apply_report \<Rightarrow> step" where
  "listen_step v old new rt rep =
     (if c_listen old = c_listen new then (rt, Inr rep)
      else if \<not> can_bind v (c_listen new) then (rt, Inl (BindFailed (c_listen new)))
      else (rt\<lparr>rt_listener := \<lparr>li_addr = c_listen new, li_router = rt_router rt\<rparr>\<rparr>,
            Inr (note_applied ''dns-listen'' rep)))"

text \<open>\<open>reapply_firewall\<close> takes the old rules away first, whatever becomes of the new ones.\<close>

definition firewall_step :: "env \<Rightarrow> config \<Rightarrow> config \<Rightarrow> runtime \<Rightarrow> apply_report \<Rightarrow> step" where
  "firewall_step v old new rt rep =
     (if c_firewall old = c_firewall new then (rt, Inr rep)
      else case install_firewall v (c_firewall new) (sa_port (c_listen new)) of
             Inl e \<Rightarrow> (rt\<lparr>rt_firewall := None\<rparr>, Inl e)
           | Inr fw \<Rightarrow> (rt\<lparr>rt_firewall := fw\<rparr>, Inr (note_applied ''firewall'' rep)))"

definition dhcp_step :: "config \<Rightarrow> config \<Rightarrow> runtime \<Rightarrow> apply_report \<Rightarrow> step" where
  "dhcp_step old new rt rep =
     (if c_dhcp old = c_dhcp new then (rt, Inr rep)
      else (rt\<lparr>rt_dhcp := (c_dhcp new, rt_dynamic rt)\<rparr>, Inr (note_applied ''dhcp'' rep)))"

definition save_step :: "env \<Rightarrow> config \<Rightarrow> config \<Rightarrow> runtime \<Rightarrow> apply_report \<Rightarrow> step" where
  "save_step v old new rt rep =
     (let rep1 = (if c_manage_resolv_conf old \<noteq> c_manage_resolv_conf new
                  then note_ignored ''manage-resolv-conf (requires restart)'' rep else rep);
          rep2 = (if c_log_level old \<noteq> c_log_level new
                  then note_ignored ''log-level (requires restart)'' rep1 else rep1)
      in if \<not> can_save v then (rt, Inl SaveFailed)
         else (rt\<lparr>rt_file := new, rt_config := new\<rparr>, Inr rep2))"

definition apply_config :: "env \<Rightarrow> config \<Rightarrow> runtime \<Rightarrow> step" where
  "apply_config v new0 rt =
     (let old = rt_config rt; (new, locked) = lock_readonly old new0
      in case validate (is_ip v) new of
           Some e \<Rightarrow> (rt, Inl (InvalidConfig e))
         | None \<Rightarrow>
             after_step (routing_step v old new rt \<lparr>applied = [], ignored = locked\<rparr>) (\<lambda>rt rep.
             after_step (listen_step v old new rt rep) (\<lambda>rt rep.
             after_step (firewall_step v old new rt rep) (\<lambda>rt rep.
             after_step (dhcp_step old new rt rep) (save_step v old new)))))"

end
