(* ===== verification/Runtime_Properties.thy ===== *)
theory Runtime_Properties
  imports Runtime
begin

text \<open>
  The hot reload of the backend (\<open>src/src/runtime/mod.rs\<close>): what every reload keeps, what it reports, and
  which of its effects the DNS listener and the firewall see.
\<close>

subsection \<open>Steps one after the other\<close>

lemma after_step_ok:
  "after_step s f = (rt', Inr r) \<longleftrightarrow> (\<exists>rt rep. s = (rt, Inr rep) \<and> f rt rep = (rt', Inr r))"
  by (auto simp: after_step_def split: prod.splits sum.splits)

lemma after_step_failed:
  "after_step s f = (rt', Inl e) \<longleftrightarrow> s = (rt', Inl e) \<or> (\<exists>rt rep. s = (rt, Inr rep) \<and> f rt rep = (rt', Inl e))"
  by (auto simp: after_step_def split: prod.splits sum.splits)

text \<open>What each step leaves alone.\<close>

lemma routing_step_frame:
  "routing_step v old new rt rep = (rt', r) \<Longrightarrow>
     rt_config rt' = rt_config rt \<and> rt_file rt' = rt_file rt \<and> rt_listener rt' = rt_listener rt
     \<and> rt_firewall rt' = rt_firewall rt \<and> rt_dhcp rt' = rt_dhcp rt"
  by (auto simp: routing_step_def Let_def split: sum.splits if_splits)

lemma listen_step_frame:
  "listen_step v old new rt rep = (rt', r) \<Longrightarrow>
     rt_config rt' = rt_config rt \<and> rt_file rt' = rt_file rt \<and> rt_router rt' = rt_router rt
     \<and> rt_dynamic rt' = rt_dynamic rt \<and> rt_firewall rt' = rt_firewall rt \<and> rt_dhcp rt' = rt_dhcp rt
     \<and> (c_listen old = c_listen new \<longrightarrow> rt_listener rt' = rt_listener rt)"
  by (auto simp: listen_step_def split: if_splits)

lemma firewall_step_frame:
  "firewall_step v old new rt rep = (rt', r) \<Longrightarrow>
     rt_config rt' = rt_config rt \<and> rt_file rt' = rt_file rt \<and> rt_router rt' = rt_router rt
     \<and> rt_dynamic rt' = rt_dynamic rt \<and> rt_listener rt' = rt_listener rt \<and> rt_dhcp rt' = rt_dhcp rt
     \<and> (c_firewall old = c_firewall new \<longrightarrow> rt_firewall rt' = rt_firewall rt)"
  by (auto simp: firewall_step_def split: sum.splits if_splits)

lemma dhcp_step_frame:
  "dhcp_step old new rt rep = (rt', r) \<Longrightarrow>
     rt_config rt' = rt_config rt \<and> rt_file rt' = rt_file rt \<and> rt_router rt' = rt_router rt
     \<and> rt_dynamic rt' = rt_dynamic rt \<and> rt_listener rt' = rt_listener rt \<and> rt_firewall rt' = rt_firewall rt"
  by (auto simp: dhcp_step_def split: if_splits)

lemma save_step_frame:
  "save_step v old new rt rep = (rt', r) \<Longrightarrow>
     rt_router rt' = rt_router rt \<and> rt_dynamic rt' = rt_dynamic rt \<and> rt_listener rt' = rt_listener rt
     \<and> rt_firewall rt' = rt_firewall rt \<and> rt_dhcp rt' = rt_dhcp rt
     \<and> (case r of Inl e \<Rightarrow> rt' = rt | Inr _ \<Rightarrow> rt_config rt' = new \<and> rt_file rt' = new)"
  by (auto simp: save_step_def Let_def split: if_splits)

lemmas step_frames = routing_step_frame listen_step_frame firewall_step_frame dhcp_step_frame save_step_frame

text \<open>A successful call, step by step, and a failed one.\<close>

lemma apply_config_ok:
  assumes "apply_config v new0 rt = (rt', Inr rep)"
  obtains new locked rt1 rep1 rt2 rep2 rt3 rep3 rt4 rep4 where
    "lock_readonly (rt_config rt) new0 = (new, locked)" "validate (is_ip v) new = None"
    "routing_step v (rt_config rt) new rt \<lparr>applied = [], ignored = locked\<rparr> = (rt1, Inr rep1)"
    "listen_step v (rt_config rt) new rt1 rep1 = (rt2, Inr rep2)"
    "firewall_step v (rt_config rt) new rt2 rep2 = (rt3, Inr rep3)"
    "dhcp_step (rt_config rt) new rt3 rep3 = (rt4, Inr rep4)"
    "save_step v (rt_config rt) new rt4 rep4 = (rt', Inr rep)"
proof -
  obtain new locked where lock: "lock_readonly (rt_config rt) new0 = (new, locked)" by fastforce
  with assms that show thesis
    by (auto simp: apply_config_def after_step_ok Let_def split: option.splits)
qed

lemma lock_readonly_fields:
  assumes "lock_readonly old new0 = (new, locked)"
  shows "wc_listen (c_web new) = wc_listen (c_web old)"
    "wa_username (wc_auth (c_web new)) = wa_username (wc_auth (c_web old))"
    "wa_password_hash (wc_auth (c_web new)) = wa_password_hash (wc_auth (c_web old))"
    "wa_enable (wc_auth (c_web new)) = wa_enable (wc_auth (c_web new0))"
    "c_listen new = c_listen new0" "c_groups new = c_groups new0" "c_rulesets new = c_rulesets new0"
    "c_hosts new = c_hosts new0" "c_cache new = c_cache new0" "c_strategy new = c_strategy new0"
    "c_default_nameserver new = c_default_nameserver new0" "c_firewall new = c_firewall new0"
    "c_dhcp new = c_dhcp new0" "c_manage_resolv_conf new = c_manage_resolv_conf new0"
    "c_log_level new = c_log_level new0" "snd (lock_readonly old new0) = locked"
  using assms by (auto simp: lock_readonly_def Let_def split: if_splits)

lemma apply_config_result:
  assumes "apply_config v new0 rt = (rt', r)" "lock_readonly (rt_config rt) new0 = (new, locked)"
  shows "case r of Inl e \<Rightarrow> rt_config rt' = rt_config rt \<and> rt_file rt' = rt_file rt
    | Inr rep \<Rightarrow> rt_config rt' = new \<and> rt_file rt' = new"
proof (cases r)
  case (Inl e)
  then show ?thesis
    using assms by (auto simp: apply_config_def after_step_failed Let_def dest!: step_frames split: option.splits)
next
  case (Inr rep)
  show ?thesis
    by (rule apply_config_ok [OF assms(1) [unfolded Inr]]) (use assms(2) Inr in \<open>auto dest!: save_step_frame\<close>)
qed

lemma lock_same: "lock_readonly c c = (c, [])"
  by (simp add: lock_readonly_def)

subsection \<open>The configuration\<close>


text \<open>
  No reload, successful or not, changes the user name, the password hash or the address of the panel,
  whatever the configuration it is given says.
\<close>

theorem reload_keeps_credentials:
  "wa_username (wc_auth (c_web (rt_config (fst (apply_config v new rt))))) = wa_username (wc_auth (c_web (rt_config rt)))
   \<and> wa_password_hash (wc_auth (c_web (rt_config (fst (apply_config v new rt)))))
      = wa_password_hash (wc_auth (c_web (rt_config rt)))
   \<and> wc_listen (c_web (rt_config (fst (apply_config v new rt)))) = wc_listen (c_web (rt_config rt))"
proof -
  obtain c locked where lock: "lock_readonly (rt_config rt) new = (c, locked)" by fastforce
  obtain rt' r where ap: "apply_config v new rt = (rt', r)" by fastforce
  have "rt_config rt' = rt_config rt \<or> rt_config rt' = c"
    using apply_config_result [OF ap lock] by (cases r) auto
  then show ?thesis using lock_readonly_fields [OF lock] ap by auto
qed

lemma routing_changed_lock:
  "lock_readonly old0 new0 = (new, locked) \<Longrightarrow> routing_changed old new = routing_changed old new0"
  using lock_readonly_fields by (simp add: routing_changed_def)

text \<open>
  The report of a successful reload names exactly the parts whose section differs from the
  configuration before, in the order they are handled, and what it ignored: the locked fields and the two
  settings that need a restart.
\<close>

theorem reload_report:
  assumes "apply_config v new rt = (rt', Inr rep)"
  shows "applied rep =
      (if routing_changed (rt_config rt) new
          \<or> dhcp_domain_of (c_dhcp (rt_config rt)) \<noteq> dhcp_domain_of (c_dhcp new) then [''dns-routing''] else [])
      @ (if c_listen (rt_config rt) \<noteq> c_listen new then [''dns-listen''] else [])
      @ (if c_firewall (rt_config rt) \<noteq> c_firewall new then [''firewall''] else [])
      @ (if c_dhcp (rt_config rt) \<noteq> c_dhcp new then [''dhcp''] else [])
    \<and> ignored rep = snd (lock_readonly (rt_config rt) new)
      @ (if c_manage_resolv_conf (rt_config rt) \<noteq> c_manage_resolv_conf new
         then [''manage-resolv-conf (requires restart)''] else [])
      @ (if c_log_level (rt_config rt) \<noteq> c_log_level new then [''log-level (requires restart)''] else [])"
proof (rule apply_config_ok [OF assms])
  fix d locked q1 p1 q2 p2 q3 p3 q4 p4
  assume l: "lock_readonly (rt_config rt) new = (d, locked)"
    and s: "routing_step v (rt_config rt) d rt \<lparr>applied = [], ignored = locked\<rparr> = (q1, Inr p1)"
      "listen_step v (rt_config rt) d q1 p1 = (q2, Inr p2)"
      "firewall_step v (rt_config rt) d q2 p2 = (q3, Inr p3)"
      "dhcp_step (rt_config rt) d q3 p3 = (q4, Inr p4)"
      "save_step v (rt_config rt) d q4 p4 = (rt', Inr rep)"
  note same = lock_readonly_fields [OF l] routing_changed_lock [OF l, of "rt_config rt"]
  have p1: "applied p1 = (if routing_changed (rt_config rt) new
        \<or> dhcp_domain_of (c_dhcp (rt_config rt)) \<noteq> dhcp_domain_of (c_dhcp new) then [''dns-routing''] else [])
      \<and> ignored p1 = locked"
    using s(1) same by (auto simp: routing_step_def Let_def note_applied_def split: if_splits sum.splits)
  have p2: "applied p2 = applied p1 @ (if c_listen (rt_config rt) \<noteq> c_listen new then [''dns-listen''] else [])
      \<and> ignored p2 = ignored p1"
    using s(2) same by (auto simp: listen_step_def note_applied_def split: if_splits)
  have p3: "applied p3 = applied p2 @ (if c_firewall (rt_config rt) \<noteq> c_firewall new then [''firewall''] else [])
      \<and> ignored p3 = ignored p2"
    using s(3) same by (auto simp: firewall_step_def note_applied_def split: if_splits sum.splits)
  have p4: "applied p4 = applied p3 @ (if c_dhcp (rt_config rt) \<noteq> c_dhcp new then [''dhcp''] else [])
      \<and> ignored p4 = ignored p3"
    using s(4) same by (auto simp: dhcp_step_def note_applied_def split: if_splits)
  have "applied rep = applied p4 \<and> ignored rep = ignored p4
      @ (if c_manage_resolv_conf (rt_config rt) \<noteq> c_manage_resolv_conf new
         then [''manage-resolv-conf (requires restart)''] else [])
      @ (if c_log_level (rt_config rt) \<noteq> c_log_level new then [''log-level (requires restart)''] else [])"
    using s(5) same by (auto simp: save_step_def Let_def note_ignored_def split: if_splits)
  with p1 p2 p3 p4 show ?thesis by (simp add: l)
qed

subsection \<open>The router of the listener\<close>

lemma apply_keeps_listener:
  assumes "c_listen new = c_listen (rt_config rt)"
  shows "rt_listener (fst (apply_config v new rt)) = rt_listener rt"
proof -
  obtain c locked where lock: "lock_readonly (rt_config rt) new = (c, locked)" by fastforce
  obtain rt' r where ap: "apply_config v new rt = (rt', r)" by fastforce
  have c: "c_listen (rt_config rt) = c_listen c" using lock_readonly_fields(5) [OF lock] assms by simp
  show ?thesis
  proof (cases r)
    case (Inl e)
    then show ?thesis
      using ap lock c
      by (auto simp: apply_config_def after_step_failed Let_def dest!: step_frames split: option.splits)
  next
    case (Inr rep)
    show ?thesis
      by (rule apply_config_ok [OF ap [unfolded Inr]]) (use lock c ap in \<open>auto dest!: step_frames\<close>)
  qed
qed

lemma apply_keeps_listen:
  assumes "c_listen new = c_listen (rt_config rt)"
  shows "c_listen (rt_config (fst (apply_config v new rt))) = c_listen (rt_config rt)"
proof -
  obtain c locked where lock: "lock_readonly (rt_config rt) new = (c, locked)" by fastforce
  obtain rt' r where ap: "apply_config v new rt = (rt', r)" by fastforce
  show ?thesis
    using apply_config_result [OF ap lock] lock_readonly_fields(5) [OF lock] assms ap by (cases r) auto
qed

fun reload_all :: "(env \<times> config) list \<Rightarrow> runtime \<Rightarrow> runtime" where
  "reload_all [] rt = rt"
| "reload_all ((v, new) # es) rt = reload_all es (fst (apply_config v new rt))"

lemma reload_all_listener:
  "list_all (\<lambda>(v, new). c_listen new = c_listen (rt_config rt)) es \<Longrightarrow>
     rt_listener (reload_all es rt) = rt_listener rt"
proof (induction es arbitrary: rt)
  case (Cons x es)
  obtain v new where x: "x = (v, new)" by (cases x)
  then have "c_listen new = c_listen (rt_config rt)" using Cons.prems by simp
  note same = apply_keeps_listener [OF this] apply_keeps_listen [OF this]
  show ?case
    using Cons.IH [of "fst (apply_config v new rt)"] Cons.prems same by (simp add: x)
qed simp

lemma start_runtime_state:
  assumes "start_runtime v c = Inr rt"
  shows "rt_config rt = c" "rt_listener rt = \<lparr>li_addr = c_listen c, li_router = rt_router rt\<rparr>"
    "router_of v c (rt_dynamic rt) = Inr (rt_router rt)"
    "install_firewall v (c_firewall c) (sa_port (c_listen c)) = Inr (rt_firewall rt)"
  using assms by (auto simp: start_runtime_def Let_def and_then_Inr_iff split: if_splits)

text \<open>
  C16. As long as the listen address stays the same, the DNS listener answers with the router it was
  started with: no reload reaches it, however many there are and whatever they report as applied. The
  rules, groups, hosts and cache settings saved in the panel have no effect until the listen address
  changes or the program is started again.
\<close>

theorem saved_rules_do_not_reach_the_listener:
  assumes "start_runtime v c = Inr rt"
    and "list_all (\<lambda>(_, new). c_listen new = c_listen c) reloads"
  shows "router_of v c (rt_dynamic rt) = Inr (li_router (rt_listener (reload_all reloads rt)))"
  using reload_all_listener [of rt reloads] start_runtime_state [OF assms(1)] assms(2) by simp

lemma load_rules_error: "load_rules v es = Inl e \<Longrightarrow> \<exists>p. e = BadRuleset p"
proof (induction es)
  case (Cons x es)
  then show ?case by (cases "load_rules v es") (auto split: option.splits)
qed simp

lemma router_of_error: "router_of v c dyn = Inl e \<Longrightarrow> e \<noteq> BindFailed a \<and> e \<noteq> FirewallFailed"
  using load_rules_error [of v "c_rulesets c"]
  by (cases "load_rules v (c_rulesets c)") (auto simp: router_of_def split: option.splits)

text \<open>Which step gives which error.\<close>

lemma routing_step_error: "routing_step v old new rt rep = (rt', Inl e) \<Longrightarrow> e \<noteq> BindFailed a \<and> e \<noteq> FirewallFailed"
  by (auto simp: routing_step_def Let_def dest: router_of_error split: sum.splits if_splits)

lemma listen_step_error: "listen_step v old new rt rep = (rt', Inl e) \<Longrightarrow> rt' = rt \<and> e = BindFailed (c_listen new)"
  by (auto simp: listen_step_def split: if_splits)

lemma firewall_step_error:
  "firewall_step v old new rt rep = (rt', Inl e) \<Longrightarrow> rt' = rt\<lparr>rt_firewall := None\<rparr> \<and> e = FirewallFailed"
  by (auto simp: firewall_step_def install_firewall_def split: sum.splits if_splits option.splits)

lemma dhcp_step_error: "dhcp_step old new rt rep \<noteq> (rt', Inl e)"
  by (simp add: dhcp_step_def)

lemma save_step_error: "save_step v old new rt rep = (rt', Inl e) \<Longrightarrow> rt' = rt \<and> e = SaveFailed"
  by (auto simp: save_step_def Let_def split: if_splits)

lemmas step_errors = routing_step_error listen_step_error firewall_step_error save_step_error
  dhcp_step_error [THEN notE]

lemma routing_step_stores:
  assumes "routing_step v old new rt rep = (rt', Inr rep')" "routing_changed old new"
    and "dhcp_domain_of (c_dhcp old) = dhcp_domain_of (c_dhcp new)"
  shows "router_of v new (rt_dynamic rt) = Inr (rt_router rt')"
  using assms by (auto simp: routing_step_def split: sum.splits)

lemma routing_step_skips:
  assumes "\<not> routing_changed old new" "dhcp_domain_of (c_dhcp old) = dhcp_domain_of (c_dhcp new)"
  shows "routing_step v old new rt rep = (rt, Inr rep)"
  using assms by (simp add: routing_step_def)

text \<open>
  The rules of a rejected configuration can come into force later. When a reload builds the new
  router but then cannot bind the new address, it reports an error and the old configuration stays, but
  the handle keeps the new router; the next reload that only changes the address binds the listener with
  it.
\<close>

theorem rejected_rules_come_into_force:
  assumes "apply_config v bad rt = (rt1, Inl (BindFailed a))"
    and "routing_changed (rt_config rt) bad" "c_dhcp bad = c_dhcp (rt_config rt)"
    and "apply_config v' good rt1 = (rt2, Inr rep)"
    and "\<not> routing_changed (rt_config rt) good" "c_dhcp good = c_dhcp (rt_config rt)"
    and "c_listen good \<noteq> c_listen (rt_config rt)"
  shows "rt_config rt1 = rt_config rt
    \<and> router_of v (fst (lock_readonly (rt_config rt) bad)) (rt_dynamic rt) = Inr (li_router (rt_listener rt2))"
proof -
  let ?old = "rt_config rt"
  obtain b locked where b: "lock_readonly ?old bad = (b, locked)" by fastforce
  have kept: "rt_config rt1 = ?old" using apply_config_result [OF assms(1) b] by simp
  obtain r1 rep1 where r1: "routing_step v ?old b rt \<lparr>applied = [], ignored = locked\<rparr> = (r1, Inr rep1)"
    "rt_router rt1 = rt_router r1"
    using assms(1) b
    by (auto simp: apply_config_def after_step_failed Let_def dest: step_errors split: option.splits)
  have built: "router_of v b (rt_dynamic rt) = Inr (rt_router rt1)"
    using routing_step_stores [OF r1(1)] routing_changed_lock [OF b, of ?old] assms(2,3) r1(2)
      lock_readonly_fields(13) [OF b] by simp
  show ?thesis
  proof (rule apply_config_ok [OF assms(4)])
    fix new locked2 q1 p1 q2 p2 q3 p3 q4 p4
    assume l: "lock_readonly (rt_config rt1) good = (new, locked2)"
      and s: "routing_step v' (rt_config rt1) new rt1 \<lparr>applied = [], ignored = locked2\<rparr> = (q1, Inr p1)"
        "listen_step v' (rt_config rt1) new q1 p1 = (q2, Inr p2)"
        "firewall_step v' (rt_config rt1) new q2 p2 = (q3, Inr p3)"
        "dhcp_step (rt_config rt1) new q3 p3 = (q4, Inr p4)"
        "save_step v' (rt_config rt1) new q4 p4 = (rt2, Inr rep)"
    have "q1 = rt1"
      using s(1) routing_step_skips [of "rt_config rt1" new] routing_changed_lock [OF l, of ?old] assms(5,6)
        lock_readonly_fields(13) [OF l] kept by simp
    moreover have "c_listen (rt_config rt1) \<noteq> c_listen new"
      using assms(7) kept lock_readonly_fields(5) [OF l] by simp
    ultimately have "li_router (rt_listener q2) = rt_router rt1"
      using s(2) by (auto simp: listen_step_def split: if_splits)
    then have "li_router (rt_listener rt2) = rt_router rt1"
      using s(3-5) by (auto dest!: step_frames)
    then show ?thesis using kept built b by simp
  qed
qed

subsection \<open>The firewall rules\<close>

text \<open>
  A reload that changes the listen port but not the firewall section leaves the redirection to the
  old port in place: the listener answers on the new port, and the redirected queries go to a port where
  nobody listens any more.
\<close>

theorem redirection_keeps_the_old_port:
  assumes "start_runtime v c = Inr rt" "c_firewall c = Some f" "fw_enable f"
    and "apply_config v' new rt = (rt', Inr rep)" "c_firewall new = Some f" "c_listen new \<noteq> c_listen c"
  shows "rt_firewall rt' = Some (f, sa_port (c_listen c)) \<and> li_addr (rt_listener rt') = c_listen new"
proof -
  have fw: "rt_firewall rt = Some (f, sa_port (c_listen c))" and old: "rt_config rt = c"
    using start_runtime_state [OF assms(1)] assms(2,3) by (auto simp: install_firewall_def split: if_splits)
  show ?thesis
  proof (rule apply_config_ok [OF assms(4)])
    fix d locked q1 p1 q2 p2 q3 p3 q4 p4
    assume l: "lock_readonly (rt_config rt) new = (d, locked)"
      and s: "routing_step v' (rt_config rt) d rt \<lparr>applied = [], ignored = locked\<rparr> = (q1, Inr p1)"
        "listen_step v' (rt_config rt) d q1 p1 = (q2, Inr p2)"
        "firewall_step v' (rt_config rt) d q2 p2 = (q3, Inr p3)"
        "dhcp_step (rt_config rt) d q3 p3 = (q4, Inr p4)"
        "save_step v' (rt_config rt) d q4 p4 = (rt', Inr rep)"
    have same: "c_firewall (rt_config rt) = c_firewall d" "c_listen d = c_listen new"
      using lock_readonly_fields [OF l] assms(2,5) old by simp_all
    have "li_addr (rt_listener q2) = c_listen new"
      using s(2) same assms(6) old by (auto simp: listen_step_def split: if_splits)
    moreover have "rt_listener rt' = rt_listener q2" "rt_firewall rt' = rt_firewall rt"
      using s same by (auto dest!: step_frames)
    ultimately show ?thesis using fw by simp
  qed
qed

text \<open>
  When the firewall tool fails during a reload, the old rules are already gone, and applying the
  configuration that is still in force does not bring them back: it is compared with itself and the
  firewall is skipped, while the answer reports success.
\<close>

theorem failed_firewall_is_not_restored:
  assumes "apply_config v new rt = (rt1, Inl FirewallFailed)"
    and "apply_config v' (rt_config rt1) rt1 = (rt2, Inr rep)"
  shows "rt_config rt2 = rt_config rt \<and> rt_firewall rt2 = None"
proof -
  obtain c locked where lock: "lock_readonly (rt_config rt) new = (c, locked)" by fastforce
  have kept: "rt_config rt1 = rt_config rt" using apply_config_result [OF assms(1) lock] by simp
  have gone: "rt_firewall rt1 = None"
    using assms(1) lock
    by (auto simp: apply_config_def after_step_failed Let_def dest: step_errors split: option.splits)
  have "rt_config rt2 = rt_config rt1" using apply_config_result [OF assms(2) lock_same] by simp
  moreover have "rt_firewall rt2 = rt_firewall rt1"
    by (rule apply_config_ok [OF assms(2)]) (auto simp: lock_same dest!: step_frames)
  ultimately show ?thesis using kept gone by simp
qed

subsection \<open>A concrete handle\<close>

definition sample_group :: "string \<Rightarrow> upstream_group" where
  "sample_group url = \<lparr>ug_servers = [url], ug_strategy = RoundRobin, ug_insecure = False, ug_client_subnet = None\<rparr>"

definition sample_addr :: "16 word \<Rightarrow> sock_addr" where
  "sample_addr port = \<lparr>sa_ip = V4 0x7F000001, sa_port = port\<rparr>"

definition sample_fw :: firewall_config where
  "sample_fw = \<lparr>fw_enable = True, fw_backend = ''auto'', fw_localhost_hijack = True, fw_lan_hijack = False,
     fw_lan_cidr = None, fw_lan_interface = None\<rparr>"

definition sample_dhcp :: dhcp_config where
  "sample_dhcp = \<lparr>dh_v4 = None, dh_v6 = None, dh_ra = None\<rparr>"

definition sample_config :: "16 word \<Rightarrow> string \<Rightarrow> config" where
  "sample_config port url = \<lparr>c_log_level = LogInfo, c_listen = sample_addr port,
     c_manage_resolv_conf = False, c_strategy = IpDefault, c_default_nameserver = [sample_addr 53],
     c_groups = [(''default'', sample_group url)], c_rulesets = [], c_hosts = [],
     c_cache = \<lparr>cc_enable = True, cc_size = 4096, cc_min_ttl = 60, cc_max_ttl = 86400\<rparr>,
     c_firewall = Some sample_fw,
     c_dhcp = sample_dhcp,
     c_web = \<lparr>wc_enable = True, wc_listen = sample_addr 8087, wc_query_log_size = 5000,
       wc_sqlite_path = ''/var/lib/relay/stats.db'', wc_web_dir = None,
       wc_auth = \<lparr>wa_enable = False, wa_username = ''admin'', wa_password_hash = []\<rparr>\<rparr>\<rparr>"

text \<open>An outside world in which only port 1 cannot be bound, and one whose firewall tool fails.\<close>

definition sample_env :: "bool \<Rightarrow> env" where
  "sample_env firewall_works = \<lparr>base_dir = ''/etc/relay'', load_drs = (\<lambda>_. None), server_parses = (\<lambda>_. True),
     can_bind = (\<lambda>a. sa_port a \<noteq> 1), fw_installs = (\<lambda>f. firewall_works \<or> fw_lan_hijack f), can_save = True,
     is_ip = (\<lambda>_. True)\<rparr>"

definition sample_router :: "string \<Rightarrow> router" where
  "sample_router url = \<lparr>ro_hosts = [], ro_rules = [], ro_groups = [(''default'', sample_group url)],
     ro_cache = Some \<lparr>cc_enable = True, cc_size = 4096, cc_min_ttl = 60, cc_max_ttl = 86400\<rparr>,
     ro_strategy = IpDefault, ro_dynamic = \<lparr>dr_instance = 0, dr_domain = None\<rparr>\<rparr>"

definition sample_runtime :: "16 word \<Rightarrow> string \<Rightarrow> runtime" where
  "sample_runtime port url = \<lparr>rt_config = sample_config port url, rt_router = sample_router url,
     rt_dynamic = \<lparr>dr_instance = 0, dr_domain = None\<rparr>,
     rt_listener = \<lparr>li_addr = sample_addr port, li_router = sample_router url\<rparr>,
     rt_firewall = Some (sample_fw, port),
     rt_dhcp = (sample_dhcp, \<lparr>dr_instance = 0, dr_domain = None\<rparr>),
     rt_file = sample_config port url\<rparr>"

lemma sample_config_fields [simp]:
  "c_listen (sample_config p u) = sample_addr p" "c_groups (sample_config p u) = [(''default'', sample_group u)]"
  "c_rulesets (sample_config p u) = []" "c_hosts (sample_config p u) = []"
  "c_firewall (sample_config p u) = Some sample_fw" "c_dhcp (sample_config p u) = sample_dhcp"
  "dhcp_domain_of sample_dhcp = None" "c_strategy (sample_config p u) = IpDefault"
  "c_manage_resolv_conf (sample_config p u) = False" "c_log_level (sample_config p u) = LogInfo"
  by (simp_all add: sample_config_def sample_dhcp_def dhcp_domain_of_def)

lemma sample_env_fields [simp]:
  "server_parses (sample_env b) s" "can_bind (sample_env b) (sample_addr p) \<longleftrightarrow> p \<noteq> 1" "can_save (sample_env b)"
  "fw_installs (sample_env b) sample_fw \<longleftrightarrow> b" "is_ip (sample_env b) s" "fw_enable sample_fw"
  by (simp_all add: sample_env_def sample_addr_def sample_fw_def)

lemma sample_addr_eq [simp]: "sa_port (sample_addr p) = p" "sample_addr p = sample_addr q \<longleftrightarrow> p = q"
  by (simp_all add: sample_addr_def)

lemma find_False [simp]: "find (\<lambda>x. False) xs = None"
  by (induction xs) simp_all

lemma sample_router_of [simp]:
  "router_of (sample_env w) (sample_config q b) \<lparr>dr_instance = 0, dr_domain = None\<rparr> = Inr (sample_router b)"
  by (simp add: router_of_def sample_router_def) (simp add: sample_config_def)

lemma sample_start: "start_runtime (sample_env True) (sample_config 53 url) = Inr (sample_runtime 53 url)"
  by (simp add: start_runtime_def install_firewall_def sample_runtime_def Let_def)

lemma sample_valid [simp]: "validate (is_ip (sample_env b)) (sample_config port url) = None"
  by (simp add: validate_def Let_def) (simp add: sample_config_def sample_addr_def)

lemma sample_group_eq: "sample_group a = sample_group b \<longleftrightarrow> a = b"
  by (simp add: sample_group_def)

lemma sample_routing_changed [simp]:
  "routing_changed (sample_config p a) (sample_config q b) \<longleftrightarrow> a \<noteq> b"
  by (auto simp: routing_changed_def sample_config_def index_eq_def sample_group_eq)

lemma sample_lock [simp]: "lock_readonly (sample_config p a) (sample_config q b) = (sample_config q b, [])"
  by (simp add: lock_readonly_def sample_config_def)

text \<open>A change of the group alone: it is applied, and the listener does not see it.\<close>

lemma sample_reload:
  "fst (apply_config (sample_env True) (sample_config 53 ''b'') (sample_runtime 53 ''a''))
     = (sample_runtime 53 ''b'')\<lparr>rt_listener := \<lparr>li_addr = sample_addr 53, li_router = sample_router ''a''\<rparr>\<rparr>"
  by (simp add: apply_config_def after_step_def routing_step_def listen_step_def firewall_step_def
    dhcp_step_def save_step_def Let_def note_applied_def sample_runtime_def)

theorem saved_rules_do_not_reach_the_listener_witness:
  "li_router (rt_listener (reload_all [(sample_env True, sample_config 53 ''b'')] (sample_runtime 53 ''a''))) = sample_router ''a''
   \<and> rt_router (reload_all [(sample_env True, sample_config 53 ''b'')] (sample_runtime 53 ''a'')) = sample_router ''b''"
proof -
  have "router_of (sample_env True) (sample_config 53 ''a'') (rt_dynamic (sample_runtime 53 ''a''))
      = Inr (li_router (rt_listener (reload_all [(sample_env True, sample_config 53 ''b'')] (sample_runtime 53 ''a''))))"
    by (rule saved_rules_do_not_reach_the_listener [OF sample_start]) simp
  moreover have "rt_dynamic (sample_runtime 53 ''a'') = \<lparr>dr_instance = 0, dr_domain = None\<rparr>"
    by (simp add: sample_runtime_def)
  ultimately show ?thesis
    using sample_reload by (simp add: sample_runtime_def)
qed

lemmas apply_evals = apply_config_def after_step_def routing_step_def listen_step_def firewall_step_def
  dhcp_step_def save_step_def install_firewall_def Let_def note_applied_def

lemma sample_rejected:
  "apply_config (sample_env True) (sample_config 1 ''b'') (sample_runtime 53 ''a'')
     = ((sample_runtime 53 ''a'')\<lparr>rt_router := sample_router ''b''\<rparr>, Inl (BindFailed (sample_addr 1)))"
  by (simp add: apply_evals sample_runtime_def)

lemma sample_moved:
  "\<exists>rt rep. apply_config (sample_env True) (sample_config 54 ''a'')
       ((sample_runtime 53 ''a'')\<lparr>rt_router := sample_router u\<rparr>) = (rt, Inr rep)
     \<and> rt_listener rt = \<lparr>li_addr = sample_addr 54, li_router = sample_router u\<rparr>"
  by (simp add: apply_evals sample_runtime_def)

theorem rejected_rules_come_into_force_witness:
  "\<exists>rt rep. apply_config (sample_env True) (sample_config 54 ''a'')
       (fst (apply_config (sample_env True) (sample_config 1 ''b'') (sample_runtime 53 ''a''))) = (rt, Inr rep)
     \<and> router_of (sample_env True) (sample_config 1 ''b'') \<lparr>dr_instance = 0, dr_domain = None\<rparr>
         = Inr (li_router (rt_listener rt))"
proof -
  obtain rt rep where moved: "apply_config (sample_env True) (sample_config 54 ''a'')
    ((sample_runtime 53 ''a'')\<lparr>rt_router := sample_router ''b''\<rparr>) = (rt, Inr rep)"
    using sample_moved by blast
  have old: "rt_config (sample_runtime 53 ''a'') = sample_config 53 ''a''"
    "rt_dynamic (sample_runtime 53 ''a'') = \<lparr>dr_instance = 0, dr_domain = None\<rparr>"
    by (simp_all add: sample_runtime_def)
  show ?thesis
    using rejected_rules_come_into_force [OF sample_rejected _ _ moved] moved sample_rejected by (simp add: old)
qed

theorem redirection_keeps_the_old_port_witness:
  "\<exists>rt rep. apply_config (sample_env True) (sample_config 54 ''a'') (sample_runtime 53 ''a'') = (rt, Inr rep)
     \<and> rt_firewall rt = Some (sample_fw, 53) \<and> sa_port (li_addr (rt_listener rt)) = 54"
proof -
  have "(sample_runtime 53 ''a'')\<lparr>rt_router := sample_router ''a''\<rparr> = sample_runtime 53 ''a''"
    by (simp add: sample_runtime_def)
  then obtain rt rep where moved:
    "apply_config (sample_env True) (sample_config 54 ''a'') (sample_runtime 53 ''a'') = (rt, Inr rep)"
    using sample_moved [of "''a''"] by auto
  then show ?thesis
    using redirection_keeps_the_old_port [OF sample_start _ _ moved] by simp
qed

definition sample_other_fw :: config where
  "sample_other_fw = (sample_config 53 ''a'')\<lparr>c_firewall := Some (sample_fw\<lparr>fw_backend := ''nftables''\<rparr>)\<rparr>"

lemma sample_other_fw_facts [simp]:
  "lock_readonly (sample_config 53 ''a'') sample_other_fw = (sample_other_fw, [])"
  "validate (is_ip (sample_env b)) sample_other_fw = None"
  "\<not> routing_changed (sample_config 53 ''a'') sample_other_fw"
  "c_dhcp sample_other_fw = sample_dhcp" "c_listen sample_other_fw = sample_addr 53"
  "c_firewall sample_other_fw = Some (sample_fw\<lparr>fw_backend := ''nftables''\<rparr>)"
  "sample_fw\<lparr>fw_backend := ''nftables''\<rparr> \<noteq> sample_fw" "sample_fw \<noteq> sample_fw\<lparr>fw_backend := ''nftables''\<rparr>"
  "\<not> fw_installs (sample_env False) (sample_fw\<lparr>fw_backend := ''nftables''\<rparr>)"
  by (simp_all add: sample_other_fw_def lock_readonly_def validate_def routing_changed_def index_eq_def
    firewall_enabled_def Let_def sample_env_def sample_fw_def) (simp_all add: sample_config_def sample_addr_def)

lemma sample_fw_failed:
  "apply_config (sample_env False) sample_other_fw (sample_runtime 53 ''a'')
     = ((sample_runtime 53 ''a'')\<lparr>rt_firewall := None\<rparr>, Inl FirewallFailed)"
  by (simp add: apply_evals sample_runtime_def)

theorem failed_firewall_is_not_restored_witness:
  "\<exists>rt rep. apply_config (sample_env True) (sample_config 53 ''a'')
       (fst (apply_config (sample_env False) sample_other_fw (sample_runtime 53 ''a''))) = (rt, Inr rep)
     \<and> rt_firewall rt = None \<and> c_firewall (rt_config rt) = Some sample_fw"
proof -
  have old: "rt_config ((sample_runtime 53 ''a'')\<lparr>rt_firewall := None\<rparr>) = sample_config 53 ''a''"
    by (simp add: sample_runtime_def)
  have "\<exists>rt rep. apply_config (sample_env True) (rt_config ((sample_runtime 53 ''a'')\<lparr>rt_firewall := None\<rparr>))
      ((sample_runtime 53 ''a'')\<lparr>rt_firewall := None\<rparr>) = (rt, Inr rep)"
    by (simp add: apply_evals sample_runtime_def)
  then obtain rt rep where again: "apply_config (sample_env True)
      (rt_config ((sample_runtime 53 ''a'')\<lparr>rt_firewall := None\<rparr>))
      ((sample_runtime 53 ''a'')\<lparr>rt_firewall := None\<rparr>) = (rt, Inr rep)" by blast
  show ?thesis
    using failed_firewall_is_not_restored [OF sample_fw_failed again] again sample_fw_failed old
    by (simp add: sample_runtime_def)
qed

theorem reload_report_witness:
  "\<exists>rt rep. apply_config (sample_env True) (sample_config 53 ''b'') (sample_runtime 53 ''a'') = (rt, Inr rep)
     \<and> applied rep = [''dns-routing''] \<and> ignored rep = []"
proof -
  have old: "rt_config (sample_runtime 53 ''a'') = sample_config 53 ''a''" by (simp add: sample_runtime_def)
  have "\<exists>rt rep. apply_config (sample_env True) (sample_config 53 ''b'') (sample_runtime 53 ''a'') = (rt, Inr rep)"
    by (simp add: apply_evals sample_runtime_def)
  then obtain rt rep where again:
    "apply_config (sample_env True) (sample_config 53 ''b'') (sample_runtime 53 ''a'') = (rt, Inr rep)" by blast
  then show ?thesis using reload_report [OF again] by (simp add: old)
qed

end
