(* ===== verification/Web_Auth.thy ===== *)
theory Web_Auth
  imports Runtime Session
begin

text \<open>
  The sessions of the panel on the backend, \<open>src/src/web/auth.rs\<close>, and the handlers that use them
  (\<open>src/src/web/api.rs\<close>): login, logout, the change of the password, and the configuration as it is sent
  to the panel and taken back.

  Time is in nanoseconds and never runs backwards. The random bytes of a token, the outcome of the bcrypt
  functions and the conversion between \<open>Config\<close> and JSON (derived by \<open>serde\<close>) are parameters. A response
  is the record the API client reads (\<open>Api_Client\<close>), with the \<open>Set-Cookie\<close> header beside it.
\<close>

subsection \<open>Sessions\<close>

definition session_ttl :: nat where
  "session_ttl = 24 * 3600 * 10 ^ 9"

definition session_cookie_name :: string where
  "session_cookie_name = ''relay_session''"

record auth_state =
  as_config :: web_auth_config
  as_sessions :: "string \<Rightarrow> nat option"

definition new_auth_state :: "web_auth_config \<Rightarrow> auth_state" where
  "new_auth_state cfg = \<lparr>as_config = cfg, as_sessions = (\<lambda>_. None)\<rparr>"

text \<open>\<open>constant_time_eq\<close>: the differences of all bytes are collected before the verdict.\<close>

definition constant_time_eq :: "byte list \<Rightarrow> byte list \<Rightarrow> bool" where
  "constant_time_eq a b =
     (if length a \<noteq> length b then False
      else fold (\<lambda>(x, y) diff. diff OR (x XOR y)) (zip a b) 0 = 0)"

definition lower_hex_digit :: "nat \<Rightarrow> char" where
  "lower_hex_digit d = (char_of :: nat \<Rightarrow> char) (if d < 10 then 48 + d else 87 + d)"

definition hex_encode :: "byte list \<Rightarrow> string" where
  "hex_encode bytes = concat (map (\<lambda>b. [lower_hex_digit (unat b div 16), lower_hex_digit (unat b mod 16)]) bytes)"

text \<open>\<open>bcrypt_verify\<close> gives no verdict on a malformed hash; then the login is refused.\<close>

type_synonym bcrypt = "string \<Rightarrow> string \<Rightarrow> bool option"

definition password_ok :: "bcrypt \<Rightarrow> string \<Rightarrow> string \<Rightarrow> bool" where
  "password_ok bc password hash = (case bc password hash of Some b \<Rightarrow> b | None \<Rightarrow> False)"

definition login :: "bcrypt \<Rightarrow> string \<Rightarrow> string \<Rightarrow> byte list \<Rightarrow> nat \<Rightarrow> auth_state \<Rightarrow> auth_state \<times> string option" where
  "login bc username password random now s =
     (if \<not> constant_time_eq (as_bytes username) (as_bytes (wa_username (as_config s))) then (s, None)
      else if wa_password_hash (as_config s) = [] then (s, None)
      else if \<not> password_ok bc password (wa_password_hash (as_config s)) then (s, None)
      else let token = hex_encode random
           in (s\<lparr>as_sessions := (as_sessions s)(token \<mapsto> now)\<rparr>, Some token))"

definition logout_token :: "string \<Rightarrow> auth_state \<Rightarrow> auth_state" where
  "logout_token token s = s\<lparr>as_sessions := (as_sessions s)(token := None)\<rparr>"

definition touch :: "string \<Rightarrow> nat \<Rightarrow> auth_state \<Rightarrow> auth_state \<times> bool" where
  "touch token now s =
     (case as_sessions s token of
        None \<Rightarrow> (s, False)
      | Some last_used \<Rightarrow>
          if session_ttl < now - last_used then (logout_token token s, False)
          else (s\<lparr>as_sessions := (as_sessions s)(token \<mapsto> now)\<rparr>, True))"

definition cleanup_expired :: "nat \<Rightarrow> auth_state \<Rightarrow> auth_state" where
  "cleanup_expired now s =
     s\<lparr>as_sessions := (\<lambda>token. case as_sessions s token of
         None \<Rightarrow> None
       | Some last_used \<Rightarrow> if now - last_used \<le> session_ttl then Some last_used else None)\<rparr>"

subsection \<open>The cookie\<close>

text \<open>
  The \<open>Cookie\<close> header: \<open>to_str\<close> accepts visible ASCII, the space and the tab, and on such a text \<open>trim\<close>
  removes the last two.
\<close>

definition header_char :: "char \<Rightarrow> bool" where
  "header_char c \<longleftrightarrow> (let n = (of_char c :: nat) in n = 9 \<or> 32 \<le> n \<and> n < 127)"

definition header_str :: "string option \<Rightarrow> string option" where
  "header_str h = (case h of None \<Rightarrow> None | Some raw \<Rightarrow> if list_all header_char raw then Some raw else None)"

definition blank :: "char \<Rightarrow> bool" where
  "blank c \<longleftrightarrow> c = CHR '' '' \<or> c = CHR 0x09"

definition trim_blanks :: "string \<Rightarrow> string" where
  "trim_blanks s = rev (dropWhile blank (rev (dropWhile blank s)))"

fun first_cookie :: "string \<Rightarrow> string list \<Rightarrow> string option" where
  "first_cookie name [] = None"
| "first_cookie name (part # parts) =
     (case strip_prefix (name @ ''='') (trim_blanks part) of
        Some v \<Rightarrow> Some v
      | None \<Rightarrow> first_cookie name parts)"

definition extract_cookie :: "string option \<Rightarrow> string \<Rightarrow> string option" where
  "extract_cookie header name =
     (case header_str header of
        None \<Rightarrow> None
      | Some raw \<Rightarrow> first_cookie name (split_on CHR '';'' raw))"

definition session_cookie_header :: "string \<Rightarrow> string" where
  "session_cookie_header token =
     session_cookie_name @ ''='' @ token @ ''; Path=/; HttpOnly; SameSite=Lax; Max-Age='' @ nat_str (session_ttl div 10 ^ 9)"

definition clear_session_cookie_header :: string where
  "clear_session_cookie_header = session_cookie_name @ ''=; Path=/; HttpOnly; SameSite=Lax; Max-Age=0''"

text \<open>The middleware \<open>require_auth\<close>: whether the request goes on to its handler.\<close>

definition let_through :: "string option \<Rightarrow> nat \<Rightarrow> auth_state \<Rightarrow> auth_state \<times> bool" where
  "let_through cookie now s =
     (if \<not> wa_enable (as_config s) then (s, True)
      else case extract_cookie cookie session_cookie_name of
             None \<Rightarrow> (s, False)
           | Some token \<Rightarrow> touch token now s)"

subsection \<open>Responses\<close>

record answer =
  an_response :: http_response
  an_set_cookie :: "string option"

definition json_answer :: "int \<Rightarrow> (string \<times> jsval) list \<Rightarrow> answer" where
  "json_answer status ps =
     \<lparr>an_response = \<lparr>rs_status = status, rs_content_type = Some ''application/json'',
        json_body = Some (JObj ps), text_body = []\<rparr>, an_set_cookie = None\<rparr>"

definition unauthorized_answer :: answer where
  "unauthorized_answer =
     \<lparr>an_response = \<lparr>rs_status = 401, rs_content_type = Some ''text/plain; charset=utf-8'',
        json_body = None, text_body = ''Unauthorized''\<rparr>, an_set_cookie = None\<rparr>"

definition guarded :: "string option \<Rightarrow> nat \<Rightarrow> (auth_state \<Rightarrow> auth_state \<times> answer) \<Rightarrow> auth_state \<Rightarrow> auth_state \<times> answer" where
  "guarded cookie now handler s =
     (case let_through cookie now s of
        (s', True) \<Rightarrow> handler s'
      | (s', False) \<Rightarrow> (s', unauthorized_answer))"

subsection \<open>The handlers of the session\<close>

definition auth_login :: "bcrypt \<Rightarrow> string \<Rightarrow> string \<Rightarrow> byte list \<Rightarrow> nat \<Rightarrow> auth_state \<Rightarrow> auth_state \<times> answer" where
  "auth_login bc username password random now s =
     (if \<not> wa_enable (as_config s) then (s, json_answer 200 [(''ok'', JBool True)])
      else case login bc username password random now s of
             (s', Some token) \<Rightarrow>
               (s', (json_answer 200 [(''ok'', JBool True)])\<lparr>an_set_cookie := Some (session_cookie_header token)\<rparr>)
           | (s', None) \<Rightarrow>
               (s', json_answer 401 [(''ok'', JBool False),
                  (''error'', JStr (cps [29992, 25143, 21517, 25110, 23494, 30721, 38169, 35823]))]))"

text \<open>Every part of the cookie that names the session is logged out.\<close>

definition cookie_tokens :: "string option \<Rightarrow> string list" where
  "cookie_tokens cookie =
     (case header_str cookie of
        None \<Rightarrow> []
      | Some raw \<Rightarrow> List.map_filter (\<lambda>part. strip_prefix (session_cookie_name @ ''='') (trim_blanks part))
                     (split_on CHR '';'' raw))"

definition auth_logout :: "string option \<Rightarrow> auth_state \<Rightarrow> auth_state \<times> answer" where
  "auth_logout cookie s =
     (fold logout_token (cookie_tokens cookie) s,
      \<lparr>an_response = \<lparr>rs_status = 200, rs_content_type = None, json_body = None, text_body = []\<rparr>,
       an_set_cookie = Some clear_session_cookie_header\<rparr>)"

text \<open>
  \<open>auth_change_password\<close>: \<open>hashed\<close> is the outcome of \<open>bcrypt_hash\<close>, the new hash or the message of its
  error. The new settings go to the sessions' state first, then to the file, then to memory.
\<close>

definition with_hash :: "string \<Rightarrow> config \<Rightarrow> config" where
  "with_hash h c = c\<lparr>c_web := (c_web c)\<lparr>wc_auth := (wc_auth (c_web c))\<lparr>wa_password_hash := h\<rparr>\<rparr>\<rparr>"

definition change_password ::
    "bcrypt \<Rightarrow> string + string \<Rightarrow> string option \<Rightarrow> string \<Rightarrow> string \<Rightarrow> auth_state \<times> runtime
     \<Rightarrow> (auth_state \<times> runtime) \<times> answer" where
  "change_password bc hashed save_error old_password new_password state =
     (let (s, rt) = state; current = rt_config rt; auth_cfg = wc_auth (c_web current)
      in if wa_enable auth_cfg \<and> \<not> password_ok bc old_password (wa_password_hash auth_cfg)
         then (state, json_answer 401 [(''error'', JStr (cps [21407, 23494, 30721, 19981, 27491, 30830]))])
         else if length new_password < 8
         then (state, json_answer 400 [(''error'', JStr (cps [26032, 23494, 30721, 33267, 23569, 32, 56, 32, 20301]))])
         else case hashed of
           Inl e \<Rightarrow> (state, json_answer 500
             [(''error'', JStr (cps [29983, 25104, 23494, 30721, 21704, 24076, 22833, 36133, 58, 32] @ e))])
         | Inr h \<Rightarrow>
             let s' = s\<lparr>as_config := auth_cfg\<lparr>wa_password_hash := h\<rparr>\<rparr>;
                 new_config = with_hash h current
             in case save_error of
                  Some e \<Rightarrow> ((s', rt), json_answer 500
                    [(''error'', JStr (cps [23494, 30721, 24050, 26356, 26032, 20294, 20889, 20837, 37197, 32622,
                       25991, 20214, 22833, 36133, 58, 32] @ e))])
                | None \<Rightarrow> ((s', rt\<lparr>rt_config := new_config, rt_file := new_config\<rparr>),
                           json_answer 200 [(''ok'', JBool True)]))"

subsection \<open>The configuration as JSON\<close>

text \<open>\<open>get_mut\<close>, \<open>remove\<close>, \<open>insert\<close> and \<open>contains_key\<close> on the objects of \<open>serde_json\<close>.\<close>

fun update_member :: "string \<Rightarrow> (jsval \<Rightarrow> jsval) \<Rightarrow> jsval \<Rightarrow> jsval" where
  "update_member k f (JObj ps) = JObj (map (\<lambda>(j, v). if j = k then (j, f v) else (j, v)) ps)"
| "update_member k f v = v"

fun update_object :: "(props \<Rightarrow> props) \<Rightarrow> jsval \<Rightarrow> jsval" where
  "update_object f (JObj ps) = JObj (f ps)"
| "update_object f v = v"

definition without_key :: "string \<Rightarrow> props \<Rightarrow> props" where
  "without_key k ps = filter (\<lambda>(j, v). j \<noteq> k) ps"

definition insert_key :: "string \<Rightarrow> jsval \<Rightarrow> props \<Rightarrow> props" where
  "insert_key k v ps = without_key k ps @ [(k, v)]"

definition insert_missing :: "string \<Rightarrow> jsval \<Rightarrow> props \<Rightarrow> props" where
  "insert_missing k v ps = (if k \<in> fst ` set ps then ps else insert_key k v ps)"

text \<open>The masking of \<open>get_config\<close>: the hash is replaced by whether there is one.\<close>

definition mask_auth :: "props \<Rightarrow> props" where
  "mask_auth ps =
     (let has_password = (case map_of ps ''password-hash'' of Some (JStr s) \<Rightarrow> s \<noteq> [] | _ \<Rightarrow> False)
      in insert_key ''password-set'' (JBool has_password) (without_key ''password-hash'' ps))"

definition masked_config :: "jsval \<Rightarrow> jsval" where
  "masked_config v = update_member ''web'' (update_member ''auth'' (update_object mask_auth)) v"

definition get_config :: "(config \<Rightarrow> string + jsval) \<Rightarrow> runtime \<Rightarrow> answer" where
  "get_config to_value rt =
     (case to_value (rt_config rt) of
        Inl e \<Rightarrow> json_answer 500 [(''error'', JStr (cps [24207, 21015, 21270, 37197, 32622, 22833, 36133, 58, 32] @ e))]
      | Inr v \<Rightarrow> (json_answer 200 [])\<lparr>an_response := \<lparr>rs_status = 200,
          rs_content_type = Some ''application/json'', json_body = Some (masked_config v), text_body = []\<rparr>\<rparr>)"

text \<open>\<open>put_config\<close> puts the hash back before it converts and applies; \<open>listen_text\<close> is \<open>to_string\<close> of an address.\<close>

definition restore_auth :: "web_auth_config \<Rightarrow> props \<Rightarrow> props" where
  "restore_auth cur ps =
     insert_missing ''username'' (JStr (wa_username cur))
       (insert_key ''password-hash'' (JStr (wa_password_hash cur)) (without_key ''password-set'' ps))"

definition restored_body :: "(sock_addr \<Rightarrow> string) \<Rightarrow> config \<Rightarrow> jsval \<Rightarrow> jsval" where
  "restored_body listen_text current body =
     update_member ''web'' (\<lambda>web.
       update_object (insert_missing ''listen'' (JStr (listen_text (wc_listen (c_web current)))))
         (update_member ''auth'' (update_object (restore_auth (wc_auth (c_web current)))) web)) body"

fun report_value :: "apply_report \<Rightarrow> props" where
  "report_value rep = [(''applied'', JArr (map JStr (applied rep))), (''ignored'', JArr (map JStr (ignored rep)))]"

definition put_config ::
    "(jsval \<Rightarrow> string + config) \<Rightarrow> (sock_addr \<Rightarrow> string) \<Rightarrow> (apply_error \<Rightarrow> string) \<Rightarrow> env \<Rightarrow> jsval \<Rightarrow> runtime
     \<Rightarrow> runtime \<times> answer" where
  "put_config from_value listen_text message v body rt =
     (case from_value (restored_body listen_text (rt_config rt) body) of
        Inl e \<Rightarrow> (rt, json_answer 400 [(''error'', JStr (cps [37197, 32622, 26684, 24335, 38169, 35823, 58, 32] @ e))])
      | Inr c \<Rightarrow>
          case apply_config v c rt of
            (rt', Inl e) \<Rightarrow> (rt', json_answer 400 [(''error'', JStr (message e))])
          | (rt', Inr rep) \<Rightarrow> (rt', json_answer 200 (report_value rep)))"

end
