(* ===== verification/Web_Auth_Properties.thy ===== *)
theory Web_Auth_Properties
  imports Web_Auth Runtime_Properties
begin

text \<open>
  What the sessions guarantee: who gets past the middleware, what a logout ends, the login through the client
  of the panel, the way of the configuration to the panel and back, and the switch of the authentication.
\<close>

subsection \<open>Comparison without early exit\<close>

lemma or_eq_0_iff: "(a OR b = (0 :: 'a::len word)) \<longleftrightarrow> a = 0 \<and> b = 0"
  by (auto simp: bit_eq_iff bit_simps)

lemma xor_eq_0_iff: "(a XOR b = (0 :: 'a::len word)) \<longleftrightarrow> a = b"
  by (auto simp: bit_eq_iff bit_simps)

lemma fold_differences:
  "fold (\<lambda>(x, y) diff. diff OR (x XOR y)) zs (d :: byte) = 0 \<longleftrightarrow> d = 0 \<and> (\<forall>(x, y) \<in> set zs. x = y)"
  by (induction zs arbitrary: d) (auto simp: or_eq_0_iff xor_eq_0_iff)

text \<open>The comparison of user names that takes the same time wherever they differ decides equality.\<close>

lemma constant_time_eq_is_equality: "constant_time_eq a b \<longleftrightarrow> a = b"
proof -
  have "length a = length b \<Longrightarrow> (\<forall>(x, y) \<in> set (zip a b). x = y) \<longleftrightarrow> a = b"
    by (induction a b rule: list_induct2) auto
  then show ?thesis
    by (auto simp: constant_time_eq_def fold_differences)
qed

subsection \<open>Cookies\<close>

lemma lower_hex_digit_code: "d < 16 \<Longrightarrow> (of_char (lower_hex_digit d) :: nat) = (if d < 10 then 48 + d else 87 + d)"
  by (simp add: lower_hex_digit_def)

lemma hex_nibble: "unat (b :: byte) div 16 < 16" "unat (b :: byte) mod 16 < 16"
proof -
  have "unat b < 256" using unsigned_less [of b, where ?'a = nat] by simp
  then show "unat b div 16 < 16" "unat b mod 16 < 16" by linarith+
qed

text \<open>The characters of a token.\<close>

definition token_char :: "char \<Rightarrow> bool" where
  "token_char c \<longleftrightarrow> (let n = (of_char c :: nat) in 48 \<le> n \<and> n \<le> 57 \<or> 97 \<le> n \<and> n \<le> 102)"

lemma token_char_digit: "d < 16 \<Longrightarrow> token_char (lower_hex_digit d)"
  by (auto simp: token_char_def lower_hex_digit_code Let_def)

lemma token_chars: "list_all token_char (hex_encode bytes)"
  by (auto simp: hex_encode_def list_all_iff token_char_digit hex_nibble)

lemma token_char_plain:
  "token_char c \<Longrightarrow> header_char c \<and> \<not> blank c \<and> c \<noteq> CHR '';'' \<and> c \<noteq> CHR ''=''"
  by (auto simp: token_char_def header_char_def blank_def Let_def)

lemma trim_blanks_id: "s = [] \<or> \<not> blank (hd s) \<and> \<not> blank (last s) \<Longrightarrow> trim_blanks s = s"
proof (cases s rule: rev_cases)
  case (snoc ys y)
  assume "s = [] \<or> \<not> blank (hd s) \<and> \<not> blank (last s)"
  then have "\<not> blank (hd s)" "\<not> blank y" "s \<noteq> []"
    using snoc by auto
  moreover have "dropWhile p t = t" if "t \<noteq> []" "\<not> p (hd t)" for p :: "char \<Rightarrow> bool" and t
    using that by (cases t) simp_all
  ultimately show ?thesis by (simp add: trim_blanks_def snoc)
qed (simp add: trim_blanks_def)

text \<open>
  The header a browser sends for its cookies: their names and values, joined with a semicolon and a space.
\<close>

definition cookie_line :: "string list \<Rightarrow> string" where
  "cookie_line pairs = join ''; '' pairs"

definition plain_pair :: "string \<Rightarrow> bool" where
  "plain_pair s \<longleftrightarrow> list_all header_char s \<and> CHR '';'' \<notin> set s \<and> s \<noteq> [] \<and> \<not> blank (hd s) \<and> \<not> blank (last s)"

lemma split_cookie_line:
  "\<forall>p \<in> set (p # ps). CHR '';'' \<notin> set p \<Longrightarrow>
     split_on CHR '';'' (cookie_line (p # ps)) = p # map (\<lambda>q. CHR '' '' # q) ps"
proof (induction ps arbitrary: p)
  case Nil
  then show ?case by (simp add: cookie_line_def split_on_plain)
next
  case (Cons q ps)
  have "split_on CHR '';'' (cookie_line (q # ps)) = q # map (\<lambda>q. CHR '' '' # q) ps"
    by (rule Cons.IH) (use Cons.prems in simp)
  then have "split_on CHR '';'' (CHR '' '' # cookie_line (q # ps)) = (CHR '' '' # q) # map (\<lambda>q. CHR '' '' # q) ps"
    by simp
  then show ?case
    using split_on_append [of "CHR '';''" p] Cons.prems by (simp add: cookie_line_def)
qed

lemma header_cookie_line:
  "ps \<noteq> [] \<Longrightarrow> \<forall>p \<in> set ps. plain_pair p \<Longrightarrow> list_all header_char (cookie_line ps)"
proof (induction ps)
  case (Cons p ps)
  have sep: "list_all header_char ''; ''" by (simp add: header_char_def Let_def)
  show ?case
    using Cons sep by (cases ps) (auto simp: cookie_line_def plain_pair_def)
qed simp

lemma trim_blanks_space: "trim_blanks (CHR '' '' # p) = trim_blanks p"
  by (simp add: trim_blanks_def blank_def)

lemma trim_plain_pair: "plain_pair p \<Longrightarrow> trim_blanks p = p \<and> trim_blanks (CHR '' '' # p) = p"
  by (simp add: plain_pair_def trim_blanks_id trim_blanks_space)

definition names_session :: "string \<Rightarrow> bool" where
  "names_session p \<longleftrightarrow> prefix (session_cookie_name @ ''='') p"

lemma strip_names_session: "strip_prefix (session_cookie_name @ ''='') p = None \<longleftrightarrow> \<not> names_session p"
  by (simp add: names_session_def strip_prefix_None_iff)

lemma first_cookie_skips:
  "\<forall>p \<in> set ps. plain_pair p \<and> \<not> names_session p \<Longrightarrow>
     first_cookie session_cookie_name (map (\<lambda>q. CHR '' '' # q) ps @ rest) = first_cookie session_cookie_name rest"
  by (induction ps) (simp_all add: trim_plain_pair strip_names_session [THEN iffD2])

lemma extract_from_cookie_line:
  assumes "\<forall>p \<in> set (pre @ post). plain_pair p" "\<forall>p \<in> set pre. \<not> names_session p"
    and "plain_pair (session_cookie_name @ ''='' @ token)"
  shows "extract_cookie (Some (cookie_line (pre @ (session_cookie_name @ ''='' @ token) # post))) session_cookie_name
    = Some token"
proof -
  let ?pair = "session_cookie_name @ ''='' @ token"
  have ok: "header_str (Some (cookie_line (pre @ ?pair # post))) = Some (cookie_line (pre @ ?pair # post))"
    using header_cookie_line [of "pre @ ?pair # post"] assms by (auto simp: header_str_def)
  have here: "first_cookie session_cookie_name (?pair # qs) = Some token"
    "first_cookie session_cookie_name ((CHR '' '' # ?pair) # qs) = Some token" for qs
    using trim_plain_pair [OF assms(3)] by (simp_all add: strip_prefix_def)
  show ?thesis
  proof (cases pre)
    case Nil
    then show ?thesis
      using ok here split_cookie_line [of ?pair post] assms by (simp add: extract_cookie_def plain_pair_def)
  next
    case (Cons p ps)
    then have "split_on CHR '';'' (cookie_line (pre @ ?pair # post))
        = p # map (\<lambda>q. CHR '' '' # q) ps @ (CHR '' '' # ?pair) # map (\<lambda>q. CHR '' '' # q) post"
      using split_cookie_line [of p "ps @ ?pair # post"] assms by (simp add: plain_pair_def)
    moreover have "first_cookie session_cookie_name (p # qs) = first_cookie session_cookie_name qs" for qs
      using Cons assms(1,2) by (simp add: trim_plain_pair strip_names_session [THEN iffD2])
    ultimately show ?thesis
      using ok here first_cookie_skips [of ps] Cons assms by (simp add: extract_cookie_def)
  qed
qed

lemma token_pair_plain: "plain_pair (session_cookie_name @ ''='' @ hex_encode random)"
proof -
  have chars: "list_all header_char (hex_encode random) \<and> CHR '';'' \<notin> set (hex_encode random)
      \<and> (hex_encode random \<noteq> [] \<longrightarrow> \<not> blank (last (hex_encode random)))"
    using token_chars [of random] token_char_plain by (auto simp: list_all_iff)
  then show ?thesis
    by (auto simp: plain_pair_def session_cookie_name_def header_char_def blank_def)
qed

text \<open>What a browser keeps of a \<open>Set-Cookie\<close> header: the pair in front of the attributes.\<close>

definition stored_pair :: "string \<Rightarrow> string" where
  "stored_pair header = takeWhile (\<lambda>c. c \<noteq> CHR '';'') header"

lemma stored_session_pair:
  "stored_pair (session_cookie_header (hex_encode random)) = session_cookie_name @ ''='' @ hex_encode random"
proof -
  have "\<forall>c \<in> set (session_cookie_name @ ''='' @ hex_encode random). c \<noteq> CHR '';''"
    using token_pair_plain [of random] by (auto simp: plain_pair_def)
  then have "takeWhile (\<lambda>c. c \<noteq> CHR '';'') ((session_cookie_name @ ''='' @ hex_encode random) @ CHR '';'' # rest)
      = session_cookie_name @ ''='' @ hex_encode random" for rest
    by (subst takeWhile_append2) auto
  then show ?thesis by (simp add: stored_pair_def session_cookie_header_def)
qed

text \<open>
  The cookie set at the login comes back: whatever other cookies a browser sends in front of it and
  behind it, as long as none of the earlier ones has its name, the backend reads exactly the token it
  issued.
\<close>

theorem session_cookie_roundtrip:
  assumes "list_all plain_pair (pre @ post)" "\<not> list_ex names_session pre"
  shows "extract_cookie (Some (cookie_line (pre @ stored_pair (session_cookie_header (hex_encode random)) # post)))
    session_cookie_name = Some (hex_encode random)"
  unfolding stored_session_pair
  by (rule extract_from_cookie_line) (use assms token_pair_plain in \<open>auto simp: list_all_iff list_ex_iff\<close>)

theorem session_cookie_roundtrip_witness:
  "extract_cookie (Some (cookie_line ([''lang=en''] @ stored_pair (session_cookie_header (hex_encode [0x0F, 0xA0])) # [''x=1''])))
     session_cookie_name = Some ''0fa0''"
  using session_cookie_roundtrip [of "[''lang=en'']" "[''x=1'']" "[0x0F, 0xA0]"]
  by (simp add: plain_pair_def names_session_def header_char_def blank_def session_cookie_name_def Let_def
    hex_encode_def lower_hex_digit_def char_of_def bit_Suc bit_0)

subsection \<open>Histories of the session table\<close>

text \<open>
  What happens to the sessions: a login, a logout, a request in front of the middleware, the removal of
  expired sessions, and new settings stored by the change of the password.
\<close>

datatype auth_event =
    LoginTried string string "byte list" nat
  | LoggedOut "string option"
  | Requested "string option" nat
  | CleanedUp nat
  | SettingsStored web_auth_config

fun auth_step :: "bcrypt \<Rightarrow> auth_event \<Rightarrow> auth_state \<Rightarrow> auth_state" where
  "auth_step bc (LoginTried u p random now) s = fst (auth_login bc u p random now s)"
| "auth_step bc (LoggedOut cookie) s = fst (auth_logout cookie s)"
| "auth_step bc (Requested cookie now) s = fst (let_through cookie now s)"
| "auth_step bc (CleanedUp now) s = cleanup_expired now s"
| "auth_step bc (SettingsStored cfg) s = s\<lparr>as_config := cfg\<rparr>"

definition auth_run :: "bcrypt \<Rightarrow> auth_event list \<Rightarrow> auth_state \<Rightarrow> auth_state" where
  "auth_run bc es s = fold (auth_step bc) es s"

text \<open>A login the settings in force allow, and the events that use a token or end its session.\<close>

definition credentials_ok :: "bcrypt \<Rightarrow> string \<Rightarrow> string \<Rightarrow> web_auth_config \<Rightarrow> bool" where
  "credentials_ok bc u p cfg \<longleftrightarrow>
     u = wa_username cfg \<and> wa_password_hash cfg \<noteq> [] \<and> bc p (wa_password_hash cfg) = Some True"

fun uses_token :: "string \<Rightarrow> nat \<Rightarrow> auth_event \<Rightarrow> bool" where
  "uses_token token t (LoginTried u p random now) \<longleftrightarrow> hex_encode random = token \<and> now = t"
| "uses_token token t (Requested cookie now) \<longleftrightarrow> extract_cookie cookie session_cookie_name = Some token \<and> now = t"
| "uses_token token t e \<longleftrightarrow> False"

fun ends_session :: "string \<Rightarrow> auth_event \<Rightarrow> bool" where
  "ends_session token (LoggedOut cookie) \<longleftrightarrow> token \<in> set (cookie_tokens cookie)"
| "ends_session token e \<longleftrightarrow> False"

lemma login_cases:
  "login bc u p random now s =
     (if credentials_ok bc u p (as_config s)
      then (s\<lparr>as_sessions := (as_sessions s)(hex_encode random \<mapsto> now)\<rparr>, Some (hex_encode random))
      else (s, None))"
  by (auto simp: login_def credentials_ok_def constant_time_eq_is_equality password_ok_def Let_def
    split: option.splits)

lemma fold_logout:
  "fold logout_token ts s = s\<lparr>as_sessions := (\<lambda>t. if t \<in> set ts then None else as_sessions s t)\<rparr>"
  by (induction ts arbitrary: s) (auto simp: logout_token_def fun_eq_iff)

definition issued :: "bcrypt \<Rightarrow> auth_event list \<Rightarrow> auth_state \<Rightarrow> string \<Rightarrow> nat \<Rightarrow> bool" where
  "issued bc es s token t \<longleftrightarrow>
     (\<exists>before u p random now after.
        es = before @ LoginTried u p random now # after
        \<and> hex_encode random = token
        \<and> credentials_ok bc u p (as_config (auth_run bc before s))
        \<and> list_all (\<lambda>e. \<not> ends_session token e) after
        \<and> list_ex (uses_token token t) (LoginTried u p random now # after))"

lemma issued_later:
  assumes "issued bc es s token t" "\<not> ends_session token e" "t' = t \<or> uses_token token t' e"
  shows "issued bc (es @ [e]) s token t'"
proof -
  obtain before u p random now "after" where
    es: "es = before @ LoginTried u p random now # after" "hex_encode random = token"
      "credentials_ok bc u p (as_config (auth_run bc before s))"
      "list_all (\<lambda>e. \<not> ends_session token e) after"
      "list_ex (uses_token token t) (LoginTried u p random now # after)"
    using assms(1) unfolding issued_def by blast
  show ?thesis
    unfolding issued_def
    by (rule exI [of _ before], rule exI [of _ u], rule exI [of _ p], rule exI [of _ random], rule exI [of _ now],
      rule exI [of _ "after @ [e]"]) (use es assms(2,3) in auto)
qed

lemma issued_now:
  "credentials_ok bc u p (as_config (auth_run bc es s)) \<Longrightarrow>
     issued bc (es @ [LoginTried u p random now]) s (hex_encode random) now"
  unfolding issued_def by (rule exI [of _ es]) auto

lemma session_step:
  assumes "as_sessions (auth_step bc e s) token = Some t"
  shows "(as_sessions s token = Some t \<or> as_sessions s token \<noteq> None \<and> uses_token token t e) \<and> \<not> ends_session token e
    \<or> (\<exists>u p random. e = LoginTried u p random t \<and> hex_encode random = token \<and> credentials_ok bc u p (as_config s))"
proof (cases e)
  case (LoginTried u p random now)
  then show ?thesis
    using assms by (auto simp: auth_login_def login_cases split: if_splits)
next
  case (LoggedOut cookie)
  then show ?thesis
    using assms by (auto simp: auth_logout_def fold_logout split: if_splits)
next
  case (Requested cookie now)
  then show ?thesis
    using assms by (auto simp: let_through_def touch_def logout_token_def split: if_splits option.splits)
next
  case (CleanedUp now)
  then show ?thesis
    using assms by (auto simp: cleanup_expired_def split: if_splits option.splits)
next
  case (SettingsStored cfg)
  then show ?thesis using assms by simp
qed

lemma session_issued:
  "as_sessions (auth_run bc es (new_auth_state cfg)) token = Some t \<Longrightarrow> issued bc es (new_auth_state cfg) token t"
proof (induction es arbitrary: t rule: rev_induct)
  case Nil
  then show ?case by (simp add: auth_run_def new_auth_state_def)
next
  case (snoc e es)
  let ?s = "auth_run bc es (new_auth_state cfg)"
  have "as_sessions (auth_step bc e ?s) token = Some t"
    using snoc.prems by (simp add: auth_run_def)
  from session_step [OF this] show ?case
    using snoc.IH issued_later issued_now by (metis option.exhaust)
qed

text \<open>
  C17. While authentication is on, the middleware lets a request pass only with a token that an earlier login
  with the right name and password issued, that no logout has named since, and that was issued or used
  within the last 24 hours.
\<close>

theorem passed_request_has_a_live_login:
  assumes "s = auth_run bc es (new_auth_state cfg)" "wa_enable (as_config s)"
    and "snd (let_through cookie now s)"
  shows "\<exists>token t. extract_cookie cookie session_cookie_name = Some token
    \<and> issued bc es (new_auth_state cfg) token t \<and> now - t \<le> session_ttl"
  using assms session_issued [of bc es cfg]
  by (auto simp: let_through_def touch_def not_less split: option.splits if_splits)

definition sample_bcrypt :: bcrypt where
  "sample_bcrypt p h = Some (p = ''pw'' \<and> h = ''h'')"

definition sample_auth :: web_auth_config where
  "sample_auth = \<lparr>wa_enable = True, wa_username = ''admin'', wa_password_hash = ''h''\<rparr>"

lemma sample_hex: "hex_encode [0x0F] = ''0f''"
  by (simp add: hex_encode_def lower_hex_digit_def char_of_def bit_Suc bit_0)

lemma sample_cookie: "extract_cookie (Some ''relay_session=0f'') session_cookie_name = Some ''0f''"
  by code_simp

definition sample_login :: auth_event where
  "sample_login = LoginTried ''admin'' ''pw'' [0x0F] 5"

lemma sample_logged_in:
  "auth_run sample_bcrypt [sample_login] (new_auth_state sample_auth)
     = \<lparr>as_config = sample_auth, as_sessions = [''0f'' \<mapsto> 5]\<rparr>"
  by (simp add: auth_run_def sample_login_def auth_login_def login_cases credentials_ok_def sample_auth_def
    sample_bcrypt_def new_auth_state_def sample_hex)

theorem passed_request_has_a_live_login_witness:
  "\<exists>t. issued sample_bcrypt [sample_login] (new_auth_state sample_auth) ''0f'' t \<and> 9 - t \<le> session_ttl"
proof -
  let ?s = "auth_run sample_bcrypt [sample_login] (new_auth_state sample_auth)"
  have "wa_enable (as_config ?s)" "snd (let_through (Some ''relay_session=0f'') 9 ?s)"
    by (simp_all add: sample_logged_in sample_cookie let_through_def touch_def session_ttl_def) (simp_all add: sample_auth_def)
  from passed_request_has_a_live_login [OF refl this] show ?thesis
    by (simp add: sample_cookie)
qed

subsection \<open>Logging out\<close>

lemma first_cookie_tokens:
  "first_cookie name parts = Some v \<Longrightarrow>
     v \<in> set (List.map_filter (\<lambda>part. strip_prefix (name @ ''='') (trim_blanks part)) parts)"
  by (induction parts) (auto simp: map_filter_simps split: option.splits)

lemma extract_cookie_tokens: "extract_cookie cookie session_cookie_name = Some v \<Longrightarrow> v \<in> set (cookie_tokens cookie)"
  by (auto simp: extract_cookie_def cookie_tokens_def intro: first_cookie_tokens split: option.splits)

fun reissues :: "string \<Rightarrow> auth_event \<Rightarrow> bool" where
  "reissues token (LoginTried u p random now) \<longleftrightarrow> hex_encode random = token"
| "reissues token e \<longleftrightarrow> False"

lemma stays_logged_out:
  "as_sessions s token = None \<Longrightarrow> list_all (\<lambda>e. \<not> reissues token e) es \<Longrightarrow>
     as_sessions (auth_run bc es s) token = None"
proof (induction es arbitrary: s)
  case (Cons e es)
  have "as_sessions (auth_step bc e s) token = None"
  proof (rule ccontr)
    assume "as_sessions (auth_step bc e s) token \<noteq> None"
    then obtain t where "as_sessions (auth_step bc e s) token = Some t" by blast
    from session_step [OF this] show False
      using Cons.prems by auto
  qed
  then show ?case using Cons by (simp add: auth_run_def)
qed (simp add: auth_run_def)

text \<open>
  A logout ends the session of the cookie it comes with for good: whatever happens afterwards, short of a
  login that draws the same token again, no request with this token passes while authentication is on.
\<close>

theorem logout_revokes_the_session:
  assumes "extract_cookie cookie session_cookie_name = Some token"
    and "s = auth_run bc later (fst (auth_logout cookie s0))" "list_all (\<lambda>e. \<not> reissues token e) later"
    and "wa_enable (as_config s)" "extract_cookie cookie' session_cookie_name = Some token"
  shows "let_through cookie' now s = (s, False)"
proof -
  have "as_sessions (fst (auth_logout cookie s0)) token = None"
    using extract_cookie_tokens [OF assms(1)] by (simp add: auth_logout_def fold_logout)
  then have "as_sessions s token = None"
    using stays_logged_out assms(2,3) by simp
  then show ?thesis using assms(4,5) by (simp add: let_through_def touch_def)
qed

theorem logout_revokes_the_session_witness:
  "\<not> snd (let_through (Some ''relay_session=0f'') 9
     (auth_run sample_bcrypt [CleanedUp 7] (fst (auth_logout (Some ''relay_session=0f'')
       (auth_run sample_bcrypt [sample_login] (new_auth_state sample_auth))))))"
proof -
  have clean: "auth_run bc [CleanedUp t] s = cleanup_expired t s" for bc t s
    by (simp add: auth_run_def)
  have "wa_enable (as_config (cleanup_expired 7 (fst (auth_logout (Some ''relay_session=0f'')
      (auth_run sample_bcrypt [sample_login] (new_auth_state sample_auth))))))"
    by (simp add: sample_logged_in auth_logout_def fold_logout cleanup_expired_def) (simp add: sample_auth_def)
  then show ?thesis
    using logout_revokes_the_session [OF sample_cookie refl _ _ sample_cookie,
        of "[CleanedUp 7]" sample_bcrypt "auth_run sample_bcrypt [sample_login] (new_auth_state sample_auth)" 9]
    by (simp add: clean)
qed

subsection \<open>The login through the panel\<close>

text \<open>
  C18. A login from end to end, with the client and the backend put together. The right name and password give
  a response the client takes as a success, and the cookie set with it opens the middleware for the
  next request; any other attempt leaves the sessions as they were, sets no cookie, and the client reports
  \<open>Unauthorized\<close> whatever message the backend wrote.
\<close>

theorem login_end_to_end:
  assumes "auth_login bc u p random now s = (s', a)" "wa_enable (as_config s)"
    and "list_all plain_pair (pre @ post)" "\<not> list_ex names_session pre" "later - now \<le> session_ttl"
  shows "if credentials_ok bc u p (as_config s)
     then login_settled (handle_response (an_response a)) st = (Authed, None)
       \<and> (\<exists>h. an_set_cookie a = Some h
           \<and> snd (let_through (Some (cookie_line (pre @ stored_pair h # post))) later s'))
     else s' = s \<and> an_set_cookie a = None
       \<and> login_settled (handle_response (an_response a)) st = (st, Some (AuthError ''Unauthorized''))"
proof (cases "credentials_ok bc u p (as_config s)")
  case True
  have "extract_cookie (Some (cookie_line (pre @ stored_pair (session_cookie_header (hex_encode random)) # post)))
      session_cookie_name = Some (hex_encode random)"
    unfolding stored_session_pair
    by (rule extract_from_cookie_line) (use assms token_pair_plain in \<open>auto simp: list_all_iff list_ex_iff\<close>)
  then show ?thesis
    using assms True by (auto simp: auth_login_def login_cases json_answer_def handle_response_def response_ok_def
      let_through_def touch_def)
next
  case False
  then show ?thesis
    using assms by (auto simp: auth_login_def login_cases json_answer_def handle_response_def new_auth_error_def
      js_or_def)
qed

theorem login_end_to_end_witness:
  "login_settled (handle_response (an_response
     (snd (auth_login sample_bcrypt ''admin'' ''pw'' [0x0F] 5 (new_auth_state sample_auth))))) Anon = (Authed, None)"
proof -
  have "credentials_ok sample_bcrypt ''admin'' ''pw'' (as_config (new_auth_state sample_auth))"
    "wa_enable (as_config (new_auth_state sample_auth))"
    by (simp_all add: credentials_ok_def sample_bcrypt_def sample_auth_def new_auth_state_def)
  then show ?thesis
    using login_end_to_end [OF surjective_pairing, where bc = sample_bcrypt and u = "''admin''" and p = "''pw''"
        and random = "[0x0F]" and now = 5 and s = "new_auth_state sample_auth" and pre = "[]" and post = "[]"
        and later = 9 and st = Anon]
    by (simp add: session_ttl_def)
qed

subsection \<open>The configuration on its way to the panel and back\<close>

lemma without_key_notin: "k \<notin> fst ` set (without_key k ps)"
  by (auto simp: without_key_def)

lemma map_of_without_key: "map_of (without_key k ps) = (map_of ps)(k := None)"
  by (induction ps) (auto simp: without_key_def fun_eq_iff)

lemma map_of_insert_key: "map_of (insert_key k v ps) = (map_of ps)(k \<mapsto> v)"
  by (auto simp: insert_key_def map_add_def map_of_without_key fun_eq_iff split: option.splits)

lemma map_of_insert_missing:
  "map_of (insert_missing k v ps) = (if map_of ps k = None then (map_of ps)(k \<mapsto> v) else map_of ps)"
  by (auto simp: insert_missing_def map_of_insert_key map_of_eq_None_iff)

lemma update_member_at:
  "k \<notin> fst ` set a \<Longrightarrow> k \<notin> fst ` set b \<Longrightarrow>
     update_member k f (JObj (a @ (k, v) # b)) = JObj (a @ (k, f v) # b)"
  by (auto simp: intro!: map_idI split: if_splits) (metis fst_conv image_eqI)+

definition config_text :: "props \<Rightarrow> props \<Rightarrow> props \<Rightarrow> props \<Rightarrow> props \<Rightarrow> jsval" where
  "config_text a b c d auth = JObj (a @ (''web'', JObj (c @ (''auth'', JObj auth) # d)) # b)"

definition sections_apart :: "props \<Rightarrow> props \<Rightarrow> props \<Rightarrow> props \<Rightarrow> bool" where
  "sections_apart a b c d \<longleftrightarrow> ''web'' \<notin> fst ` set (a @ b) \<and> ''auth'' \<notin> fst ` set (c @ d)
     \<and> ''listen'' \<in> fst ` set (c @ d)"

lemma masked_config_text: "sections_apart a b c d \<Longrightarrow> masked_config (config_text a b c d auth) = config_text a b c d (mask_auth auth)"
  by (simp add: masked_config_def config_text_def sections_apart_def update_member_at image_Un
    del: update_member.simps)

lemma restored_config_text:
  "sections_apart a b c d \<Longrightarrow> restored_body listen_text cur (config_text a b c d auth)
     = config_text a b c d (restore_auth (wc_auth (c_web cur)) auth)"
  by (auto simp add: restored_body_def config_text_def sections_apart_def update_member_at insert_missing_def
    image_Un simp del: update_member.simps)

text \<open>
  C19. What the panel is sent contains no password hash, only whether there is one, and sending it back
  unchanged restores the hash: the body the backend converts has the members the serialised configuration
  had.
\<close>

theorem config_survives_the_mask:
  assumes "sections_apart a b c d" "wc_auth (c_web cur) = w"
    and "map_of auth ''password-hash'' = Some (JStr (wa_password_hash w))"
    and "map_of auth ''username'' = Some (JStr (wa_username w))" "map_of auth ''password-set'' = None"
  shows "\<exists>sent back. masked_config (config_text a b c d auth) = config_text a b c d sent
     \<and> map_of sent ''password-hash'' = None \<and> map_of sent ''password-set'' = Some (JBool (wa_password_hash w \<noteq> []))
     \<and> restored_body listen_text cur (masked_config (config_text a b c d auth)) = config_text a b c d back
     \<and> map_of back = map_of auth"
proof -
  have sent: "map_of (mask_auth auth) = (map_of auth)(''password-hash'' := None,
      ''password-set'' \<mapsto> JBool (wa_password_hash w \<noteq> []))"
    by (simp add: mask_auth_def Let_def map_of_insert_key map_of_without_key assms(3))
  then have "map_of (restore_auth w (mask_auth auth)) = map_of auth"
    by (simp add: restore_auth_def map_of_insert_missing map_of_insert_key map_of_without_key assms(4))
      (use assms(3,5) in \<open>simp add: fun_eq_iff\<close>)
  then show ?thesis
    using assms(1,2) sent
    by (intro exI [of _ "mask_auth auth"] exI [of _ "restore_auth w (mask_auth auth)"])
      (simp add: masked_config_text restored_config_text)
qed

definition sample_guarded :: "bool \<Rightarrow> config" where
  "sample_guarded enable = (let c = sample_config 53 ''a''
     in c\<lparr>c_web := (c_web c)\<lparr>wc_auth := sample_auth\<lparr>wa_enable := enable\<rparr>\<rparr>\<rparr>)"

lemma sample_guarded_fields [simp]:
  "c_listen (sample_guarded b) = sample_addr 53" "c_firewall (sample_guarded b) = Some sample_fw"
  "c_dhcp (sample_guarded b) = sample_dhcp" "wc_auth (c_web (sample_guarded b)) = sample_auth\<lparr>wa_enable := b\<rparr>"
  "wc_listen (c_web (sample_guarded b)) = sample_addr 8087"
  "\<not> routing_changed (sample_guarded b) (sample_guarded b')"
  by (simp_all add: sample_guarded_def Let_def routing_changed_def index_eq_def) (simp add: sample_config_def)

definition sample_members :: props where
  "sample_members = [(''enable'', JBool True), (''username'', JStr ''admin''), (''password-hash'', JStr ''h'')]"

theorem config_survives_the_mask_witness:
  "\<exists>sent back. masked_config (config_text [(''listen'', JStr ''0.0.0.0:53'')] [] [(''listen'', JStr ''0.0.0.0:9090'')] [] sample_members)
       = config_text [(''listen'', JStr ''0.0.0.0:53'')] [] [(''listen'', JStr ''0.0.0.0:9090'')] [] sent
     \<and> map_of sent ''password-hash'' = None \<and> map_of back ''password-hash'' = Some (JStr ''h'')
     \<and> restored_body (\<lambda>_. ''0.0.0.0:9090'') (sample_guarded True)
         (masked_config (config_text [(''listen'', JStr ''0.0.0.0:53'')] [] [(''listen'', JStr ''0.0.0.0:9090'')] [] sample_members))
       = config_text [(''listen'', JStr ''0.0.0.0:53'')] [] [(''listen'', JStr ''0.0.0.0:9090'')] [] back"
proof -
  have apart: "sections_apart [(''listen'', JStr ''0.0.0.0:53'')] [] [(''listen'', JStr ''0.0.0.0:9090'')] []"
    by (simp add: sections_apart_def)
  have members: "map_of sample_members ''password-hash'' = Some (JStr ''h'')"
    "map_of sample_members ''username'' = Some (JStr ''admin'')" "map_of sample_members ''password-set'' = None"
    by (simp_all add: sample_members_def)
  note survives = config_survives_the_mask [OF apart, where cur = "sample_guarded True" and auth = sample_members
    and listen_text = "\<lambda>_. ''0.0.0.0:9090''", OF refl]
  show ?thesis
    using survives members by (simp add: sample_auth_def) metis
qed

subsection \<open>The switch of the authentication\<close>

text \<open>
  A reload that turns the authentication off has no effect on the sessions, which keep their own copy of
  the settings, but it lifts the check of the old password, and the next change of the password copies the
  saved switch: from then on every request passes, with or without a cookie.
\<close>

theorem password_change_installs_the_saved_switch:
  assumes "apply_config v new rt = (rt1, Inr rep)" "\<not> wa_enable (wc_auth (c_web new))"
    and "8 \<le> length new_password"
    and "change_password bc (Inr h) None old_password new_password (s, rt1) = ((s', rt2), a)"
  shows "response_ok (an_response a) \<and> let_through cookie now s' = (s', True)
    \<and> wa_password_hash (wc_auth (c_web (rt_config rt2))) = h"
proof -
  obtain c locked where lock: "lock_readonly (rt_config rt) new = (c, locked)" by fastforce
  have "rt_config rt1 = c" using apply_config_result [OF assms(1) lock] by simp
  moreover have "wa_enable (wc_auth (c_web c)) = wa_enable (wc_auth (c_web new))"
    using lock by (auto simp: lock_readonly_def Let_def split: if_splits)
  ultimately show ?thesis
    using assms(2-4) by (auto simp: change_password_def let_through_def json_answer_def response_ok_def with_hash_def Let_def)
qed

lemma sample_opened:
  "\<exists>rt rep. apply_config (sample_env True) (sample_guarded False)
     ((sample_runtime 53 ''a'')\<lparr>rt_config := sample_guarded True\<rparr>) = (rt, Inr rep)"
proof -
  have "validate (is_ip (sample_env True)) (sample_guarded False) = None"
    by (simp add: sample_guarded_def validate_def firewall_enabled_def Let_def)
      (simp add: sample_config_def sample_addr_def)
  moreover have "lock_readonly (sample_guarded True) (sample_guarded False) = (sample_guarded False, [])"
    by (simp add: lock_readonly_def Let_def)
  ultimately show ?thesis
    by (simp add: apply_evals sample_runtime_def)
qed

theorem password_change_installs_the_saved_switch_witness:
  "\<exists>rt rep rt' s' a. apply_config (sample_env True) (sample_guarded False)
       ((sample_runtime 53 ''a'')\<lparr>rt_config := sample_guarded True\<rparr>) = (rt, Inr rep)
     \<and> change_password sample_bcrypt (Inr ''n'') None ''wrong'' ''12345678'' (new_auth_state sample_auth, rt) = ((s', rt'), a)
     \<and> response_ok (an_response a) \<and> let_through None 9 s' = (s', True)"
proof -
  obtain rt rep where ap: "apply_config (sample_env True) (sample_guarded False)
       ((sample_runtime 53 ''a'')\<lparr>rt_config := sample_guarded True\<rparr>) = (rt, Inr rep)"
    using sample_opened by blast
  obtain s' rt' a where ch: "change_password sample_bcrypt (Inr ''n'') None ''wrong'' ''12345678'' (new_auth_state sample_auth, rt)
    = ((s', rt'), a)" by (metis surj_pair)
  have "\<not> wa_enable (wc_auth (c_web (sample_guarded False)))" by simp
  from password_change_installs_the_saved_switch [OF ap this _ ch, of None 9] show ?thesis
    using ap ch by auto
qed

end
