(* ===== verification/Config_File.thy ===== *)
theory Config_File
  imports Runtime_Properties Web_Auth
begin

text \<open>
  The configuration file (\<open>src/src/config.rs\<close>): the shape a user writes, \<open>ConfigYaml\<close>, its conversion to
  the configuration the program uses, and the shape the program writes back.

  The YAML text itself is the business of \<open>serde_yaml\<close>. The texts of addresses are parameters:
  \<open>parse_addr\<close> and \<open>parse_ip\<close> stand for \<open>parse::<SocketAddr>()\<close> and \<open>parse::<IpAddr>()\<close>, \<open>addr_text\<close> for
  \<open>to_string\<close>.
\<close>

subsection \<open>The file\<close>

datatype group_serde = SimpleGroup "string list" | FullGroup upstream_group

datatype rule_key = SingleKey string | MultiKey "string list"

datatype rulesets_serde = RulesetMap "(string \<times> string) list" | RulesetList "ruleset_entry list"

record config_yaml =
  y_log_level :: log_level
  y_listen :: sock_addr
  y_manage_resolv_conf :: bool
  y_strategy :: ip_strategy
  y_default_nameserver :: "string list"
  y_nameserver :: group_serde
  y_rules :: "(rule_key \<times> group_serde) list"
  y_rulesets :: rulesets_serde
  y_hosts :: "(string \<times> ip_addr) list"
  y_cache :: cache_config
  y_firewall :: "firewall_config option"
  y_dhcp :: dhcp_config
  y_web :: web_config

datatype load_error =
  NameserverPrefix string
| NameserverNoIp string
| DuplicateGroup string
| EmptyRuleKey
| NotValid config_error

subsection \<open>Reading\<close>

record addr_texts =
  parse_addr :: "string \<Rightarrow> sock_addr option"
  parse_ip :: "string \<Rightarrow> ip_addr option"
  addr_text :: "sock_addr \<Rightarrow> string"

definition parse_default_nameserver :: "addr_texts \<Rightarrow> string \<Rightarrow> load_error + sock_addr" where
  "parse_default_nameserver t s =
     (if sublist ''://'' s then Inl (NameserverPrefix s)
      else case parse_addr t s of
             Some a \<Rightarrow> Inr a
           | None \<Rightarrow>
               case parse_ip t s of
                 Some ip \<Rightarrow> Inr \<lparr>sa_ip = ip, sa_port = 53\<rparr>
               | None \<Rightarrow> Inl (NameserverNoIp s))"

fun parse_all :: "('a \<Rightarrow> 'e + 'b) \<Rightarrow> 'a list \<Rightarrow> 'e + 'b list" where
  "parse_all f [] = Inr []"
| "parse_all f (x # xs) = and_then (f x) (\<lambda>y. and_then (parse_all f xs) (\<lambda>ys. Inr (y # ys)))"

fun into_group :: "group_serde \<Rightarrow> upstream_group" where
  "into_group (SimpleGroup servers) =
     \<lparr>ug_servers = servers, ug_strategy = RoundRobin, ug_insecure = False, ug_client_subnet = None\<rparr>"
| "into_group (FullGroup g) = g"

text \<open>The names of one key, each a group of its own.\<close>

fun add_groups :: "string list \<Rightarrow> upstream_group \<Rightarrow> (string \<times> upstream_group) list
    \<Rightarrow> load_error + (string \<times> upstream_group) list" where
  "add_groups [] g groups = Inr groups"
| "add_groups (name # names) g groups =
     (if name \<in> fst ` set groups then Inl (DuplicateGroup name)
      else add_groups names g (groups @ [(name, g)]))"

fun expand_rules :: "(rule_key \<times> group_serde) list \<Rightarrow> (string \<times> upstream_group) list
    \<Rightarrow> load_error + (string \<times> upstream_group) list" where
  "expand_rules [] groups = Inr groups"
| "expand_rules ((SingleKey name, g) # rules) groups =
     and_then (add_groups [name] (into_group g) groups) (expand_rules rules)"
| "expand_rules ((MultiKey names, g) # rules) groups =
     (if names = [] then Inl EmptyRuleKey
      else and_then (add_groups names (into_group g) groups) (expand_rules rules))"

fun into_rulesets :: "rulesets_serde \<Rightarrow> ruleset_entry list" where
  "into_rulesets (RulesetMap m) = map (\<lambda>(upstream, path). \<lparr>re_path = path, re_upstream = upstream\<rparr>) m"
| "into_rulesets (RulesetList l) = l"

definition into_config :: "addr_texts \<Rightarrow> config_yaml \<Rightarrow> load_error + config" where
  "into_config t y =
     and_then (parse_all (parse_default_nameserver t) (y_default_nameserver y)) (\<lambda>default_ns.
     and_then (expand_rules (y_rules y) [(''default'', into_group (y_nameserver y))]) (\<lambda>groups.
       Inr \<lparr>c_log_level = y_log_level y, c_listen = y_listen y,
            c_manage_resolv_conf = y_manage_resolv_conf y, c_strategy = y_strategy y,
            c_default_nameserver = default_ns, c_groups = groups,
            c_rulesets = into_rulesets (y_rulesets y), c_hosts = y_hosts y, c_cache = y_cache y,
            c_firewall = y_firewall y, c_dhcp = y_dhcp y, c_web = y_web y\<rparr>))"

definition load_config :: "(string \<Rightarrow> bool) \<Rightarrow> addr_texts \<Rightarrow> config_yaml \<Rightarrow> load_error + config" where
  "load_config ip_ok t y =
     and_then (into_config t y) (\<lambda>c. case validate ip_ok c of Some e \<Rightarrow> Inl (NotValid e) | None \<Rightarrow> Inr c)"

subsection \<open>Writing\<close>

definition refusing_group :: upstream_group where
  "refusing_group = \<lparr>ug_servers = [''rcode://refused''], ug_strategy = RoundRobin, ug_insecure = False,
     ug_client_subnet = None\<rparr>"

definition to_config_yaml :: "addr_texts \<Rightarrow> config \<Rightarrow> config_yaml" where
  "to_config_yaml t c =
     (let nameserver = (case map_of (c_groups c) ''default'' of Some g \<Rightarrow> g | None \<Rightarrow> refusing_group);
          others = filter (\<lambda>(name, g). name \<noteq> ''default'') (c_groups c)
      in \<lparr>y_log_level = c_log_level c, y_listen = c_listen c,
          y_manage_resolv_conf = c_manage_resolv_conf c, y_strategy = c_strategy c,
          y_default_nameserver = map (addr_text t) (c_default_nameserver c),
          y_nameserver = FullGroup nameserver,
          y_rules = map (\<lambda>(name, g). (SingleKey name, FullGroup g)) others,
          y_rulesets = RulesetList (c_rulesets c), y_hosts = c_hosts c, y_cache = c_cache c,
          y_firewall = c_firewall c, y_dhcp = c_dhcp c, y_web = c_web c\<rparr>)"

text \<open>\<open>generate_empty\<close>: what is written when there is no file yet.\<close>

definition generate_empty :: config where
  "generate_empty = \<lparr>c_log_level = LogInfo, c_listen = \<lparr>sa_ip = V4 0x7F000001, sa_port = 53\<rparr>,
     c_manage_resolv_conf = False, c_strategy = IpDefault, c_default_nameserver = [],
     c_groups = [(''default'', refusing_group)], c_rulesets = [], c_hosts = [],
     c_cache = \<lparr>cc_enable = True, cc_size = 4096, cc_min_ttl = 60, cc_max_ttl = 86400\<rparr>,
     c_firewall = None, c_dhcp = \<lparr>dh_v4 = None, dh_v6 = None, dh_ra = None\<rparr>,
     c_web = \<lparr>wc_enable = True, wc_listen = \<lparr>sa_ip = V4 0, sa_port = 8087\<rparr>, wc_query_log_size = 5000,
       wc_sqlite_path = ''/var/lib/relay/stats.db'', wc_web_dir = None,
       wc_auth = \<lparr>wa_enable = False, wa_username = [], wa_password_hash = []\<rparr>\<rparr>\<rparr>"

text \<open>\<open>load_or_init\<close>: the file, when there is one; otherwise a first one is written.\<close>

definition load_or_init :: "(string \<Rightarrow> bool) \<Rightarrow> addr_texts \<Rightarrow> bool \<Rightarrow> config_yaml option
    \<Rightarrow> config_yaml option \<times> (load_error option + config)" where
  "load_or_init ip_ok t can_write file =
     (case file of
        None \<Rightarrow>
          if can_write then (Some (to_config_yaml t generate_empty), Inr generate_empty) else (None, Inl None)
      | Some y \<Rightarrow>
          (file, case load_config ip_ok t y of Inl e \<Rightarrow> Inl (Some e) | Inr c \<Rightarrow> Inr c))"

subsection \<open>Reading back what was written\<close>

lemma parse_all_inverse:
  "(\<And>x. x \<in> set xs \<Longrightarrow> f (g x) = Inr x) \<Longrightarrow> parse_all f (map g xs) = Inr xs"
  by (induction xs) simp_all

lemma expand_single:
  "distinct (map fst gs) \<Longrightarrow> fst ` set gs \<inter> fst ` set groups = {} \<Longrightarrow>
     expand_rules (map (\<lambda>(name, g). (SingleKey name, FullGroup g)) gs) groups = Inr (groups @ gs)"
  by (induction gs arbitrary: groups) (auto simp: image_iff)

definition default_first :: "(string \<times> upstream_group) list \<Rightarrow> upstream_group \<Rightarrow> (string \<times> upstream_group) list" where
  "default_first groups g = (''default'', g) # filter (\<lambda>(name, g). name \<noteq> ''default'') groups"

lemma into_to_config:
  assumes "distinct (map fst (c_groups c))" "map_of (c_groups c) ''default'' = Some g"
    and "\<And>a. a \<in> set (c_default_nameserver c) \<Longrightarrow> parse_default_nameserver t (addr_text t a) = Inr a"
  shows "into_config t (to_config_yaml t c) = Inr (c\<lparr>c_groups := default_first (c_groups c) g\<rparr>)"
proof -
  have "distinct (map fst (filter (\<lambda>(name, g). name \<noteq> ''default'') (c_groups c)))"
    using assms(1) by (simp add: distinct_map_filter)
  moreover have "''default'' \<notin> fst ` set (filter (\<lambda>(name, g). name \<noteq> ''default'') (c_groups c))"
    by auto
  ultimately have "expand_rules (map (\<lambda>(name, g). (SingleKey name, FullGroup g))
        (filter (\<lambda>(name, g). name \<noteq> ''default'') (c_groups c))) [(''default'', g)]
      = Inr (default_first (c_groups c) g)"
    using expand_single [of _ "[(''default'', g)]"] by (simp add: default_first_def)
  then show ?thesis
    using parse_all_inverse [of "c_default_nameserver c" "parse_default_nameserver t" "addr_text t"] assms(2,3)
    by (simp add: into_config_def to_config_yaml_def Let_def)
qed

lemma default_first_map:
  assumes "distinct (map fst gs)" "map_of gs ''default'' = Some g"
  shows "map_of (default_first gs g) = map_of gs" and "set (default_first gs g) = set gs"
    and "length (default_first gs g) = length gs"
proof -
  have "map_of (filter (\<lambda>(name, g). name \<noteq> ''default'') gs) = (map_of gs)(''default'' := None)"
    for gs :: "(string \<times> upstream_group) list"
    by (induction gs) (auto simp: fun_eq_iff)
  then show m: "map_of (default_first gs g) = map_of gs"
    using assms(2) by (auto simp: default_first_def)
  have here: "(''default'', h) \<in> set gs \<longleftrightarrow> h = g" for h
    using map_of_is_SomeI [OF assms(1), of "''default''" h] map_of_SomeD [OF assms(2)] assms(2) by auto
  show s: "set (default_first gs g) = set gs"
  proof (rule set_eqI)
    fix x show "x \<in> set (default_first gs g) \<longleftrightarrow> x \<in> set gs"
      using here by (cases x) (auto simp: default_first_def)
  qed
  have "distinct (map fst (default_first gs g))"
    using assms(1) by (auto simp: default_first_def distinct_map_filter)
  then show "length (default_first gs g) = length gs"
    using s assms(1) by (metis distinct_card distinct_map)
qed

lemma index_eq_default_first:
  assumes "distinct (map fst gs)" "map_of gs ''default'' = Some g"
  shows "index_eq (default_first gs g) gs"
  using default_first_map [OF assms] assms by (auto simp: index_eq_def list_all_iff)

lemma validate_cong:
  assumes "map_of gs = map_of (c_groups c)" "set gs = set (c_groups c)"
  shows "validate ip_ok (c\<lparr>c_groups := gs\<rparr>) = validate ip_ok c"
proof -
  have "has_domain_upstream ip_ok (c\<lparr>c_groups := gs\<rparr>) = has_domain_upstream ip_ok c"
    by (simp add: has_domain_upstream_def list_ex_iff assms(2))
  moreover have "firewall_enabled (c\<lparr>c_groups := gs\<rparr>) = firewall_enabled c"
    by (simp add: firewall_enabled_def)
  ultimately show ?thesis
    by (simp add: validate_def assms(1) Let_def cong del: if_weak_cong option.case_cong_weak)
qed

text \<open>
  C22. After every successful reload the file can be loaded again, and what is loaded is the configuration
  in force: the check that the reload passed passes once more, and the only difference is the order of
  the groups.
\<close>

theorem restart_loads_the_applied_configuration:
  assumes "apply_config v new rt = (rt', Inr rep)" "distinct (map fst (c_groups new))"
    and "list_all (\<lambda>a. parse_default_nameserver t (addr_text t a) = Inr a) (c_default_nameserver new)"
  shows "\<exists>c. load_config (is_ip v) t (to_config_yaml t (rt_file rt')) = Inr c
    \<and> index_eq (c_groups c) (c_groups (rt_config rt'))
    \<and> c\<lparr>c_groups := []\<rparr> = (rt_config rt')\<lparr>c_groups := []\<rparr>"
proof -
  obtain locked where lock: "lock_readonly (rt_config rt) new = (rt_config rt', locked)"
    and valid: "validate (is_ip v) (rt_config rt') = None" and "file": "rt_file rt' = rt_config rt'"
  proof (rule apply_config_ok [OF assms(1)])
    fix c locked
    assume lock: "lock_readonly (rt_config rt) new = (c, locked)" and valid: "validate (is_ip v) c = None"
    have "rt_config rt' = c \<and> rt_file rt' = c" using apply_config_result [OF assms(1) lock] by simp
    then show thesis using that lock valid by simp
  qed
  have kept: "c_groups (rt_config rt') = c_groups new" "c_default_nameserver (rt_config rt') = c_default_nameserver new"
    using lock_readonly_fields [OF lock] by simp_all
  obtain g where g: "map_of (c_groups new) ''default'' = Some g"
    using valid kept by (auto simp: validate_def Let_def split: if_splits)
  have "into_config t (to_config_yaml t (rt_config rt')) = Inr ((rt_config rt')\<lparr>c_groups := default_first (c_groups new) g\<rparr>)"
    using into_to_config [of "rt_config rt'" g t] assms(2,3) g kept by (auto simp: list_all_iff)
  then have "load_config (is_ip v) t (to_config_yaml t (rt_file rt'))
      = Inr ((rt_config rt')\<lparr>c_groups := default_first (c_groups new) g\<rparr>)"
    using validate_cong [of "default_first (c_groups new) g" "rt_config rt'"] default_first_map [OF assms(2) g] valid kept "file"
    by (simp add: load_config_def)
  then show ?thesis
    using index_eq_default_first [OF assms(2) g] kept by simp
qed

definition sample_texts :: addr_texts where
  "sample_texts = \<lparr>parse_addr = (\<lambda>s. if s = ''x'' then Some (sample_addr 53) else None),
     parse_ip = (\<lambda>_. None), addr_text = (\<lambda>_. ''x'')\<rparr>"

theorem restart_loads_the_applied_configuration_witness:
  "\<exists>rt rep c. apply_config (sample_env True) (sample_config 53 ''b'') (sample_runtime 53 ''a'') = (rt, Inr rep)
     \<and> load_config (is_ip (sample_env True)) sample_texts (to_config_yaml sample_texts (rt_file rt)) = Inr c"
proof -
  have "\<exists>rt rep. apply_config (sample_env True) (sample_config 53 ''b'') (sample_runtime 53 ''a'') = (rt, Inr rep)"
    by (simp add: apply_evals sample_runtime_def)
  then obtain rt rep where ap:
    "apply_config (sample_env True) (sample_config 53 ''b'') (sample_runtime 53 ''a'') = (rt, Inr rep)" by blast
  have "list_all (\<lambda>a. parse_default_nameserver sample_texts (addr_text sample_texts a) = Inr a)
      (c_default_nameserver (sample_config 53 ''b''))"
    by (simp add: sample_config_def sample_texts_def parse_default_nameserver_def sublist_code)
  from restart_loads_the_applied_configuration [OF ap _ this] show ?thesis
    using ap by auto
qed

subsection \<open>The first run\<close>

text \<open>What the panel can do to the settings: save a configuration, or change the password.\<close>

datatype panel_op =
    SaveConfig env config
  | NewPassword bcrypt "string + string" "string option" string string

fun perform :: "panel_op \<Rightarrow> auth_state \<times> runtime \<Rightarrow> auth_state \<times> runtime" where
  "perform (SaveConfig v c) (s, rt) = (s, fst (apply_config v c rt))"
| "perform (NewPassword bc hashed save_error old_password new_password) state =
     fst (change_password bc hashed save_error old_password new_password state)"

definition settings_name :: "runtime \<Rightarrow> string" where
  "settings_name rt = wa_username (wc_auth (c_web (rt_config rt)))"

lemma perform_name: "settings_name (snd (perform p state)) = settings_name (snd state)"
proof (cases p)
  case (SaveConfig v c)
  obtain new locked where lock: "lock_readonly (rt_config (snd state)) c = (new, locked)" by fastforce
  obtain rt' r where ap: "apply_config v c (snd state) = (rt', r)" by fastforce
  have "rt_config rt' = rt_config (snd state) \<or> rt_config rt' = new"
    using apply_config_result [OF ap lock] by (cases r) auto
  then have "settings_name rt' = settings_name (snd state)"
    using lock_readonly_fields [OF lock] by (auto simp: settings_name_def)
  then show ?thesis using SaveConfig ap by (cases state) simp
next
  case (NewPassword bc hashed save_error old_password new_password)
  then show ?thesis
    by (cases state)
      (auto simp: change_password_def settings_name_def with_hash_def Let_def split: if_splits sum.splits option.splits)
qed


lemma sample_first_start: "\<exists>rt. start_runtime (sample_env True) generate_empty = Inr rt"
  by (simp add: start_runtime_def router_of_def install_firewall_def generate_empty_def refusing_group_def Let_def)
    (simp add: sample_env_def sample_addr_def)


end
