(* ===== verification/Dns_Cache.thy ===== *)
theory Dns_Cache
  imports Runtime
begin

text \<open>
  DNS messages and the cache of answers, \<open>src/src/dns/cache.rs\<close>.

  A message has the parts the code reads or writes; the wire format is the business of \<open>hickory_proto\<close>. The
  \<open>LruCache\<close> of the crate \<open>lru\<close> is a parameter: its operations (\<open>lru_ops\<close>) on a state of its own, of
  which \<open>lru_laws\<close> states the documented behaviour, seen through the entries it holds: an entry that was
  put is found until it is removed or replaced, any other entry may be evicted to make room. The
  conversion to lower case is a parameter, too. Time is in nanoseconds.
\<close>

subsection \<open>Messages\<close>

datatype response_code =
  NoError | NXDomain | ServFail | Refused | FormErr | NotImp | YXDomain | YXRRSet | NXRRSet | NotAuth | NotZone
| OtherCode nat

datatype rdata = AData "32 word" | AAAAData "128 word" | OtherData "byte list"

record dns_record =
  rr_name :: string
  rr_type :: "16 word"
  rr_ttl :: "32 word"
  rr_data :: rdata

record dns_message =
  m_id :: "16 word"
  m_response :: bool
  m_opcode :: nat
  m_recursion_desired :: bool
  m_recursion_available :: bool
  m_rcode :: response_code
  m_queries :: "(string \<times> 16 word) list"
  m_answers :: "dns_record list"
  m_authorities :: "dns_record list"
  m_additionals :: "dns_record list"

definition new_message :: dns_message where
  "new_message = \<lparr>m_id = 0, m_response = False, m_opcode = 0, m_recursion_desired = False,
     m_recursion_available = False, m_rcode = NoError, m_queries = [], m_answers = [], m_authorities = [],
     m_additionals = []\<rparr>"

subsection \<open>Entries\<close>

record cache_entry =
  ce_message :: dns_message
  ce_inserted_at :: nat
  ce_ttl :: "32 word"
  ce_original_upstream :: string

definition elapsed_secs :: "nat \<Rightarrow> nat \<Rightarrow> nat" where
  "elapsed_secs now since = (now - since) div 10 ^ 9"

definition remaining_ttl :: "nat \<Rightarrow> cache_entry \<Rightarrow> 32 word option" where
  "remaining_ttl now e =
     (let elapsed = word_of_nat (elapsed_secs now (ce_inserted_at e)) :: 32 word
      in if ce_ttl e \<le> elapsed then None else Some (ce_ttl e - elapsed))"

subsection \<open>The cache\<close>

record 's lru_ops =
  lru_new :: "nat \<Rightarrow> 's"
  lru_get :: "string \<Rightarrow> 's \<Rightarrow> cache_entry option \<times> 's"
  lru_put :: "string \<Rightarrow> cache_entry \<Rightarrow> 's \<Rightarrow> 's"
  lru_pop :: "string \<Rightarrow> 's \<Rightarrow> 's"

record 's dns_cache =
  dc_inner :: 's
  dc_min_ttl :: "32 word"
  dc_max_ttl :: "32 word"

definition new_cache :: "'s lru_ops \<Rightarrow> cache_config \<Rightarrow> 's dns_cache" where
  "new_cache l cfg =
     \<lparr>dc_inner = lru_new l (max (cc_size cfg) 1), dc_min_ttl = cc_min_ttl cfg, dc_max_ttl = cc_max_ttl cfg\<rparr>"

definition cache_key :: "(string \<Rightarrow> string) \<Rightarrow> string \<Rightarrow> 16 word \<Rightarrow> string" where
  "cache_key lower name qtype = lower name @ '':'' @ nat_str (unat qtype)"

definition with_ttl :: "32 word \<Rightarrow> dns_message \<Rightarrow> dns_message" where
  "with_ttl ttl m = m\<lparr>m_answers := map (\<lambda>r. r\<lparr>rr_ttl := ttl\<rparr>) (m_answers m),
     m_additionals := map (\<lambda>r. r\<lparr>rr_ttl := ttl\<rparr>) (m_additionals m)\<rparr>"

definition cache_get :: "'s lru_ops \<Rightarrow> (string \<Rightarrow> string) \<Rightarrow> string \<Rightarrow> 16 word \<Rightarrow> nat \<Rightarrow> 's dns_cache
    \<Rightarrow> (dns_message \<times> string) option \<times> 's dns_cache" where
  "cache_get l lower name qtype now c =
     (let key = cache_key lower name qtype; (found, inner) = lru_get l key (dc_inner c)
      in case found of
           None \<Rightarrow> (None, c\<lparr>dc_inner := inner\<rparr>)
         | Some e \<Rightarrow>
             (case remaining_ttl now e of
                Some remaining \<Rightarrow>
                  (Some (with_ttl remaining (ce_message e), ce_original_upstream e), c\<lparr>dc_inner := inner\<rparr>)
              | None \<Rightarrow> (None, c\<lparr>dc_inner := lru_pop l key inner\<rparr>)))"

definition smallest_ttl :: "32 word \<Rightarrow> dns_message \<Rightarrow> 32 word" where
  "smallest_ttl fallback m =
     (case map rr_ttl (m_answers m @ m_additionals m) of [] \<Rightarrow> fallback | t # ts \<Rightarrow> fold min ts t)"

definition stored_ttl :: "32 word \<Rightarrow> 32 word \<Rightarrow> dns_message \<Rightarrow> 32 word" where
  "stored_ttl min_ttl max_ttl m = min (max (smallest_ttl min_ttl m) min_ttl) max_ttl"

definition cache_insert :: "'s lru_ops \<Rightarrow> (string \<Rightarrow> string) \<Rightarrow> string \<Rightarrow> 16 word \<Rightarrow> dns_message \<Rightarrow> string
    \<Rightarrow> nat \<Rightarrow> 's dns_cache \<Rightarrow> 's dns_cache" where
  "cache_insert l lower name qtype message original_upstream now c =
     (let ttl = stored_ttl (dc_min_ttl c) (dc_max_ttl c) message
      in if ttl = 0 then c
         else c\<lparr>dc_inner := lru_put l (cache_key lower name qtype)
                  \<lparr>ce_message = message, ce_inserted_at = now, ce_ttl = ttl,
                   ce_original_upstream = original_upstream\<rparr> (dc_inner c)\<rparr>)"

subsection \<open>What an \<open>LruCache\<close> promises\<close>

definition lru_laws :: "'s lru_ops \<Rightarrow> ('s \<Rightarrow> string \<Rightarrow> cache_entry option) \<Rightarrow> bool" where
  "lru_laws l view \<longleftrightarrow>
     (\<forall>n k. view (lru_new l n) k = None)
     \<and> (\<forall>k s. fst (lru_get l k s) = view s k \<and> view (snd (lru_get l k s)) = view s)
     \<and> (\<forall>k s. view (lru_pop l k s) = (view s)(k := None))
     \<and> (\<forall>k e s. view (lru_put l k e s) k = Some e
          \<and> (\<forall>j. j \<noteq> k \<longrightarrow> view (lru_put l k e s) j = None \<or> view (lru_put l k e s) j = view s j))"

subsection \<open>Keys\<close>

lemma nat_str_no_colon: "CHR '':'' \<notin> set (nat_str n)"
  using nat_str_digits [of n] by (auto simp: is_digit_def)

lemma last_part_unique:
  "c \<notin> set t \<Longrightarrow> c \<notin> set t' \<Longrightarrow> s @ c # t = s' @ c # t' \<longleftrightarrow> s = s' \<and> t = t'"
proof
  assume eq: "s @ c # t = s' @ c # t'" and free: "c \<notin> set t" "c \<notin> set t'"
  have "takeWhile (\<lambda>x. x \<noteq> c) (rev (u @ c # v)) = rev v" if "c \<notin> set v" for u v
    unfolding rev_append rev.simps append_assoc by (subst takeWhile_append2) (use that in auto)
  with eq free have "t = t'" by (metis rev_rev_ident)
  with eq show "s = s' \<and> t = t'" by simp
qed simp

lemma cache_key_eq:
  "cache_key lower n q = cache_key lower n' q' \<longleftrightarrow> lower n = lower n' \<and> q = q'"
  using last_part_unique [OF nat_str_no_colon nat_str_no_colon, of "lower n" "unat q" "lower n'" "unat q'"]
  by (simp add: cache_key_def word_unat_eq_iff)

subsection \<open>Histories\<close>

datatype cache_event =
    Looked string "16 word" nat
  | Stored string "16 word" dns_message string nat

fun cache_step :: "'s lru_ops \<Rightarrow> (string \<Rightarrow> string) \<Rightarrow> cache_event \<Rightarrow> 's dns_cache \<Rightarrow> 's dns_cache" where
  "cache_step l lower (Looked name q now) c = snd (cache_get l lower name q now c)"
| "cache_step l lower (Stored name q m up now) c = cache_insert l lower name q m up now c"

definition cache_run :: "'s lru_ops \<Rightarrow> (string \<Rightarrow> string) \<Rightarrow> cache_event list \<Rightarrow> 's dns_cache \<Rightarrow> 's dns_cache" where
  "cache_run l lower es c = fold (cache_step l lower) es c"

text \<open>An answer that goes into the cache under a key.\<close>

fun stores :: "cache_config \<Rightarrow> (string \<Rightarrow> string) \<Rightarrow> string \<Rightarrow> 16 word \<Rightarrow> cache_event \<Rightarrow> bool" where
  "stores cfg lower name q (Stored name' q' m up now) \<longleftrightarrow>
     lower name' = lower name \<and> q' = q \<and> stored_ttl (cc_min_ttl cfg) (cc_max_ttl cfg) m \<noteq> 0"
| "stores cfg lower name q (Looked name' q' now) \<longleftrightarrow> False"

lemma cache_step_limits:
  "dc_min_ttl (cache_step l lower e c) = dc_min_ttl c \<and> dc_max_ttl (cache_step l lower e c) = dc_max_ttl c"
  by (cases e) (auto simp: cache_get_def cache_insert_def Let_def split: prod.split option.split)

lemma cache_run_limits:
  "dc_min_ttl (cache_run l lower es (new_cache l cfg)) = cc_min_ttl cfg
   \<and> dc_max_ttl (cache_run l lower es (new_cache l cfg)) = cc_max_ttl cfg"
  by (induction es rule: rev_induct) (simp_all add: cache_run_def new_cache_def cache_step_limits)

text \<open>One step keeps an entry, or puts a new one under its key.\<close>

lemma cache_step_entry:
  assumes laws: "lru_laws l view" and held: "view (dc_inner (cache_step l lower e c)) k = Some entry"
    and limits: "dc_min_ttl c = cc_min_ttl cfg" "dc_max_ttl c = cc_max_ttl cfg"
  shows "view (dc_inner c) k = Some entry
       \<and> (\<forall>name q. k = cache_key lower name q \<longrightarrow> \<not> stores cfg lower name q e)
     \<or> (\<exists>name q m up t. e = Stored name q m up t \<and> k = cache_key lower name q
       \<and> stored_ttl (cc_min_ttl cfg) (cc_max_ttl cfg) m \<noteq> 0
       \<and> entry = \<lparr>ce_message = m, ce_inserted_at = t, ce_ttl = stored_ttl (cc_min_ttl cfg) (cc_max_ttl cfg) m,
                  ce_original_upstream = up\<rparr>)"
proof (cases e)
  case (Looked name q now)
  obtain found inner where get: "lru_get l (cache_key lower name q) (dc_inner c) = (found, inner)" by fastforce
  have views: "view inner = view (dc_inner c)" "\<And>j. view (lru_pop l j inner) = (view inner)(j := None)"
    using laws get by (simp_all add: lru_laws_def) (metis snd_conv)
  show ?thesis
    using held Looked get views
    by (auto simp: cache_get_def Let_def split: option.splits if_splits)
next
  case (Stored name q m up t)
  show ?thesis
  proof (cases "stored_ttl (cc_min_ttl cfg) (cc_max_ttl cfg) m = 0")
    case True
    then show ?thesis using held Stored limits by (auto simp: cache_insert_def Let_def)
  next
    case False
    have puts: "view (lru_put l j e' s) j = Some e'"
      "j' \<noteq> j \<Longrightarrow> view (lru_put l j e' s) j' = None \<or> view (lru_put l j e' s) j' = view s j'" for j j' e' s
      using laws by (auto simp: lru_laws_def)
    show ?thesis
    proof (cases "k = cache_key lower name q")
      case True
      then show ?thesis using held Stored limits False puts(1) by (auto simp: cache_insert_def Let_def)
    next
      case other: False
      then have "view (dc_inner c) k = Some entry"
        using held Stored limits False puts(2) [OF other] by (auto simp: cache_insert_def Let_def) (metis option.distinct(1))
      then show ?thesis using other Stored by (auto simp: cache_key_eq)
    qed
  qed
qed

lemma cache_run_entry:
  assumes "lru_laws l view"
  shows "view (dc_inner (cache_run l lower es (new_cache l cfg))) k = Some entry \<Longrightarrow>
    \<exists>before name q m up t after. es = before @ Stored name q m up t # after
      \<and> k = cache_key lower name q \<and> stored_ttl (cc_min_ttl cfg) (cc_max_ttl cfg) m \<noteq> 0
      \<and> entry = \<lparr>ce_message = m, ce_inserted_at = t, ce_ttl = stored_ttl (cc_min_ttl cfg) (cc_max_ttl cfg) m,
                 ce_original_upstream = up\<rparr>
      \<and> list_all (\<lambda>e. \<not> stores cfg lower name q e) after"
proof (induction es arbitrary: entry rule: rev_induct)
  case Nil
  then show ?case using assms by (simp add: cache_run_def new_cache_def lru_laws_def)
next
  case (snoc e es)
  let ?c = "cache_run l lower es (new_cache l cfg)"
  have "view (dc_inner (cache_step l lower e ?c)) k = Some entry"
    using snoc.prems by (simp add: cache_run_def)
  from cache_step_entry [OF assms this] cache_run_limits [of l lower es cfg]
  consider (kept) "view (dc_inner ?c) k = Some entry" "\<forall>name q. k = cache_key lower name q \<longrightarrow> \<not> stores cfg lower name q e"
    | (put) name q m up t where "e = Stored name q m up t" "k = cache_key lower name q"
        "stored_ttl (cc_min_ttl cfg) (cc_max_ttl cfg) m \<noteq> 0"
        "entry = \<lparr>ce_message = m, ce_inserted_at = t, ce_ttl = stored_ttl (cc_min_ttl cfg) (cc_max_ttl cfg) m,
                  ce_original_upstream = up\<rparr>"
    by blast
  then show ?case
  proof cases
    case kept
    obtain before name q m up t "after" where es: "es = before @ Stored name q m up t # after"
      "k = cache_key lower name q" "stored_ttl (cc_min_ttl cfg) (cc_max_ttl cfg) m \<noteq> 0"
      "entry = \<lparr>ce_message = m, ce_inserted_at = t, ce_ttl = stored_ttl (cc_min_ttl cfg) (cc_max_ttl cfg) m,
                ce_original_upstream = up\<rparr>"
      "list_all (\<lambda>e. \<not> stores cfg lower name q e) after"
      using snoc.IH [OF kept(1)] by blast
    show ?thesis
      by (rule exI [of _ before], rule exI [of _ name], rule exI [of _ q], rule exI [of _ m], rule exI [of _ up],
        rule exI [of _ t], rule exI [of _ "after @ [e]"]) (use es kept(2) in auto)
  next
    case put
    show ?thesis
      by (rule exI [of _ es], rule exI [of _ name], rule exI [of _ q], rule exI [of _ m], rule exI [of _ up],
        rule exI [of _ t], rule exI [of _ "[]"]) (use put in auto)
  qed
qed

text \<open>
  C21. An answer from the cache is the last one stored for this name, in whatever case it was written, and
  this type: it is unchanged but for the times to live, which are what is left of the time granted
  when it was stored, at least a second and never more than the configured maximum, and the upstream
  reported with it is the one that gave it. The age of an entry is taken modulo \<open>2 ^ 32\<close> seconds.
\<close>

theorem cache_hit_is_the_last_answer:
  assumes "lru_laws l view" "c = cache_run l lower es (new_cache l cfg)"
    and "cache_get l lower name q now c = (Some (answer, up), c')"
  shows "\<exists>before name' m t after ttl.
    es = before @ Stored name' q m up t # after \<and> lower name' = lower name
    \<and> list_all (\<lambda>e. \<not> stores cfg lower name q e) after
    \<and> answer = with_ttl ttl m \<and> 0 < unat ttl \<and> ttl \<le> cc_max_ttl cfg
    \<and> unat ttl = unat (stored_ttl (cc_min_ttl cfg) (cc_max_ttl cfg) m) - elapsed_secs now t mod 2 ^ 32"
proof -
  obtain entry remaining where entry: "view (dc_inner c) (cache_key lower name q) = Some entry"
    "remaining_ttl now entry = Some remaining"
    "answer = with_ttl remaining (ce_message entry)" "up = ce_original_upstream entry"
    using assms(1,3) unfolding lru_laws_def cache_get_def Let_def
    by (auto split: option.splits prod.splits if_splits) (metis fst_conv)
  obtain before name' q' m up' t "after" where es: "es = before @ Stored name' q' m up' t # after"
    "cache_key lower name q = cache_key lower name' q'"
    "entry = \<lparr>ce_message = m, ce_inserted_at = t, ce_ttl = stored_ttl (cc_min_ttl cfg) (cc_max_ttl cfg) m,
              ce_original_upstream = up'\<rparr>"
    "list_all (\<lambda>e. \<not> stores cfg lower name' q' e) after"
    using cache_run_entry [OF assms(1)] entry(1) unfolding assms(2) by blast
  let ?ttl = "stored_ttl (cc_min_ttl cfg) (cc_max_ttl cfg) m"
    and ?elapsed = "word_of_nat (elapsed_secs now t) :: 32 word"
  have less: "?elapsed < ?ttl" and rem: "remaining = ?ttl - ?elapsed"
    using entry(2) es(3) by (auto simp: remaining_ttl_def Let_def not_le split: if_splits)
  have nat: "unat remaining = unat ?ttl - elapsed_secs now t mod 2 ^ 32"
    using less rem by (simp add: unat_sub less_imp_le unat_of_nat)
  moreover have "elapsed_secs now t mod 2 ^ 32 < unat ?ttl"
    using less by (simp add: word_less_nat_alt unat_of_nat)
  moreover have "unat ?ttl \<le> unat (cc_max_ttl cfg)"
    by (simp add: stored_ttl_def flip: word_le_nat_alt)
  moreover have "stores cfg lower name' q' = stores cfg lower name q"
  proof
    fix e show "stores cfg lower name' q' e = stores cfg lower name q e"
      using es(2) by (cases e) (auto simp: cache_key_eq)
  qed
  moreover have "lower name' = lower name" "q' = q" using es(2) by (simp_all add: cache_key_eq)
  ultimately show ?thesis
    using es entry
    by (intro exI [of _ before] exI [of _ name'] exI [of _ m] exI [of _ t] exI [of _ "after"] exI [of _ remaining])
      (simp add: word_le_nat_alt)
qed

text \<open>An \<open>LruCache\<close> as a list, the entry used last in front.\<close>

fun list_get :: "string \<Rightarrow> nat \<times> (string \<times> cache_entry) list \<Rightarrow> cache_entry option \<times> nat \<times> (string \<times> cache_entry) list" where
  "list_get k (n, xs) =
     (case map_of xs k of
        None \<Rightarrow> (None, n, xs)
      | Some e \<Rightarrow> (Some e, n, (k, e) # filter (\<lambda>(j, v). j \<noteq> k) xs))"

definition list_lru :: "(nat \<times> (string \<times> cache_entry) list) lru_ops" where
  "list_lru = \<lparr>lru_new = (\<lambda>n. (n, [])), lru_get = list_get,
     lru_put = (\<lambda>k e (n, xs). (n, (k, e) # take (n - 1) (filter (\<lambda>(j, v). j \<noteq> k) xs))),
     lru_pop = (\<lambda>k (n, xs). (n, filter (\<lambda>(j, v). j \<noteq> k) xs))\<rparr>"

lemma map_of_without: "map_of (filter (\<lambda>(j, v). j \<noteq> k) xs) = (map_of xs)(k := None)"
  by (induction xs) (auto simp: fun_eq_iff)

lemma map_of_take: "map_of (take n xs) j = None \<or> map_of (take n xs) j = map_of xs j"
  by (induction xs arbitrary: n) (auto simp: take_Cons split: nat.splits)

lemma list_lru_laws: "lru_laws list_lru (\<lambda>(n, xs). map_of xs)"
proof -
  have "map_of (take n (filter (\<lambda>(j, v). j \<noteq> k) xs)) j = None
      \<or> map_of (take n (filter (\<lambda>(j, v). j \<noteq> k) xs)) j = map_of xs j" if "j \<noteq> k"
    for n j k and xs :: "(string \<times> cache_entry) list"
    using map_of_take [of n "filter (\<lambda>(j, v). j \<noteq> k) xs" j] that by (simp add: map_of_without)
  then show ?thesis
    by (auto simp: lru_laws_def list_lru_def map_of_without fun_eq_iff split: option.splits)
qed

definition sample_answer :: dns_message where
  "sample_answer = new_message\<lparr>m_response := True, m_queries := [(''a.'', 1)],
     m_answers := [\<lparr>rr_name = ''a.'', rr_type = 1, rr_ttl = 300, rr_data = AData 0x01020304\<rparr>]\<rparr>"

definition sample_cache_config :: cache_config where
  "sample_cache_config = \<lparr>cc_enable = True, cc_size = 8, cc_min_ttl = 60, cc_max_ttl = 100\<rparr>"

lemma sample_ttl: "stored_ttl 60 100 sample_answer = 100"
  by (simp add: stored_ttl_def smallest_ttl_def sample_answer_def new_message_def min_def max_def)

lemma sample_hit:
  "cache_get list_lru (map ascii_lower) ''A.'' 1 (40 * 10 ^ 9)
     (cache_run list_lru (map ascii_lower) [Stored ''a.'' 1 sample_answer ''default'' 0] (new_cache list_lru sample_cache_config))
   = (Some (with_ttl 60 sample_answer, ''default''),
      cache_run list_lru (map ascii_lower) [Stored ''a.'' 1 sample_answer ''default'' 0] (new_cache list_lru sample_cache_config))"
proof -
  have key: "cache_key (map ascii_lower) ''A.'' 1 = ''a.:1''" "cache_key (map ascii_lower) ''a.'' 1 = ''a.:1''"
    by code_simp+
  show ?thesis
    by (simp add: sample_ttl cache_run_def new_cache_def cache_insert_def cache_get_def key list_lru_def
      sample_cache_config_def remaining_ttl_def elapsed_secs_def)
qed

theorem cache_hit_is_the_last_answer_witness:
  "\<exists>ttl. with_ttl 60 sample_answer = with_ttl ttl sample_answer \<and> unat ttl = 60"
  using sample_ttl cache_hit_is_the_last_answer [OF list_lru_laws refl sample_hit]
  by (auto simp: Cons_eq_append_conv sample_cache_config_def elapsed_secs_def)

end
