(* ===== verification/Dns_Resolver.thy ===== *)
theory Dns_Resolver
  imports Dns_Cache
begin

text \<open>
  The resolver behind the listener: \<open>resolve_with_meta\<close> of \<open>src/src/dns/router.rs\<close> and the tables of hosts,
  \<open>src/src/dns/hosts.rs\<close>.

  The router is the one of \<open>Runtime\<close>. What changes while it answers is the record \<open>resolver\<close>: the cache and
  the table that the DHCP server fills. The environment of a query (\<open>dns_env\<close>) has the operations of the
  cache's store, what an upstream group answers to a message and how long it takes, whether a text is
  the name of a domain, the name of a record type, the conversion to lower case, and two moments: when
  the query came and when its answer is stored. Latencies stay in nanoseconds.
\<close>

subsection \<open>Hosts\<close>

definition type_A :: "16 word" where
  "type_A = 1"

definition type_AAAA :: "16 word" where
  "type_AAAA = 28"

record dynamic_hosts =
  dh_entries :: "string \<Rightarrow> ip_addr option"
  dh_domain :: "string option"

definition dynamic_insert :: "(string \<Rightarrow> string) \<Rightarrow> string \<Rightarrow> ip_addr \<Rightarrow> dynamic_hosts \<Rightarrow> dynamic_hosts" where
  "dynamic_insert lower hostname ip h =
     (let hn = lower hostname; entries = (dh_entries h)(hn \<mapsto> ip)
      in h\<lparr>dh_entries := (case dh_domain h of
             None \<Rightarrow> entries
           | Some d \<Rightarrow> entries(hn @ ''.'' @ d \<mapsto> ip))\<rparr>)"

definition dynamic_remove :: "(string \<Rightarrow> string) \<Rightarrow> string \<Rightarrow> dynamic_hosts \<Rightarrow> dynamic_hosts" where
  "dynamic_remove lower hostname h =
     (let hn = lower hostname; entries = (dh_entries h)(hn := None)
      in h\<lparr>dh_entries := (case dh_domain h of
             None \<Rightarrow> entries
           | Some d \<Rightarrow> entries(hn @ ''.'' @ d := None))\<rparr>)"

text \<open>The table from the configuration: of keys that differ only in their case, the last one counts.\<close>

definition hosts_table :: "(string \<Rightarrow> string) \<Rightarrow> (string \<times> ip_addr) list \<Rightarrow> string \<Rightarrow> ip_addr option" where
  "hosts_table lower entries = map_of (rev (map (\<lambda>(k, v). (lower k, v)) entries))"

fun host_data :: "ip_addr \<Rightarrow> 16 word \<Rightarrow> rdata option" where
  "host_data (V4 v) qtype = (if qtype = type_A then Some (AData v) else None)"
| "host_data (V6 v) qtype = (if qtype = type_AAAA then Some (AAAAData v) else None)"

definition build_response :: "(string \<Rightarrow> bool) \<Rightarrow> string \<Rightarrow> ip_addr \<Rightarrow> 16 word \<Rightarrow> 16 word \<Rightarrow> dns_message option" where
  "build_response parses name ip qtype qid =
     (case host_data ip qtype of
        None \<Rightarrow> None
      | Some d \<Rightarrow>
          if \<not> parses name then None
          else Some (new_message\<lparr>m_id := qid, m_response := True, m_recursion_desired := True,
                 m_recursion_available := True,
                 m_answers := [\<lparr>rr_name = name, rr_type = qtype, rr_ttl = 300, rr_data = d\<rparr>]\<rparr>))"

definition host_lookup :: "(string \<Rightarrow> string) \<Rightarrow> (string \<Rightarrow> bool) \<Rightarrow> (string \<Rightarrow> ip_addr option)
    \<Rightarrow> string \<Rightarrow> 16 word \<Rightarrow> 16 word \<Rightarrow> dns_message option" where
  "host_lookup lower parses table name qtype qid =
     Option.bind (table (lower (trim_end_char CHR ''.'' name))) (\<lambda>ip. build_response parses name ip qtype qid)"

subsection \<open>Messages of the router\<close>

definition rewrite_qtype :: "dns_message \<Rightarrow> 16 word \<Rightarrow> dns_message" where
  "rewrite_qtype m t =
     m\<lparr>m_queries := (case m_queries m of [] \<Rightarrow> [] | (n, _) # qs \<Rightarrow> (n, t) # qs)\<rparr>"

definition merge_responses :: "dns_message \<Rightarrow> dns_message \<Rightarrow> dns_message option \<Rightarrow> bool \<Rightarrow> dns_message" where
  "merge_responses request primary secondary primary_first =
     (let p = primary\<lparr>m_id := m_id request\<rparr>
      in case secondary of
           None \<Rightarrow> p
         | Some s \<Rightarrow>
             if primary_first then p\<lparr>m_answers := m_answers p @ m_answers s\<rparr>
             else p\<lparr>m_answers := m_answers s @ m_answers p\<rparr>)"

definition empty_noerror :: "dns_message \<Rightarrow> dns_message" where
  "empty_noerror request =
     new_message\<lparr>m_id := m_id request, m_response := True, m_recursion_desired := True,
       m_recursion_available := True, m_queries := m_queries request\<rparr>"

fun rcode_name :: "response_code \<Rightarrow> string" where
  "rcode_name NoError = ''NOERROR''"
| "rcode_name NXDomain = ''NXDOMAIN''"
| "rcode_name ServFail = ''SERVFAIL''"
| "rcode_name Refused = ''REFUSED''"
| "rcode_name FormErr = ''FORMERR''"
| "rcode_name NotImp = ''NOTIMP''"
| "rcode_name YXDomain = ''YXDOMAIN''"
| "rcode_name YXRRSet = ''YXRRSET''"
| "rcode_name NXRRSet = ''NXRRSET''"
| "rcode_name NotAuth = ''NOTAUTH''"
| "rcode_name NotZone = ''NOTZONE''"
| "rcode_name (OtherCode n) = ''OTHER''"

subsection \<open>Queries\<close>

record 's dns_env =
  de_lru :: "'s lru_ops"
  de_lower :: "string \<Rightarrow> string"
  de_name_parses :: "string \<Rightarrow> bool"
  de_qtype_name :: "16 word \<Rightarrow> string"
  de_query :: "upstream_group \<Rightarrow> dns_message \<Rightarrow> string + dns_message \<times> nat"
  de_now :: nat
  de_stored_at :: nat

datatype resolve_error = EmptyDnsQuery | NoDefaultUpstream | QueryFailed string

text \<open>
  The arms of \<open>query_with_strategy\<close> that send two queries: the type of the second one, and whether the
  records of the first come first.
\<close>

fun second_query :: "ip_strategy \<Rightarrow> 16 word \<Rightarrow> (16 word \<times> bool) option" where
  "second_query PreferIpv4 t =
     (if t = type_A then Some (type_AAAA, True) else if t = type_AAAA then Some (type_A, False) else None)"
| "second_query PreferIpv6 t =
     (if t = type_AAAA then Some (type_A, True) else if t = type_A then Some (type_AAAA, False) else None)"
| "second_query s t = None"

definition query_with_strategy :: "'s dns_env \<Rightarrow> ip_strategy \<Rightarrow> upstream_group \<Rightarrow> dns_message \<Rightarrow> 16 word
    \<Rightarrow> resolve_error + dns_message \<times> nat" where
  "query_with_strategy v strat g request qtype =
     (case (second_query strat qtype, de_query v g request) of
        (_, Inl e) \<Rightarrow> Inl (QueryFailed e)
      | (None, Inr answer) \<Rightarrow> Inr answer
      | (Some (other, first), Inr (resp, dur)) \<Rightarrow>
          (case de_query v g (rewrite_qtype request other) of
             Inl _ \<Rightarrow> Inr (merge_responses request resp None first, max dur 0)
           | Inr (resp2, dur2) \<Rightarrow> Inr (merge_responses request resp (Some resp2) first, max dur dur2)))"

record resolve_meta =
  rm_domain :: string
  rm_qtype :: string
  rm_upstream :: string
  rm_original_upstream :: string
  rm_rcode :: string
  rm_rule :: "string option"
  rm_cached :: bool
  rm_blocked :: bool
  rm_latency :: "nat option"

definition meta_of :: "string \<Rightarrow> string \<Rightarrow> string \<Rightarrow> string \<Rightarrow> string \<Rightarrow> resolve_meta" where
  "meta_of name qtype upstream original rcode =
     \<lparr>rm_domain = name, rm_qtype = qtype, rm_upstream = upstream, rm_original_upstream = original,
      rm_rcode = rcode, rm_rule = None, rm_cached = False, rm_blocked = False, rm_latency = None\<rparr>"

record 's resolver =
  rs_cache :: "'s dns_cache option"
  rs_dynamic :: dynamic_hosts

type_synonym resolved = "resolve_error + dns_message \<times> resolve_meta"

text \<open>The rule that decides: its rule set contains the name and its upstream exists.\<close>

fun first_rule :: "(drs_file \<times> string) list \<Rightarrow> (string \<times> upstream_group) list \<Rightarrow> string
    \<Rightarrow> (string \<times> upstream_group) option" where
  "first_rule [] groups domain = None"
| "first_rule ((d, u) # rules) groups domain =
     (if matches_normalized d domain \<noteq> None then
        (case map_of groups u of Some g \<Rightarrow> Some (u, g) | None \<Rightarrow> first_rule rules groups domain)
      else first_rule rules groups domain)"

definition is_rcode_group :: "upstream_group \<Rightarrow> bool" where
  "is_rcode_group g = list_all (prefix ''rcode://'') (ug_servers g)"

definition keep_answer :: "'s dns_env \<Rightarrow> string \<Rightarrow> 16 word \<Rightarrow> dns_message \<Rightarrow> string \<Rightarrow> 's resolver \<Rightarrow> 's resolver" where
  "keep_answer v name qtype resp original s =
     s\<lparr>rs_cache := map_option (cache_insert (de_lru v) (de_lower v) name qtype resp original (de_stored_at v)) (rs_cache s)\<rparr>"

text \<open>The steps of \<open>resolve_with_meta\<close>: a rule, the default group, the tables of hosts, the cache, the strategy.\<close>

definition resolve_default :: "'s dns_env \<Rightarrow> router \<Rightarrow> dns_message \<Rightarrow> string \<Rightarrow> 16 word \<Rightarrow> 's resolver \<Rightarrow> 's resolver \<times> resolved" where
  "resolve_default v r request name qtype s =
     (case map_of (ro_groups r) ''default'' of
        None \<Rightarrow> (s, Inl NoDefaultUpstream)
      | Some g \<Rightarrow>
          (case query_with_strategy v (ro_strategy r) g request qtype of
             Inl e \<Rightarrow> (s, Inl e)
           | Inr (resp, dur) \<Rightarrow>
               (keep_answer v name qtype resp ''default'' s,
                Inr (resp, (meta_of name (de_qtype_name v qtype) ''default'' ''default'' (rcode_name (m_rcode resp)))
                       \<lparr>rm_latency := Some dur\<rparr>))))"

definition resolve_rules :: "'s dns_env \<Rightarrow> router \<Rightarrow> dns_message \<Rightarrow> string \<Rightarrow> 16 word \<Rightarrow> 's resolver \<Rightarrow> 's resolver \<times> resolved" where
  "resolve_rules v r request name qtype s =
     (case first_rule (ro_rules r) (ro_groups r) (normalize_domain name) of
        None \<Rightarrow> resolve_default v r request name qtype s
      | Some (u, g) \<Rightarrow>
          (case query_with_strategy v (ro_strategy r) g request qtype of
             Inl e \<Rightarrow> (s, Inl e)
           | Inr (resp, dur) \<Rightarrow>
               let original = (if is_rcode_group g then ''rcode:'' @ u else u)
               in (keep_answer v name qtype resp original s,
                   Inr (resp, (meta_of name (de_qtype_name v qtype) u original (rcode_name (m_rcode resp)))
                          \<lparr>rm_rule := Some u, rm_blocked := is_rcode_group g,
                           rm_latency := (if is_rcode_group g then None else Some dur)\<rparr>))))"

definition resolve_hosts :: "'s dns_env \<Rightarrow> router \<Rightarrow> dns_message \<Rightarrow> string \<Rightarrow> 16 word \<Rightarrow> 's resolver \<Rightarrow> 's resolver \<times> resolved" where
  "resolve_hosts v r request name qtype s =
     (let answered = (\<lambda>source resp. (s, Inr (resp, meta_of name (de_qtype_name v qtype) source source (rcode_name (m_rcode resp)))))
      in case host_lookup (de_lower v) (de_name_parses v) (hosts_table (de_lower v) (ro_hosts r)) name qtype (m_id request) of
           Some resp \<Rightarrow> answered ''hosts'' resp
         | None \<Rightarrow>
             (case host_lookup (de_lower v) (de_name_parses v) (dh_entries (rs_dynamic s)) name qtype (m_id request) of
                Some resp \<Rightarrow> answered ''dynamic-hosts'' resp
              | None \<Rightarrow> resolve_rules v r request name qtype s))"

definition resolve_cached :: "'s dns_env \<Rightarrow> router \<Rightarrow> dns_message \<Rightarrow> string \<Rightarrow> 16 word \<Rightarrow> 's resolver \<Rightarrow> 's resolver \<times> resolved" where
  "resolve_cached v r request name qtype s =
     (case rs_cache s of
        None \<Rightarrow> resolve_hosts v r request name qtype s
      | Some c \<Rightarrow>
          (case cache_get (de_lru v) (de_lower v) name qtype (de_now v) c of
             (Some (resp, original), c') \<Rightarrow>
               (s\<lparr>rs_cache := Some c'\<rparr>,
                Inr (resp\<lparr>m_id := m_id request\<rparr>,
                     (meta_of name (de_qtype_name v qtype) ''cache'' original (rcode_name (m_rcode resp)))
                       \<lparr>rm_cached := True, rm_blocked := prefix ''rcode:'' original\<rparr>))
           | (None, c') \<Rightarrow> resolve_hosts v r request name qtype (s\<lparr>rs_cache := Some c'\<rparr>)))"

definition resolve_with_meta :: "'s dns_env \<Rightarrow> router \<Rightarrow> dns_message \<Rightarrow> 's resolver \<Rightarrow> 's resolver \<times> resolved" where
  "resolve_with_meta v r request s =
     (case m_queries request of
        [] \<Rightarrow> (s, Inl EmptyDnsQuery)
      | (name, qtype) # _ \<Rightarrow>
          if ro_strategy r = OnlyIpv4 \<and> qtype = type_AAAA \<or> ro_strategy r = OnlyIpv6 \<and> qtype = type_A
          then (s, Inr (empty_noerror request,
                        meta_of name (de_qtype_name v qtype) ''strategy'' ''strategy'' ''Empty''))
          else resolve_cached v r request name qtype s)"

end
