(* ===== verification/Dns_Properties.thy ===== *)
theory Dns_Properties
  imports Dns_Resolver Upstream_Page
begin

text \<open>
  What the resolver does with a query: which group it asks, what the cache hides, and the order of the
  addresses under the strategies that prefer a family.
\<close>

subsection \<open>From the page of DNS rules to the upstream\<close>

text \<open>
  A router built from the groups and rule sets of a committed configuration, seen by one name: the rules are
  the entries in their order, \<open>hit path\<close> says that the file at \<open>path\<close> contains the name, and the
  groups have the same names.
\<close>

definition built_from :: "(string \<Rightarrow> bool) \<Rightarrow> string \<Rightarrow> props \<Rightarrow> jsval list \<Rightarrow> router \<Rightarrow> bool" where
  "built_from hit domain groups sets r \<longleftrightarrow>
     list_all2 (\<lambda>e (d, u). u = string_or_empty (field e ''upstream'')
         \<and> (matches_normalized d domain \<noteq> None \<longleftrightarrow> hit (string_or_empty (field e ''path'')))) sets (ro_rules r)
     \<and> fst ` set (ro_groups r) = fst ` set groups"

lemma first_rule_first_hit:
  assumes "list_all2 (\<lambda>e (d, u). u = string_or_empty (field e ''upstream'')
      \<and> (matches_normalized d domain \<noteq> None \<longleftrightarrow> hit (string_or_empty (field e ''path'')))) es rules"
    and "fst ` set gs = fst ` set groups"
  shows "map_option fst (first_rule rules gs domain) = first_hit hit groups es"
  using assms(1)
proof (induction es rules rule: list_all2_induct)
  case (Cons e es x rules)
  obtain d u where x: "x = (d, u)" by (cases x)
  have "u \<in> fst ` set groups \<longleftrightarrow> map_of gs u \<noteq> None"
    using assms(2) by (simp add: map_of_eq_None_iff)
  then show ?case
    using Cons x by (auto split: option.splits)
qed simp

lemma first_rule_group: "first_rule rules gs domain = Some (u, g) \<Longrightarrow> map_of gs u = Some g"
  by (induction rules gs domain rule: first_rule.induct) (auto split: if_splits option.splits)

text \<open>Nothing answers a query before its rules are looked at.\<close>

definition reaches_rules :: "'s dns_env \<Rightarrow> router \<Rightarrow> dns_message \<Rightarrow> string \<Rightarrow> 16 word \<Rightarrow> 's resolver \<Rightarrow> bool" where
  "reaches_rules v r request name qtype s \<longleftrightarrow>
     (\<exists>qs. m_queries request = (name, qtype) # qs)
     \<and> \<not> (ro_strategy r = OnlyIpv4 \<and> qtype = type_AAAA \<or> ro_strategy r = OnlyIpv6 \<and> qtype = type_A)
     \<and> (case rs_cache s of None \<Rightarrow> True | Some c \<Rightarrow> fst (cache_get (de_lru v) (de_lower v) name qtype (de_now v) c) = None)
     \<and> host_lookup (de_lower v) (de_name_parses v) (hosts_table (de_lower v) (ro_hosts r)) name qtype (m_id request) = None
     \<and> host_lookup (de_lower v) (de_name_parses v) (dh_entries (rs_dynamic s)) name qtype (m_id request) = None"

lemma resolve_reaches_rules:
  assumes "reaches_rules v r request name qtype s"
  shows "\<exists>s'. rs_dynamic s' = rs_dynamic s \<and> resolve_with_meta v r request s = resolve_rules v r request name qtype s'"
proof (cases "rs_cache s")
  case None
  then show ?thesis
    using assms by (intro exI [of _ s]) (auto simp: reaches_rules_def resolve_with_meta_def resolve_cached_def resolve_hosts_def Let_def)
next
  case (Some c)
  obtain c' where "cache_get (de_lru v) (de_lower v) name qtype (de_now v) c = (None, c')"
    using assms Some
    by (cases "cache_get (de_lru v) (de_lower v) name qtype (de_now v) c") (simp add: reaches_rules_def)
  then show ?thesis
    using assms Some
    by (intro exI [of _ "s\<lparr>rs_cache := Some c'\<rparr>"])
      (auto simp: reaches_rules_def resolve_with_meta_def resolve_cached_def resolve_hosts_def Let_def)
qed


subsection \<open>The cache and the host entries\<close>

text \<open>
  An answer in the cache hides a host that appears later. Once an upstream has answered for a name,
  a lease that the DHCP server registers under this name is not served until the answer expires:
  the resolver goes on with what the upstream said, that there is no such name included.
\<close>

theorem cached_answer_hides_a_new_host:
  assumes "lru_laws (de_lru v) view" "rs_cache s = Some c"
    and "stored_ttl (dc_min_ttl c) (dc_max_ttl c) resp \<noteq> 0"
    and "de_lru w = de_lru v" "de_lower w = de_lower v"
    and "elapsed_secs (de_now w) (de_stored_at v) < unat (stored_ttl (dc_min_ttl c) (dc_max_ttl c) resp)"
    and "m_queries request = (name, qtype) # qs" "ro_strategy r = IpDefault"
    and "s2 = (keep_answer v name qtype resp original s)\<lparr>rs_dynamic := dynamic_insert lower hostname ip h\<rparr>"
  shows "\<exists>ttl meta. snd (resolve_with_meta w r request s2) = Inr ((with_ttl ttl resp)\<lparr>m_id := m_id request\<rparr>, meta)
    \<and> rm_upstream meta = ''cache''"
proof -
  let ?key = "cache_key (de_lower v) name qtype" and ?ttl = "stored_ttl (dc_min_ttl c) (dc_max_ttl c) resp"
  define entry where "entry = \<lparr>ce_message = resp, ce_inserted_at = de_stored_at v, ce_ttl = ?ttl,
    ce_original_upstream = original\<rparr>"
  define c2 where "c2 = c\<lparr>dc_inner := lru_put (de_lru v) ?key entry (dc_inner c)\<rparr>"
  have cached: "rs_cache s2 = Some c2"
    using assms(2,3) by (simp add: assms(9) keep_answer_def cache_insert_def c2_def entry_def Let_def)
  have "fst (lru_get (de_lru v) ?key (dc_inner c2)) = Some entry"
    using assms(1) by (simp add: lru_laws_def c2_def)
  moreover have "elapsed_secs (de_now w) (de_stored_at v) < 2 ^ 32"
    using assms(6) unsigned_less [of ?ttl, where ?'a = nat] by simp
  then have "(word_of_nat (elapsed_secs (de_now w) (de_stored_at v)) :: 32 word) < ?ttl"
    using assms(6) by (simp add: word_less_nat_alt unat_of_nat)
  then have "remaining_ttl (de_now w) entry = Some (?ttl - word_of_nat (elapsed_secs (de_now w) (de_stored_at v)))"
    by (simp add: remaining_ttl_def entry_def Let_def not_le)
  ultimately have "fst (cache_get (de_lru w) (de_lower w) name qtype (de_now w) c2)
      = Some (with_ttl (?ttl - word_of_nat (elapsed_secs (de_now w) (de_stored_at v))) resp, original)"
    by (cases "lru_get (de_lru v) ?key (dc_inner c2)") (simp add: cache_get_def assms(4,5) entry_def Let_def)
  then show ?thesis
    using cached assms(7,8)
    by (cases "cache_get (de_lru w) (de_lower w) name qtype (de_now w) c2")
      (auto simp: resolve_with_meta_def resolve_cached_def meta_of_def)
qed

subsection \<open>Both families of addresses\<close>

definition preferred_type :: "ip_strategy \<Rightarrow> 16 word" where
  "preferred_type strat = (if strat = PreferIpv4 then type_A else type_AAAA)"

definition other_type :: "ip_strategy \<Rightarrow> 16 word" where
  "other_type strat = (if strat = PreferIpv4 then type_AAAA else type_A)"

lemma rewrite_same: "m_queries m = (n, t) # qs \<Longrightarrow> rewrite_qtype m t = m"
  by (simp add: rewrite_qtype_def)

text \<open>
  Under a strategy that prefers a family, a query for an address of either family is answered with
  the addresses of both, those of the preferred family first; the rest of the answer, its code included,
  is that of the family asked for, and when the upstream fails for this family the query fails
  whatever it says about the other.
\<close>

theorem preferred_family_comes_first:
  assumes "strat = PreferIpv4 \<or> strat = PreferIpv6" "qtype = type_A \<or> qtype = type_AAAA"
    and "m_queries request = [(name, qtype)]"
    and "de_query v g (rewrite_qtype request (preferred_type strat)) = Inr (r1, d1)"
    and "de_query v g (rewrite_qtype request (other_type strat)) = Inr (r2, d2)"
  shows "\<exists>resp. query_with_strategy v strat g request qtype = Inr (resp, max d1 d2)
    \<and> m_answers resp = m_answers r1 @ m_answers r2 \<and> m_id resp = m_id request
    \<and> resp\<lparr>m_answers := [], m_id := 0\<rparr> = (if qtype = preferred_type strat then r1 else r2)\<lparr>m_answers := [], m_id := 0\<rparr>
    \<and> (\<forall>v' e. de_query v' g request = Inl e \<longleftrightarrow> query_with_strategy v' strat g request qtype = Inl (QueryFailed e))"
proof -
  have types: "type_A \<noteq> type_AAAA" by (simp add: type_A_def type_AAAA_def)
  have same: "rewrite_qtype request qtype = request" using rewrite_same [OF assms(3)] by simp
  have failing: "\<forall>v' e. de_query v' g request = Inl e \<longleftrightarrow> query_with_strategy v' strat g request qtype = Inl (QueryFailed e)"
    by (auto simp: query_with_strategy_def split: option.splits sum.splits)
  consider "strat = PreferIpv4" "qtype = type_A" | "strat = PreferIpv4" "qtype = type_AAAA"
    | "strat = PreferIpv6" "qtype = type_A" | "strat = PreferIpv6" "qtype = type_AAAA"
    using assms(1,2) by blast
  then show ?thesis
    using assms(4,5) same types failing
    by cases (auto simp: query_with_strategy_def preferred_type_def other_type_def merge_responses_def Let_def
      max.commute types [symmetric])
qed

subsection \<open>An example\<close>

definition sample_drs :: drs_file where
  "sample_drs = \<lparr>domain_fst = Some {''a''}, suffix_fst = None, keyword_list = [], regexes = None, ipv4_ranges = [],
     ipv6_ranges = [], ports = [], exclude_domain_fst = None, exclude_suffix_fst = None, exclude_regexes = None,
     has_domain_matchers = True, has_suffix_matchers = False, has_keyword_matchers = False,
     has_regex_matchers = False, has_ip_matchers = False, has_port_matchers = False, build_time = 0,
     source_hash = []\<rparr>"

definition sample_upstream :: "string \<Rightarrow> upstream_group" where
  "sample_upstream url = \<lparr>ug_servers = [url], ug_strategy = RoundRobin, ug_insecure = False, ug_client_subnet = None\<rparr>"

definition sample_dns_router :: router where
  "sample_dns_router = \<lparr>ro_hosts = [], ro_rules = [(sample_drs, ''cn'')],
     ro_groups = [(''default'', sample_upstream ''udp://9.9.9.9''), (''cn'', sample_upstream ''udp://223.5.5.5'')],
     ro_cache = None, ro_strategy = IpDefault, ro_dynamic = \<lparr>dr_instance = 0, dr_domain = None\<rparr>\<rparr>"

definition sample_dns_env :: "nat \<Rightarrow> (nat \<times> (string \<times> cache_entry) list) dns_env" where
  "sample_dns_env now = \<lparr>de_lru = list_lru, de_lower = map ascii_lower, de_name_parses = (\<lambda>_. True),
     de_qtype_name = (\<lambda>_. ''A''), de_query = (\<lambda>g m. Inr (sample_answer, 7)), de_now = now, de_stored_at = now\<rparr>"

lemma sample_dns_env_fields [simp]:
  "de_lru (sample_dns_env n) = list_lru" "de_lower (sample_dns_env n) = map ascii_lower"
  "de_query (sample_dns_env n) g m = Inr (sample_answer, 7)" "de_now (sample_dns_env n) = n"
  "de_stored_at (sample_dns_env n) = n"
  by (simp_all add: sample_dns_env_def)

definition sample_request :: dns_message where
  "sample_request = new_message\<lparr>m_id := 5, m_queries := [(''a.'', 1)]\<rparr>"

definition sample_hosts :: dynamic_hosts where
  "sample_hosts = \<lparr>dh_entries = (\<lambda>_. None), dh_domain = None\<rparr>"

lemma sample_normalized: "normalize_domain ''a.'' = ''a''"
  by code_simp


definition sample_cache :: "(nat \<times> (string \<times> cache_entry) list) dns_cache" where
  "sample_cache = new_cache list_lru sample_cache_config"

theorem cached_answer_hides_a_new_host_witness:
  "\<exists>ttl meta. snd (resolve_with_meta (sample_dns_env (30 * 10 ^ 9)) sample_dns_router sample_request
      ((keep_answer (sample_dns_env 0) ''a.'' 1 sample_answer ''default'' \<lparr>rs_cache = Some sample_cache, rs_dynamic = sample_hosts\<rparr>)
        \<lparr>rs_dynamic := dynamic_insert (map ascii_lower) ''a'' (V4 7) sample_hosts\<rparr>))
    = Inr ((with_ttl ttl sample_answer)\<lparr>m_id := 5\<rparr>, meta)"
proof -
  have limits: "dc_min_ttl sample_cache = 60" "dc_max_ttl sample_cache = 100"
    by (simp_all add: sample_cache_def new_cache_def sample_cache_config_def)
  have "lru_laws (de_lru (sample_dns_env 0)) (\<lambda>(n, xs). map_of xs)"
    by (simp add: list_lru_laws)
  moreover have "m_queries sample_request = [(''a.'', 1)]" "m_id sample_request = 5"
    by (simp_all add: sample_request_def)
  moreover have "ro_strategy sample_dns_router = IpDefault" by (simp add: sample_dns_router_def)
  ultimately show ?thesis
    using cached_answer_hides_a_new_host [OF _ _ _ _ _ _ _ _ refl, where
        s = "\<lparr>rs_cache = Some sample_cache, rs_dynamic = sample_hosts\<rparr>" and v = "sample_dns_env 0"
        and c = sample_cache and resp = sample_answer and w = "sample_dns_env (30 * 10 ^ 9)" and request = sample_request
        and name = "''a.''" and qtype = 1 and r = sample_dns_router and view = "\<lambda>(n, xs). map_of xs"
        and original = "''default''" and lower = "map ascii_lower" and hostname = "''a''" and ip = "V4 7"
        and h = sample_hosts and qs = "[]"]
    by (auto simp: limits sample_ttl elapsed_secs_def)
qed

theorem preferred_family_comes_first_witness:
  "\<exists>resp. query_with_strategy (sample_dns_env 0) PreferIpv6 (sample_upstream []) sample_request 1 = Inr (resp, 7)
     \<and> m_answers resp = m_answers sample_answer @ m_answers sample_answer"
proof -
  have "m_queries sample_request = [(''a.'', 1)]" by (simp add: sample_request_def)
  then show ?thesis
    using preferred_family_comes_first [where strat = PreferIpv6 and qtype = 1 and request = sample_request and name = "''a.''"
        and v = "sample_dns_env 0" and g = "sample_upstream []" and ?r1.0 = sample_answer and ?r2.0 = sample_answer
        and ?d1.0 = 7 and ?d2.0 = 7]
    by (auto simp: type_A_def)
qed

end
