(* ===== verification/Client_Subnet.thy ===== *)
theory Client_Subnet
  imports Dns_Resolver
begin

text \<open>
  The client subnet a group of upstream servers can add to a query, \<open>src/src/dns/upstream/util.rs\<close>
  (\<open>inject_client_subnet\<close>, \<open>wire_inject_ecs\<close>, \<open>skip_qname\<close>, \<open>skip_rr\<close>): the option of RFC 7871 is put
  into the bytes of the encoded message, in its OPT record or a new one.

  The code walks over the message by positions; every error and every slice that can be out of range is
  a branch here. What it should do is stated on messages as lists of records (\<open>wire_msg\<close>). The encoder and
  decoder of messages are library code and a parameter.
\<close>

subsection \<open>Walking over a message\<close>

datatype wire_error = MessageTooShort | QnameTruncated | HeaderTruncated | SliceOutOfRange

definition u16_at :: "byte list \<Rightarrow> nat \<Rightarrow> nat" where
  "u16_at msg pos = unat (from_be (subslice pos 2 msg) :: 16 word)"

function skip_qname :: "byte list \<Rightarrow> nat \<Rightarrow> wire_error + nat" where
  "skip_qname msg pos =
     (if length msg \<le> pos then Inl QnameTruncated
      else let len = msg ! pos
           in if len = 0 then Inr (pos + 1)
              else if len AND 0xC0 = 0xC0 then Inr (pos + 2)
              else skip_qname msg (pos + 1 + unat len))"
  by pat_completeness auto
termination by (relation "measure (\<lambda>(msg, pos). length msg - pos)") auto

declare skip_qname.simps [simp del]

definition skip_rr :: "byte list \<Rightarrow> nat \<Rightarrow> wire_error + nat" where
  "skip_rr msg pos =
     and_then (skip_qname msg pos) (\<lambda>p.
       if length msg < p + 10 then Inl HeaderTruncated else Inr (p + 10 + u16_at msg (p + 8)))"

fun skip_questions :: "nat \<Rightarrow> byte list \<Rightarrow> nat \<Rightarrow> wire_error + nat" where
  "skip_questions 0 msg pos = Inr pos"
| "skip_questions (Suc n) msg pos = and_then (skip_qname msg pos) (\<lambda>p. skip_questions n msg (p + 4))"

fun skip_rrs :: "nat \<Rightarrow> byte list \<Rightarrow> nat \<Rightarrow> wire_error + nat" where
  "skip_rrs 0 msg pos = Inr pos"
| "skip_rrs (Suc n) msg pos = and_then (skip_rr msg pos) (skip_rrs n msg)"

text \<open>Where the last OPT record of the additional section has its length, its data, and how long that is.\<close>

record opt_place =
  op_rdlength_pos :: nat
  op_rdata_pos :: nat
  op_rdata_len :: nat

fun scan_additional :: "nat \<Rightarrow> byte list \<Rightarrow> nat \<Rightarrow> opt_place option \<Rightarrow> wire_error + nat \<times> opt_place option" where
  "scan_additional 0 msg pos found = Inr (pos, found)"
| "scan_additional (Suc n) msg pos found =
     and_then (skip_qname msg pos) (\<lambda>p.
       if length msg < p + 10 then Inl HeaderTruncated
       else let rdlength = u16_at msg (p + 8)
            in scan_additional n msg (p + 10 + rdlength)
                 (if u16_at msg p = 41
                  then Some \<lparr>op_rdlength_pos = p + 8, op_rdata_pos = p + 10, op_rdata_len = rdlength\<rparr>
                  else found))"

subsection \<open>The option\<close>

definition ecs_option :: "16 word \<Rightarrow> byte \<Rightarrow> byte list \<Rightarrow> byte list" where
  "ecs_option family prefix_len addr_bytes =
     be_bytes 2 (8 :: 16 word) @ be_bytes 2 (word_of_nat (4 + length addr_bytes) :: 16 word)
     @ be_bytes 2 family @ [prefix_len, 0] @ addr_bytes"

definition opt_record :: "byte list \<Rightarrow> byte list" where
  "opt_record opt = [0] @ be_bytes 2 (41 :: 16 word) @ be_bytes 2 (1232 :: 16 word) @ be_bytes 4 (0 :: 32 word)
     @ be_bytes 2 (word_of_nat (length opt) :: 16 word) @ opt"

definition wire_inject_ecs :: "byte list \<Rightarrow> 16 word \<Rightarrow> byte \<Rightarrow> byte list \<Rightarrow> wire_error + byte list" where
  "wire_inject_ecs msg family prefix_len addr_bytes =
     (if length msg < 12 then Inl MessageTooShort
      else let opt = ecs_option family prefix_len addr_bytes; arcount = u16_at msg 10
           in and_then (skip_questions (u16_at msg 4) msg 12) (\<lambda>answers.
              and_then (skip_rrs (u16_at msg 6 + u16_at msg 8) msg answers) (\<lambda>additionals.
              and_then (scan_additional arcount msg additionals None) (\<lambda>(additional_end, found).
                if length msg < additional_end then Inl SliceOutOfRange
                else case found of
                  Some p \<Rightarrow>
                    Inr (take (op_rdlength_pos p) msg
                         @ be_bytes 2 (word_of_nat (op_rdata_len p + length opt) :: 16 word)
                         @ subslice (op_rdata_pos p) (op_rdata_len p) msg @ opt @ drop additional_end msg)
                | None \<Rightarrow>
                    let out = take additional_end msg @ opt_record opt @ drop additional_end msg;
                        new_arcount = word_of_nat (arcount + 1) :: 16 word
                    in Inr (out[10 := ucast (drop_bit 8 new_arcount), 11 := ucast (new_arcount AND 0xFF)])))))"

text \<open>The bytes of the address: as many as the prefix reaches into, at least one.\<close>

fun octets :: "ip_addr \<Rightarrow> byte list" where
  "octets (V4 v) = be_bytes 4 v"
| "octets (V6 v) = be_bytes 16 v"

fun ip_family :: "ip_addr \<Rightarrow> 16 word" where
  "ip_family (V4 v) = 1"
| "ip_family (V6 v) = 2"

definition addr_byte_len :: "ip_addr \<Rightarrow> nat \<Rightarrow> nat" where
  "addr_byte_len ip prefix_len = min (max ((prefix_len + 7) div 8) 1) (length (octets ip))"

definition ecs_address :: "ip_addr \<Rightarrow> nat \<Rightarrow> byte list" where
  "ecs_address ip prefix_len = take (addr_byte_len ip prefix_len) (octets ip)"

record message_codec =
  mc_to_vec :: "dns_message \<Rightarrow> byte list option"
  mc_from_bytes :: "byte list \<Rightarrow> dns_message option"

datatype ecs_error = NotEncoded | BadWire wire_error | NotDecoded

definition inject_client_subnet :: "message_codec \<Rightarrow> dns_message \<Rightarrow> ip_addr \<Rightarrow> byte \<Rightarrow> ecs_error + dns_message" where
  "inject_client_subnet k request subnet prefix_len =
     (case mc_to_vec k request of
        None \<Rightarrow> Inl NotEncoded
      | Some bytes \<Rightarrow>
          (case wire_inject_ecs bytes (ip_family subnet) prefix_len (ecs_address subnet (unat prefix_len)) of
             Inl e \<Rightarrow> Inl (BadWire e)
           | Inr new_bytes \<Rightarrow>
               (case mc_from_bytes k new_bytes of None \<Rightarrow> Inl NotDecoded | Some m \<Rightarrow> Inr m)))"

subsection \<open>Messages as lists of records\<close>

function wire_name :: "byte list \<Rightarrow> bool" where
  "wire_name [] = False"
| "wire_name (b # bs) =
     (if b = 0 then bs = []
      else if b AND 0xC0 = 0xC0 then length bs = 1
      else unat b \<le> length bs \<and> wire_name (drop (unat b) bs))"
  by pat_completeness auto
termination by (relation "measure length") auto

record wire_rr =
  wr_name :: "byte list"
  wr_type :: "16 word"
  wr_class :: "16 word"
  wr_ttl :: "32 word"
  wr_rdata :: "byte list"

record wire_msg =
  wm_head :: "byte list"
  wm_questions :: "(byte list \<times> byte list) list"
  wm_answers :: "wire_rr list"
  wm_authorities :: "wire_rr list"
  wm_additionals :: "wire_rr list"

definition rr_bytes :: "wire_rr \<Rightarrow> byte list" where
  "rr_bytes r = wr_name r @ be_bytes 2 (wr_type r) @ be_bytes 2 (wr_class r) @ be_bytes 4 (wr_ttl r)
     @ be_bytes 2 (word_of_nat (length (wr_rdata r)) :: 16 word) @ wr_rdata r"

definition rr_ok :: "wire_rr \<Rightarrow> bool" where
  "rr_ok r \<longleftrightarrow> wire_name (wr_name r) \<and> length (wr_rdata r) < 2 ^ 16"

definition question_ok :: "byte list \<times> byte list \<Rightarrow> bool" where
  "question_ok q \<longleftrightarrow> wire_name (fst q) \<and> length (snd q) = 4"

definition count_bytes :: "nat \<Rightarrow> byte list" where
  "count_bytes n = be_bytes 2 (word_of_nat n :: 16 word)"

text \<open>The bytes of a message whose header counts \<open>n\<close> additional records.\<close>

definition msg_bytes_counting :: "nat \<Rightarrow> wire_msg \<Rightarrow> byte list" where
  "msg_bytes_counting n m =
     wm_head m @ count_bytes (length (wm_questions m)) @ count_bytes (length (wm_answers m))
     @ count_bytes (length (wm_authorities m)) @ count_bytes n
     @ concat (map (\<lambda>(q, t). q @ t) (wm_questions m))
     @ concat (map rr_bytes (wm_answers m @ wm_authorities m)) @ concat (map rr_bytes (wm_additionals m))"

definition msg_bytes :: "wire_msg \<Rightarrow> byte list" where
  "msg_bytes m = msg_bytes_counting (length (wm_additionals m)) m"

definition msg_ok :: "wire_msg \<Rightarrow> bool" where
  "msg_ok m \<longleftrightarrow> length (wm_head m) = 4
     \<and> list_all question_ok (wm_questions m) \<and> length (wm_questions m) < 2 ^ 16
     \<and> list_all rr_ok (wm_answers m) \<and> length (wm_answers m) < 2 ^ 16
     \<and> list_all rr_ok (wm_authorities m) \<and> length (wm_authorities m) < 2 ^ 16
     \<and> list_all rr_ok (wm_additionals m) \<and> length (wm_additionals m) < 2 ^ 16"

text \<open>What adding the option means: it goes to the end of an OPT record that is there, or into a new one.\<close>

definition is_opt :: "wire_rr \<Rightarrow> bool" where
  "is_opt r \<longleftrightarrow> wr_type r = 41"

definition new_opt :: "byte list \<Rightarrow> wire_rr" where
  "new_opt opt = \<lparr>wr_name = [0], wr_type = 41, wr_class = 1232, wr_ttl = 0, wr_rdata = opt\<rparr>"

fun add_option :: "byte list \<Rightarrow> wire_rr list \<Rightarrow> wire_rr list" where
  "add_option opt [] = [new_opt opt]"
| "add_option opt (r # rs) =
     (if is_opt r then r\<lparr>wr_rdata := wr_rdata r @ opt\<rparr> # rs else r # add_option opt rs)"

end
