(* ===== verification/Client_Subnet_Properties.thy ===== *)
theory Client_Subnet_Properties
  imports Client_Subnet
begin

text \<open>
  What \<open>wire_inject_ecs\<close> does to a message: the walk over its bytes finds its records, the option is added
  as meant when the OPT record is the last one, records behind it are lost, and the address is sent with
  the bits of the host that its last byte holds.
\<close>

subsection \<open>The walk finds the records\<close>

lemma u16_at_here: "u16_at (pre @ be_bytes 2 (w :: 16 word) @ post) (length pre) = unat w"
  using subslice_append [of pre 0 2] by (simp add: u16_at_def from_be_bytes)

lemma u16_at_field: "n = length pre \<Longrightarrow> u16_at (pre @ be_bytes 2 (w :: 16 word) @ post) n = unat w"
  by (simp add: u16_at_here)

lemma wire_name_nonempty: "wire_name n \<Longrightarrow> n \<noteq> []"
  by (cases n) auto

lemma skip_qname_here:
  "wire_name n \<Longrightarrow> skip_qname (pre @ n @ post) (length pre) = Inr (length pre + length n)"
proof (induction n arbitrary: pre rule: wire_name.induct)
  case (2 b bs)
  show ?case
  proof (cases "b = 0 \<or> b AND 0xC0 = 0xC0")
    case True
    then show ?thesis using 2(2) by (subst skip_qname.simps) (auto simp: nth_append split: if_splits)
  next
    case False
    let ?pre = "pre @ b # take (unat b) bs"
    have fits: "unat b \<le> length bs" and rest: "wire_name (drop (unat b) bs)" using 2(2) False by auto
    have ih: "skip_qname (?pre @ drop (unat b) bs @ post) (length ?pre)
        = Inr (length ?pre + length (drop (unat b) bs))"
      using False rest by (intro 2(1)) auto
    have "take (unat b) bs @ drop (unat b) bs @ post = bs @ post"
      by (metis append_assoc append_take_drop_id)
    then have same: "?pre @ drop (unat b) bs @ post = pre @ (b # bs) @ post" by simp
    have len: "length ?pre = length pre + 1 + unat b" using fits by simp
    have "skip_qname (pre @ (b # bs) @ post) (length pre + 1 + unat b) = Inr (length pre + 1 + length bs)"
      using ih fits unfolding same len by simp
    then show ?thesis using False by (subst skip_qname.simps) (simp add: nth_append Let_def)
  qed
qed simp

lemma length_rr_bytes [simp]: "length (rr_bytes r) = length (wr_name r) + 10 + length (wr_rdata r)"
  by (simp add: rr_bytes_def)

text \<open>A record in place: its name is skipped, and its type and length are read back.\<close>

lemma rr_in_place:
  assumes "rr_ok r" and "msg = pre @ rr_bytes r @ post"
  defines "p \<equiv> length pre + length (wr_name r)"
  shows "skip_qname msg (length pre) = Inr p"
    and "u16_at msg p = unat (wr_type r)"
    and "u16_at msg (p + 8) = length (wr_rdata r)"
    and "p + 10 \<le> length msg"
    and "p + 10 + length (wr_rdata r) = length (pre @ rr_bytes r)"
proof -
  have msg: "msg = pre @ wr_name r @ (be_bytes 2 (wr_type r) @ be_bytes 2 (wr_class r) @ be_bytes 4 (wr_ttl r)
      @ be_bytes 2 (word_of_nat (length (wr_rdata r)) :: 16 word) @ wr_rdata r @ post)"
    using assms(2) by (simp add: rr_bytes_def)
  show "skip_qname msg (length pre) = Inr p"
    using assms(1) unfolding msg p_def rr_ok_def by (intro skip_qname_here) simp
  have "msg = (pre @ wr_name r) @ be_bytes 2 (wr_type r) @ (be_bytes 2 (wr_class r) @ be_bytes 4 (wr_ttl r)
      @ be_bytes 2 (word_of_nat (length (wr_rdata r)) :: 16 word) @ wr_rdata r @ post)"
    using msg by simp
  then show "u16_at msg p = unat (wr_type r)" by (simp only: u16_at_field p_def length_append)
  have "msg = (pre @ wr_name r @ be_bytes 2 (wr_type r) @ be_bytes 2 (wr_class r) @ be_bytes 4 (wr_ttl r))
      @ be_bytes 2 (word_of_nat (length (wr_rdata r)) :: 16 word) @ (wr_rdata r @ post)"
    using msg by simp
  moreover have "p + 8 = length (pre @ wr_name r @ be_bytes 2 (wr_type r) @ be_bytes 2 (wr_class r) @ be_bytes 4 (wr_ttl r))"
    by (simp add: p_def)
  ultimately have "u16_at msg (p + 8) = unat (word_of_nat (length (wr_rdata r)) :: 16 word)"
    by (simp only: u16_at_field)
  then show "u16_at msg (p + 8) = length (wr_rdata r)"
    using assms(1) by (simp add: rr_ok_def unat_of_nat take_bit_nat_eq_self)
  show "p + 10 \<le> length msg" "p + 10 + length (wr_rdata r) = length (pre @ rr_bytes r)"
    using assms(2) by (simp_all add: p_def)
qed

lemma skip_questions_all:
  "list_all question_ok qs \<Longrightarrow>
   skip_questions (length qs) (pre @ concat (map (\<lambda>(q, t). q @ t) qs) @ post) (length pre)
     = Inr (length pre + length (concat (map (\<lambda>(q, t). q @ t) qs)))"
proof (induction qs arbitrary: pre)
  case (Cons q qs)
  obtain n t where q: "q = (n, t)" by fastforce
  have ok: "wire_name n" "length t = 4" using Cons.prems q by (simp_all add: question_ok_def)
  show ?case
    using Cons.IH [of "pre @ n @ t"] Cons.prems ok
      skip_qname_here [OF ok(1), of pre "t @ concat (map (\<lambda>(q, t). q @ t) qs) @ post"] q
    by (simp add: algebra_simps)
qed simp

lemma skip_rrs_all:
  "list_all rr_ok rs \<Longrightarrow> skip_rrs (length rs) (pre @ concat (map rr_bytes rs) @ post) (length pre)
     = Inr (length pre + length (concat (map rr_bytes rs)))"
proof (induction rs arbitrary: pre)
  case (Cons r rs)
  let ?msg = "pre @ rr_bytes r @ (concat (map rr_bytes rs) @ post)"
  have "rr_ok r" using Cons.prems by simp
  note here = rr_in_place [OF this, of ?msg pre "concat (map rr_bytes rs) @ post"]
  have "skip_rr ?msg (length pre) = Inr (length (pre @ rr_bytes r))"
    using here by (simp add: skip_rr_def)
  then show ?case using Cons.IH [of "pre @ rr_bytes r"] Cons.prems by (simp add: algebra_simps)
qed simp

lemma scan_step:
  assumes "rr_ok r" and "msg = pre @ rr_bytes r @ post"
  shows "scan_additional (Suc n) msg (length pre) found =
    scan_additional n msg (length (pre @ rr_bytes r))
      (if is_opt r then Some \<lparr>op_rdlength_pos = length pre + length (wr_name r) + 8,
           op_rdata_pos = length pre + length (wr_name r) + 10, op_rdata_len = length (wr_rdata r)\<rparr>
       else found)"
proof -
  note here = rr_in_place [OF assms]
  have "u16_at msg (length pre + length (wr_name r)) = 41 \<longleftrightarrow> is_opt r"
    using here(2) by (simp add: is_opt_def word_unat_eq_iff)
  then show ?thesis using here by (simp add: Let_def algebra_simps)
qed

lemma scan_plain:
  "list_all rr_ok rs \<Longrightarrow> \<not> list_ex is_opt rs \<Longrightarrow>
   scan_additional (length rs) (pre @ concat (map rr_bytes rs) @ post) (length pre) found
     = Inr (length pre + length (concat (map rr_bytes rs)), found)"
proof (induction rs arbitrary: pre)
  case (Cons r rs)
  then show ?case
    using scan_step [of r _ pre "concat (map rr_bytes rs) @ post" "length rs" found] Cons.IH [of "pre @ rr_bytes r"]
    by (simp add: algebra_simps)
qed simp

lemma scan_append:
  "scan_additional (m + n) msg pos found =
   and_then (scan_additional m msg pos found) (\<lambda>(p, f). scan_additional n msg p f)"
proof (induction m arbitrary: pos found)
  case (Suc m)
  then show ?case by (cases "skip_qname msg pos") (simp_all add: Let_def)
qed simp

lemma scan_opt:
  assumes "list_all rr_ok (xs @ r # ys)" "is_opt r" "\<not> list_ex is_opt xs" "\<not> list_ex is_opt ys"
    and "msg = pre @ concat (map rr_bytes (xs @ r # ys)) @ post"
  shows "scan_additional (length (xs @ r # ys)) msg (length pre) found
    = (let p = length pre + length (concat (map rr_bytes xs)) + length (wr_name r)
       in Inr (length pre + length (concat (map rr_bytes (xs @ r # ys))),
            Some \<lparr>op_rdlength_pos = p + 8, op_rdata_pos = p + 10, op_rdata_len = length (wr_rdata r)\<rparr>))"
proof -
  let ?p1 = "pre @ concat (map rr_bytes xs)"
  have "scan_additional (length xs) msg (length pre) found = Inr (length ?p1, found)"
    using scan_plain [of xs pre "concat (map rr_bytes (r # ys)) @ post" found] assms by simp
  moreover have "scan_additional (Suc (length ys)) msg (length ?p1) found
     = scan_additional (length ys) msg (length (?p1 @ rr_bytes r))
         (Some \<lparr>op_rdlength_pos = length ?p1 + length (wr_name r) + 8,
           op_rdata_pos = length ?p1 + length (wr_name r) + 10, op_rdata_len = length (wr_rdata r)\<rparr>)"
    using scan_step [of r msg ?p1 "concat (map rr_bytes ys) @ post"] assms by simp
  moreover have "scan_additional (length ys) msg (length (?p1 @ rr_bytes r)) f
     = Inr (length (?p1 @ rr_bytes r) + length (concat (map rr_bytes ys)), f)" for f
    using scan_plain [of ys "?p1 @ rr_bytes r" post f] assms by simp
  ultimately show ?thesis
    using scan_append [of "length xs" "Suc (length ys)" msg "length pre" found]
    by (simp add: Let_def algebra_simps)
qed

subsection \<open>Messages\<close>

definition front_bytes :: "nat \<Rightarrow> wire_msg \<Rightarrow> byte list" where
  "front_bytes n m =
     wm_head m @ count_bytes (length (wm_questions m)) @ count_bytes (length (wm_answers m))
     @ count_bytes (length (wm_authorities m)) @ count_bytes n
     @ concat (map (\<lambda>(q, t). q @ t) (wm_questions m)) @ concat (map rr_bytes (wm_answers m @ wm_authorities m))"

lemma msg_front: "msg_bytes_counting n m = front_bytes n m @ concat (map rr_bytes (wm_additionals m))"
  by (simp add: msg_bytes_counting_def front_bytes_def)

lemma length_count_bytes [simp]: "length (count_bytes n) = 2"
  by (simp add: count_bytes_def)

lemma count_read:
  assumes "n < 2 ^ 16" "k = length pre"
  shows "u16_at (pre @ count_bytes n @ post) k = n"
  using assms by (simp add: count_bytes_def u16_at_field unat_of_nat take_bit_nat_eq_self)

lemma header_read:
  assumes "msg_ok m" "n < 2 ^ 16" "msg = front_bytes n m @ post"
  shows "u16_at msg 4 = length (wm_questions m)" "u16_at msg 6 = length (wm_answers m)"
    "u16_at msg 8 = length (wm_authorities m)" "u16_at msg 10 = n" "12 \<le> length msg"
proof -
  define rest where "rest = concat (map (\<lambda>(q, t). q @ t) (wm_questions m))
    @ concat (map rr_bytes (wm_answers m @ wm_authorities m)) @ post"
  let ?q = "count_bytes (length (wm_questions m))" and ?a = "count_bytes (length (wm_answers m))"
  let ?u = "count_bytes (length (wm_authorities m))"
  have msg: "msg = wm_head m @ ?q @ ?a @ ?u @ count_bytes n @ rest"
    using assms(3) by (simp add: front_bytes_def rest_def)
  have head: "length (wm_head m) = 4" using assms(1) by (simp add: msg_ok_def)
  show "u16_at msg 4 = length (wm_questions m)"
    unfolding msg using head assms(1) by (intro count_read) (simp_all add: msg_ok_def)
  have "msg = (wm_head m @ ?q) @ ?a @ (?u @ count_bytes n @ rest)" using msg by simp
  then show "u16_at msg 6 = length (wm_answers m)"
    using head assms(1) by (simp only:) (intro count_read, simp_all add: msg_ok_def)
  have "msg = (wm_head m @ ?q @ ?a) @ ?u @ (count_bytes n @ rest)" using msg by simp
  then show "u16_at msg 8 = length (wm_authorities m)"
    using head assms(1) by (simp only:) (intro count_read, simp_all add: msg_ok_def)
  have "msg = (wm_head m @ ?q @ ?a @ ?u) @ count_bytes n @ rest" using msg by simp
  then show "u16_at msg 10 = n"
    using head assms(2) by (simp only:) (intro count_read, simp_all)
  show "12 \<le> length msg" using msg head by simp
qed

text \<open>The walk reaches the additional section.\<close>

lemma front_skipped:
  assumes "msg_ok m" "n < 2 ^ 16" "msg = front_bytes n m @ post"
  shows "and_then (skip_questions (u16_at msg 4) msg 12)
           (skip_rrs (u16_at msg 6 + u16_at msg 8) msg) = Inr (length (front_bytes n m))"
proof -
  define header where "header = wm_head m @ count_bytes (length (wm_questions m)) @ count_bytes (length (wm_answers m))
     @ count_bytes (length (wm_authorities m)) @ count_bytes n"
  let ?qs = "concat (map (\<lambda>(q, t). q @ t) (wm_questions m))"
  let ?rs = "wm_answers m @ wm_authorities m"
  have twelve: "length header = 12" using assms(1) by (simp add: header_def msg_ok_def)
  have msg: "msg = header @ ?qs @ concat (map rr_bytes ?rs) @ post"
    using assms(3) by (simp add: front_bytes_def header_def)
  have "skip_questions (length (wm_questions m)) msg 12 = Inr (length (header @ ?qs))"
    using skip_questions_all [of "wm_questions m" header "concat (map rr_bytes ?rs) @ post"] assms(1) twelve
    unfolding msg by (simp add: msg_ok_def)
  moreover have "skip_rrs (length ?rs) msg (length (header @ ?qs))
      = Inr (length (header @ ?qs) + length (concat (map rr_bytes ?rs)))"
    using skip_rrs_all [of ?rs "header @ ?qs" post] assms(1) unfolding msg by (simp add: msg_ok_def)
  moreover have "length (front_bytes n m) = length (header @ ?qs) + length (concat (map rr_bytes ?rs))"
    by (simp add: front_bytes_def header_def)
  ultimately show ?thesis using header_read [OF assms] by simp
qed

lemma inject_front:
  fixes family :: "16 word" and prefix_len :: byte and addr :: "byte list"
  assumes "msg_ok m" "n < 2 ^ 16" "msg = front_bytes n m @ post"
    and "scan_additional n msg (length (front_bytes n m)) None = Inr (additional_end, found)"
    and "additional_end \<le> length msg"
  defines "opt \<equiv> ecs_option family prefix_len addr"
  shows "wire_inject_ecs msg family prefix_len addr =
    (case found of
       Some p \<Rightarrow> Inr (take (op_rdlength_pos p) msg @ be_bytes 2 (word_of_nat (op_rdata_len p + length opt) :: 16 word)
                 @ subslice (op_rdata_pos p) (op_rdata_len p) msg @ opt @ drop additional_end msg)
     | None \<Rightarrow> Inr ((take additional_end msg @ opt_record opt @ drop additional_end msg)
                 [10 := ucast (drop_bit 8 (word_of_nat (n + 1) :: 16 word)),
                  11 := ucast ((word_of_nat (n + 1) :: 16 word) AND 0xFF)]))"
proof -
  obtain a where a: "skip_questions (u16_at msg 4) msg 12 = Inr a"
    "skip_rrs (u16_at msg 6 + u16_at msg 8) msg a = Inr (length (front_bytes n m))"
    using front_skipped [OF assms(1-3)] by (auto simp: and_then_Inr_iff)
  show ?thesis
    using header_read [OF assms(1-3)] a assms(4,5)
    by (simp add: wire_inject_ecs_def opt_def Let_def not_less [symmetric] split: option.splits)
qed

lemma two_bytes: "be_bytes 2 (w :: 16 word) = [ucast (drop_bit 8 w), ucast (w AND 0xFF)]"
proof -
  have "ucast (w AND 0xFF) = (ucast w :: byte)"
    by (rule bit_word_eqI) (auto simp: bit_ucast_iff bit_and_iff bit_mask_iff simp flip: mask_eq_decr_exp
        [of 8, simplified])
  then show ?thesis by (simp add: be_bytes_def le_bytes_def upt_rec)
qed

subsection \<open>What comes out\<close>

lemma take_drop_split: "length xs = n \<Longrightarrow> take n (xs @ ys) = xs"
  by simp

lemma inject_existing:
  assumes "msg_ok m" "wm_additionals m = xs @ r # ys" "is_opt r" "\<not> list_ex is_opt xs" "\<not> list_ex is_opt ys"
  shows "wire_inject_ecs (msg_bytes m) family prefix_len addr
    = Inr (msg_bytes_counting (length (wm_additionals m))
        (m\<lparr>wm_additionals := xs @ [r\<lparr>wr_rdata := wr_rdata r @ ecs_option family prefix_len addr\<rparr>]\<rparr>))"
proof -
  let ?n = "length (wm_additionals m)" and ?opt = "ecs_option family prefix_len addr"
  let ?msg = "msg_bytes m" and ?F = "front_bytes (length (wm_additionals m)) m"
  let ?fixed = "be_bytes 2 (wr_type r) @ be_bytes 2 (wr_class r) @ be_bytes 4 (wr_ttl r)"
  define before where "before = ?F @ concat (map rr_bytes xs) @ wr_name r"
  have n: "?n < 2 ^ 16" using assms(1) by (simp add: msg_ok_def)
  have msg: "?msg = ?F @ concat (map rr_bytes (xs @ r # ys)) @ []"
    using assms(2) by (simp add: msg_bytes_def msg_front)
  have "list_all rr_ok (xs @ r # ys)" using assms(1,2) by (simp add: msg_ok_def)
  from scan_opt [OF this assms(3-5) msg, of None]
  have scan: "scan_additional ?n ?msg (length ?F) None = Inr (length ?msg, Some
      \<lparr>op_rdlength_pos = length before + 8, op_rdata_pos = length before + 10, op_rdata_len = length (wr_rdata r)\<rparr>)"
    using assms(2) msg by (simp add: Let_def before_def algebra_simps)
  have parts: "?msg = (before @ ?fixed) @ be_bytes 2 (word_of_nat (length (wr_rdata r)) :: 16 word)
      @ wr_rdata r @ concat (map rr_bytes ys)"
    using msg by (simp add: before_def rr_bytes_def)
  have cut: "take (length before + 8) ?msg = before @ ?fixed"
    unfolding parts by (intro take_drop_split) simp
  have data: "subslice (length before + 10) (length (wr_rdata r)) ?msg = wr_rdata r"
    unfolding parts by (simp add: subslice_def)
  have "wire_inject_ecs ?msg family prefix_len addr
      = Inr (before @ ?fixed @ be_bytes 2 (word_of_nat (length (wr_rdata r) + length ?opt) :: 16 word)
          @ wr_rdata r @ ?opt)"
    using inject_front [OF assms(1) n msg scan order_refl, of family prefix_len addr] by (simp add: cut data)
  then show ?thesis by (simp add: msg_front before_def rr_bytes_def front_bytes_def)
qed

lemma inject_new:
  assumes "msg_ok m" "\<not> list_ex is_opt (wm_additionals m)"
  shows "wire_inject_ecs (msg_bytes m) family prefix_len addr
    = Inr (msg_bytes (m\<lparr>wm_additionals := wm_additionals m @ [new_opt (ecs_option family prefix_len addr)]\<rparr>))"
proof -
  let ?n = "length (wm_additionals m)" and ?opt = "ecs_option family prefix_len addr"
  let ?msg = "msg_bytes m" and ?F = "front_bytes (length (wm_additionals m)) m"
  have n: "?n < 2 ^ 16" using assms(1) by (simp add: msg_ok_def)
  have msg: "?msg = ?F @ concat (map rr_bytes (wm_additionals m)) @ []"
    by (simp add: msg_bytes_def msg_front)
  have ok: "list_all rr_ok (wm_additionals m)" using assms(1) by (simp add: msg_ok_def)
  have scan: "scan_additional ?n ?msg (length ?F) None = Inr (length ?msg, None)"
    using scan_plain [OF ok assms(2), of ?F "[]"] msg by simp
  define before where "before = wm_head m @ count_bytes (length (wm_questions m)) @ count_bytes (length (wm_answers m))
     @ count_bytes (length (wm_authorities m))"
  define rest where "rest = concat (map (\<lambda>(q, t). q @ t) (wm_questions m))
     @ concat (map rr_bytes (wm_answers m @ wm_authorities m)) @ concat (map rr_bytes (wm_additionals m))
     @ opt_record ?opt"
  have ten: "length before = 10" using assms(1) by (simp add: before_def msg_ok_def)
  have out: "?msg @ opt_record ?opt = before @ count_bytes ?n @ rest"
    using msg by (simp add: front_bytes_def before_def rest_def)
  have put: "(before @ count_bytes ?n @ rest)[10 := a, 11 := b] = before @ [a, b] @ rest" for a b
    using ten by (simp add: count_bytes_def two_bytes list_update_append)
  have "opt_record ?opt = rr_bytes (new_opt ?opt)"
    by (simp add: opt_record_def rr_bytes_def new_opt_def)
  then have "before @ count_bytes (?n + 1) @ rest = msg_bytes (m\<lparr>wm_additionals := wm_additionals m @ [new_opt ?opt]\<rparr>)"
    by (simp add: msg_bytes_def msg_bytes_counting_def before_def rest_def)
  moreover have "(before @ count_bytes ?n @ rest)[10 := ucast (drop_bit 8 (word_of_nat (?n + 1) :: 16 word)),
      11 := ucast ((word_of_nat (?n + 1) :: 16 word) AND 0xFF)] = before @ count_bytes (?n + 1) @ rest"
    unfolding put by (simp add: count_bytes_def two_bytes)
  ultimately show ?thesis
    using inject_front [OF assms(1) n msg scan order_refl, of family prefix_len addr] out by simp
qed

lemma add_option_plain: "\<not> list_ex is_opt rs \<Longrightarrow> add_option opt rs = rs @ [new_opt opt]"
  by (induction rs) auto

lemma add_option_last:
  "\<not> list_ex is_opt xs \<Longrightarrow> is_opt r \<Longrightarrow> add_option opt (xs @ [r]) = xs @ [r\<lparr>wr_rdata := wr_rdata r @ opt\<rparr>]"
  by (induction xs) auto

text \<open>
  C26. The client subnet is added to a message exactly as meant: when the OPT record, if there is one, is
  the last record, the bytes that come out are those of the same message with the option at the end of
  that record, or in a new one, and they are a message again.
\<close>

theorem client_subnet_is_added:
  assumes "msg_ok m" "\<not> list_ex is_opt (butlast (wm_additionals m))" "length (wm_additionals m) + 1 < 2 ^ 16"
    and "\<forall>r \<in> set (wm_additionals m). length (wr_rdata r) + length (ecs_option family prefix_len addr) < 2 ^ 16"
    and "length (ecs_option family prefix_len addr) < 2 ^ 16"
    and "m' = m\<lparr>wm_additionals := add_option (ecs_option family prefix_len addr) (wm_additionals m)\<rparr>"
  shows "wire_inject_ecs (msg_bytes m) family prefix_len addr = Inr (msg_bytes m') \<and> msg_ok m'"
proof
  let ?opt = "ecs_option family prefix_len addr"
  show "wire_inject_ecs (msg_bytes m) family prefix_len addr = Inr (msg_bytes m')"
  proof (cases "list_ex is_opt (wm_additionals m)")
    case False
    then show ?thesis using inject_new [OF assms(1)] assms(6) by (simp add: add_option_plain)
  next
    case True
    then obtain xs r where rs: "wm_additionals m = xs @ [r]" by (cases "wm_additionals m" rule: rev_cases) auto
    then have "\<not> list_ex is_opt xs" "is_opt r" using True assms(2) by auto
    then show ?thesis using inject_existing [OF assms(1), of xs r "[]"] assms(6) rs
      by (simp add: add_option_last msg_bytes_def)
  qed
  have "list_all rr_ok (add_option ?opt rs) \<and> length (add_option ?opt rs) \<le> length rs + 1"
    if "list_all rr_ok rs" "\<forall>r \<in> set rs. length (wr_rdata r) + length ?opt < 2 ^ 16" for rs
    using that assms(5) by (induction rs) (auto simp: rr_ok_def new_opt_def)
  then show "msg_ok m'" using assms(1,3,4,6) by (force simp: msg_ok_def)
qed

text \<open>
  Records behind the OPT record, such as the signature of a signed query, are lost: the bytes that
  come out end after the OPT record while the header still counts all records, so they are not a
  message, and walking over them again fails.
\<close>

theorem records_after_opt_are_lost:
  assumes "msg_ok m" "wm_additionals m = xs @ r # ys" "is_opt r" "\<not> list_ex is_opt xs" "\<not> list_ex is_opt ys"
    and "ys \<noteq> []" "length (wr_rdata r) + length (ecs_option family prefix_len addr) < 2 ^ 16"
    and "wire_inject_ecs (msg_bytes m) family prefix_len addr = result"
  shows "\<exists>out. result = Inr out
    \<and> out = msg_bytes_counting (length (wm_additionals m)) (m\<lparr>wm_additionals :=
        xs @ [r\<lparr>wr_rdata := wr_rdata r @ ecs_option family prefix_len addr\<rparr>]\<rparr>)
    \<and> wire_inject_ecs out family' prefix_len' addr' = Inl QnameTruncated"
proof -
  let ?r = "r\<lparr>wr_rdata := wr_rdata r @ ecs_option family prefix_len addr\<rparr>" and ?n = "length (wm_additionals m)"
  let ?m = "m\<lparr>wm_additionals := xs @ [?r]\<rparr>"
  let ?out = "msg_bytes_counting ?n ?m"
  have n: "?n < 2 ^ 16" and ok: "msg_ok ?m"
    using assms(1,2,7) by (simp_all add: msg_ok_def rr_ok_def)
  have out: "?out = front_bytes ?n ?m @ concat (map rr_bytes (xs @ ?r # [])) @ []"
    by (simp add: msg_front)
  have "list_all rr_ok (xs @ ?r # [])" "is_opt ?r" using ok assms(3) by (simp_all add: msg_ok_def is_opt_def)
  from scan_opt [OF this(1,2) assms(4) _ out, of None]
  obtain found where scan: "scan_additional (length xs + 1) ?out (length (front_bytes ?n ?m)) None = Inr (length ?out, found)"
    by (auto simp: Let_def out)
  obtain k where k: "?n = length xs + 1 + Suc k" using assms(2,6) by (cases ys) auto
  have "skip_qname ?out (length ?out) = Inl QnameTruncated" by (subst skip_qname.simps) simp
  then have "scan_additional ?n ?out (length (front_bytes ?n ?m)) None = Inl QnameTruncated"
    using scan unfolding k scan_append by simp
  moreover obtain a where "skip_questions (u16_at ?out 4) ?out 12 = Inr a"
    "skip_rrs (u16_at ?out 6 + u16_at ?out 8) ?out a = Inr (length (front_bytes ?n ?m))"
    using front_skipped [OF ok n, of ?out] out by (auto simp: and_then_Inr_iff)
  ultimately have "wire_inject_ecs ?out family' prefix_len' addr' = Inl QnameTruncated"
    using header_read [OF ok n, of ?out] out by (simp add: wire_inject_ecs_def Let_def)
  then show ?thesis using inject_existing [OF assms(1-5)] assms(8) by auto
qed


lemma octets_up:
  assumes "p mod 8 \<noteq> (0::nat)"
  shows "(p + 7) div 8 = p div 8 + 1"
proof -
  obtain q r where "p = 8 * q + r" "r < 8" by (metis mult_div_mod_eq mod_less_divisor zero_less_numeral)
  then show ?thesis using assms by (simp add: div_nat_eqI)
qed

text \<open>
  The address in the option is cut to whole bytes only: with a prefix that ends inside a byte, or of
  length 0, two addresses of the same network give different options, so bits of the host are sent
  that the prefix is meant to hide.
\<close>

theorem client_subnet_sends_host_bits:
  assumes "prefix_len < 32" "prefix_len = 0 \<or> prefix_len mod 8 \<noteq> 0"
  shows "\<exists>w. drop_bit (32 - prefix_len) w = drop_bit (32 - prefix_len) v
    \<and> ecs_address (V4 w) prefix_len \<noteq> ecs_address (V4 v) prefix_len"
proof -
  let ?w = "v XOR push_bit (31 - prefix_len) 1" and ?k = "prefix_len div 8"
  have k: "?k < 4" "(prefix_len + 7) div 8 = (if prefix_len = 0 then 0 else ?k + 1)"
    using assms octets_up [of prefix_len] by (linarith, cases "prefix_len = 0") simp_all
  have network: "drop_bit (32 - prefix_len) ?w = drop_bit (32 - prefix_len) v"
    using assms(1) by (intro bit_word_eqI) (auto simp: bit_drop_bit_eq bit_xor_iff bit_exp_iff)
  have "[0..<4] ! (3 - ?k) = 3 - ?k" by (subst nth_upt) auto
  then have octet: "octets (V4 u) ! ?k = ucast (drop_bit (24 - 8 * ?k) u)" for u
    using k(1) by (simp add: be_bytes_def le_bytes_def rev_map [symmetric] rev_nth diff_mult_distrib2)
  have len: "addr_byte_len (V4 u) prefix_len = ?k + 1" for u
    using k by (auto simp: addr_byte_len_def)
  have sent: "ecs_address (V4 u) prefix_len ! ?k = ucast (drop_bit (24 - 8 * ?k) u)" for u
    using octet [of u] by (simp add: ecs_address_def len)
  have pos: "31 - prefix_len = 24 - 8 * ?k + (7 - prefix_len mod 8)" "7 - prefix_len mod 8 < 8"
    using assms(1) by presburger+
  have "bit (ucast (drop_bit (24 - 8 * ?k) ?w) :: byte) (7 - prefix_len mod 8)
      \<noteq> bit (ucast (drop_bit (24 - 8 * ?k) v) :: byte) (7 - prefix_len mod 8)"
    using assms(1) pos(2) less_imp_diff_less [of 31 32 prefix_len]
    by (simp add: bit_ucast_iff bit_drop_bit_eq bit_xor_iff bit_exp_iff flip: pos(1))
  then have "ecs_address (V4 ?w) prefix_len \<noteq> ecs_address (V4 v) prefix_len"
    using sent by metis
  then show ?thesis using network by blast
qed

subsection \<open>Witnesses\<close>

text \<open>A query for the address of \<open>a\<close>, and one with an OPT record and a signature behind it.\<close>

definition sample_query :: wire_msg where
  "sample_query = \<lparr>wm_head = [0, 7, 1, 0], wm_questions = [([1, 97, 0], [0, 1, 0, 1])],
     wm_answers = [], wm_authorities = [], wm_additionals = []\<rparr>"

definition signed_query :: wire_msg where
  "signed_query = sample_query\<lparr>wm_additionals :=
     [new_opt [], \<lparr>wr_name = [0], wr_type = 250, wr_class = 255, wr_ttl = 0, wr_rdata = [1, 2, 3]\<rparr>]\<rparr>"

lemma sample_queries_ok: "msg_ok sample_query" "msg_ok signed_query"
  by (simp_all add: msg_ok_def sample_query_def signed_query_def question_ok_def rr_ok_def new_opt_def)

theorem client_subnet_is_added_witness:
  "wire_inject_ecs (msg_bytes sample_query) 1 24 [1, 2, 3]
     = Inr ([0, 7, 1, 0, 0, 1, 0, 0, 0, 0, 0, 1, 1, 97, 0, 0, 1, 0, 1]
         @ [0, 0, 41, 4, 208, 0, 0, 0, 0, 0, 11, 0, 8, 0, 7, 0, 1, 24, 0, 1, 2, 3])"
proof -
  have "length (ecs_option 1 24 [1, 2, 3]) = 11" by (simp add: ecs_option_def)
  then have "wire_inject_ecs (msg_bytes sample_query) 1 24 [1, 2, 3]
      = Inr (msg_bytes (sample_query\<lparr>wm_additionals := add_option (ecs_option 1 24 [1, 2, 3]) (wm_additionals sample_query)\<rparr>))"
    using client_subnet_is_added [OF sample_queries_ok(1) _ _ _ _ refl, of 1 24 "[1, 2, 3]"]
    by (simp add: sample_query_def)
  also have "msg_bytes (sample_query\<lparr>wm_additionals := add_option (ecs_option 1 24 [1, 2, 3]) (wm_additionals sample_query)\<rparr>)
      = [0, 7, 1, 0, 0, 1, 0, 0, 0, 0, 0, 1, 1, 97, 0, 0, 1, 0, 1]
         @ [0, 0, 41, 4, 208, 0, 0, 0, 0, 0, 11, 0, 8, 0, 7, 0, 1, 24, 0, 1, 2, 3]"
    by code_simp
  finally show ?thesis .
qed

theorem records_after_opt_are_lost_witness:
  "\<exists>out. wire_inject_ecs (msg_bytes signed_query) 1 24 [1, 2, 3] = Inr out
     \<and> wire_inject_ecs out 1 24 [1, 2, 3] = Inl QnameTruncated"
proof -
  have "length (ecs_option 1 24 [1, 2, 3]) = 11" by (simp add: ecs_option_def)
  then show ?thesis
    using records_after_opt_are_lost [OF sample_queries_ok(2), of "[]" "new_opt []"
        "[\<lparr>wr_name = [0], wr_type = 250, wr_class = 255, wr_ttl = 0, wr_rdata = [1, 2, 3]\<rparr>]" 1 24 "[1, 2, 3]" _ 1 24 "[1, 2, 3]"]
    by (simp add: signed_query_def is_opt_def new_opt_def)
qed

theorem client_subnet_sends_host_bits_witness:
  "\<exists>w. drop_bit 12 w = drop_bit 12 (0x01020304 :: 32 word) \<and> ecs_address (V4 w) 20 \<noteq> ecs_address (V4 0x01020304) 20"
  using client_subnet_sends_host_bits [of 20 "0x01020304"] by simp

end
