(* ===== verification/Upstream_Group.thy ===== *)
theory Upstream_Group
  imports Client_Subnet Rust_Text Config_File
begin

text \<open>
  The groups of upstream servers, \<open>src/src/dns/upstream/mod.rs\<close>: the URL of a server, the query to one
  server, and the two strategies of a group. \<open>src/src/dns/upstream/util.rs\<close>: the addresses and subnets of
  the configuration.

  The transports (UDP, TCP, TLS, HTTPS, QUIC) are a parameter, as are the time each query takes, the
  files of the system's resolvers, and the readers of IP addresses (\<open>addr_texts\<close>) and of URLs.
\<close>

subsection \<open>URLs\<close>

datatype upstream_kind =
  Udp sock_addr
| Tcp sock_addr
| Tls string "16 word" bool
| Https string bool
| Quic string "16 word" bool
| DhcpLease string
| Rcode response_code

datatype url_error =
  BadAddress string | MalformedHost string | BadPort string | BadIpv6 string | EmptyHost string
| BadDohUrl string | UnknownRcode string | UnknownScheme string | NoPrefix string

definition parse_socket_addr :: "addr_texts \<Rightarrow> string \<Rightarrow> 16 word \<Rightarrow> url_error + sock_addr" where
  "parse_socket_addr t s default_port =
     (case parse_addr t s of
        Some a \<Rightarrow> Inr a
      | None \<Rightarrow>
          (case parse_ip t s of
             Some ip \<Rightarrow> Inr \<lparr>sa_ip = ip, sa_port = default_port\<rparr>
           | None \<Rightarrow> Inl (BadAddress s)))"

definition parse_port :: "string \<Rightarrow> string \<Rightarrow> url_error + 16 word" where
  "parse_port s port = (case parse_u16 port of Some p \<Rightarrow> Inr (word_of_nat p) | None \<Rightarrow> Inl (BadPort s))"

fun is_ipv6 :: "ip_addr option \<Rightarrow> bool" where
  "is_ipv6 (Some (V6 v)) = True"
| "is_ipv6 _ = False"

definition bracket_host :: "addr_texts \<Rightarrow> string \<Rightarrow> string \<Rightarrow> 16 word \<Rightarrow> url_error + string \<times> 16 word" where
  "bracket_host t s host_part default_port =
     (case split_once (CHR '']'') host_part of
        None \<Rightarrow> Inl (MalformedHost s)
      | Some (front, after_host) \<Rightarrow>
          and_then (case strip_prefix '':'' after_host of
                      Some port \<Rightarrow> parse_port s port
                    | None \<Rightarrow> if after_host = [] then Inr default_port else Inl (MalformedHost s)) (\<lambda>port.
            if is_ipv6 (parse_ip t (tl front)) then Inr (tl front, port) else Inl (BadIpv6 (tl front))))"

definition parse_host_port :: "addr_texts \<Rightarrow> string \<Rightarrow> 16 word \<Rightarrow> url_error + string \<times> 16 word" where
  "parse_host_port t s default_port =
     (let host_part = hd (split_on CHR ''/'' s)
      in if prefix ''['' host_part then bracket_host t s host_part default_port
         else and_then (case rsplit_once CHR '':'' host_part of
                          Some (host, port) \<Rightarrow> and_then (parse_port s port) (\<lambda>p. Inr (host, p))
                        | None \<Rightarrow> Inr (host_part, default_port)) (\<lambda>(host, port).
                if host = [] then Inl (EmptyHost s) else Inr (host, port)))"

definition rcode_of :: "string \<Rightarrow> response_code option" where
  "rcode_of s =
     (if s \<in> {''refused'', ''refuse''} then Some Refused
      else if s \<in> {''nxdomain'', ''nx''} then Some NXDomain
      else if s \<in> {''servfail'', ''fail''} then Some ServFail
      else if s \<in> {''succeed'', ''success'', ''noerror'', ''empty''} then Some NoError
      else None)"

definition parse_upstream_url :: "addr_texts \<Rightarrow> (string \<Rightarrow> bool) \<Rightarrow> string \<Rightarrow> bool \<Rightarrow> url_error + upstream_kind" where
  "parse_upstream_url t url_ok url insecure =
     (case strip_prefix ''udp://'' url of Some rest \<Rightarrow> and_then (parse_socket_addr t rest 53) (Inr \<circ> Udp) | None \<Rightarrow>
     (case strip_prefix ''tcp://'' url of Some rest \<Rightarrow> and_then (parse_socket_addr t rest 53) (Inr \<circ> Tcp) | None \<Rightarrow>
     (case strip_prefix ''tls://'' url of
        Some rest \<Rightarrow> and_then (parse_host_port t rest 853) (\<lambda>(host, port). Inr (Tls host port insecure)) | None \<Rightarrow>
      if prefix ''https://'' url then (if url_ok url then Inr (Https url insecure) else Inl (BadDohUrl url))
      else
     (case strip_prefix ''quic://'' url of
        Some rest \<Rightarrow> and_then (parse_host_port t rest 853) (\<lambda>(host, port). Inr (Quic host port insecure)) | None \<Rightarrow>
     (case strip_prefix ''dhcp://'' url of Some rest \<Rightarrow> Inr (DhcpLease rest) | None \<Rightarrow>
     (case strip_prefix ''rcode://'' url of
        Some rest \<Rightarrow>
          (let code = to_ascii_lowercase (str_trim rest)
           in case rcode_of code of Some k \<Rightarrow> Inr (Rcode k) | None \<Rightarrow> Inl (UnknownRcode code))
      | None \<Rightarrow>
      if sublist ''://'' url then Inl (UnknownScheme url)
      else (case parse_socket_addr t url 53 of Inr a \<Rightarrow> Inr (Udp a) | Inl e \<Rightarrow> Inl (NoPrefix url))))))))"

definition parse_client_subnet :: "addr_texts \<Rightarrow> string \<Rightarrow> (ip_addr \<times> byte) option" where
  "parse_client_subnet t s =
     Option.bind (split_once CHR ''/'' s) (\<lambda>(addr_str, prefix_str).
     Option.bind (parse_ip t addr_str) (\<lambda>ip.
     Option.bind (parse_u8 prefix_str) (\<lambda>prefix_len.
       if prefix_len > (case ip of V4 _ \<Rightarrow> 32 | V6 _ \<Rightarrow> 128) then None
       else Some (ip, word_of_nat prefix_len))))"

subsection \<open>Servers and groups\<close>

record upstream_server =
  us_kind :: upstream_kind
  us_url :: string
  us_client_subnet :: "(ip_addr \<times> byte) option"

definition parse_server :: "addr_texts \<Rightarrow> (string \<Rightarrow> bool) \<Rightarrow> upstream_group \<Rightarrow> string \<Rightarrow> url_error + upstream_server" where
  "parse_server t url_ok g url =
     and_then (parse_upstream_url t url_ok url (ug_insecure g)) (\<lambda>k.
       Inr \<lparr>us_kind = k, us_url = url, us_client_subnet = Option.bind (ug_client_subnet g) (parse_client_subnet t)\<rparr>)"

record group_state =
  gs_servers :: "upstream_server list"
  gs_strategy :: strategy
  gs_counter :: "64 word"

definition open_group :: "addr_texts \<Rightarrow> (string \<Rightarrow> bool) \<Rightarrow> upstream_group \<Rightarrow> url_error + group_state" where
  "open_group t url_ok g =
     and_then (parse_all (parse_server t url_ok g) (ug_servers g)) (\<lambda>servers.
       Inr \<lparr>gs_servers = servers, gs_strategy = ug_strategy g, gs_counter = 0\<rparr>)"

subsection \<open>Queries\<close>

datatype query_error =
  SubnetNotAdded ecs_error | NoDhcpServers string | TransportFailed string | TimedOut | NoServers | AllFailed

record upstream_env =
  ue_codec :: message_codec
  ue_texts :: addr_texts
  ue_file :: "string \<Rightarrow> string option"
  ue_transport :: "upstream_kind \<Rightarrow> dns_message \<Rightarrow> string + dns_message"
  ue_elapsed :: "upstream_server \<Rightarrow> nat"

text \<open>The name servers listed in the first of the files that lists any.\<close>

definition name_server :: "addr_texts \<Rightarrow> string \<Rightarrow> sock_addr option" where
  "name_server t line =
     (if prefix ''nameserver'' (str_trim line) then
        (case split_words [] (str_trim line) of
           _ # ip # _ \<Rightarrow> map_option (\<lambda>a. \<lparr>sa_ip = a, sa_port = 53\<rparr>) (parse_ip t ip)
         | _ \<Rightarrow> None)
      else None)"

definition dhcp_candidates :: "string list" where
  "dhcp_candidates = [''/run/systemd/resolve/resolv.conf'', ''/run/NetworkManager/resolv.conf'',
     ''/var/lib/dhclient/resolv.conf'', ''/etc/resolv.conf.dnsroxy.bak'']"

definition resolve_dhcp_servers :: "upstream_env \<Rightarrow> sock_addr list" where
  "resolve_dhcp_servers v =
     (case find (\<lambda>servers. servers \<noteq> [])
             (map (List.map_filter (name_server (ue_texts v)) \<circ> lines_of)
               (List.map_filter (ue_file v) dhcp_candidates)) of
        Some servers \<Rightarrow> servers
      | None \<Rightarrow> [])"

definition transport_query :: "upstream_env \<Rightarrow> upstream_kind \<Rightarrow> dns_message \<Rightarrow> query_error + dns_message" where
  "transport_query v k req = (case ue_transport v k req of Inl e \<Rightarrow> Inl (TransportFailed e) | Inr resp \<Rightarrow> Inr resp)"

definition with_subnet :: "upstream_env \<Rightarrow> upstream_server \<Rightarrow> dns_message \<Rightarrow> query_error + dns_message" where
  "with_subnet v s request =
     (case (us_client_subnet s, us_kind s) of
        (None, _) \<Rightarrow> Inr request
      | (_, Rcode _) \<Rightarrow> Inr request
      | (_, DhcpLease _) \<Rightarrow> Inr request
      | (Some (ip, prefix_len), _) \<Rightarrow>
          (case inject_client_subnet (ue_codec v) request ip prefix_len of
             Inl e \<Rightarrow> Inl (SubnetNotAdded e) | Inr m \<Rightarrow> Inr m))"

definition server_query :: "upstream_env \<Rightarrow> upstream_server \<Rightarrow> dns_message \<Rightarrow> query_error + dns_message" where
  "server_query v s request =
     and_then (with_subnet v s request) (\<lambda>req.
       case us_kind s of
         DhcpLease interface \<Rightarrow>
           (case resolve_dhcp_servers v of
              [] \<Rightarrow> Inl (NoDhcpServers interface)
            | a # _ \<Rightarrow> transport_query v (Udp a) req)
       | Rcode code \<Rightarrow> Inr (request\<lparr>m_response := True, m_rcode := code\<rparr>)
       | k \<Rightarrow> transport_query v k req)"

definition upstream_timeout :: nat where
  "upstream_timeout = 5 * 10 ^ 9"

definition attempt :: "upstream_env \<Rightarrow> upstream_server \<Rightarrow> dns_message \<Rightarrow> query_error + dns_message" where
  "attempt v s request = (if upstream_timeout \<le> ue_elapsed v s then Inl TimedOut else server_query v s request)"

fun first_answer :: "upstream_env \<Rightarrow> dns_message \<Rightarrow> upstream_server list \<Rightarrow> query_error + dns_message \<times> nat" where
  "first_answer v request [] = Inl AllFailed"
| "first_answer v request (s # ss) =
     (case attempt v s request of Inr resp \<Rightarrow> Inr (resp, ue_elapsed v s) | Inl _ \<Rightarrow> first_answer v request ss)"

definition cyclic_order :: "nat \<Rightarrow> 'a list \<Rightarrow> 'a list" where
  "cyclic_order start xs = map (\<lambda>i. xs ! ((start + i) mod length xs)) [0..<length xs]"

definition query_round_robin :: "upstream_env \<Rightarrow> dns_message \<Rightarrow> group_state
    \<Rightarrow> group_state \<times> (query_error + dns_message \<times> nat)" where
  "query_round_robin v request g =
     (g\<lparr>gs_counter := gs_counter g + 1\<rparr>,
      first_answer v request (cyclic_order (unat (gs_counter g) mod length (gs_servers g)) (gs_servers g)))"

text \<open>\<open>select_ok\<close>: the first answer to arrive; of two at the same instant, that of the earlier server.\<close>

definition query_fastest :: "upstream_env \<Rightarrow> dns_message \<Rightarrow> group_state
    \<Rightarrow> group_state \<times> (query_error + dns_message \<times> nat)" where
  "query_fastest v request g =
     (g, first_answer v request (sort_key (ue_elapsed v) (gs_servers g)))"

definition group_query :: "upstream_env \<Rightarrow> dns_message \<Rightarrow> group_state
    \<Rightarrow> group_state \<times> (query_error + dns_message \<times> nat)" where
  "group_query v request g =
     (if gs_servers g = [] then (g, Inl NoServers)
      else case gs_strategy g of
             RoundRobin \<Rightarrow> query_round_robin v request g
           | Fastest \<Rightarrow> query_fastest v request g)"

end
