(* ===== verification/Upstream_Properties.thy ===== *)
theory Upstream_Properties
  imports Upstream_Group "HOL-Library.Multiset"
begin

text \<open>
  What a group of upstream servers answers: which server counts under each strategy, that the load is
  spread evenly, that groups that only refuse never use the network, and which addresses the check of
  the configuration takes for names.
\<close>

subsection \<open>The order of the servers\<close>

lemma cyclic_rotate: "cyclic_order k xs = rotate k xs"
  by (rule nth_equalityI) (simp_all add: cyclic_order_def nth_rotate)

lemma first_answer_cases:
  "case first_answer v request ss of
     Inr (resp, d) \<Rightarrow> \<exists>pre s post. ss = pre @ s # post \<and> attempt v s request = Inr resp \<and> d = ue_elapsed v s
       \<and> (\<forall>x \<in> set pre. isl (attempt v x request))
   | Inl e \<Rightarrow> e = AllFailed \<and> (\<forall>x \<in> set ss. isl (attempt v x request))"
proof (induction ss)
  case (Cons s ss)
  show ?case
  proof (cases "attempt v s request")
    case (Inl e)
    show ?thesis
    proof (cases "first_answer v request ss")
      case (Inr p)
      obtain resp d where p: "p = (resp, d)" by fastforce
      then obtain pre x post where "ss = pre @ x # post" "attempt v x request = Inr resp" "d = ue_elapsed v x"
        "\<forall>x \<in> set pre. isl (attempt v x request)" using Cons.IH Inr by auto
      then have "s # ss = (s # pre) @ x # post" "\<forall>x \<in> set (s # pre). isl (attempt v x request)"
        using Inl by auto
      then show ?thesis using Inl Inr p \<open>attempt v x request = Inr resp\<close> \<open>d = ue_elapsed v x\<close> by (simp, blast)
    qed (use Cons.IH Inl in auto)
  qed (force intro: exI [of _ "[]"])
qed simp

lemma attempt_in_time: "attempt v s request = Inr resp \<Longrightarrow> ue_elapsed v s < upstream_timeout"
  by (auto simp: attempt_def split: if_splits)

definition server_turn :: "upstream_env \<Rightarrow> group_state \<Rightarrow> upstream_server list" where
  "server_turn v g = (case gs_strategy g of
     RoundRobin \<Rightarrow> cyclic_order (unat (gs_counter g) mod length (gs_servers g)) (gs_servers g)
   | Fastest \<Rightarrow> sort_key (ue_elapsed v) (gs_servers g))"

lemma set_server_turn [simp]: "set (server_turn v g) = set (gs_servers g)"
  by (simp add: server_turn_def cyclic_rotate split: strategy.splits)

lemma group_query_turn:
  "gs_servers g \<noteq> [] \<Longrightarrow> snd (group_query v request g) = first_answer v request (server_turn v g)"
  by (simp add: group_query_def server_turn_def query_round_robin_def query_fastest_def split: strategy.splits)

lemma group_answers:
  assumes "gs_servers g \<noteq> []"
  shows "case snd (group_query v request g) of
      Inl e \<Rightarrow> \<forall>s \<in> set (gs_servers g). isl (attempt v s request)
    | Inr (resp, d) \<Rightarrow> \<exists>s \<in> set (gs_servers g). attempt v s request = Inr resp"
proof (cases "first_answer v request (server_turn v g)")
  case (Inl e)
  then show ?thesis
    using group_query_turn [OF assms] first_answer_cases [where v = v and request = request and ss = "server_turn v g"]
    by simp
next
  case (Inr p)
  obtain resp d where p: "p = (resp, d)" by fastforce
  then obtain pre s post where "server_turn v g = pre @ s # post" "attempt v s request = Inr resp"
    using Inr first_answer_cases [where v = v and request = request and ss = "server_turn v g"] by auto
  moreover from this(1) have "s \<in> set (gs_servers g)" using set_server_turn [of v g] by auto
  ultimately show ?thesis using group_query_turn [OF assms] Inr p by auto
qed

text \<open>
  C25. A group answers exactly when one of its servers does in time, with the answer of that server and
  the time it took; under \<open>Fastest\<close> no server of the group would have answered sooner, and under
  \<open>RoundRobin\<close> every server before it in turn has failed.
\<close>

theorem group_answers_like_a_server:
  assumes "gs_servers g \<noteq> []" and "group_query v request g = (g', r)"
  shows "case r of
      Inl e \<Rightarrow> e = AllFailed \<and> (\<forall>s \<in> set (gs_servers g). isl (attempt v s request))
    | Inr (resp, d) \<Rightarrow> \<exists>s \<in> set (gs_servers g). attempt v s request = Inr resp \<and> d = ue_elapsed v s
        \<and> d < upstream_timeout
        \<and> (gs_strategy g = Fastest \<longrightarrow>
             (\<forall>x \<in> set (gs_servers g). isl (attempt v x request) \<or> d \<le> ue_elapsed v x))
        \<and> (gs_strategy g = RoundRobin \<longrightarrow>
             (\<exists>i < length (gs_servers g). gs_servers g ! ((unat (gs_counter g) + i) mod length (gs_servers g)) = s
               \<and> (\<forall>j < i. isl (attempt v (gs_servers g ! ((unat (gs_counter g) + j) mod length (gs_servers g))) request))))"
proof -
  let ?ss = "gs_servers g" and ?c = "unat (gs_counter g)"
  define turn where "turn = server_turn v g"
  have r: "r = first_answer v request turn"
    using assms group_query_turn [OF assms(1)] by (metis turn_def snd_conv)
  have same: "set turn = set ?ss" by (simp add: turn_def)
  show ?thesis
  proof (cases r)
    case (Inl e)
    then show ?thesis using first_answer_cases [where v = v and request = request and ss = turn] r same by simp
  next
    case (Inr p)
    obtain resp d where p: "p = (resp, d)" by fastforce
    have ans: "first_answer v request turn = Inr (resp, d)" using r Inr p by simp
    obtain pre s post where turn: "turn = pre @ s # post" "attempt v s request = Inr resp" "d = ue_elapsed v s"
      "\<forall>x \<in> set pre. isl (attempt v x request)"
      using first_answer_cases [where v = v and request = request and ss = turn] unfolding ans by auto
    have "isl (attempt v x request) \<or> d \<le> ue_elapsed v x" if "gs_strategy g = Fastest" "x \<in> set ?ss" for x
    proof -
      have "sorted (map (ue_elapsed v) (pre @ s # post))" "x \<in> set (pre @ s # post)"
        using that same by (simp_all flip: turn(1)) (simp add: turn_def server_turn_def)
      then show ?thesis using turn(3,4) by (auto simp: sorted_append)
    qed
    moreover have "\<exists>i < length ?ss. ?ss ! ((?c + i) mod length ?ss) = s
        \<and> (\<forall>j < i. isl (attempt v (?ss ! ((?c + j) mod length ?ss)) request))" if "gs_strategy g = RoundRobin"
    proof (intro exI conjI allI impI)
      have order: "turn = cyclic_order (?c mod length ?ss) ?ss" using that by (simp add: turn_def server_turn_def)
      then have len: "length (pre @ s # post) = length ?ss" by (simp add: cyclic_order_def flip: turn(1))
      have nth: "(pre @ s # post) ! j = ?ss ! ((?c + j) mod length ?ss)" if "j < length ?ss" for j
        using that order by (simp add: cyclic_order_def mod_add_left_eq flip: turn(1))
      show "length pre < length ?ss" using len by simp
      then show "?ss ! ((?c + length pre) mod length ?ss) = s" using nth [of "length pre"] by simp
      show "isl (attempt v (?ss ! ((?c + j) mod length ?ss)) request)" if "j < length pre" for j
        using nth [of j] that len turn(4) by (simp add: nth_append) (metis nth_mem)
    qed
    moreover have "s \<in> set ?ss" using turn(1) same by auto
    ultimately show ?thesis using Inr p turn attempt_in_time [OF turn(2)] by auto
  qed
qed

subsection \<open>Fairness\<close>

fun query_all :: "upstream_env \<Rightarrow> dns_message list \<Rightarrow> group_state \<Rightarrow> (query_error + dns_message \<times> nat) list" where
  "query_all v [] g = []"
| "query_all v (m # ms) g = (let (g', r) = group_query v m g in r # query_all v ms g')"

lemma round_robin_results:
  assumes "gs_servers g \<noteq> []" "gs_strategy g = RoundRobin" "unat (gs_counter g) + length ms \<le> 2 ^ 64"
    and "\<And>s m. s \<in> set (gs_servers g) \<Longrightarrow> m \<in> set ms \<Longrightarrow> attempt v s m = Inr (answer s)"
  shows "query_all v ms g = map (\<lambda>i. let s = gs_servers g ! ((unat (gs_counter g) + i) mod length (gs_servers g))
      in Inr (answer s, ue_elapsed v s)) [0..<length ms]"
  using assms(2-4) assms(1)
proof (induction ms arbitrary: g)
  case (Cons m ms)
  let ?n = "length (gs_servers g)" and ?c = "unat (gs_counter g)"
  let ?g = "g\<lparr>gs_counter := gs_counter g + 1\<rparr>"
  have len: "0 < ?n" using Cons.prems(4) by simp
  have asked: "group_query v m g = (?g, first_answer v m (rotate (?c mod ?n) (gs_servers g)))"
    using Cons.prems by (simp add: group_query_def query_round_robin_def cyclic_rotate)
  obtain s ss where turn: "rotate (?c mod ?n) (gs_servers g) = s # ss"
    using Cons.prems(4) by (cases "rotate (?c mod ?n) (gs_servers g)") auto
  then have s: "s = gs_servers g ! (?c mod ?n)"
    using nth_rotate [OF len, of "?c mod ?n"] by simp
  have "s \<in> set (gs_servers g)" using len s by simp
  then have "attempt v s m = Inr (answer s)" using Cons.prems(3) by simp
  then have head: "first_answer v m (rotate (?c mod ?n) (gs_servers g)) = Inr (answer s, ue_elapsed v s)"
    by (simp add: turn)
  have next_c: "unat (gs_counter g + 1) = ?c + 1" if "ms \<noteq> []"
  proof -
    have "?c + 1 < 2 ^ 64" using that Cons.prems(2) by (cases ms) simp_all
    then show ?thesis by (simp add: unat_word_ariths)
  qed
  have rest: "query_all v ms ?g = map (\<lambda>i. let s = gs_servers g ! ((?c + (i + 1)) mod ?n)
      in Inr (answer s, ue_elapsed v s)) [0..<length ms]"
  proof (cases ms)
    case (Cons m' ms')
    then have "unat (gs_counter ?g) = ?c + 1" using next_c by simp
    then show ?thesis using Cons.IH [of ?g] Cons.prems by (simp add: add.assoc)
  qed simp
  show ?case
    using asked head rest by (simp add: s upt_conv_Cons map_Suc_upt [symmetric] Let_def comp_def del: upt_Suc)
qed simp

lemma mset_rotate [simp]: "mset (rotate n xs) = mset xs"
  by (simp add: rotate_drop_take) (metis append_take_drop_id mset_append union_commute)

lemma cyclic_blocks:
  assumes "xs \<noteq> []"
  shows "mset (map (\<lambda>i. f (xs ! ((c + i) mod length xs))) [0..<k * length xs]) = repeat_mset k (image_mset f (mset xs))"
proof (induction k)
  case (Suc k)
  let ?n = "length xs"
  have "[0..<Suc k * ?n] = [0..<k * ?n] @ [k * ?n..<k * ?n + ?n]"
    using upt_add_eq_append [of 0 "k * ?n" ?n] by (simp add: add.commute)
  also have "[k * ?n..<k * ?n + ?n] = map (\<lambda>i. k * ?n + i) [0..<?n]"
    using map_add_upt [of "k * ?n" ?n] by (simp add: add.commute)
  finally have "[0..<Suc k * ?n] = [0..<k * ?n] @ map (\<lambda>i. k * ?n + i) [0..<?n]" .
  moreover have "map (\<lambda>i. f (xs ! ((c + (k * ?n + i)) mod ?n))) [0..<?n] = map f (rotate (c + k * ?n) xs)"
    by (simp add: cyclic_order_def add.assoc flip: cyclic_rotate)
  ultimately show ?case using Suc by (simp add: comp_def flip: mset_map) (simp add: add.commute)
qed simp

text \<open>
  The load of a round-robin group is spread evenly: of as many queries as k turns of its servers,
  each server answers exactly k, as long as all servers answer and the counter does not overflow.
\<close>

theorem round_robin_is_fair:
  assumes "gs_servers g \<noteq> []" "gs_strategy g = RoundRobin" "length ms = k * length (gs_servers g)"
    and "unat (gs_counter g) + length ms \<le> 2 ^ 64"
    and "\<And>s m. s \<in> set (gs_servers g) \<Longrightarrow> m \<in> set ms \<Longrightarrow> attempt v s m = Inr (answer s)"
  shows "mset (query_all v ms g)
    = repeat_mset k (image_mset (\<lambda>s. Inr (answer s, ue_elapsed v s)) (mset (gs_servers g)))"
  using round_robin_results [OF assms(1,2,4,5)] cyclic_blocks [OF assms(1)] by (simp add: assms(3) Let_def)

subsection \<open>Groups that only refuse\<close>

lemma parse_all_members: "parse_all f xs = Inr ys \<Longrightarrow> list_all2 (\<lambda>x y. f x = Inr y) xs ys"
proof (induction xs arbitrary: ys)
  case (Cons x xs)
  then show ?case by (cases "f x"; cases "parse_all f xs") auto
qed simp

lemma parse_url_rcode:
  assumes "parse_upstream_url t url_ok url insecure = Inr k"
  shows "prefix ''rcode://'' url \<longleftrightarrow> (\<exists>c. k = Rcode c)"
    and "k = Rcode c \<Longrightarrow> c \<in> {Refused, NXDomain, ServFail, NoError}"
proof -
  have other: "\<nexists>c. k = Rcode c" if "\<not> prefix ''rcode://'' url"
  proof -
    have "strip_prefix ''rcode://'' url = None" using that by (simp add: strip_prefix_None_iff)
    then show ?thesis using assms
      by (auto simp: parse_upstream_url_def and_then_Inr_iff split: option.splits if_splits sum.splits)
  qed
  have rcode: "k = Rcode c \<and> c \<in> {Refused, NXDomain, ServFail, NoError}"
    if "url = ''rcode://'' @ rest" "rcode_of (to_ascii_lowercase (str_trim rest)) = Some c" for rest c
    using assms that by (simp add: parse_upstream_url_def strip_prefix_def rcode_of_def split: if_splits)
  have known: "\<exists>rest c. url = ''rcode://'' @ rest \<and> rcode_of (to_ascii_lowercase (str_trim rest)) = Some c"
    if scheme: "prefix ''rcode://'' url"
  proof -
    obtain rest where rest: "url = ''rcode://'' @ rest" using scheme unfolding prefix_def by blast
    then show ?thesis using assms
      by (auto simp: parse_upstream_url_def strip_prefix_def Let_def split: option.splits)
  qed
  show "prefix ''rcode://'' url \<longleftrightarrow> (\<exists>c. k = Rcode c)" using other known rcode by blast
  show "c \<in> {Refused, NXDomain, ServFail, NoError}" if "k = Rcode c"
    using that other known rcode by blast
qed

text \<open>
  The router's test for a group that blocks is right: it looks at the kinds of the servers and agrees
  with their URLs, and a group that passes it answers every query itself, with the question it was asked
  and one of the codes the configuration can name; no transport is used.
\<close>

theorem blocking_group_answers_itself:
  assumes "open_group t url_ok cfg = Inr g" "ug_servers cfg \<noteq> []"
    and "\<And>s. s \<in> set (gs_servers g) \<Longrightarrow> ue_elapsed v s < upstream_timeout"
  shows "(is_rcode_group cfg \<longleftrightarrow> (\<forall>s \<in> set (gs_servers g). \<exists>c. us_kind s = Rcode c))
    \<and> (is_rcode_group cfg \<longrightarrow> (\<exists>c \<in> {Refused, NXDomain, ServFail, NoError}. \<exists>d.
         snd (group_query v request g) = Inr (request\<lparr>m_response := True, m_rcode := c\<rparr>, d)))"
proof (intro conjI impI)
  obtain servers where servers: "parse_all (parse_server t url_ok cfg) (ug_servers cfg) = Inr servers"
    "gs_servers g = servers"
    using assms(1) by (auto simp: open_group_def and_then_Inr_iff)
  have each: "list_all2 (\<lambda>url s. \<exists>insecure. parse_upstream_url t url_ok url insecure = Inr (us_kind s)) (ug_servers cfg) servers"
    using parse_all_members [OF servers(1)]
    by (rule list_all2_mono) (auto simp: parse_server_def and_then_Inr_iff)
  then show same: "is_rcode_group cfg \<longleftrightarrow> (\<forall>s \<in> set (gs_servers g). \<exists>c. us_kind s = Rcode c)"
    unfolding is_rcode_group_def servers(2)
    by (induction rule: list_all2_induct) (auto dest: parse_url_rcode(1))
  assume "is_rcode_group cfg"
  have answers: "\<exists>c \<in> {Refused, NXDomain, ServFail, NoError}. attempt v s request = Inr (request\<lparr>m_response := True, m_rcode := c\<rparr>)"
    if s: "s \<in> set (gs_servers g)" for s
  proof -
    obtain c where c: "us_kind s = Rcode c" using same \<open>is_rcode_group cfg\<close> s by blast
    obtain url insecure where "parse_upstream_url t url_ok url insecure = Inr (us_kind s)"
      using each s servers(2) by (auto simp: list_all2_conv_all_nth in_set_conv_nth)
    then have "c \<in> {Refused, NXDomain, ServFail, NoError}" using parse_url_rcode(2) c by simp
    moreover have "\<not> upstream_timeout \<le> ue_elapsed v s" using assms(3) [OF s] by simp
    then have "attempt v s request = Inr (request\<lparr>m_response := True, m_rcode := c\<rparr>)"
      using c by (simp add: attempt_def server_query_def with_subnet_def split: option.splits prod.splits)
    ultimately show ?thesis by blast
  qed
  have nonempty: "gs_servers g \<noteq> []" using each assms(2) servers(2) by (auto simp: list_all2_Nil2)
  then obtain s where s: "s \<in> set (gs_servers g)" using hd_in_set by blast
  show "\<exists>c \<in> {Refused, NXDomain, ServFail, NoError}. \<exists>d.
      snd (group_query v request g) = Inr (request\<lparr>m_response := True, m_rcode := c\<rparr>, d)"
  proof (cases "snd (group_query v request g)")
    case (Inl e)
    then show ?thesis using group_answers [OF nonempty, of v request] answers [OF s] s by force
  next
    case (Inr p)
    obtain resp d where p: "p = (resp, d)" by fastforce
    then obtain x where "x \<in> set (gs_servers g)" "attempt v x request = Inr resp"
      using group_answers [OF nonempty, of v request] Inr by auto
    then show ?thesis using answers [of x] Inr p by auto
  qed
qed

subsection \<open>Addresses taken for names\<close>

lemma split_str_plain: "\<not> sublist sep s \<Longrightarrow> split_str sep cur s = [cur @ s]"
proof (induction sep cur s rule: split_str.induct)
  case (1 sep cur s)
  show ?case
  proof (cases s)
    case (Cons a as)
    then have "\<not> prefix sep s" "\<not> sublist sep as"
      using 1(3) by (simp_all add: sublist_Cons_right)
    then show ?thesis using 1(2) Cons by (subst split_str.simps) simp
  qed (simp add: split_str.simps)
qed

lemma no_slash_no_scheme: "CHR ''/'' \<notin> set s \<Longrightarrow> \<not> sublist ''://'' s"
  by (auto simp: sublist_def)

lemma url_host_tls: "CHR ''/'' \<notin> set r \<Longrightarrow> url_host (''tls://'' @ r) = hd (split_on CHR '':'' r)"
  using split_str_plain [OF no_slash_no_scheme, of r "[]"]
  by (simp add: url_host_def split_str.simps [of _ _ "_ # _"] split_on_plain)

lemma url_host_bare: "\<not> sublist ''://'' s \<Longrightarrow> url_host s = []"
  by (simp add: url_host_def split_str_plain)

lemma hd_split_on: "c \<noteq> d \<Longrightarrow> \<exists>w. hd (split_on d (c # s)) = c # w"
  by (cases "split_on d s") auto

lemma split_at_bracket:
  "CHR '']'' \<notin> set a \<Longrightarrow> split_once (CHR '']'') (CHR ''['' # a @ '']'') = Some (CHR ''['' # a, [])"
  using split_once_append [of "CHR '']''" "CHR ''['' # a" "[]"] by simp

lemma parse_tls_bracket:
  assumes "CHR ''/'' \<notin> set a" "CHR '']'' \<notin> set a" "is_ipv6 (parse_ip t a)"
  shows "parse_upstream_url t url_ok (''tls://['' @ a @ '']'') insecure = Inr (Tls a 853 insecure)"
proof -
  have "split_on CHR ''/'' (''['' @ a @ '']'') = [''['' @ a @ '']'']"
    using assms(1) by (intro split_on_plain) auto
  then have "parse_host_port t (''['' @ a @ '']'') 853 = Inr (a, 853)"
    using assms(2,3) by (simp add: parse_host_port_def bracket_host_def split_at_bracket strip_prefix_def)
  then show ?thesis by (simp add: parse_upstream_url_def strip_prefix_def)
qed

lemma parse_bare:
  assumes "\<not> sublist ''://'' url" "parse_socket_addr t url 53 = Inr a"
  shows "parse_upstream_url t url_ok url insecure = Inr (Udp a)"
proof -
  have "\<not> prefix (p @ ''://'') url" for p
    using assms(1) by (metis prefix_imp_sublist sublist_appendI sublist_order.order_trans append_Nil2)
  from this [of "''udp''"] this [of "''tcp''"] this [of "''tls''"] this [of "''https''"] this [of "''quic''"]
    this [of "''dhcp''"] this [of "''rcode''"]
  show ?thesis using assms by (simp add: parse_upstream_url_def strip_prefix_None_iff [THEN iffD2])
qed

text \<open>The server is given by its address: no name has to be resolved to reach it.\<close>

fun by_address :: "addr_texts \<Rightarrow> upstream_kind \<Rightarrow> bool" where
  "by_address t (Udp a) = True"
| "by_address t (Tcp a) = True"
| "by_address t (Tls host port insecure) = (parse_ip t host \<noteq> None)"
| "by_address t (Quic host port insecure) = (parse_ip t host \<noteq> None)"
| "by_address t k = False"

text \<open>
  The check for upstreams that need a name server refuses servers given by their address: with the
  firewall or the management of resolv.conf on and no default name server, a server behind TLS with an
  IPv6 address in brackets, or a plain address beside any server behind TLS, makes the configuration
  invalid, though the server is reached without any name.
\<close>

theorem address_upstreams_are_refused:
  assumes "\<And>s. parse_ip t (CHR ''['' # s) = None" "parse_ip t [] = None"
    and "(name, g) \<in> set (c_groups c)" "url \<in> set (ug_servers g)"
    and "(\<exists>a. url = ''tls://['' @ a @ '']'' \<and> CHR ''/'' \<notin> set a \<and> CHR '']'' \<notin> set a \<and> is_ipv6 (parse_ip t a))
       \<or> (\<not> sublist ''://'' url \<and> parse_socket_addr t url 53 = Inr addr
          \<and> (\<exists>u \<in> set (ug_servers g). prefix ''tls://'' u))"
    and "map_of (c_groups c) ''default'' \<noteq> None" "c_manage_resolv_conf c \<longrightarrow> sa_port (c_listen c) = 53"
    and "firewall_enabled c \<or> c_manage_resolv_conf c" "c_default_nameserver c = []"
  shows "\<exists>k. parse_upstream_url t url_ok url insecure = Inr k \<and> by_address t k
    \<and> validate (\<lambda>s. parse_ip t s \<noteq> None) c = Some NeedsDefaultNameserver"
proof -
  have "(\<exists>k. parse_upstream_url t url_ok url insecure = Inr k \<and> by_address t k)
      \<and> parse_ip t (url_host url) = None \<and> (\<exists>u \<in> set (ug_servers g). prefix ''tls://'' u)"
    using assms(5)
  proof (elim disjE exE conjE)
    fix a assume a: "url = ''tls://['' @ a @ '']''" "CHR ''/'' \<notin> set a" "CHR '']'' \<notin> set a" "is_ipv6 (parse_ip t a)"
    obtain w where "hd (split_on CHR '':'' (CHR ''['' # a @ '']'')) = CHR ''['' # w"
      using hd_split_on [of "CHR ''[''" "CHR '':''"] by auto
    then have "url_host url = CHR ''['' # w" using url_host_tls [of "''['' @ a @ '']''"] a(1,2) by simp
    moreover have "parse_ip t a \<noteq> None" using a(4) by (cases "parse_ip t a") simp_all
    moreover have "prefix ''tls://'' url" using a(1) by simp
    then have "\<exists>u \<in> set (ug_servers g). prefix ''tls://'' u" using assms(4) by blast
    ultimately show ?thesis using parse_tls_bracket [OF a(2-4)] a(1) assms(1) by simp
  next
    assume bare: "\<not> sublist ''://'' url" "parse_socket_addr t url 53 = Inr addr"
      and tls: "\<exists>u \<in> set (ug_servers g). prefix ''tls://'' u"
    show ?thesis using parse_bare [OF bare] url_host_bare [OF bare(1)] tls assms(2) by simp
  qed
  then have "has_domain_upstream (\<lambda>s. parse_ip t s \<noteq> None) c"
    using assms(3,4) by (auto simp: has_domain_upstream_def list_ex_iff)
  then show ?thesis
    using \<open>_ \<and> parse_ip t (url_host url) = None \<and> _\<close> assms(6-9) by (auto simp: validate_def Let_def)
qed

subsection \<open>Witnesses\<close>

text \<open>A reader of addresses that knows two of them, and servers that take their own time to answer.\<close>

definition sample_addr_texts :: addr_texts where
  "sample_addr_texts = \<lparr>parse_addr = (\<lambda>_. None),
     parse_ip = (\<lambda>s. if s = ''::1'' then Some (V6 1) else if s = ''9.9.9.9'' then Some (V4 0x09090909) else None),
     addr_text = (\<lambda>_. [])\<rparr>"

definition sample_upstream_env :: upstream_env where
  "sample_upstream_env = \<lparr>ue_codec = \<lparr>mc_to_vec = (\<lambda>_. None), mc_from_bytes = (\<lambda>_. None)\<rparr>,
     ue_texts = sample_addr_texts, ue_file = (\<lambda>_. None),
     ue_transport = (\<lambda>k m. case k of Udp a \<Rightarrow> Inr (m\<lparr>m_response := True, m_id := sa_port a\<rparr>) | _ \<Rightarrow> Inl ''refused''),
     ue_elapsed = (\<lambda>s. length (us_url s))\<rparr>"

definition sample_server :: "16 word \<Rightarrow> upstream_server" where
  "sample_server port = \<lparr>us_kind = Udp \<lparr>sa_ip = V4 1, sa_port = port\<rparr>, us_url = ''u'', us_client_subnet = None\<rparr>"

definition dead_server :: upstream_server where
  "dead_server = \<lparr>us_kind = Tls ''x'' 853 False, us_url = [], us_client_subnet = None\<rparr>"

definition sample_group_state :: "strategy \<Rightarrow> group_state" where
  "sample_group_state st = \<lparr>gs_servers = [dead_server, sample_server 1], gs_strategy = st, gs_counter = 0\<rparr>"

lemma sample_attempts:
  "attempt sample_upstream_env (sample_server p) m = Inr (m\<lparr>m_response := True, m_id := p\<rparr>)"
  "attempt sample_upstream_env dead_server m = Inl (TransportFailed ''refused'')"
  by (simp_all add: attempt_def sample_upstream_env_def sample_server_def dead_server_def upstream_timeout_def
    server_query_def with_subnet_def transport_query_def)

theorem group_answers_like_a_server_witness:
  "\<exists>resp d. snd (group_query sample_upstream_env new_message (sample_group_state RoundRobin)) = Inr (resp, d)
     \<and> m_id resp = 1"
proof -
  let ?g = "sample_group_state RoundRobin"
  obtain g' r where run: "group_query sample_upstream_env new_message ?g = (g', r)" by fastforce
  have servers: "gs_servers ?g = [dead_server, sample_server 1]" by (simp add: sample_group_state_def)
  then have "gs_servers ?g \<noteq> []" by simp
  note answered = group_answers_like_a_server [OF this run]
  show ?thesis
  proof (cases r)
    case (Inl e)
    then show ?thesis using answered by (simp add: servers sample_attempts)
  next
    case (Inr p)
    obtain resp d where p: "p = (resp, d)" by fastforce
    then obtain s where "s \<in> set (gs_servers ?g)" "attempt sample_upstream_env s new_message = Inr resp"
      using answered Inr by auto
    then have "m_id resp = 1" using sample_attempts servers by auto
    then show ?thesis using run Inr p by simp
  qed
qed

theorem round_robin_is_fair_witness:
  "mset (query_all sample_upstream_env [new_message, new_message, new_message, new_message]
       \<lparr>gs_servers = [sample_server 1, sample_server 2], gs_strategy = RoundRobin, gs_counter = 7\<rparr>)
     = repeat_mset 2 {#Inr (new_message\<lparr>m_response := True, m_id := 1\<rparr>, 1),
         Inr (new_message\<lparr>m_response := True, m_id := 2\<rparr>, 1)#}"
  (is "mset (query_all ?v ?ms ?g) = _")
proof -
  have "mset (query_all ?v ?ms ?g) = repeat_mset 2 (image_mset (\<lambda>s. Inr (case us_kind s of
      Udp a \<Rightarrow> new_message\<lparr>m_response := True, m_id := sa_port a\<rparr>, ue_elapsed ?v s)) (mset (gs_servers ?g)))"
  proof (rule round_robin_is_fair)
    show "attempt ?v s m = Inr (case us_kind s of Udp a \<Rightarrow> new_message\<lparr>m_response := True, m_id := sa_port a\<rparr>)"
      if "s \<in> set (gs_servers ?g)" "m \<in> set ?ms" for s m
      using that sample_attempts(1) by (auto simp: sample_server_def)
  qed simp_all
  then show ?thesis by (simp add: sample_server_def sample_upstream_env_def)
qed

theorem blocking_group_answers_itself_witness:
  "\<exists>g. open_group sample_addr_texts (\<lambda>_. True) \<lparr>ug_servers = [''rcode://NX''], ug_strategy = Fastest,
         ug_insecure = False, ug_client_subnet = None\<rparr> = Inr g
     \<and> (\<exists>c d. snd (group_query sample_upstream_env new_message g)
           = Inr (new_message\<lparr>m_response := True, m_rcode := c\<rparr>, d))"
proof -
  let ?cfg = "\<lparr>ug_servers = [''rcode://NX''], ug_strategy = Fastest, ug_insecure = False, ug_client_subnet = None\<rparr>"
  have "str_trim ''NX'' = ''NX''" by (rule str_trim_graphic) (simp add: graphic_def)
  moreover have "to_ascii_lowercase ''NX'' = ''nx''" by code_simp
  ultimately have "to_ascii_lowercase (str_trim ''NX'') = ''nx''" by simp
  then have "parse_upstream_url t ok ''rcode://NX'' i = Inr (Rcode NXDomain)" for t ok i
    by (simp add: parse_upstream_url_def strip_prefix_def rcode_of_def)
  then obtain g where g: "open_group sample_addr_texts (\<lambda>_. True) ?cfg = Inr g"
    "gs_servers g = [\<lparr>us_kind = Rcode NXDomain, us_url = ''rcode://NX'', us_client_subnet = None\<rparr>]"
    by (simp add: open_group_def parse_server_def)
  moreover have "is_rcode_group ?cfg" by (simp add: is_rcode_group_def)
  ultimately show ?thesis
    using blocking_group_answers_itself [OF g(1), of sample_upstream_env new_message]
    by (auto simp: sample_upstream_env_def upstream_timeout_def)
qed

theorem address_upstreams_are_refused_witness:
  "validate (\<lambda>s. parse_ip sample_addr_texts s \<noteq> None) (generate_empty\<lparr>c_manage_resolv_conf := True,
       c_groups := [(''default'', refusing_group\<lparr>ug_servers := [''tls://[::1]'']\<rparr>)]\<rparr>) = Some NeedsDefaultNameserver"
proof -
  let ?c = "generate_empty\<lparr>c_manage_resolv_conf := True,
      c_groups := [(''default'', refusing_group\<lparr>ug_servers := [''tls://[::1]'']\<rparr>)]\<rparr>"
  have "\<exists>k. parse_upstream_url sample_addr_texts (\<lambda>_. True) ''tls://[::1]'' False = Inr k \<and> by_address sample_addr_texts k
    \<and> validate (\<lambda>s. parse_ip sample_addr_texts s \<noteq> None) ?c = Some NeedsDefaultNameserver"
  proof (rule address_upstreams_are_refused)
    have "parse_ip sample_addr_texts ''::1'' = Some (V6 1)" by (simp add: sample_addr_texts_def)
    then show "(\<exists>a. ''tls://[::1]'' = ''tls://['' @ a @ '']'' \<and> CHR ''/'' \<notin> set a \<and> CHR '']'' \<notin> set a
          \<and> is_ipv6 (parse_ip sample_addr_texts a))
        \<or> (\<not> sublist ''://'' ''tls://[::1]'' \<and> parse_socket_addr sample_addr_texts ''tls://[::1]'' 53 = Inr a
           \<and> (\<exists>u \<in> set (ug_servers (refusing_group\<lparr>ug_servers := [''tls://[::1]'']\<rparr>)). prefix ''tls://'' u))" for a
      by (intro disjI1 exI [of _ "''::1''"]) simp
    show "(''default'', refusing_group\<lparr>ug_servers := [''tls://[::1]'']\<rparr>) \<in> set (c_groups ?c)" by simp
  qed (simp_all add: sample_addr_texts_def generate_empty_def)
  then show ?thesis by blast
qed

end
