(* ===== verification/Event_Runs.thy ===== *)
theory Event_Runs
  imports Main
begin

text \<open>
  Runs of a component whose operations interleave: a state, the events that are possible in it, and what
  each of them does. A run is the list of the events that happened, each possible when it happens and
  allowed by the condition \<open>cond\<close>, which restricts the runs a claim is about.
\<close>

inductive event_run :: "('s \<Rightarrow> 'e \<Rightarrow> bool) \<Rightarrow> ('e \<Rightarrow> 's \<Rightarrow> 's) \<Rightarrow> ('s \<Rightarrow> 'e \<Rightarrow> bool) \<Rightarrow> 's \<Rightarrow> 'e list \<Rightarrow> 's \<Rightarrow> bool"
  for enabled handle cond s where
  run_nil: "event_run enabled handle cond s [] s"
| run_snoc: "event_run enabled handle cond s es t \<Longrightarrow> enabled t e \<Longrightarrow> cond t e \<Longrightarrow>
    event_run enabled handle cond s (es @ [e]) (handle e t)"

lemma run_front:
  "event_run enabled handle cond (handle e s) es t \<Longrightarrow> enabled s e \<Longrightarrow> cond s e \<Longrightarrow>
     event_run enabled handle cond s (e # es) t"
proof (induction rule: event_run.induct)
  case run_nil
  then show ?case using event_run.run_snoc [OF event_run.run_nil, of enabled s e cond handle] by simp
next
  case (run_snoc es t e')
  then show ?case using event_run.run_snoc [of enabled handle cond s "e # es" t e'] by simp
qed

lemma run_weaken:
  "event_run enabled handle cond s es t \<Longrightarrow> (\<And>s e. cond s e \<Longrightarrow> cond' s e) \<Longrightarrow> event_run enabled handle cond' s es t"
  by (induction rule: event_run.induct) (auto intro: event_run.intros)

lemma run_any: "event_run enabled handle cond s es t \<Longrightarrow> event_run enabled handle (\<lambda>_ _. True) s es t"
  by (erule run_weaken) simp

text \<open>The same as a check of a given list of events.\<close>

fun event_check :: "('s \<Rightarrow> 'e \<Rightarrow> bool) \<Rightarrow> ('e \<Rightarrow> 's \<Rightarrow> 's) \<Rightarrow> ('s \<Rightarrow> 'e \<Rightarrow> bool) \<Rightarrow> 's \<Rightarrow> 'e list \<Rightarrow> bool" where
  "event_check enabled handle cond s [] = True"
| "event_check enabled handle cond s (e # es) \<longleftrightarrow>
     enabled s e \<and> cond s e \<and> event_check enabled handle cond (handle e s) es"

lemma checked_run: "event_check enabled handle cond s es \<Longrightarrow> event_run enabled handle cond s es (fold handle es s)"
  by (induction es arbitrary: s) (auto intro: event_run.run_nil run_front)

text \<open>An invariant: it holds at the start and every possible event keeps it.\<close>

locale event_invariant =
  fixes enabled :: "'s \<Rightarrow> 'e \<Rightarrow> bool" and handle :: "'e \<Rightarrow> 's \<Rightarrow> 's" and start :: 's and inv :: "'s \<Rightarrow> bool"
  assumes start_inv: "inv start"
    and handle_inv: "inv s \<Longrightarrow> enabled s e \<Longrightarrow> inv (handle e s)"
begin

lemma reachable_inv: "event_run enabled handle cond start es s \<Longrightarrow> inv s"
  by (induction rule: event_run.induct) (simp_all add: start_inv handle_inv)

lemma kept_on: "inv s \<Longrightarrow> event_run enabled handle cond s es t \<Longrightarrow> inv t"
  by (rotate_tac, induction rule: event_run.induct) (simp_all add: handle_inv)

end

end
