(* ===== verification/Udp_Pool.thy ===== *)
theory Udp_Pool
  imports Rust_Bytes Event_Runs
begin

text \<open>
  The shared UDP socket of an upstream server, \<open>UdpPool\<close> of \<open>src/src/dns/upstream/udp.rs\<close>: many queries use
  one socket at a time, and the answers are told apart by the message id.

  A state holds every socket made so far, which of them is the current one, and the queries, each at one of
  the points where the code waits. An event is what a query or a receiving loop does between two such
  points, or what the outside does: a datagram, an error of a socket, the clock, and a caller that gives a
  query up (the timeout of the group). The bytes of a request are not kept, only its id.
\<close>

subsection \<open>State\<close>

record pool_inner =
  pi_next_id :: "16 word"
  pi_pending :: "16 word \<Rightarrow> nat option"
  pi_alive :: bool

datatype pool_result = Answered "byte list" | BindFailed | SendFailed | SocketBroken | PoolTimedOut

datatype query_state =
  Starting nat | Acquired nat nat | Registered nat nat "16 word" | Waiting nat nat "16 word"
| Done pool_result | Cancelled

record udp_pool =
  up_inners :: "nat \<Rightarrow> pool_inner"
  up_made :: nat
  up_current :: "nat option"
  up_queries :: "nat \<Rightarrow> query_state option"
  up_box :: "nat \<Rightarrow> byte list option"
  up_ids :: "nat \<Rightarrow> 16 word"

definition new_inner :: pool_inner where
  "new_inner = \<lparr>pi_next_id = 0, pi_pending = Map.empty, pi_alive = True\<rparr>"

definition unmade_inner :: pool_inner where
  "unmade_inner = new_inner\<lparr>pi_alive := False\<rparr>"

definition new_pool :: udp_pool where
  "new_pool = \<lparr>up_inners = (\<lambda>_. unmade_inner), up_made = 0, up_current = None, up_queries = Map.empty,
     up_box = Map.empty, up_ids = (\<lambda>_. 0)\<rparr>"

subsection \<open>Message ids\<close>

text \<open>The next id that no query waits for; after 65536 candidates the last one is taken anyway.\<close>

function pick_id :: "(16 word \<Rightarrow> nat option) \<Rightarrow> 16 word \<Rightarrow> nat \<Rightarrow> 16 word \<times> 16 word" where
  "pick_id pending next_id tries =
     (if pending next_id \<noteq> None \<and> tries < 65535 then pick_id pending (next_id + 1) (tries + 1)
      else (next_id, next_id + 1))"
  by pat_completeness auto
termination by (relation "measure (\<lambda>(pending, next_id, tries). 65535 - tries)") auto

declare pick_id.simps [simp del]

definition set_id :: "16 word \<Rightarrow> byte list \<Rightarrow> byte list" where
  "set_id msg_id bytes = (if 2 \<le> length bytes then be_bytes 2 msg_id @ drop 2 bytes else bytes)"

subsection \<open>Steps\<close>

definition set_query :: "nat \<Rightarrow> query_state \<Rightarrow> udp_pool \<Rightarrow> udp_pool" where
  "set_query q st s = s\<lparr>up_queries := (up_queries s)(q \<mapsto> st)\<rparr>"

definition get_or_create :: "udp_pool \<Rightarrow> nat \<times> udp_pool" where
  "get_or_create s =
     (case up_current s of
        Some g \<Rightarrow> (g, s)
      | None \<Rightarrow> (up_made s, s\<lparr>up_inners := (up_inners s)(up_made s := new_inner), up_made := up_made s + 1,
                   up_current := Some (up_made s)\<rparr>))"

definition register :: "nat \<Rightarrow> nat \<Rightarrow> nat \<Rightarrow> udp_pool \<Rightarrow> udp_pool" where
  "register q att g s =
     (let inner = up_inners s g; (qid, next_id) = pick_id (pi_pending inner) (pi_next_id inner) 0
      in set_query q (Registered att g qid)
           (s\<lparr>up_inners := (up_inners s)(g := inner\<lparr>pi_next_id := next_id, pi_pending := (pi_pending inner)(qid \<mapsto> q)\<rparr>),
              up_box := (up_box s)(q := None)\<rparr>))"

definition remove_pending :: "nat \<Rightarrow> 16 word \<Rightarrow> udp_pool \<Rightarrow> udp_pool" where
  "remove_pending g qid s =
     s\<lparr>up_inners := (up_inners s)(g := (up_inners s g)\<lparr>pi_pending := (pi_pending (up_inners s g))(qid := None)\<rparr>)\<rparr>"

definition invalidate :: "nat \<Rightarrow> udp_pool \<Rightarrow> udp_pool" where
  "invalidate g s = (if up_current s = Some g then s\<lparr>up_current := None\<rparr> else s)"

definition again_or :: "pool_result \<Rightarrow> nat \<Rightarrow> query_state" where
  "again_or r att = (if att = 0 then Starting 1 else Done r)"

text \<open>The receiving loop of a socket: a datagram, and an error, which ends it.\<close>

definition receive :: "nat \<Rightarrow> byte list \<Rightarrow> udp_pool \<Rightarrow> udp_pool" where
  "receive g bytes s =
     (if length bytes < 2 then s
      else let qid = from_be (take 2 bytes)
           in case pi_pending (up_inners s g) qid of
                Some q \<Rightarrow> (remove_pending g qid s)\<lparr>up_box := (up_box s)(q \<mapsto> bytes)\<rparr>
              | None \<Rightarrow> s)"

definition loop_fails :: "nat \<Rightarrow> udp_pool \<Rightarrow> udp_pool" where
  "loop_fails g s =
     s\<lparr>up_inners := (up_inners s)(g := (up_inners s g)\<lparr>pi_pending := Map.empty, pi_alive := False\<rparr>)\<rparr>"

datatype pool_event =
  Start_query nat "16 word" | Acquire nat | Bind_fails nat | Register nat | Send_ok nat | Send_fails nat
| Datagram nat "byte list" | Loop_fails nat | Take_answer nat | See_broken nat | Time_out nat | Cancel nat

fun pool_enabled :: "udp_pool \<Rightarrow> pool_event \<Rightarrow> bool" where
  "pool_enabled s (Start_query q i) \<longleftrightarrow> up_queries s q = None"
| "pool_enabled s (Acquire q) \<longleftrightarrow> (case up_queries s q of Some (Starting att) \<Rightarrow> True | _ \<Rightarrow> False)"
| "pool_enabled s (Bind_fails q) \<longleftrightarrow>
     (case up_queries s q of Some (Starting att) \<Rightarrow> up_current s = None | _ \<Rightarrow> False)"
| "pool_enabled s (Register q) \<longleftrightarrow> (case up_queries s q of Some (Acquired att g) \<Rightarrow> True | _ \<Rightarrow> False)"
| "pool_enabled s (Send_ok q) \<longleftrightarrow> (case up_queries s q of Some (Registered att g i) \<Rightarrow> True | _ \<Rightarrow> False)"
| "pool_enabled s (Send_fails q) \<longleftrightarrow> (case up_queries s q of Some (Registered att g i) \<Rightarrow> True | _ \<Rightarrow> False)"
| "pool_enabled s (Datagram g bytes) \<longleftrightarrow> pi_alive (up_inners s g)"
| "pool_enabled s (Loop_fails g) \<longleftrightarrow> pi_alive (up_inners s g)"
| "pool_enabled s (Take_answer q) \<longleftrightarrow>
     (case up_queries s q of Some (Waiting att g i) \<Rightarrow> up_box s q \<noteq> None | _ \<Rightarrow> False)"
| "pool_enabled s (See_broken q) \<longleftrightarrow>
     (case up_queries s q of
        Some (Waiting att g i) \<Rightarrow> up_box s q = None \<and> pi_pending (up_inners s g) i \<noteq> Some q | _ \<Rightarrow> False)"
| "pool_enabled s (Time_out q) \<longleftrightarrow>
     (case up_queries s q of
        Some (Waiting att g i) \<Rightarrow> up_box s q = None \<and> pi_pending (up_inners s g) i = Some q | _ \<Rightarrow> False)"
| "pool_enabled s (Cancel q) \<longleftrightarrow>
     (case up_queries s q of None \<Rightarrow> False | Some (Done r) \<Rightarrow> False | Some Cancelled \<Rightarrow> False | _ \<Rightarrow> True)"

fun pool_handle :: "pool_event \<Rightarrow> udp_pool \<Rightarrow> udp_pool" where
  "pool_handle (Start_query q i) s = set_query q (Starting 0) (s\<lparr>up_ids := (up_ids s)(q := i)\<rparr>)"
| "pool_handle (Acquire q) s =
     (case up_queries s q of
        Some (Starting att) \<Rightarrow> (case get_or_create s of (g, s') \<Rightarrow> set_query q (Acquired att g) s') | _ \<Rightarrow> s)"
| "pool_handle (Bind_fails q) s = set_query q (Done BindFailed) s"
| "pool_handle (Register q) s =
     (case up_queries s q of Some (Acquired att g) \<Rightarrow> register q att g s | _ \<Rightarrow> s)"
| "pool_handle (Send_ok q) s =
     (case up_queries s q of Some (Registered att g i) \<Rightarrow> set_query q (Waiting att g i) s | _ \<Rightarrow> s)"
| "pool_handle (Send_fails q) s =
     (case up_queries s q of
        Some (Registered att g i) \<Rightarrow> set_query q (again_or SendFailed att) (invalidate g (remove_pending g i s)) | _ \<Rightarrow> s)"
| "pool_handle (Datagram g bytes) s = receive g bytes s"
| "pool_handle (Loop_fails g) s = loop_fails g s"
| "pool_handle (Take_answer q) s =
     (case up_box s q of Some bytes \<Rightarrow> set_query q (Done (Answered (set_id (up_ids s q) bytes))) s | None \<Rightarrow> s)"
| "pool_handle (See_broken q) s =
     (case up_queries s q of
        Some (Waiting att g i) \<Rightarrow> set_query q (again_or SocketBroken att) (invalidate g (remove_pending g i s)) | _ \<Rightarrow> s)"
| "pool_handle (Time_out q) s =
     (case up_queries s q of
        Some (Waiting att g i) \<Rightarrow> set_query q (Done PoolTimedOut) (remove_pending g i s) | _ \<Rightarrow> s)"
| "pool_handle (Cancel q) s = set_query q Cancelled s"

text \<open>\<open>cond\<close> restricts the runs a claim is about.\<close>

abbreviation pool_run :: "(udp_pool \<Rightarrow> pool_event \<Rightarrow> bool) \<Rightarrow> udp_pool \<Rightarrow> pool_event list \<Rightarrow> udp_pool \<Rightarrow> bool" where
  "pool_run \<equiv> event_run pool_enabled pool_handle"

end
