(* ===== verification/Udp_Properties.thy ===== *)
theory Udp_Properties
  imports Udp_Pool
begin

text \<open>
  Properties of the shared socket: what the table of pending queries always satisfies, that an answer goes
  to the query it was sent for and to no other, that a query ends after two attempts, and what becomes of
  a socket that failed while nobody was waiting and of a query that was given up.
\<close>

subsection \<open>Free ids\<close>

lemma pick_id_free:
  "k \<le> 65535 - tries \<Longrightarrow> pending (n + word_of_nat k) = None \<Longrightarrow> pending (fst (pick_id pending n tries)) = None"
proof (induction pending n tries arbitrary: k rule: pick_id.induct)
  case (1 pending n tries)
  show ?case
  proof (cases "pending n \<noteq> None \<and> tries < 65535")
    case True
    then obtain j where j: "k = Suc j" using 1(3) by (cases k) auto
    then have "pending (n + 1 + word_of_nat j) = None" using 1(3) by (simp add: ac_simps)
    moreover have "j \<le> 65535 - (tries + 1)" using 1(2) j by simp
    ultimately have "pending (fst (pick_id pending (n + 1) (tries + 1))) = None" using 1(1) [OF True] by blast
    then show ?thesis using True by (subst pick_id.simps) simp
  next
    case False
    then have "pending n = None \<or> k = 0" using 1(2) by auto
    then have "pending n = None" using 1(3) by auto
    then show ?thesis by (subst pick_id.simps) simp
  qed
qed

lemma pick_id_finds:
  assumes "pending j = None" shows "pending (fst (pick_id pending n 0)) = None"
proof (rule pick_id_free)
  show "unat (j - n) \<le> 65535 - 0" using unsigned_less [of "j - n", where 'a = nat] by simp
qed (use assms in simp)

subsection \<open>Queries at a socket\<close>

text \<open>The query is registered at socket \<open>g\<close> under id \<open>i\<close>, or waits for the answer there.\<close>

definition at_socket :: "udp_pool \<Rightarrow> nat \<Rightarrow> nat \<Rightarrow> 16 word \<Rightarrow> bool" where
  "at_socket s q g i \<longleftrightarrow> (\<exists>att. up_queries s q = Some (Registered att g i) \<or> up_queries s q = Some (Waiting att g i))"

lemma at_socket_unique: "at_socket s q g i \<Longrightarrow> at_socket s q g' i' \<Longrightarrow> g' = g \<and> i' = i"
  by (auto simp: at_socket_def)

lemmas pool_step_defs = set_query_def get_or_create_def register_def remove_pending_def invalidate_def
  again_or_def receive_def loop_fails_def Let_def at_socket_def

lemmas pool_splits = option.splits query_state.splits prod.splits

definition pending_expected :: "udp_pool \<Rightarrow> bool" where
  "pending_expected s \<longleftrightarrow> (\<forall>g i q. pi_pending (up_inners s g) i = Some q \<longrightarrow>
     at_socket s q g i \<and> up_box s q = None \<or> up_queries s q = Some Cancelled)"

definition answers_expected :: "udp_pool \<Rightarrow> bool" where
  "answers_expected s \<longleftrightarrow> (\<forall>q g i bytes. at_socket s q g i \<longrightarrow> up_box s q = Some bytes \<longrightarrow>
     2 \<le> length bytes \<and> from_be (take 2 bytes) = i)"

lemma pending_expectedD:
  "pending_expected s \<Longrightarrow> pi_pending (up_inners s g) i = Some q \<Longrightarrow>
     (\<exists>att. up_queries s q = Some (Registered att g i) \<or> up_queries s q = Some (Waiting att g i)) \<and> up_box s q = None
     \<or> up_queries s q = Some Cancelled"
  by (simp add: pending_expected_def at_socket_def)

lemma pending_expected_step:
  assumes "pending_expected s" "pool_enabled s e" shows "pending_expected (pool_handle e s)"
  unfolding pending_expected_def
  by (cases e; use assms(2) in \<open>auto simp: pool_step_defs new_inner_def split: pool_splits if_splits
    dest!: pending_expectedD [OF assms(1)]\<close>)

definition known_sockets :: "udp_pool \<Rightarrow> bool" where
  "known_sockets s \<longleftrightarrow> (\<forall>g. up_current s = Some g \<longrightarrow> g < up_made s)
     \<and> (\<forall>q att g i. up_queries s q \<in> {Some (Acquired att g), Some (Registered att g i), Some (Waiting att g i)} \<longrightarrow> g < up_made s)
     \<and> (\<forall>g. up_made s \<le> g \<longrightarrow> pi_alive (up_inners s g) = False)"

lemma known_sockets_step:
  assumes "known_sockets s" "pool_enabled s e" shows "known_sockets (pool_handle e s)"
proof (cases e)
  case (Acquire q)
  then show ?thesis using assms
    by (auto simp: known_sockets_def pool_step_defs less_Suc_eq split: pool_splits)
qed (use assms in \<open>auto simp: known_sockets_def pool_step_defs split: pool_splits\<close>)

lemma answers_expectedD:
  "answers_expected s \<Longrightarrow> up_box s q = Some bytes \<Longrightarrow>
     up_queries s q = Some (Registered att g i) \<or> up_queries s q = Some (Waiting att g i) \<Longrightarrow>
     2 \<le> length bytes \<and> from_be (take 2 bytes) = i"
  by (auto simp: answers_expected_def at_socket_def)

subsection \<open>Runs\<close>

definition roomy :: "udp_pool \<Rightarrow> pool_event \<Rightarrow> bool" where
  "roomy s e =
     (case e of
        Register q \<Rightarrow>
          (case up_queries s q of Some (Acquired att g) \<Rightarrow> \<exists>i. pi_pending (up_inners s g) i = None | _ \<Rightarrow> True)
      | Send_fails q \<Rightarrow> up_box s q = None
      | _ \<Rightarrow> True)"

definition kept :: "nat \<Rightarrow> udp_pool \<Rightarrow> bool" where
  "kept g s \<longleftrightarrow> (\<forall>q i. at_socket s q g i \<longrightarrow> up_box s q = None \<longrightarrow> pi_pending (up_inners s g) i = Some q)"

lemma keptD:
  "kept g s \<Longrightarrow> up_box s q = None \<Longrightarrow> up_queries s q = Some (Registered att g i) \<Longrightarrow> pi_pending (up_inners s g) i = Some q"
  "kept g s \<Longrightarrow> up_box s q = None \<Longrightarrow> up_queries s q = Some (Waiting att g i) \<Longrightarrow> pi_pending (up_inners s g) i = Some q"
  by (auto simp: kept_def at_socket_def)

lemma kept_boxed:
  "kept g s \<Longrightarrow> up_queries s q = Some (Registered att g i) \<Longrightarrow> pi_pending (up_inners s g) i \<noteq> Some q \<Longrightarrow> \<exists>y. up_box s q = Some y"
  "kept g s \<Longrightarrow> up_queries s q = Some (Waiting att g i) \<Longrightarrow> pi_pending (up_inners s g) i \<noteq> Some q \<Longrightarrow> \<exists>y. up_box s q = Some y"
  by (auto simp: kept_def at_socket_def)

lemma kept_alone:
  "kept g s \<Longrightarrow> at_socket s q g i \<Longrightarrow> up_box s q = None \<Longrightarrow> at_socket s q' g i \<Longrightarrow> up_box s q' = None \<Longrightarrow> q' = q"
  unfolding kept_def by (metis option.inject)

lemma known_socketsD:
  "known_sockets s \<Longrightarrow> up_current s = Some g \<Longrightarrow> g < up_made s"
  "known_sockets s \<Longrightarrow> up_queries s q = Some (Acquired att g) \<Longrightarrow> g < up_made s"
  "known_sockets s \<Longrightarrow> up_queries s q = Some (Registered att g i) \<Longrightarrow> g < up_made s"
  "known_sockets s \<Longrightarrow> up_queries s q = Some (Waiting att g i) \<Longrightarrow> g < up_made s"
  by (auto simp: known_sockets_def)

lemma kept_register:
  assumes "kept g s" "known_sockets s" "pending_expected s" "pool_enabled s (Register p)" "roomy s (Register p)"
  shows "kept g (pool_handle (Register p) s)"
proof -
  obtain att g' where p: "up_queries s p = Some (Acquired att g')" using assms(4) by (auto split: pool_splits)
  obtain j where "pi_pending (up_inners s g') j = None" using assms(5) p by (auto simp: roomy_def)
  then have free: "pi_pending (up_inners s g') (fst (pick_id (pi_pending (up_inners s g')) n 0)) = None" for n
    by (rule pick_id_finds)
  obtain qid nxt where pick: "pick_id (pi_pending (up_inners s g')) (pi_next_id (up_inners s g')) 0 = (qid, nxt)" by fastforce
  show ?thesis
    using p pick free [of "pi_next_id (up_inners s g')"] assms(1) unfolding kept_def [of g "pool_handle e s" for e]
    by (auto simp: pool_step_defs dest: keptD kept_boxed)
qed

lemma kept_step:
  assumes "kept g s" "known_sockets s" "pending_expected s" "pool_enabled s e" "roomy s e" "e \<noteq> Loop_fails g"
  shows "kept g (pool_handle e s)"
proof (cases e)
  case (Register q)
  then show ?thesis using kept_register assms by blast
next
  case (Acquire q)
  then show ?thesis using assms(4) unfolding kept_def
    by (auto simp: pool_step_defs split: pool_splits dest: keptD [OF assms(1)] known_socketsD [OF assms(2)])
next
  case (See_broken q)
  then show ?thesis using assms(4) unfolding kept_def
    by (auto simp: pool_step_defs split: pool_splits dest: keptD [OF assms(1)])
next
  case (Send_fails q)
  then obtain att g' i where q: "up_queries s q = Some (Registered att g' i)" "up_box s q = None"
    using assms(4,5) by (auto simp: roomy_def split: pool_splits)
  have "q' = q" if "at_socket s q' g i" "g' = g" "up_box s q' = None" for q'
    using kept_alone [OF assms(1) _ q(2) that(1,3)] q(1) that(2) by (auto simp: at_socket_def)
  then show ?thesis using Send_fails q unfolding kept_def
    by (auto simp: pool_step_defs split: pool_splits dest: keptD [OF assms(1)])
qed (use assms(1,4,6) in \<open>unfold kept_def [of g "pool_handle e s"],
  auto simp: pool_step_defs split: pool_splits if_splits dest: keptD kept_boxed\<close>)

lemma answers_expected_step:
  assumes "answers_expected s" "pending_expected s" "pool_enabled s e" shows "answers_expected (pool_handle e s)"
  unfolding answers_expected_def
  by (cases e; use assms(3) in \<open>auto simp: pool_step_defs split: pool_splits if_splits
    dest: answers_expectedD [OF assms(1)] pending_expectedD [OF assms(2)]\<close>)

lemma new_pool_facts:
  "pending_expected new_pool" "answers_expected new_pool" "known_sockets new_pool" "kept g new_pool"
  by (auto simp: new_pool_def unmade_inner_def new_inner_def pending_expected_def answers_expected_def known_sockets_def
    kept_def at_socket_def)

definition pool_ok :: "udp_pool \<Rightarrow> bool" where
  "pool_ok s \<longleftrightarrow> pending_expected s \<and> answers_expected s \<and> known_sockets s"

interpretation udp_runs: event_invariant pool_enabled pool_handle new_pool pool_ok
  by unfold_locales
     (auto simp: pool_ok_def new_pool_facts intro: pending_expected_step answers_expected_step known_sockets_step)

lemma run_facts: "pool_run cond new_pool es s \<Longrightarrow> pending_expected s \<and> answers_expected s \<and> known_sockets s"
  using udp_runs.reachable_inv by (simp add: pool_ok_def)

lemma alive_before:
  assumes "pi_alive (up_inners (pool_handle e s) g) \<or> up_made (pool_handle e s) \<le> g" "pool_enabled s e" "known_sockets s"
  shows "pi_alive (up_inners s g) \<or> up_made s \<le> g" "e \<noteq> Loop_fails g"
proof -
  show "pi_alive (up_inners s g) \<or> up_made s \<le> g"
    using assms by (cases e) (auto simp: pool_step_defs split: pool_splits if_splits)
  show "e \<noteq> Loop_fails g"
    using assms by (auto simp: pool_step_defs known_sockets_def)
qed

lemma alive_kept:
  "pool_run roomy new_pool es s \<Longrightarrow> pi_alive (up_inners s g) \<or> up_made s \<le> g \<Longrightarrow> kept g s"
proof (induction rule: event_run.induct)
  case (run_snoc es t e)
  then show ?case using run_facts [OF run_snoc(1)] alive_before [OF run_snoc(5,2)] kept_step by blast
qed (rule new_pool_facts)

subsection \<open>Answers\<close>

text \<open>What the run has seen of the datagram that a query got: the query was waiting for it.\<close>

definition came_for :: "pool_event list \<Rightarrow> nat \<Rightarrow> nat \<Rightarrow> byte list \<Rightarrow> bool" where
  "came_for es q g bytes \<longleftrightarrow> (\<exists>es1 es2 t. es = es1 @ Datagram g bytes # es2 \<and> pool_run (\<lambda>_ _. True) new_pool es1 t
     \<and> at_socket t q g (from_be (take 2 bytes)) \<and> pi_pending (up_inners t g) (from_be (take 2 bytes)) = Some q
     \<and> 2 \<le> length bytes)"

lemma came_for_more: "came_for es q g bytes \<Longrightarrow> came_for (es @ [e]) q g bytes"
  unfolding came_for_def by (metis append.assoc append_Cons)

definition boxed_answers_came :: "pool_event list \<Rightarrow> udp_pool \<Rightarrow> bool" where
  "boxed_answers_came es s \<longleftrightarrow>
     (\<forall>q g i bytes. at_socket s q g i \<longrightarrow> up_box s q = Some bytes \<longrightarrow> came_for es q g bytes)"

lemma boxed_answers_cameD:
  "boxed_answers_came es s \<Longrightarrow> up_box s q = Some bytes \<Longrightarrow>
     up_queries s q = Some (Registered att g i) \<or> up_queries s q = Some (Waiting att g i) \<Longrightarrow> came_for es q g bytes"
  by (auto simp: boxed_answers_came_def at_socket_def)

lemma datagram_came:
  assumes "pool_run cond new_pool es s" "pi_pending (up_inners s g) (from_be (take 2 bytes)) = Some q" "2 \<le> length bytes"
    and "up_queries s q \<noteq> Some Cancelled"
  shows "came_for (es @ [Datagram g bytes]) q g bytes"
proof -
  have "at_socket s q g (from_be (take 2 bytes))"
    using run_facts [OF assms(1)] assms(2,4) by (auto simp: pending_expected_def)
  then show ?thesis using run_any [OF assms(1)] assms(2,3) unfolding came_for_def by blast
qed

lemma boxed_answers_came_step:
  assumes "boxed_answers_came es s" "pool_run cond new_pool es s" "pool_enabled s e"
  shows "boxed_answers_came (es @ [e]) (pool_handle e s)"
proof (cases e)
  case (Datagram g bytes)
  have "came_for (es @ [e]) q g' bytes'" if "at_socket (pool_handle e s) q g' i" "up_box (pool_handle e s) q = Some bytes'" for q g' i bytes'
  proof (cases "up_box s q = Some bytes'")
    case True
    then show ?thesis using that Datagram assms(1)
      by (auto simp: pool_step_defs split: pool_splits if_splits intro!: came_for_more dest: boxed_answers_cameD)
  next
    case False
    then have new: "2 \<le> length bytes" "pi_pending (up_inners s g) (from_be (take 2 bytes)) = Some q" "bytes' = bytes"
      "at_socket s q g' i"
      using that Datagram by (auto simp: pool_step_defs split: pool_splits if_splits)
    then have "up_queries s q \<noteq> Some Cancelled" by (auto simp: at_socket_def)
    then have "came_for (es @ [Datagram g bytes]) q g bytes" "at_socket s q g (from_be (take 2 bytes))"
      using datagram_came [OF assms(2) new(2,1)] run_facts [OF assms(2)] new(2) by (auto simp: pending_expected_def)
    then show ?thesis using Datagram new(3) at_socket_unique [OF _ new(4)] by blast
  qed
  then show ?thesis by (simp add: boxed_answers_came_def)
qed (use assms(1,3) in \<open>unfold boxed_answers_came_def [of _ "pool_handle e s"],
  auto simp: pool_step_defs split: pool_splits if_splits intro!: came_for_more dest: boxed_answers_cameD\<close>)

lemma run_boxed: "pool_run cond new_pool es s \<Longrightarrow> boxed_answers_came es s"
proof (induction rule: event_run.induct)
  case (run_snoc es t e)
  then show ?case using boxed_answers_came_step [OF run_snoc(4,1,2)] by simp
qed (simp add: boxed_answers_came_def at_socket_def new_pool_def)

definition finished_answers_came :: "pool_event list \<Rightarrow> udp_pool \<Rightarrow> bool" where
  "finished_answers_came es s \<longleftrightarrow>
     (\<forall>q a. up_queries s q = Some (Done (Answered a)) \<longrightarrow>
        (\<exists>g bytes. came_for es q g bytes \<and> a = set_id (up_ids s q) bytes))"

lemma finished_answers_came_step:
  assumes "finished_answers_came es s" "boxed_answers_came es s" "pool_enabled s e"
  shows "finished_answers_came (es @ [e]) (pool_handle e s)"
proof -
  have old: "\<exists>g bytes. came_for (es @ [e]) q g bytes \<and> a = set_id (up_ids s q) bytes"
    if "up_queries s q = Some (Done (Answered a))" for q a
    using assms(1) that came_for_more unfolding finished_answers_came_def by blast
  show ?thesis
  proof (cases e)
    case (Take_answer p)
    then obtain att g i where p: "up_queries s p = Some (Waiting att g i)" using assms(3) by (auto split: pool_splits)
    show ?thesis
      using Take_answer assms(3) p old unfolding finished_answers_came_def
      by (auto simp: pool_step_defs split: pool_splits if_splits
        dest!: boxed_answers_cameD [OF assms(2)] intro: came_for_more)
  qed (use assms(3) old in \<open>unfold finished_answers_came_def, auto simp: pool_step_defs split: pool_splits if_splits\<close>)
qed

lemma run_finished: "pool_run cond new_pool es s \<Longrightarrow> finished_answers_came es s"
proof (induction rule: event_run.induct)
  case (run_snoc es t e)
  then show ?case using finished_answers_came_step [OF run_snoc(4) run_boxed [OF run_snoc(1)] run_snoc(2)] by simp
qed (simp add: finished_answers_came_def new_pool_def)

lemma run_ids: "pool_run cond new_pool es s \<Longrightarrow> Start_query q i \<in> set es \<Longrightarrow> up_ids s q = i \<and> up_queries s q \<noteq> None"
proof (induction rule: event_run.induct)
  case (run_snoc es t e)
  then show ?case by (cases e) (auto simp: pool_step_defs split: pool_splits if_splits)
qed simp


text \<open>
  As long as some id is free when one is needed, a datagram with the id of a waiting query reaches that
  query and no other one, and the query returns it with the id of the request.
\<close>

theorem no_answer_is_lost:
  assumes "pool_run roomy new_pool es s" "up_queries s q = Some (Waiting att g i)" "up_box s q = None"
    and "pi_alive (up_inners s g)" "2 \<le> length bytes" "from_be (take 2 bytes) = i"
  shows "let t = pool_handle (Datagram g bytes) s
    in (\<forall>p. up_box t p = (if p = q then Some bytes else up_box s p)) \<and> pool_enabled t (Take_answer q)
      \<and> up_queries (pool_handle (Take_answer q) t) q = Some (Done (Answered (be_bytes 2 (up_ids s q) @ drop 2 bytes)))"
proof -
  have "pi_pending (up_inners s g) i = Some q" using keptD(2) [OF alive_kept [OF assms(1)] assms(3,2)] assms(4) by simp
  then show ?thesis using assms(2,5,6) by (auto simp: pool_step_defs set_id_def)
qed

subsection \<open>A socket whose receiving loop has ended\<close>

text \<open>A query of such a socket: it is at no other one and has no answer.\<close>

definition without_answer :: "nat \<Rightarrow> udp_pool \<Rightarrow> nat \<Rightarrow> bool" where
  "without_answer g s q =
     (case up_queries s q of
        Some (Done r) \<Rightarrow> r = PoolTimedOut
      | Some Cancelled \<Rightarrow> True
      | Some (Acquired att g') \<Rightarrow> g' = g \<and> up_box s q = None
      | Some (Registered att g' i) \<Rightarrow> g' = g \<and> up_box s q = None
      | Some (Waiting att g' i) \<Rightarrow> g' = g \<and> up_box s q = None
      | _ \<Rightarrow> up_box s q = None)"

lemma without_answer_step:
  assumes "without_answer g s q" "kept g s" "pending_expected s" "\<not> pi_alive (up_inners s g)" "up_current s = Some g"
    and "pool_enabled s e" "\<forall>p. e \<noteq> Send_fails p"
  shows "without_answer g (pool_handle e s) q"
  using assms(1,4-7) unfolding without_answer_def
  by (cases e) (auto simp: pool_step_defs split: pool_splits if_splits
    dest: keptD(2) [OF assms(2)] pending_expectedD [OF assms(3)])

definition given_up :: "nat set \<Rightarrow> nat \<Rightarrow> udp_pool \<Rightarrow> bool" where
  "given_up new g s \<longleftrightarrow> up_current s = Some g \<and> \<not> pi_alive (up_inners s g) \<and> kept g s \<and> known_sockets s
     \<and> pending_expected s \<and> (\<forall>q \<in> new. without_answer g s q)"

lemma given_up_step:
  assumes "given_up new g s" "pool_enabled s e" "roomy s e" "\<forall>q. e \<noteq> Send_fails q"
  shows "given_up new g (pool_handle e s)"
proof -
  have k: "kept g s" and ks: "known_sockets s" "pending_expected s" and dead: "\<not> pi_alive (up_inners s g)"
    and cur: "up_current s = Some g" using assms(1) by (auto simp: given_up_def)
  have ne: "e \<noteq> Loop_fails g" using dead assms(2) by auto
  have still: "up_current (pool_handle e s) = Some g" "\<not> pi_alive (up_inners (pool_handle e s) g)"
    using cur dead assms(2,4) keptD(2) [OF k] by (cases e; auto simp: pool_step_defs split: pool_splits if_splits)+
  then show ?thesis
    using assms(1) kept_step [OF k ks assms(2,3) ne] known_sockets_step [OF ks(1) assms(2)]
      pending_expected_step [OF ks(2) assms(2)] without_answer_step [OF _ k ks(2) dead cur assms(2,4)]
    unfolding given_up_def by blast
qed

lemma fresh_box: "pool_run cond new_pool es s \<Longrightarrow> up_queries s q = None \<Longrightarrow> up_box s q = None"
proof (induction rule: event_run.induct)
  case (run_snoc es t e)
  then show ?case using run_facts [OF run_snoc(1)]
    by (cases e) (auto simp: pool_step_defs split: pool_splits if_splits dest: pending_expectedD)
qed (simp add: new_pool_def)

definition sends_succeed :: "udp_pool \<Rightarrow> pool_event \<Rightarrow> bool" where
  "sends_succeed s e \<longleftrightarrow> roomy s e \<and> (\<forall>q. e \<noteq> Send_fails q)"

lemma given_up_run: "pool_run sends_succeed s es t \<Longrightarrow> given_up new g s \<Longrightarrow> given_up new g t"
  by (induction rule: event_run.induct) (auto simp: sends_succeed_def intro: given_up_step)

text \<open>
  C35. A socket whose receiving loop ends while no query waits for an answer stays in use for ever: only a
  waiting query notices the end of the loop, so as long as sending succeeds every later query is sent on
  that socket and times out.
\<close>

theorem dead_socket_is_never_replaced:
  assumes "pool_run cond new_pool es s" "up_current s = Some g" "pool_enabled s (Loop_fails g)"
    and "\<forall>q i. at_socket s q g i \<longrightarrow> up_box s q \<noteq> None"
    and "pool_run sends_succeed (pool_handle (Loop_fails g) s) fs t" "up_queries s q = None"
  shows "up_current t = Some g \<and> (\<forall>r. up_queries t q = Some (Done r) \<longrightarrow> r = PoolTimedOut)"
proof -
  let ?s = "pool_handle (Loop_fails g) s"
  have "pending_expected ?s" "known_sockets ?s"
    using run_facts [OF assms(1)] pending_expected_step known_sockets_step assms(3) by blast+
  moreover have "kept g ?s" using assms(4) by (auto simp: kept_def pool_step_defs)
  moreover have "without_answer g ?s q" using fresh_box [OF assms(1,6)] assms(6) by (simp add: without_answer_def pool_step_defs)
  ultimately have "given_up {q} g ?s" using assms(2) by (auto simp: given_up_def pool_step_defs)
  then have "given_up {q} g t" by (rule given_up_run [OF assms(5)])
  then show ?thesis by (auto simp: given_up_def without_answer_def)
qed

subsection \<open>A query that is given up\<close>

definition nothing_comes :: "nat \<Rightarrow> 16 word \<Rightarrow> udp_pool \<Rightarrow> pool_event \<Rightarrow> bool" where
  "nothing_comes g i s e \<longleftrightarrow> roomy s e \<and> e \<noteq> Loop_fails g
     \<and> (\<forall>bytes. e = Datagram g bytes \<longrightarrow> length bytes < 2 \<or> from_be (take 2 bytes) \<noteq> i)"

definition id_taken :: "nat \<Rightarrow> nat \<Rightarrow> 16 word \<Rightarrow> udp_pool \<Rightarrow> bool" where
  "id_taken q g i s \<longleftrightarrow> up_queries s q = Some Cancelled \<and> pi_pending (up_inners s g) i = Some q \<and> g < up_made s
     \<and> kept g s \<and> known_sockets s \<and> pending_expected s"

lemma pick_id_avoids: "\<exists>j. pending j = None \<Longrightarrow> pending i = Some q \<Longrightarrow> fst (pick_id pending n 0) \<noteq> i"
  by (metis option.distinct(1) pick_id_finds)

lemma registered_id:
  "up_queries s p = Some (Acquired att g) \<Longrightarrow>
     at_socket (pool_handle (Register p) s) p g i \<longleftrightarrow> i = fst (pick_id (pi_pending (up_inners s g)) (pi_next_id (up_inners s g)) 0)"
  by (cases "pick_id (pi_pending (up_inners s g)) (pi_next_id (up_inners s g)) 0") (auto simp: pool_step_defs)

lemma id_taken_step:
  assumes "id_taken q g i s" "pool_enabled s e" "nothing_comes g i s e"
  shows "id_taken q g i (pool_handle e s)"
proof -
  have k: "kept g s" and ks: "known_sockets s" "pending_expected s" and m: "g < up_made s"
    and q: "up_queries s q = Some Cancelled" "pi_pending (up_inners s g) i = Some q" using assms(1) by (auto simp: id_taken_def)
  have e: "roomy s e" "e \<noteq> Loop_fails g" using assms(3) by (auto simp: nothing_comes_def)
  have "pi_pending (up_inners (pool_handle e s) g) i = Some q"
  proof (cases e)
    case (Register p)
    then obtain att g' where p: "up_queries s p = Some (Acquired att g')" using assms(2) by (auto split: pool_splits)
    then have "g' = g \<Longrightarrow> \<exists>j. pi_pending (up_inners s g) j = None" using e(1) Register by (simp add: roomy_def)
    then have "g' = g \<Longrightarrow> fst (pick_id (pi_pending (up_inners s g')) (pi_next_id (up_inners s g')) 0) \<noteq> i"
      using pick_id_avoids q(2) by simp
    then show ?thesis using Register p q
      by (cases "pick_id (pi_pending (up_inners s g')) (pi_next_id (up_inners s g')) 0") (auto simp: pool_step_defs)
  next
    case (Send_fails p)
    then show ?thesis using assms(2) e(1) q by (auto simp: pool_step_defs roomy_def split: pool_splits dest: keptD [OF k])
  next
    case (Datagram g' bytes)
    then show ?thesis using assms(2,3) q by (auto simp: pool_step_defs nothing_comes_def split: pool_splits)
  qed (use assms(2) e(2) q m in \<open>auto simp: pool_step_defs split: pool_splits dest: keptD [OF k]\<close>)
  moreover have "up_queries (pool_handle e s) q = Some Cancelled" "g < up_made (pool_handle e s)"
    using assms(2) q m by (cases e; auto simp: pool_step_defs split: pool_splits if_splits)+
  ultimately show ?thesis
    using kept_step [OF k ks assms(2) e] known_sockets_step [OF ks(1) assms(2)] pending_expected_step [OF ks(2) assms(2)]
    by (simp add: id_taken_def)
qed

lemma id_taken_run: "pool_run (nothing_comes g i) s es t \<Longrightarrow> id_taken q g i s \<Longrightarrow> id_taken q g i t"
  by (induction rule: event_run.induct) (auto intro: id_taken_step)

text \<open>
  A query that is given up, by the timeout of its group or because another server was faster, keeps its
  place in the table: its id is taken as long as the socket lives and no datagram with that id comes.
\<close>

theorem cancelled_query_keeps_its_id:
  assumes "pool_run roomy new_pool es s" "up_queries s q = Some (Waiting att g i)" "up_box s q = None"
    and "pi_alive (up_inners s g)" "pool_run (nothing_comes g i) (pool_handle (Cancel q) s) fs t"
  shows "pi_pending (up_inners t g) i = Some q
    \<and> (\<forall>p att'. up_queries t p = Some (Acquired att' g) \<longrightarrow> roomy t (Register p) \<longrightarrow> \<not> at_socket (pool_handle (Register p) t) p g i)"
proof -
  have k: "kept g s" using alive_kept [OF assms(1)] assms(4) by blast
  have ks: "known_sockets s" "pending_expected s" using run_facts [OF assms(1)] by auto
  have en: "pool_enabled s (Cancel q)" "roomy s (Cancel q)" "Cancel q \<noteq> Loop_fails g" using assms(2) by (simp_all add: roomy_def)
  have "id_taken q g i (pool_handle (Cancel q) s)"
    using keptD(2) [OF k assms(3,2)] kept_step [OF k ks en] known_sockets_step [OF ks(1) en(1)]
      pending_expected_step [OF ks(2) en(1)] known_socketsD(4) [OF ks(1) assms(2)]
    by (simp add: id_taken_def set_query_def)
  then have t: "id_taken q g i t" by (rule id_taken_run [OF assms(5)])
  have "\<not> at_socket (pool_handle (Register p) t) p g i" if p: "up_queries t p = Some (Acquired att' g)" "roomy t (Register p)" for p att'
  proof -
    have "\<exists>j. pi_pending (up_inners t g) j = None" "pi_pending (up_inners t g) i = Some q"
      using p t by (simp_all add: id_taken_def roomy_def)
    then show ?thesis unfolding registered_id [OF p(1)] using pick_id_avoids by metis
  qed
  then show ?thesis using t by (simp add: id_taken_def)
qed

subsection \<open>Every query ends\<close>

fun query_of :: "pool_event \<Rightarrow> nat option" where
  "query_of (Datagram g bytes) = None"
| "query_of (Loop_fails g) = None"
| "query_of (Start_query q i) = Some q"
| "query_of (Acquire q) = Some q"
| "query_of (Bind_fails q) = Some q"
| "query_of (Register q) = Some q"
| "query_of (Send_ok q) = Some q"
| "query_of (Send_fails q) = Some q"
| "query_of (Take_answer q) = Some q"
| "query_of (See_broken q) = Some q"
| "query_of (Time_out q) = Some q"
| "query_of (Cancel q) = Some q"

fun steps_left :: "query_state option \<Rightarrow> nat" where
  "steps_left None = 9"
| "steps_left (Some (Starting att)) = (if att = 0 then 8 else 4)"
| "steps_left (Some (Acquired att g)) = (if att = 0 then 7 else 3)"
| "steps_left (Some (Registered att g i)) = (if att = 0 then 6 else 2)"
| "steps_left (Some (Waiting att g i)) = (if att = 0 then 5 else 1)"
| "steps_left (Some (Done r)) = 0"
| "steps_left (Some Cancelled) = 0"

lemma steps_left_step:
  "pool_enabled s e \<Longrightarrow>
     steps_left (up_queries (pool_handle e s) q) + (if query_of e = Some q then 1 else 0) \<le> steps_left (up_queries s q)"
  by (cases e) (auto simp: pool_step_defs split: pool_splits if_splits)

text \<open>
  C34. Every query ends after at most two attempts: it takes at most nine steps of its own, and until it has a
  result or is given up some step of its own other than being given up is possible.
\<close>

theorem every_query_ends:
  assumes "pool_run cond new_pool es s"
  shows "length (filter (\<lambda>e. query_of e = Some q) es) + steps_left (up_queries s q) \<le> 9
    \<and> ((\<exists>e. query_of e = Some q \<and> e \<noteq> Cancel q \<and> pool_enabled s e) \<or> (\<exists>r. up_queries s q = Some (Done r)) \<or> up_queries s q = Some Cancelled)"
proof
  show "length (filter (\<lambda>e. query_of e = Some q) es) + steps_left (up_queries s q) \<le> 9"
    using assms
  proof (induction rule: event_run.induct)
    case (run_snoc es t e)
    then show ?case using steps_left_step [OF run_snoc(2), of q] by auto
  qed (simp add: new_pool_def)
next
  have "pool_enabled s (Start_query q 0) \<or> pool_enabled s (Acquire q) \<or> pool_enabled s (Register q)
      \<or> pool_enabled s (Send_ok q) \<or> pool_enabled s (Take_answer q) \<or> pool_enabled s (See_broken q) \<or> pool_enabled s (Time_out q)
      \<or> (\<exists>r. up_queries s q = Some (Done r)) \<or> up_queries s q = Some Cancelled"
    by (auto split: pool_splits)
  then show "(\<exists>e. query_of e = Some q \<and> e \<noteq> Cancel q \<and> pool_enabled s e)
      \<or> (\<exists>r. up_queries s q = Some (Done r)) \<or> up_queries s q = Some Cancelled"
    by (metis query_of.simps pool_event.distinct)
qed

subsection \<open>Sample runs\<close>

definition first_query :: "pool_event list" where
  "first_query = [Start_query 1 7, Acquire 1, Register 1, Send_ok 1]"

definition waiting_pool :: udp_pool where
  "waiting_pool = fold pool_handle first_query new_pool"

lemma pick_empty: "pick_id Map.empty n 0 = (n, n + 1)"
  by (simp add: pick_id.simps)

lemmas sample_simps = pool_step_defs new_pool_def new_inner_def unmade_inner_def roomy_def pick_empty first_query_def

lemma first_query_runs: "event_check pool_enabled pool_handle roomy new_pool first_query"
  by (simp add: sample_simps)

lemma waiting_pool_run: "pool_run roomy new_pool first_query waiting_pool"
  unfolding waiting_pool_def by (rule checked_run [OF first_query_runs])

lemma waiting_pool_sel:
  "up_queries waiting_pool = [1 \<mapsto> Waiting 0 0 0]" "up_box waiting_pool = Map.empty"
  "up_current waiting_pool = Some 0" "up_made waiting_pool = 1" "up_ids waiting_pool 1 = 7" "up_ids waiting_pool (Suc 0) = 7"
  "pi_alive (up_inners waiting_pool 0)" "pi_pending (up_inners waiting_pool 0) = [0 \<mapsto> 1]"
  by (simp_all add: waiting_pool_def sample_simps fun_eq_iff)

lemma another_id: "\<exists>i :: 16 word. i \<noteq> 0"
  by (rule exI [of _ 1]) simp

definition sample_reply :: "byte list" where
  "sample_reply = be_bytes 2 (0 :: 16 word) @ [1, 2, 3]"

lemma sample_reply_id [simp]: "length sample_reply = 5" "from_be (take 2 sample_reply) = (0 :: 16 word)" "drop 2 sample_reply = [1, 2, 3]"
  by (simp_all add: sample_reply_def from_be_bytes)

theorem no_answer_is_lost_witness:
  "up_queries (pool_handle (Take_answer 1) (pool_handle (Datagram 0 sample_reply) waiting_pool)) 1
     = Some (Done (Answered (be_bytes 2 (7 :: 16 word) @ [1, 2, 3])))"
proof -
  have "let t = pool_handle (Datagram 0 sample_reply) waiting_pool
    in (\<forall>p. up_box t p = (if p = 1 then Some sample_reply else up_box waiting_pool p)) \<and> pool_enabled t (Take_answer 1)
      \<and> up_queries (pool_handle (Take_answer 1) t) 1 = Some (Done (Answered (be_bytes 2 (up_ids waiting_pool 1) @ drop 2 sample_reply)))"
    by (rule no_answer_is_lost [OF waiting_pool_run]) (simp_all add: waiting_pool_sel)
  then show ?thesis unfolding Let_def waiting_pool_sel sample_reply_id by blast
qed


text \<open>The only query is given up, then the socket fails; the next query times out, and so would all others.\<close>

definition later_query :: "pool_event list" where
  "later_query = [Start_query 2 8, Acquire 2, Register 2, Send_ok 2, Time_out 2]"

definition cancelled_pool :: udp_pool where
  "cancelled_pool = pool_handle (Cancel 1) waiting_pool"

lemma cancelled_pool_run: "pool_run roomy new_pool (first_query @ [Cancel 1]) cancelled_pool"
  unfolding cancelled_pool_def by (rule run_snoc [OF waiting_pool_run]) (simp_all add: waiting_pool_sel roomy_def)

lemma cancelled_pool_sel:
  "up_queries cancelled_pool = [1 \<mapsto> Cancelled]" "up_box cancelled_pool = Map.empty" "up_made cancelled_pool = 1"
  "up_current cancelled_pool = Some 0" "pi_alive (up_inners cancelled_pool 0)" "pi_pending (up_inners cancelled_pool 0) = [0 \<mapsto> 1]"
  by (simp_all add: cancelled_pool_def waiting_pool_sel set_query_def)

definition failed_pool :: udp_pool where
  "failed_pool = pool_handle (Loop_fails 0) cancelled_pool"

lemma later_query_times_out:
  "pool_run sends_succeed failed_pool later_query (fold pool_handle later_query failed_pool)"
  "up_queries (fold pool_handle later_query failed_pool) 2 = Some (Done PoolTimedOut)"
proof -
  show "pool_run sends_succeed failed_pool later_query (fold pool_handle later_query failed_pool)"
    by (rule checked_run)
       (simp add: later_query_def failed_pool_def sends_succeed_def roomy_def pool_step_defs cancelled_pool_sel pick_empty)
  show "up_queries (fold pool_handle later_query failed_pool) 2 = Some (Done PoolTimedOut)"
    by (simp add: later_query_def failed_pool_def pool_step_defs cancelled_pool_sel pick_empty)
qed

theorem dead_socket_is_never_replaced_witness:
  "up_current (fold pool_handle later_query failed_pool) = Some 0
    \<and> up_queries (fold pool_handle later_query failed_pool) 2 = Some (Done PoolTimedOut)"
  using dead_socket_is_never_replaced [OF cancelled_pool_run _ _ _ later_query_times_out(1) [unfolded failed_pool_def], of 2]
    later_query_times_out(2)
  by (simp add: cancelled_pool_sel at_socket_def failed_pool_def)

theorem cancelled_query_keeps_its_id_witness:
  "pi_pending (up_inners (fold pool_handle later_query cancelled_pool) 0) 0 = Some 1"
proof -
  have "pool_run (nothing_comes 0 0) (pool_handle (Cancel 1) waiting_pool) later_query (fold pool_handle later_query cancelled_pool)"
    unfolding cancelled_pool_def [symmetric]
    by (rule checked_run)
       (simp add: later_query_def nothing_comes_def roomy_def pool_step_defs cancelled_pool_sel pick_id.simps fun_upd_def another_id)
  from cancelled_query_keeps_its_id [OF waiting_pool_run _ _ _ this, of 0]
  show ?thesis by (simp add: waiting_pool_sel)
qed

theorem every_query_ends_witness:
  "length (filter (\<lambda>e. query_of e = Some 1) first_query) + steps_left (up_queries waiting_pool 1) = 9"
  using every_query_ends [OF waiting_pool_run, of 1] by (simp add: waiting_pool_sel first_query_def)

end
