(* ===== verification/Tls_Pool.thy ===== *)
theory Tls_Pool
  imports Event_Runs
begin

text \<open>
  The connections of an upstream server over TLS and QUIC: \<open>query\<close>, \<open>connect_and_exchange\<close> and
  \<open>put_back\<close> of \<open>src/src/dns/upstream/dot.rs\<close> and \<open>query\<close> of \<open>doq.rs\<close>. Both keep idle connections behind
  a lock, take one, exchange a message over it, and put it back; they differ in how many connections they
  keep, how many queries they admit at a time and how often they connect anew.

  The lock is part of the state. In \<open>if let Some(conn) = pool.idle.lock().await.pop_front() { .. }\<close> the guard
  of the lock is a temporary of the scrutinee, which in the edition of the crate (2021) lives to the end of
  the whole \<open>if let\<close>: while a connection from the pool is in use the lock is held, and the branch that
  fails gives it back when the \<open>if let\<close> is left.
\<close>

subsection \<open>State\<close>

record tls_kind =
  tk_permits :: "nat option"
  tk_attempts :: nat
  tk_put :: "nat list \<Rightarrow> nat \<Rightarrow> nat list"

definition pool_capacity :: nat where
  "pool_capacity = 8"

definition put_back :: "nat list \<Rightarrow> nat \<Rightarrow> nat list" where
  "put_back idle conn = (if length idle < pool_capacity then idle @ [conn] else idle)"

definition dot_kind :: tls_kind where
  "dot_kind = \<lparr>tk_permits = Some pool_capacity, tk_attempts = 2, tk_put = put_back\<rparr>"

definition doq_kind :: tls_kind where
  "doq_kind = \<lparr>tk_permits = None, tk_attempts = 1, tk_put = (\<lambda>idle conn. [conn])\<rparr>"

text \<open>
  Where a query waits: for a permit, for the lock, for the exchange over connection \<open>conn\<close> of the pool, for
  the lock to put that one back, for a new connection and the exchange over it, for the lock to put that
  one into the pool. \<open>Tls_done True\<close> has got the bytes of an answer.
\<close>

datatype tls_query =
  Tls_start | Tls_admitted | Tls_reusing nat | Tls_returning nat | Tls_connecting nat | Tls_keeping nat
| Tls_done bool | Tls_given_up

record tls_pool =
  tp_idle :: "nat list"
  tp_made :: nat
  tp_lock :: "nat option"
  tp_free :: "nat option"
  tp_queries :: "nat \<Rightarrow> tls_query option"

definition new_tls_pool :: "tls_kind \<Rightarrow> tls_pool" where
  "new_tls_pool k = \<lparr>tp_idle = [], tp_made = 0, tp_lock = None, tp_free = tk_permits k, tp_queries = Map.empty\<rparr>"

subsection \<open>Steps\<close>

definition set_tls :: "nat \<Rightarrow> tls_query \<Rightarrow> tls_pool \<Rightarrow> tls_pool" where
  "set_tls q st s = s\<lparr>tp_queries := (tp_queries s)(q \<mapsto> st)\<rparr>"

definition take_permit :: "tls_pool \<Rightarrow> tls_pool" where
  "take_permit s = s\<lparr>tp_free := map_option (\<lambda>n. n - 1) (tp_free s)\<rparr>"

text \<open>The end of a query: its permit is given back, and the guard of the lock if it still holds it.\<close>

definition leave :: "nat \<Rightarrow> tls_query \<Rightarrow> tls_pool \<Rightarrow> tls_pool" where
  "leave q st s =
     set_tls q st (s\<lparr>tp_free := map_option (\<lambda>n. n + 1) (tp_free s),
       tp_lock := (if tp_lock s = Some q then None else tp_lock s)\<rparr>)"

definition look :: "nat \<Rightarrow> tls_pool \<Rightarrow> tls_pool" where
  "look q s =
     (case tp_idle s of
        [] \<Rightarrow> set_tls q (Tls_connecting 0) s
      | conn # idle \<Rightarrow> set_tls q (Tls_reusing conn) (s\<lparr>tp_idle := idle, tp_lock := Some q\<rparr>))"

definition connect_again :: "tls_kind \<Rightarrow> nat \<Rightarrow> nat \<Rightarrow> tls_pool \<Rightarrow> tls_pool" where
  "connect_again k q attempt s =
     (if attempt + 1 < tk_attempts k then set_tls q (Tls_connecting (attempt + 1)) s else leave q (Tls_done False) s)"

datatype tls_event =
  Tls_begin nat | Tls_admit nat | Tls_look nat | Tls_reuse_ok nat | Tls_reuse_fails nat | Tls_return nat
| Tls_connect_ok nat | Tls_connect_fails nat | Tls_keep nat | Tls_cancel nat

fun tls_enabled :: "tls_pool \<Rightarrow> tls_event \<Rightarrow> bool" where
  "tls_enabled s (Tls_begin q) \<longleftrightarrow> tp_queries s q = None"
| "tls_enabled s (Tls_admit q) \<longleftrightarrow> tp_queries s q = Some Tls_start \<and> tp_free s \<noteq> Some 0"
| "tls_enabled s (Tls_look q) \<longleftrightarrow> tp_queries s q = Some Tls_admitted \<and> tp_lock s = None"
| "tls_enabled s (Tls_reuse_ok q) \<longleftrightarrow> (case tp_queries s q of Some (Tls_reusing conn) \<Rightarrow> True | _ \<Rightarrow> False)"
| "tls_enabled s (Tls_reuse_fails q) \<longleftrightarrow> (case tp_queries s q of Some (Tls_reusing conn) \<Rightarrow> True | _ \<Rightarrow> False)"
| "tls_enabled s (Tls_return q) \<longleftrightarrow>
     (case tp_queries s q of Some (Tls_returning conn) \<Rightarrow> tp_lock s = None | _ \<Rightarrow> False)"
| "tls_enabled s (Tls_connect_ok q) \<longleftrightarrow> (case tp_queries s q of Some (Tls_connecting n) \<Rightarrow> True | _ \<Rightarrow> False)"
| "tls_enabled s (Tls_connect_fails q) \<longleftrightarrow> (case tp_queries s q of Some (Tls_connecting n) \<Rightarrow> True | _ \<Rightarrow> False)"
| "tls_enabled s (Tls_keep q) \<longleftrightarrow>
     (case tp_queries s q of Some (Tls_keeping conn) \<Rightarrow> tp_lock s = None | _ \<Rightarrow> False)"
| "tls_enabled s (Tls_cancel q) \<longleftrightarrow>
     (case tp_queries s q of None \<Rightarrow> False | Some (Tls_done r) \<Rightarrow> False | Some Tls_given_up \<Rightarrow> False | _ \<Rightarrow> True)"

fun tls_handle :: "tls_kind \<Rightarrow> tls_event \<Rightarrow> tls_pool \<Rightarrow> tls_pool" where
  "tls_handle k (Tls_begin q) s = set_tls q Tls_start s"
| "tls_handle k (Tls_admit q) s = set_tls q Tls_admitted (take_permit s)"
| "tls_handle k (Tls_look q) s = look q s"
| "tls_handle k (Tls_reuse_ok q) s =
     (case tp_queries s q of Some (Tls_reusing conn) \<Rightarrow> set_tls q (Tls_returning conn) s | _ \<Rightarrow> s)"
| "tls_handle k (Tls_reuse_fails q) s = set_tls q (Tls_connecting 0) (s\<lparr>tp_lock := None\<rparr>)"
| "tls_handle k (Tls_return q) s =
     (case tp_queries s q of
        Some (Tls_returning conn) \<Rightarrow> leave q (Tls_done True) (s\<lparr>tp_idle := tk_put k (tp_idle s) conn\<rparr>) | _ \<Rightarrow> s)"
| "tls_handle k (Tls_connect_ok q) s = set_tls q (Tls_keeping (tp_made s)) (s\<lparr>tp_made := tp_made s + 1\<rparr>)"
| "tls_handle k (Tls_connect_fails q) s =
     (case tp_queries s q of Some (Tls_connecting attempt) \<Rightarrow> connect_again k q attempt s | _ \<Rightarrow> s)"
| "tls_handle k (Tls_keep q) s =
     (case tp_queries s q of
        Some (Tls_keeping conn) \<Rightarrow> leave q (Tls_done True) (s\<lparr>tp_idle := tk_put k (tp_idle s) conn\<rparr>) | _ \<Rightarrow> s)"
| "tls_handle k (Tls_cancel q) s =
     (if tp_queries s q = Some Tls_start then set_tls q Tls_given_up s else leave q Tls_given_up s)"

abbreviation tls_run :: "tls_kind \<Rightarrow> (tls_pool \<Rightarrow> tls_event \<Rightarrow> bool) \<Rightarrow> tls_pool \<Rightarrow> tls_event list \<Rightarrow> tls_pool \<Rightarrow> bool" where
  "tls_run k \<equiv> event_run tls_enabled (tls_handle k)"

end
