(* ===== verification/Tls_Properties.thy ===== *)
theory Tls_Properties
  imports Tls_Pool
begin

text \<open>
  Properties of the connections over TLS and QUIC: who holds the lock, that a connection serves one query at
  a time and how many there are, and what becomes of a query that takes a connection from the pool.
\<close>


lemmas tls_defs = set_tls_def take_permit_def leave_def look_def connect_again_def
lemmas tls_splits = option.splits tls_query.splits list.splits if_splits

subsection \<open>The lock\<close>

text \<open>The query that holds the lock is exactly the one that uses a connection from the pool.\<close>

definition lock_ok :: "tls_pool \<Rightarrow> bool" where
  "lock_ok s \<longleftrightarrow> (\<forall>q. tp_lock s = Some q \<longleftrightarrow> (\<exists>conn. tp_queries s q \<in> {Some (Tls_reusing conn), Some (Tls_returning conn)}))"

lemma lock_okD:
  "lock_ok s \<Longrightarrow> tp_queries s q = Some (Tls_reusing conn) \<Longrightarrow> tp_lock s = Some q"
  "lock_ok s \<Longrightarrow> tp_queries s q = Some (Tls_returning conn) \<Longrightarrow> tp_lock s = Some q"
  "lock_ok s \<Longrightarrow> tp_lock s = Some q \<Longrightarrow> \<exists>conn. tp_queries s q = Some (Tls_reusing conn) \<or> tp_queries s q = Some (Tls_returning conn)"
  by (auto simp: lock_ok_def)

lemma new_lock_ok: "lock_ok (new_tls_pool k)"
  by (simp add: lock_ok_def new_tls_pool_def)

lemma lock_ok_step:
  assumes "lock_ok s" "tls_enabled s e" shows "lock_ok (tls_handle k e s)"
proof (cases e)
  case (Tls_reuse_fails q)
  then obtain conn where "tp_queries s q = Some (Tls_reusing conn)" using assms(2) by (auto split: tls_splits)
  then have "tp_lock s = Some q" by (rule lock_okD(1) [OF assms(1)])
  then show ?thesis using Tls_reuse_fails unfolding lock_ok_def
    by (auto simp: tls_defs dest: lock_okD [OF assms(1)])
qed (use assms(2) in \<open>unfold lock_ok_def, auto simp: tls_defs split: tls_splits dest: lock_okD [OF assms(1)]\<close>)

interpretation tls_lock: event_invariant tls_enabled "tls_handle k" "new_tls_pool k" lock_ok for k
  by unfold_locales (rule new_lock_ok, rule lock_ok_step)

text \<open>
  No query is ever answered over a connection from the pool, neither over TLS nor over QUIC: the step that
  would put the connection back and return the answer happens in no run.
\<close>

theorem no_answer_over_a_pooled_connection:
  assumes "tls_run k cond (new_tls_pool k) es s"
  shows "Tls_return q \<notin> set es"
  using assms
proof (induction rule: event_run.induct)
  case (run_snoc es t e)
  then show ?case using lock_okD(2) [OF tls_lock.reachable_inv [OF run_snoc(1)]] by (auto split: tls_splits)
qed simp

definition not_given_up :: "nat \<Rightarrow> tls_pool \<Rightarrow> tls_event \<Rightarrow> bool" where
  "not_given_up q s e \<longleftrightarrow> e \<noteq> Tls_cancel q"

definition blocked :: "nat \<Rightarrow> nat \<Rightarrow> (nat \<Rightarrow> tls_query option) \<Rightarrow> tls_pool \<Rightarrow> bool" where
  "blocked q conn old s \<longleftrightarrow> lock_ok s \<and> tp_queries s q = Some (Tls_returning conn)
     \<and> (\<forall>p. tp_queries s p = Some (Tls_done True) \<longrightarrow> old p = Some (Tls_done True))"

lemma blocked_step:
  assumes "blocked q conn old s" "tls_enabled s e" "not_given_up q s e"
  shows "blocked q conn old (tls_handle k e s)"
proof -
  have lock: "tp_lock s = Some q" "lock_ok s" using assms(1) lock_okD(2) by (auto simp: blocked_def)
  show ?thesis
    using lock_ok_step [OF lock(2) assms(2)] assms lock(1) unfolding blocked_def not_given_up_def
    by (cases e) (auto simp: tls_defs split: tls_splits)
qed

lemma blocked_run: "tls_run k (not_given_up q) s es t \<Longrightarrow> blocked q conn old s \<Longrightarrow> blocked q conn old t"
  by (induction rule: event_run.induct) (auto intro: blocked_step)

text \<open>
  C36. A query that has got its answer over a connection from the pool waits for the lock it holds itself: until
  it is given up it stays there, and no query of that server is answered, whatever else happens.
\<close>

theorem reuse_blocks_the_pool:
  assumes "tls_run k cond (new_tls_pool k) es s" "tp_queries s q = Some (Tls_reusing conn)"
    and "tls_run k (not_given_up q) (tls_handle k (Tls_reuse_ok q) s) fs t"
  shows "tp_queries t q = Some (Tls_returning conn)
    \<and> (\<forall>p. tp_queries t p = Some (Tls_done True) \<longrightarrow> tp_queries s p = Some (Tls_done True))"
proof -
  have "lock_ok s" by (rule tls_lock.reachable_inv [OF assms(1)])
  then have "lock_ok (tls_handle k (Tls_reuse_ok q) s)" using assms(2) by (intro lock_ok_step) auto
  then have "blocked q conn (tp_queries s) (tls_handle k (Tls_reuse_ok q) s)"
    using assms(2) by (auto simp: blocked_def set_tls_def split: if_splits)
  then have "blocked q conn (tp_queries s) t" by (rule blocked_run [OF assms(3)])
  then show ?thesis by (auto simp: blocked_def)
qed

subsection \<open>Connections\<close>

fun connection_of :: "tls_query \<Rightarrow> nat option" where
  "connection_of (Tls_reusing conn) = Some conn"
| "connection_of (Tls_returning conn) = Some conn"
| "connection_of (Tls_keeping conn) = Some conn"
| "connection_of _ = None"

definition uses :: "tls_pool \<Rightarrow> nat \<Rightarrow> nat \<Rightarrow> bool" where
  "uses s q conn \<longleftrightarrow> Option.bind (tp_queries s q) connection_of = Some conn"

definition connections_ok :: "nat \<Rightarrow> tls_pool \<Rightarrow> bool" where
  "connections_ok cap s \<longleftrightarrow> distinct (tp_idle s) \<and> length (tp_idle s) \<le> cap \<and> (\<forall>conn \<in> set (tp_idle s). conn < tp_made s)
     \<and> (\<forall>q conn. uses s q conn \<longrightarrow> conn < tp_made s \<and> conn \<notin> set (tp_idle s))
     \<and> (\<forall>p q conn. uses s p conn \<longrightarrow> uses s q conn \<longrightarrow> p = q)"

text \<open>What the code relies on when it puts a connection back.\<close>

locale connection_store =
  fixes put :: "nat list \<Rightarrow> nat \<Rightarrow> nat list" and cap :: nat
  assumes put_set: "set (put idle conn) \<subseteq> insert conn (set idle)"
    and put_distinct: "distinct idle \<Longrightarrow> conn \<notin> set idle \<Longrightarrow> distinct (put idle conn)"
    and put_length: "length idle \<le> cap \<Longrightarrow> length (put idle conn) \<le> cap"
begin

lemma put_back_ok:
  assumes "connections_ok cap s" "uses s q conn"
  shows "connections_ok cap (leave q (Tls_done r) (s\<lparr>tp_idle := put (tp_idle s) conn\<rparr>))"
proof -
  have c: "conn < tp_made s" "conn \<notin> set (tp_idle s)" and alone: "\<And>p. uses s p conn \<Longrightarrow> p = q"
    using assms unfolding connections_ok_def by blast+
  have idle: "distinct (tp_idle s)" "length (tp_idle s) \<le> cap" using assms(1) by (auto simp: connections_ok_def)
  let ?s = "leave q (Tls_done r) (s\<lparr>tp_idle := put (tp_idle s) conn\<rparr>)"
  have uses: "uses ?s p d \<Longrightarrow> uses s p d \<and> p \<noteq> q" for p d
    by (auto simp: uses_def leave_def set_tls_def split: if_splits)
  have "x \<in> set (put (tp_idle s) conn) \<Longrightarrow> x = conn \<or> x \<in> set (tp_idle s)" for x using put_set by blast
  moreover have sel: "tp_idle ?s = put (tp_idle s) conn" "tp_made ?s = tp_made s" by (simp_all add: leave_def set_tls_def)
  ultimately show ?thesis
    using assms(1) put_distinct [OF idle(1) c(2)] put_length [OF idle(2)] c(1) alone uses
    unfolding connections_ok_def sel by (metis (no_types, lifting))
qed

lemma connections_ok_step:
  assumes "connections_ok cap s" "tls_enabled s e" "tk_put k = put"
  shows "connections_ok cap (tls_handle k e s)"
proof (cases e)
  case (Tls_return q)
  then obtain conn where "tp_queries s q = Some (Tls_returning conn)" using assms(2) by (auto split: tls_splits)
  then show ?thesis using put_back_ok [OF assms(1), of q conn] Tls_return assms(3) by (simp add: uses_def)
next
  case (Tls_keep q)
  then obtain conn where "tp_queries s q = Some (Tls_keeping conn)" using assms(2) by (auto split: tls_splits)
  then show ?thesis using put_back_ok [OF assms(1), of q conn] Tls_keep assms(3) by (simp add: uses_def)
next
  case (Tls_look q)
  show ?thesis
  proof (cases "tp_idle s")
    case Nil
    then show ?thesis using Tls_look assms(1) by (auto simp: connections_ok_def uses_def tls_defs split: if_splits)
  next
    case (Cons conn idle)
    then show ?thesis using Tls_look assms(1) by (auto simp: connections_ok_def uses_def tls_defs split: if_splits)
  qed
next
  case (Tls_connect_ok q)
  then show ?thesis using assms(1)
    by (auto simp: connections_ok_def uses_def tls_defs less_Suc_eq split: if_splits)
next
  case (Tls_reuse_ok q)
  then obtain conn where "tp_queries s q = Some (Tls_reusing conn)" using assms(2) by (auto split: tls_splits)
  then have "uses (tls_handle k e s) = uses s" using Tls_reuse_ok by (auto simp: uses_def tls_defs fun_eq_iff)
  then show ?thesis using Tls_reuse_ok assms(1) by (auto simp: connections_ok_def tls_defs split: tls_splits)
next
  case (Tls_connect_fails q)
  then obtain n where "tp_queries s q = Some (Tls_connecting n)" using assms(2) by (auto split: tls_splits)
  then have "uses (tls_handle k e s) = uses s" using Tls_connect_fails by (auto simp: uses_def tls_defs fun_eq_iff)
  then show ?thesis using Tls_connect_fails assms(1) by (auto simp: connections_ok_def tls_defs split: tls_splits)
qed (use assms(1,2) in \<open>auto simp: connections_ok_def uses_def tls_defs split: if_splits\<close>)

end

interpretation dot_store: connection_store put_back pool_capacity
  by unfold_locales (auto simp: put_back_def pool_capacity_def)

interpretation doq_store: connection_store "\<lambda>idle conn. [conn]" 1
  by unfold_locales auto

lemma new_connections_ok: "connections_ok cap (new_tls_pool k)"
  by (simp add: connections_ok_def new_tls_pool_def uses_def)

interpretation dot_connections: event_invariant tls_enabled "tls_handle dot_kind" "new_tls_pool dot_kind" "connections_ok pool_capacity"
  by unfold_locales (rule new_connections_ok, erule (1) dot_store.connections_ok_step, simp add: dot_kind_def)

interpretation doq_connections: event_invariant tls_enabled "tls_handle doq_kind" "new_tls_pool doq_kind" "connections_ok 1"
  by unfold_locales (rule new_connections_ok, erule (1) doq_store.connections_ok_step, simp add: doq_kind_def)

subsection \<open>Permits\<close>

definition admitted :: "tls_pool \<Rightarrow> nat set" where
  "admitted s = {q. \<exists>st. tp_queries s q = Some st \<and> st \<notin> {Tls_start, Tls_done True, Tls_done False, Tls_given_up}}"

definition permits_ok :: "nat \<Rightarrow> tls_pool \<Rightarrow> bool" where
  "permits_ok cap s \<longleftrightarrow> finite (admitted s) \<and> (\<exists>n. tp_free s = Some n \<and> n + card (admitted s) = cap)"

lemma admitted_enter: "tp_queries s q = Some Tls_start \<Longrightarrow> admitted (set_tls q Tls_admitted (take_permit s)) = insert q (admitted s) \<and> q \<notin> admitted s"
  by (auto simp: admitted_def tls_defs split: if_splits)

lemma admitted_leave: "r \<in> {Tls_done True, Tls_done False, Tls_given_up} \<Longrightarrow> admitted (leave q r s) = admitted s - {q}"
  by (auto simp: admitted_def tls_defs split: if_splits)

lemma permits_enter:
  assumes "permits_ok cap s" "tp_queries s q = Some Tls_start" "tp_free s \<noteq> Some 0"
  shows "permits_ok cap (set_tls q Tls_admitted (take_permit s))"
proof -
  obtain n where n: "tp_free s = Some n" "n + card (admitted s) = cap" "finite (admitted s)" using assms(1) by (auto simp: permits_ok_def)
  then show ?thesis using admitted_enter [OF assms(2)] assms(3)
    by (cases n) (auto simp: permits_ok_def set_tls_def take_permit_def)
qed

lemma permits_leave:
  assumes "permits_ok cap s" "q \<in> admitted s" "r \<in> {Tls_done True, Tls_done False, Tls_given_up}"
  shows "permits_ok cap (leave q r s)"
proof -
  obtain n where n: "tp_free s = Some n" "n + card (admitted s) = cap" "finite (admitted s)" using assms(1) by (auto simp: permits_ok_def)
  moreover have "card (admitted s) = Suc (card (admitted s - {q}))" using n(3) assms(2) by (metis card.remove)
  moreover have "tp_free (leave q r s) = map_option Suc (tp_free s)" by (simp add: leave_def set_tls_def)
  ultimately show ?thesis by (simp add: permits_ok_def admitted_leave [OF assms(3)])
qed

lemma permits_same:
  "permits_ok cap s \<Longrightarrow> tp_free t = tp_free s \<Longrightarrow> admitted t = admitted s \<Longrightarrow> permits_ok cap t"
  by (simp add: permits_ok_def)

lemma permits_put: "permits_ok cap s \<Longrightarrow> permits_ok cap (s\<lparr>tp_idle := idle\<rparr>)"
  by (simp add: permits_ok_def admitted_def)

lemma permits_ok_step:
  assumes "permits_ok cap s" "tls_enabled s e" shows "permits_ok cap (tls_handle k e s)"
proof (cases e)
  case (Tls_admit q)
  then show ?thesis using permits_enter [OF assms(1)] assms(2) by simp
next
  case (Tls_return q)
  then obtain conn where "tp_queries s q = Some (Tls_returning conn)" using assms(2) by (auto split: tls_splits)
  then show ?thesis using Tls_return permits_leave [OF permits_put [OF assms(1), of "tk_put k (tp_idle s) conn"], of q "Tls_done True"]
    by (simp add: admitted_def)
next
  case (Tls_keep q)
  then obtain conn where "tp_queries s q = Some (Tls_keeping conn)" using assms(2) by (auto split: tls_splits)
  then show ?thesis using Tls_keep permits_leave [OF permits_put [OF assms(1), of "tk_put k (tp_idle s) conn"], of q "Tls_done True"]
    by (simp add: admitted_def)
next
  case (Tls_connect_fails q)
  then obtain n where "tp_queries s q = Some (Tls_connecting n)" using assms(2) by (auto split: tls_splits)
  moreover have "permits_ok cap (set_tls q (Tls_connecting (n + 1)) s)"
    using \<open>tp_queries s q = Some (Tls_connecting n)\<close>
    by (intro permits_same [OF assms(1)]) (auto simp: admitted_def set_tls_def split: if_splits)
  moreover have "permits_ok cap (leave q (Tls_done False) s)"
    using \<open>tp_queries s q = Some (Tls_connecting n)\<close> by (intro permits_leave [OF assms(1)]) (auto simp: admitted_def)
  ultimately show ?thesis using Tls_connect_fails by (simp add: connect_again_def)
next
  case (Tls_cancel q)
  show ?thesis
  proof (cases "tp_queries s q = Some Tls_start")
    case True
    then have "permits_ok cap (set_tls q Tls_given_up s)"
      by (intro permits_same [OF assms(1)]) (auto simp: admitted_def set_tls_def split: if_splits)
    then show ?thesis using Tls_cancel True by simp
  next
    case False
    then have "q \<in> admitted s" using Tls_cancel assms(2) by (auto simp: admitted_def split: tls_splits)
    then show ?thesis using Tls_cancel False permits_leave [OF assms(1), of q Tls_given_up] by simp
  qed
qed (use assms(2) in \<open>auto simp: admitted_def tls_defs split: tls_splits intro!: permits_same [OF assms(1)]\<close>)

interpretation dot_permits: event_invariant tls_enabled "tls_handle dot_kind" "new_tls_pool dot_kind" "permits_ok pool_capacity"
  by unfold_locales
     (simp add: permits_ok_def admitted_def new_tls_pool_def dot_kind_def, erule (1) permits_ok_step)

text \<open>
  C37. Over TLS at most eight connections are idle and at most eight in use, no connection serves two queries at
  a time, and none that is in use is idle.
\<close>

theorem tls_connections_are_bounded:
  assumes "tls_run dot_kind cond (new_tls_pool dot_kind) es s"
  shows "length (tp_idle s) \<le> 8 \<and> card {q. \<exists>conn. uses s q conn} \<le> 8
    \<and> (\<forall>p q conn. uses s p conn \<longrightarrow> conn \<notin> set (tp_idle s) \<and> (uses s q conn \<longrightarrow> p = q))"
proof -
  have "connections_ok pool_capacity s" by (rule dot_connections.reachable_inv [OF assms])
  moreover have "permits_ok pool_capacity s" by (rule dot_permits.reachable_inv [OF assms])
  then have "finite (admitted s)" "card (admitted s) \<le> 8" by (auto simp: permits_ok_def pool_capacity_def)
  moreover have "{q. \<exists>conn. uses s q conn} \<subseteq> admitted s"
    by (auto simp: uses_def admitted_def bind_eq_Some_conv elim!: connection_of.elims)
  ultimately show ?thesis unfolding connections_ok_def pool_capacity_def by (meson card_mono order_trans)
qed

subsection \<open>A second query\<close>

definition first_exchange :: "tls_event list" where
  "first_exchange = [Tls_begin 1, Tls_admit 1, Tls_look 1, Tls_connect_ok 1, Tls_keep 1, Tls_begin 2, Tls_admit 2, Tls_look 2]"

definition reusing_pool :: "tls_kind \<Rightarrow> tls_pool" where
  "reusing_pool k = fold (tls_handle k) first_exchange (new_tls_pool k)"

lemma reusing_pool_runs:
  assumes "k \<in> {dot_kind, doq_kind}"
  shows "tls_run k (\<lambda>_ _. True) (new_tls_pool k) first_exchange (reusing_pool k)"
    and "tp_queries (reusing_pool k) = [1 \<mapsto> Tls_done True, 2 \<mapsto> Tls_reusing 0]"
proof -
  show "tls_run k (\<lambda>_ _. True) (new_tls_pool k) first_exchange (reusing_pool k)"
    unfolding reusing_pool_def using assms
    by (intro checked_run)
       (auto simp: first_exchange_def new_tls_pool_def dot_kind_def doq_kind_def put_back_def pool_capacity_def tls_defs)
  show "tp_queries (reusing_pool k) = [1 \<mapsto> Tls_done True, 2 \<mapsto> Tls_reusing 0]"
    unfolding reusing_pool_def using assms
    by (auto simp: first_exchange_def new_tls_pool_def dot_kind_def doq_kind_def put_back_def pool_capacity_def tls_defs fun_eq_iff)
qed

theorem reuse_blocks_the_pool_witness:
  "tp_queries (fold (tls_handle dot_kind) [Tls_begin 3, Tls_admit 3] (tls_handle dot_kind (Tls_reuse_ok 2) (reusing_pool dot_kind))) 2
     = Some (Tls_returning 0)"
proof -
  let ?s = "tls_handle dot_kind (Tls_reuse_ok 2) (reusing_pool dot_kind)"
  have "tls_run dot_kind (not_given_up 2) ?s [Tls_begin 3, Tls_admit 3] (fold (tls_handle dot_kind) [Tls_begin 3, Tls_admit 3] ?s)"
    by (intro checked_run)
       (auto simp: reusing_pool_def first_exchange_def new_tls_pool_def dot_kind_def doq_kind_def put_back_def pool_capacity_def
         tls_defs not_given_up_def)
  from reuse_blocks_the_pool [OF reusing_pool_runs(1) _ this, of 0] reusing_pool_runs(2) [of dot_kind]
  show ?thesis by simp
qed

theorem no_answer_over_a_pooled_connection_witness: "Tls_return 2 \<notin> set first_exchange"
  by (rule no_answer_over_a_pooled_connection [OF reusing_pool_runs(1) [of doq_kind]]) simp

theorem tls_connections_are_bounded_witness: "card {q. \<exists>conn. uses (reusing_pool dot_kind) q conn} \<le> 8"
  using tls_connections_are_bounded [OF reusing_pool_runs(1) [of dot_kind]] by simp

end
