(* ===== verification/Transports.thy ===== *)
theory Transports
  imports Client_Subnet
begin

text \<open>
  What the transports do around their sockets: the frames of DNS over a stream, at both ends
  (\<open>tcp_framed_exchange\<close> of \<open>src/src/dns/upstream/util.rs\<close> and \<open>handle_tcp_conn\<close> of
  \<open>src/src/dns/listener.rs\<close>), the size of the buffer for an answer (\<open>extract_edns_udp_size\<close> of \<open>udp.rs\<close>), the
  addresses of upstream hosts (\<open>resolver.rs\<close>), and the queries over HTTPS (\<open>doh.rs\<close>). What the other side
  sends is a parameter, a stream is the list of the bytes that come before it ends.
\<close>

subsection \<open>Frames\<close>

datatype frame_error = StreamEnded | FrameTooShort nat

definition dns_frame :: "byte list \<Rightarrow> byte list" where
  "dns_frame msg = be_bytes 2 (word_of_nat (length msg) :: 16 word) @ msg"

definition read_exact :: "nat \<Rightarrow> byte list \<Rightarrow> frame_error + byte list \<times> byte list" where
  "read_exact n stream = (if length stream < n then Inl StreamEnded else Inr (take n stream, drop n stream))"

definition read_u16 :: "byte list \<Rightarrow> frame_error + nat \<times> byte list" where
  "read_u16 stream =
     and_then (read_exact 2 stream) (\<lambda>(bytes, rest). Inr (unat (from_be bytes :: 16 word), rest))"

text \<open>The answer the client reads, and what is left of the stream.\<close>

definition read_frame :: "byte list \<Rightarrow> frame_error + byte list \<times> byte list" where
  "read_frame stream =
     and_then (read_u16 stream) (\<lambda>(len, rest). if len < 12 then Inl (FrameTooShort len) else read_exact len rest)"

text \<open>A connection of the listener: what is written for a stream, where \<open>handle_request\<close> answers or fails.\<close>

function handle_tcp_conn :: "(byte list \<Rightarrow> byte list option) \<Rightarrow> byte list \<Rightarrow> byte list" where
  "handle_tcp_conn handle_request stream =
     (case read_u16 stream of
        Inl e \<Rightarrow> []
      | Inr (len, rest) \<Rightarrow>
          if len = 0 \<or> 65535 < len then []
          else (case read_exact len rest of
                  Inl e \<Rightarrow> []
                | Inr (buf, rest') \<Rightarrow>
                    (case handle_request buf of
                       None \<Rightarrow> []
                     | Some resp \<Rightarrow> dns_frame resp @ handle_tcp_conn handle_request rest')))"
  by pat_completeness auto
termination
  by (relation "measure (\<lambda>(handle_request, stream). length stream)")
     (auto simp: read_u16_def read_exact_def split: if_splits)

declare handle_tcp_conn.simps [simp del]

subsection \<open>The buffer for an answer over UDP\<close>

definition default_udp_buf :: nat where
  "default_udp_buf = 4096"

fun opt_udp_size :: "nat \<Rightarrow> byte list \<Rightarrow> nat \<Rightarrow> nat option" where
  "opt_udp_size 0 msg pos = None"
| "opt_udp_size (Suc n) msg pos =
     (case skip_qname msg pos of
        Inl e \<Rightarrow> None
      | Inr p \<Rightarrow>
          if length msg < p + 10 then None
          else if u16_at msg p = 41 then Some (u16_at msg (p + 2))
          else opt_udp_size n msg (p + 10 + u16_at msg (p + 8)))"

definition extract_edns_udp_size :: "byte list \<Rightarrow> nat option" where
  "extract_edns_udp_size msg =
     (if length msg < 12 then None
      else case skip_questions (u16_at msg 4) msg 12 of
             Inl e \<Rightarrow> None
           | Inr answers \<Rightarrow>
               (case skip_rrs (u16_at msg 6 + u16_at msg 8) msg answers of
                  Inl e \<Rightarrow> None
                | Inr additionals \<Rightarrow> opt_udp_size (u16_at msg 10) msg additionals))"

definition udp_buf_size :: "byte list \<Rightarrow> nat" where
  "udp_buf_size wire =
     (case extract_edns_udp_size wire of
        Some s \<Rightarrow> min (max s default_udp_buf) 65535 | None \<Rightarrow> default_udp_buf)"

text \<open>\<open>recv\<close> of a datagram keeps what fits into the buffer.\<close>

definition udp_recv :: "byte list \<Rightarrow> byte list \<Rightarrow> byte list" where
  "udp_recv wire datagram = take (udp_buf_size wire) datagram"

subsection \<open>Addresses of upstream hosts\<close>

definition cache_ttl :: nat where
  "cache_ttl = 300 * 1000"

record host_entry =
  he_addrs :: "ip_addr list"
  he_inserted_at :: nat

text \<open>
  The reader of IP addresses, the check of a name, and what a name server answers to a query for A or AAAA
  records (nothing, or the addresses among its answers), are given.
\<close>

record 'ns host_env =
  hv_ip :: "string \<Rightarrow> ip_addr option"
  hv_name_ok :: "string \<Rightarrow> bool"
  hv_query_a :: "'ns \<Rightarrow> string \<Rightarrow> ip_addr list option"
  hv_query_aaaa :: "'ns \<Rightarrow> string \<Rightarrow> ip_addr list option"

datatype host_error = NoDefaultNameserver | NoAddress

definition query_a_aaaa :: "'ns host_env \<Rightarrow> 'ns \<Rightarrow> string \<Rightarrow> ip_addr list option" where
  "query_a_aaaa v ns host =
     (if \<not> hv_name_ok v host then None
      else Some ((case hv_query_a v ns host of Some a \<Rightarrow> a | None \<Rightarrow> [])
                 @ (case hv_query_aaaa v ns host of Some aaaa \<Rightarrow> aaaa | None \<Rightarrow> [])))"

fun first_addresses :: "'ns host_env \<Rightarrow> 'ns list \<Rightarrow> string \<Rightarrow> ip_addr list option" where
  "first_addresses v [] host = None"
| "first_addresses v (ns # rest) host =
     (case query_a_aaaa v ns host of
        Some (ip # ips) \<Rightarrow> Some (ip # ips)
      | _ \<Rightarrow> first_addresses v rest host)"

type_synonym host_cache = "string \<Rightarrow> host_entry option"

text \<open>\<open>now\<close> is the time of the call and \<open>answered\<close> the time of the answer, in milliseconds.\<close>

definition resolve_host :: "'ns host_env \<Rightarrow> 'ns list \<Rightarrow> nat \<Rightarrow> nat \<Rightarrow> string \<Rightarrow> host_cache \<Rightarrow> (host_error + ip_addr list) \<times> host_cache" where
  "resolve_host v default_ns now answered host cache =
     (let ask =
        (if default_ns = [] then (Inl NoDefaultNameserver, cache)
         else case first_addresses v default_ns host of
                Some ips \<Rightarrow> (Inr ips, cache(host \<mapsto> \<lparr>he_addrs = ips, he_inserted_at = answered\<rparr>))
              | None \<Rightarrow> (Inl NoAddress, cache))
      in case hv_ip v host of
           Some ip \<Rightarrow> (Inr [ip], cache)
         | None \<Rightarrow>
             (case cache host of
                Some entry \<Rightarrow>
                  if now - he_inserted_at entry < cache_ttl then (Inr (he_addrs entry), cache) else ask
              | None \<Rightarrow> ask))"

definition resolve_socket_addr :: "'ns host_env \<Rightarrow> 'ns list \<Rightarrow> nat \<Rightarrow> nat \<Rightarrow> string \<Rightarrow> 16 word \<Rightarrow> host_cache
    \<Rightarrow> (host_error + ip_addr \<times> 16 word) \<times> host_cache" where
  "resolve_socket_addr v default_ns now answered host port cache =
     (case resolve_host v default_ns now answered host cache of
        (Inl e, cache') \<Rightarrow> (Inl e, cache')
      | (Inr [], cache') \<Rightarrow> (Inl NoAddress, cache')
      | (Inr (ip # ips), cache') \<Rightarrow> (Inr (ip, port), cache'))"

subsection \<open>Queries over HTTPS\<close>

definition reset_cooldown :: nat where
  "reset_cooldown = 2 * 1000"

text \<open>The number of clients built so far stands for the current client.\<close>

record doh_client =
  dh_client :: nat
  dh_last_reset :: "nat option"

definition new_doh_client :: doh_client where
  "new_doh_client = \<lparr>dh_client = 0, dh_last_reset = None\<rparr>"

definition recycle :: "bool \<Rightarrow> nat \<Rightarrow> doh_client \<Rightarrow> doh_client" where
  "recycle builds now c =
     (case dh_last_reset c of
        Some t \<Rightarrow> if now - t < reset_cooldown then c
                  else if builds then \<lparr>dh_client = dh_client c + 1, dh_last_reset = Some now\<rparr> else c
      | None \<Rightarrow> if builds then \<lparr>dh_client = dh_client c + 1, dh_last_reset = Some now\<rparr> else c)"

datatype doh_sent = DohFailed bool bool | DohReply nat "byte list option"

datatype doh_error = DohNotEncoded | DohBadUrl | DohPostFailed | DohStatus nat | DohBodyFailed | DohEmptyBody | DohNotDecoded

text \<open>
  \<open>url_ok\<close> says that the URL can be parsed and \<open>post\<close> what comes of the request with the given body: a
  failure, by time and by connecting, or the status and the body, if that could be read.
\<close>

definition doh_query :: "message_codec \<Rightarrow> bool \<Rightarrow> (byte list \<Rightarrow> doh_sent) \<Rightarrow> bool \<Rightarrow> nat \<Rightarrow> dns_message \<Rightarrow> doh_client
    \<Rightarrow> (doh_error + dns_message) \<times> doh_client" where
  "doh_query k url_ok post builds now request c =
     (case mc_to_vec k (request\<lparr>m_id := 0\<rparr>) of
        None \<Rightarrow> (Inl DohNotEncoded, c)
      | Some wire \<Rightarrow>
          if \<not> url_ok then (Inl DohBadUrl, c)
          else case post wire of
                 DohFailed is_timeout is_connect \<Rightarrow>
                   (Inl DohPostFailed, if is_timeout \<or> is_connect then recycle builds now c else c)
               | DohReply status body \<Rightarrow>
                   (if status \<noteq> 200 then (Inl (DohStatus status), c)
                    else case body of
                           None \<Rightarrow> (Inl DohBodyFailed, c)
                         | Some bytes \<Rightarrow>
                             if bytes = [] then (Inl DohEmptyBody, c)
                             else case mc_from_bytes k bytes of
                                    None \<Rightarrow> (Inl DohNotDecoded, c)
                                  | Some msg \<Rightarrow> (Inr (msg\<lparr>m_id := m_id request\<rparr>), c)))"

end
