(* ===== verification/Transport_Properties.thy ===== *)
theory Transport_Properties
  imports Transports Client_Subnet_Properties
begin

text \<open>
  Properties of the transports: the frames written and read at the two ends of a stream, the size of the
  buffer for an answer, how old the address of an upstream host can be, and how often a client over HTTPS
  is built anew.
\<close>


subsection \<open>Frames\<close>

lemma read_u16_frame: "length msg < 2 ^ 16 \<Longrightarrow> read_u16 (dns_frame msg @ rest) = Inr (length msg, msg @ rest)"
  by (simp add: read_u16_def read_exact_def dns_frame_def from_be_bytes unat_of_nat take_bit_nat_eq_self)

lemma read_exact_here: "length msg = n \<Longrightarrow> read_exact n (msg @ rest) = Inr (msg, rest)"
  by (simp add: read_exact_def)

lemma handle_frame:
  assumes "msg \<noteq> []" "length msg < 2 ^ 16"
  shows "handle_tcp_conn h (dns_frame msg @ rest) =
    (case h msg of None \<Rightarrow> [] | Some resp \<Rightarrow> dns_frame resp @ handle_tcp_conn h rest)"
  using assms by (subst handle_tcp_conn.simps) (simp add: read_u16_frame read_exact_here split: option.splits)

lemma handle_empty: "handle_tcp_conn h [] = []"
  by (subst handle_tcp_conn.simps) (simp add: read_u16_def read_exact_def)

text \<open>
  A connection of the listener over TCP answers the queries sent on it one after the other, in order, and
  ends at the first one that fails: what the client sent after it stays without an answer.
\<close>

theorem tcp_connection_ends_at_the_first_failure:
  assumes "list_all (\<lambda>q. q \<noteq> [] \<and> length q < 2 ^ 16) qs"
  shows "handle_tcp_conn h (concat (map dns_frame qs))
    = concat (map (\<lambda>q. dns_frame (the (h q))) (takeWhile (\<lambda>q. h q \<noteq> None) qs))"
  using assms by (induction qs) (auto simp: handle_empty handle_frame)

text \<open>
  The two ends of a stream understand each other: what the listener writes for a framed query is read back by
  the client as the answer, for every message of a length that fits into the frame.
\<close>

theorem tcp_exchange_roundtrip:
  assumes "q \<noteq> []" "length q < 2 ^ 16" "h q = Some resp" "12 \<le> length resp" "length resp < 2 ^ 16"
  shows "read_frame (handle_tcp_conn h (dns_frame q)) = Inr (resp, [])"
proof -
  have "handle_tcp_conn h (dns_frame q) = dns_frame resp @ []"
    using handle_frame [OF assms(1,2), of h "[]"] assms(3) handle_empty by simp
  then show ?thesis using read_u16_frame [OF assms(5), of "[]"] assms(4) read_exact_here [of resp _ "[]"]
    by (simp add: read_frame_def)
qed

subsection \<open>The buffer for an answer\<close>

lemma class_in_place:
  assumes "rr_ok r" "msg = pre @ rr_bytes r @ post"
  shows "u16_at msg (length pre + length (wr_name r) + 2) = unat (wr_class r)"
proof -
  have "msg = (pre @ wr_name r @ be_bytes 2 (wr_type r)) @ be_bytes 2 (wr_class r)
      @ (be_bytes 4 (wr_ttl r) @ be_bytes 2 (word_of_nat (length (wr_rdata r)) :: 16 word) @ wr_rdata r @ post)"
    using assms(2) by (simp add: rr_bytes_def)
  then show ?thesis by (simp only: u16_at_field [of _ "pre @ wr_name r @ be_bytes 2 (wr_type r)"] length_append length_be_bytes)
qed

lemma opt_udp_size_step:
  assumes "rr_ok r" and "msg = pre @ rr_bytes r @ post"
  shows "opt_udp_size (Suc n) msg (length pre) =
    (if is_opt r then Some (unat (wr_class r)) else opt_udp_size n msg (length (pre @ rr_bytes r)))"
proof -
  have "is_opt r \<longleftrightarrow> unat (wr_type r) = 41" by (simp add: is_opt_def word_unat_eq_iff)
  then show ?thesis
    using rr_in_place [OF assms] class_in_place [OF assms] by (simp add: not_less [symmetric] add.assoc)
qed

lemma opt_udp_size_find:
  "list_all rr_ok rs \<Longrightarrow> opt_udp_size (length rs) (pre @ concat (map rr_bytes rs) @ post) (length pre)
     = map_option (\<lambda>r. unat (wr_class r)) (find is_opt rs)"
proof (induction rs arbitrary: pre)
  case (Cons r rs)
  have "opt_udp_size (length rs) ((pre @ rr_bytes r) @ concat (map rr_bytes rs) @ post) (length (pre @ rr_bytes r))
      = map_option (\<lambda>r. unat (wr_class r)) (find is_opt rs)"
    using Cons.prems by (intro Cons.IH) simp
  then show ?case
    using Cons.prems opt_udp_size_step [of r "pre @ concat (map rr_bytes (r # rs)) @ post" pre "concat (map rr_bytes rs) @ post" "length rs"]
    by simp
qed simp

text \<open>The largest answer the client takes over UDP, as its message says it.\<close>

definition advertised_size :: "wire_msg \<Rightarrow> nat" where
  "advertised_size m = (case find is_opt (wm_additionals m) of Some r \<Rightarrow> unat (wr_class r) | None \<Rightarrow> 512)"

lemma edns_size_read:
  assumes "msg_ok m"
  shows "extract_edns_udp_size (msg_bytes m) = map_option (\<lambda>r. unat (wr_class r)) (find is_opt (wm_additionals m))"
proof -
  let ?n = "length (wm_additionals m)" and ?F = "front_bytes (length (wm_additionals m)) m"
  have msg: "msg_bytes m = ?F @ concat (map rr_bytes (wm_additionals m))" by (simp add: msg_bytes_def msg_front)
  have ok: "?n < 2 ^ 16" "list_all rr_ok (wm_additionals m)" using assms by (auto simp: msg_ok_def)
  obtain a where a: "skip_questions (u16_at (msg_bytes m) 4) (msg_bytes m) 12 = Inr a"
    "skip_rrs (u16_at (msg_bytes m) 6 + u16_at (msg_bytes m) 8) (msg_bytes m) a = Inr (length ?F)"
    using front_skipped [OF assms ok(1) msg] by (auto simp: and_then_Inr_iff)
  have h: "u16_at (msg_bytes m) 10 = ?n" "12 \<le> length (msg_bytes m)" using header_read [OF assms ok(1) msg] by auto
  have "opt_udp_size ?n (msg_bytes m) (length ?F) = map_option (\<lambda>r. unat (wr_class r)) (find is_opt (wm_additionals m))"
    using opt_udp_size_find [OF ok(2), of ?F "[]"] msg by simp
  then show ?thesis using a h by (simp add: extract_edns_udp_size_def)
qed

text \<open>
  An answer over UDP that is no longer than the request says its sender takes, or than 4096 bytes, is received
  whole: the size is read from the OPT record wherever it stands among the additional records.
\<close>

theorem advertised_answers_are_not_cut:
  assumes "msg_ok m" "length datagram \<le> max (advertised_size m) 4096"
  shows "udp_recv (msg_bytes m) datagram = datagram"
proof -
  have "unat (w :: 16 word) \<le> 65535" for w using unsigned_less [of w, where 'a = nat] by simp
  then have "length datagram \<le> udp_buf_size (msg_bytes m)"
    using assms(2) by (auto simp: udp_buf_size_def edns_size_read [OF assms(1)] advertised_size_def default_udp_buf_def
        max_def min_def split: option.splits)
  then show ?thesis by (simp add: udp_recv_def)
qed

subsection \<open>Addresses of hosts\<close>

record 'ns lookup =
  lo_env :: "'ns host_env"
  lo_now :: nat
  lo_answered :: nat
  lo_host :: string

definition look_up :: "'ns list \<Rightarrow> 'ns lookup \<Rightarrow> host_cache \<Rightarrow> (host_error + ip_addr list) \<times> host_cache" where
  "look_up ns l = resolve_host (lo_env l) ns (lo_now l) (lo_answered l) (lo_host l)"

definition caches_after :: "'ns list \<Rightarrow> 'ns lookup list \<Rightarrow> host_cache" where
  "caches_after ns ls = fold (\<lambda>l cache. snd (look_up ns l cache)) ls Map.empty"

text \<open>The name servers gave these addresses for the host in one of the lookups, at the given time.\<close>

definition given_by :: "'ns list \<Rightarrow> 'ns lookup set \<Rightarrow> string \<Rightarrow> ip_addr list \<Rightarrow> nat \<Rightarrow> bool" where
  "given_by ns ls host ips answered \<longleftrightarrow>
     (\<exists>l \<in> ls. lo_host l = host \<and> lo_answered l = answered \<and> first_addresses (lo_env l) ns host = Some ips)"

lemma given_by_mono: "given_by ns ls host ips t \<Longrightarrow> ls \<subseteq> ls' \<Longrightarrow> given_by ns ls' host ips t"
  by (auto simp: given_by_def)

lemma first_addresses_nonempty: "first_addresses v ns host = Some ips \<Longrightarrow> ips \<noteq> []"
  by (induction ns) (auto split: option.splits list.splits)

lemma look_up_cases:
  assumes "look_up ns l cache = (r, cache')"
  obtains (literal) ip where "r = Inr [ip]" "hv_ip (lo_env l) (lo_host l) = Some ip" "cache' = cache"
  | (cached) e where "cache (lo_host l) = Some e" "lo_now l - he_inserted_at e < cache_ttl" "r = Inr (he_addrs e)" "cache' = cache"
  | (asked) ips where "first_addresses (lo_env l) ns (lo_host l) = Some ips" "r = Inr ips"
      "cache' = cache(lo_host l \<mapsto> \<lparr>he_addrs = ips, he_inserted_at = lo_answered l\<rparr>)"
  | (failed) e where "r = Inl e" "cache' = cache"
proof (cases "hv_ip (lo_env l) (lo_host l)")
  case (Some ip)
  then have "r = Inr [ip]" "cache' = cache" using assms by (simp_all add: look_up_def resolve_host_def)
  then show ?thesis using Some by (intro literal)
next
  case None
  show ?thesis
  proof (cases "\<exists>e. cache (lo_host l) = Some e \<and> lo_now l - he_inserted_at e < cache_ttl")
    case True
    then obtain e where e: "cache (lo_host l) = Some e" "lo_now l - he_inserted_at e < cache_ttl" by blast
    then have "r = Inr (he_addrs e)" "cache' = cache" using None assms by (simp_all add: look_up_def resolve_host_def)
    then show ?thesis using e by (intro cached)
  next
    case False
    then have "look_up ns l cache =
        (if ns = [] then (Inl NoDefaultNameserver, cache)
         else case first_addresses (lo_env l) ns (lo_host l) of
                Some ips \<Rightarrow> (Inr ips, cache(lo_host l \<mapsto> \<lparr>he_addrs = ips, he_inserted_at = lo_answered l\<rparr>))
              | None \<Rightarrow> (Inl NoAddress, cache))"
      using None by (cases "cache (lo_host l)") (auto simp: look_up_def resolve_host_def Let_def)
    then show ?thesis using assms failed asked
      by (cases "ns = []"; cases "first_addresses (lo_env l) ns (lo_host l)") auto
  qed
qed

lemma caches_after_snoc: "caches_after ns (ls @ [l]) = snd (look_up ns l (caches_after ns ls))"
  by (simp add: caches_after_def)

lemma cached_given:
  "caches_after ns ls host = Some e \<Longrightarrow> given_by ns (set ls) host (he_addrs e) (he_inserted_at e)"
proof (induction ls arbitrary: host e rule: rev_induct)
  case (snoc l ls)
  obtain r cache' where l: "look_up ns l (caches_after ns ls) = (r, cache')" by fastforce
  then have c: "cache' host = Some e" using snoc.prems by (simp add: caches_after_snoc)
  have old: "given_by ns (set (ls @ [l])) host (he_addrs e) (he_inserted_at e)" if "caches_after ns ls host = Some e"
    using snoc.IH [OF that] by (rule given_by_mono) auto
  from l show ?case
    by (cases rule: look_up_cases) (use c old in \<open>auto simp: given_by_def split: if_splits\<close>)
qed (simp add: caches_after_def)

text \<open>
  The addresses used for the host of an upstream server are never empty, and a name server gave them for that
  host either now or less than five minutes ago, whatever lookups came before.
\<close>

theorem host_addresses_are_five_minutes_old_at_most:
  assumes "hv_ip (lo_env l) (lo_host l) = None" "look_up ns l (caches_after ns ls) = (Inr ips, cache')"
  shows "ips \<noteq> [] \<and> (\<exists>answered. given_by ns (set (ls @ [l])) (lo_host l) ips answered
    \<and> (answered = lo_answered l \<or> lo_now l - answered < 300000))"
  using assms(2)
proof (cases rule: look_up_cases)
  case (cached e)
  then have given: "given_by ns (set ls) (lo_host l) ips (he_inserted_at e)" using cached_given by blast
  then have "ips \<noteq> []" by (auto simp: given_by_def dest: first_addresses_nonempty)
  then show ?thesis using given_by_mono [OF given, of "set (ls @ [l])"] cached(2) by (auto simp: cache_ttl_def)
next
  case (asked ips')
  then show ?thesis by (auto simp: given_by_def dest: first_addresses_nonempty)
qed (use assms(1) in auto)

subsection \<open>Clients over HTTPS\<close>

definition recycled :: "(bool \<times> nat) list \<Rightarrow> doh_client" where
  "recycled rs = fold (\<lambda>(builds, now). recycle builds now) rs new_doh_client"

lemma recycled_bound:
  "sorted (map snd rs) \<Longrightarrow> (\<forall>r \<in> set rs. start \<le> snd r \<and> snd r \<le> stop) \<Longrightarrow>
     (case dh_last_reset (recycled rs) of
        None \<Rightarrow> dh_client (recycled rs) = 0
      | Some t \<Rightarrow> 0 < dh_client (recycled rs) \<and> start + 2000 * (dh_client (recycled rs) - 1) \<le> t \<and> t \<in> snd ` set rs)"
proof (induction rs rule: rev_induct)
  case (snoc r rs)
  obtain builds now where r: "r = (builds, now)" by fastforce
  have step: "recycled (rs @ [r]) = recycle builds now (recycled rs)" by (simp add: recycled_def r)
  have ih: "case dh_last_reset (recycled rs) of
        None \<Rightarrow> dh_client (recycled rs) = 0
      | Some t \<Rightarrow> 0 < dh_client (recycled rs) \<and> start + 2000 * (dh_client (recycled rs) - 1) \<le> t \<and> t \<in> snd ` set rs"
    using snoc by (simp add: sorted_append)
  have later: "t \<le> now" if "t \<in> snd ` set rs" for t using snoc.prems(1) that r by (auto simp: sorted_append)
  have s: "start \<le> now" using snoc.prems(2) r by simp
  show ?case
  proof (cases "dh_last_reset (recycled rs)")
    case None
    then show ?thesis using ih s unfolding step by (simp add: recycle_def r)
  next
    case (Some t)
    then have t: "0 < dh_client (recycled rs)" "start + 2000 * (dh_client (recycled rs) - 1) \<le> t" "t \<in> snd ` set rs"
      using ih by auto
    have "start + 2000 * dh_client (recycled rs) \<le> now" if "\<not> now - t < 2000"
      using t(1,2) later [OF t(3)] that by (cases "dh_client (recycled rs)") auto
    then show ?thesis using t Some unfolding step by (auto simp: recycle_def reset_cooldown_def r)
  qed
qed (simp add: recycled_def new_doh_client_def)

text \<open>
  However many queries over HTTPS time out between two moments, the client is built anew at most once every
  two seconds.
\<close>

theorem clients_are_rebuilt_every_two_seconds_at_most:
  assumes "sorted (map snd rs)" "\<forall>r \<in> set rs. start \<le> snd r \<and> snd r \<le> stop" "start \<le> stop"
  shows "dh_client (recycled rs) \<le> (stop - start) div 2000 + 1"
proof (cases "dh_last_reset (recycled rs)")
  case (Some t)
  then have "start + 2000 * (dh_client (recycled rs) - 1) \<le> stop" using recycled_bound [OF assms(1,2)] assms(2) by fastforce
  then have "dh_client (recycled rs) - 1 \<le> (stop - start) div 2000" by (simp add: less_eq_div_iff_mult_less_eq)
  then show ?thesis by simp
qed (use recycled_bound [OF assms(1,2)] in simp)

subsection \<open>Samples\<close>

theorem tcp_connection_ends_at_the_first_failure_witness:
  "handle_tcp_conn (\<lambda>q. if q = [2] then None else Some q) (concat (map dns_frame [[1], [2], [3]])) = dns_frame [1]"
  using tcp_connection_ends_at_the_first_failure [of "[[1], [2], [3]]" "\<lambda>q. if q = [2] then None else Some q"] by simp

theorem tcp_exchange_roundtrip_witness:
  "read_frame (handle_tcp_conn (\<lambda>q. Some (q @ replicate 12 7)) (dns_frame [1])) = Inr ([1] @ replicate 12 7, [])"
  using tcp_exchange_roundtrip [of "[1]" "\<lambda>q. Some (q @ replicate 12 7)"] by simp

definition large_query :: wire_msg where
  "large_query = sample_query\<lparr>wm_additionals := [(new_opt [])\<lparr>wr_class := 5000\<rparr>]\<rparr>"

theorem advertised_answers_are_not_cut_witness:
  "udp_recv (msg_bytes large_query) (replicate 5000 7) = replicate 5000 7"
proof (rule advertised_answers_are_not_cut)
  show "msg_ok large_query"
    by (simp add: msg_ok_def large_query_def sample_query_def question_ok_def rr_ok_def new_opt_def)
  have "advertised_size large_query = 5000"
    by (simp add: advertised_size_def large_query_def new_opt_def is_opt_def)
  then show "length (replicate 5000 (7 :: byte)) \<le> max (advertised_size large_query) 4096" by simp
qed

definition sample_lookup :: "nat \<Rightarrow> unit lookup" where
  "sample_lookup now = \<lparr>lo_env = \<lparr>hv_ip = (\<lambda>_. None), hv_name_ok = (\<lambda>_. True), hv_query_a = (\<lambda>_ _. Some [V4 1]),
       hv_query_aaaa = (\<lambda>_ _. None)\<rparr>, lo_now = now, lo_answered = now + 5, lo_host = ''d''\<rparr>"

theorem host_addresses_are_five_minutes_old_at_most_witness:
  "\<exists>answered. given_by [()] (set [sample_lookup 0, sample_lookup 1000]) ''d'' [V4 1] answered"
proof -
  have "look_up [()] (sample_lookup 1000) (caches_after [()] [sample_lookup 0])
      = (Inr [V4 1], caches_after [()] [sample_lookup 0])"
    by (simp add: caches_after_def look_up_def resolve_host_def sample_lookup_def query_a_aaaa_def cache_ttl_def)
  then show ?thesis
    using host_addresses_are_five_minutes_old_at_most [of "sample_lookup 1000" "[()]" "[sample_lookup 0]"]
    by (simp add: sample_lookup_def) blast
qed

theorem clients_are_rebuilt_every_two_seconds_at_most_witness:
  "dh_client (recycled [(True, 0), (True, 1000), (True, 2500)]) \<le> 2"
  using clients_are_rebuilt_every_two_seconds_at_most [of "[(True, 0), (True, 1000), (True, 2500)]" 0 2500] by simp

end
