(* ===== verification/Statistics.thy ===== *)
theory Statistics
  imports Dns_Resolver Rust_Text
begin

text \<open>
  The statistics, \<open>src/src/stats/mod.rs\<close>, and who feeds and reads them: \<open>handle_request\<close> of
  \<open>src/src/dns/listener.rs\<close>, the totals of \<open>src/src/stats/persistence.rs\<close>, and the answers of
  \<open>src/src/web/api.rs\<close> that show them.

  Counters are 64-bit words and wrap. Every update of the collector is one step (the counters are atomic
  and each is added to on its own). Parameters: the conversions of a latency, which pass through
  single-precision numbers, to the units of the averages, the new identifiers, and the order in which a
  hash map is walked.
\<close>

subsection \<open>State\<close>

record query_entry =
  qe_id :: string
  qe_time :: nat
  qe_client :: ip_addr
  qe_domain :: string
  qe_qtype :: string
  qe_upstream :: string
  qe_original_upstream :: string
  qe_rcode :: string
  qe_latency :: nat
  qe_upstream_latency :: "nat option"
  qe_rule :: "string option"
  qe_cached :: bool
  qe_blocked :: bool

record upstream_stat =
  ui_queries :: "64 word"
  ui_success :: "64 word"
  ui_failed :: "64 word"
  ui_latency_ema :: "64 word"
  ui_last_latency :: "64 word"

record stats_env =
  se_x1000 :: "nat \<Rightarrow> 64 word"
  se_micros :: "nat \<Rightarrow> 64 word"
  se_uuid :: string

record stats_collector =
  sc_total_queries :: "64 word"
  sc_total_blocked :: "64 word"
  sc_total_failed :: "64 word"
  sc_cache_hits :: "64 word"
  sc_hosts_hits :: "64 word"
  sc_latency_ema :: "64 word"
  sc_by_type :: "string \<Rightarrow> 64 word option"
  sc_by_rcode :: "string \<Rightarrow> 64 word option"
  sc_upstreams :: "string \<Rightarrow> upstream_stat option"
  sc_rules :: "string \<Rightarrow> 64 word option"
  sc_clients :: "ip_addr \<Rightarrow> 64 word option"
  sc_query_log :: "query_entry list"
  sc_log_capacity :: nat
  sc_persisted :: "query_entry list option"

definition new_stats :: "nat \<Rightarrow> stats_collector" where
  "new_stats query_log_capacity =
     \<lparr>sc_total_queries = 0, sc_total_blocked = 0, sc_total_failed = 0, sc_cache_hits = 0, sc_hosts_hits = 0,
      sc_latency_ema = 0, sc_by_type = Map.empty, sc_by_rcode = Map.empty, sc_upstreams = Map.empty,
      sc_rules = Map.empty, sc_clients = Map.empty, sc_query_log = [], sc_log_capacity = query_log_capacity,
      sc_persisted = None\<rparr>"

definition attach_persistence :: "stats_collector \<Rightarrow> stats_collector" where
  "attach_persistence s = s\<lparr>sc_persisted := Some []\<rparr>"

subsection \<open>Recording a query\<close>

definition bump :: "'k \<Rightarrow> ('k \<Rightarrow> 64 word option) \<Rightarrow> 'k \<Rightarrow> 64 word option" where
  "bump key m = m(key \<mapsto> (case m key of None \<Rightarrow> 0 | Some n \<Rightarrow> n) + 1)"

definition update_ema :: "64 word \<Rightarrow> 64 word \<Rightarrow> 64 word" where
  "update_ema observed current = (if current = 0 then observed else observed div 10 + current * 9 div 10)"

definition no_upstream_stat :: upstream_stat where
  "no_upstream_stat = \<lparr>ui_queries = 0, ui_success = 0, ui_failed = 0, ui_latency_ema = 0, ui_last_latency = 0\<rparr>"

definition upstream_record :: "bool \<Rightarrow> bool \<Rightarrow> 64 word option \<Rightarrow> upstream_stat \<Rightarrow> upstream_stat" where
  "upstream_record success record_as_failed latency_micros u =
     (let u1 = u\<lparr>ui_queries := ui_queries u + 1\<rparr>;
          u2 = (if success then u1\<lparr>ui_success := ui_success u1 + 1\<rparr>
                else if record_as_failed then u1\<lparr>ui_failed := ui_failed u1 + 1\<rparr> else u1)
      in case latency_micros of
           None \<Rightarrow> u2
         | Some lat \<Rightarrow> u2\<lparr>ui_last_latency := lat, ui_latency_ema := update_ema (lat * 1000) (ui_latency_ema u2)\<rparr>)"

definition bad_rcode :: "query_entry \<Rightarrow> bool" where
  "bad_rcode e \<longleftrightarrow> qe_rcode e \<noteq> ''NOERROR'' \<and> qe_rcode e \<noteq> ''Empty''"

definition record_totals :: "query_entry \<Rightarrow> stats_collector \<Rightarrow> stats_collector" where
  "record_totals e s =
     s\<lparr>sc_total_queries := sc_total_queries s + 1,
       sc_total_blocked := sc_total_blocked s + (if qe_blocked e then 1 else 0),
       sc_total_failed := sc_total_failed s + (if \<not> qe_blocked e \<and> bad_rcode e then 1 else 0),
       sc_cache_hits := sc_cache_hits s + (if qe_cached e then 1 else 0),
       sc_hosts_hits := sc_hosts_hits s
         + (if qe_upstream e = ''hosts'' \<or> qe_upstream e = ''dynamic-hosts'' then 1 else 0)\<rparr>"

definition record_latency :: "stats_env \<Rightarrow> query_entry \<Rightarrow> stats_collector \<Rightarrow> stats_collector" where
  "record_latency v e s =
     (case qe_upstream_latency e of
        Some lat \<Rightarrow> if qe_blocked e then s else s\<lparr>sc_latency_ema := update_ema (se_x1000 v lat) (sc_latency_ema s)\<rparr>
      | None \<Rightarrow> s)"

definition record_buckets :: "query_entry \<Rightarrow> stats_collector \<Rightarrow> stats_collector" where
  "record_buckets e s =
     s\<lparr>sc_by_type := bump (qe_qtype e) (sc_by_type s), sc_by_rcode := bump (qe_rcode e) (sc_by_rcode s),
       sc_clients := bump (qe_client e) (sc_clients s)\<rparr>"

definition has_upstream :: "query_entry \<Rightarrow> bool" where
  "has_upstream e \<longleftrightarrow> qe_original_upstream e \<notin> {'''', ''strategy'', ''hosts'', ''dynamic-hosts''}"

definition record_upstream :: "stats_env \<Rightarrow> query_entry \<Rightarrow> stats_collector \<Rightarrow> stats_collector" where
  "record_upstream v e s =
     (let key = qe_original_upstream e
      in if has_upstream e then
           s\<lparr>sc_upstreams := (sc_upstreams s)(key \<mapsto>
               upstream_record (\<not> qe_blocked e \<and> qe_rcode e = ''NOERROR'') (\<not> qe_blocked e \<and> bad_rcode e)
                 (if qe_blocked e then None else map_option (se_micros v) (qe_upstream_latency e))
                 (case sc_upstreams s key of None \<Rightarrow> no_upstream_stat | Some u \<Rightarrow> u))\<rparr>
         else s)"

definition record_rule :: "query_entry \<Rightarrow> stats_collector \<Rightarrow> stats_collector" where
  "record_rule e s = (case qe_rule e of None \<Rightarrow> s | Some r \<Rightarrow> s\<lparr>sc_rules := bump r (sc_rules s)\<rparr>)"

definition with_id :: "stats_env \<Rightarrow> query_entry \<Rightarrow> query_entry" where
  "with_id v e = (if qe_id e = [] then e\<lparr>qe_id := se_uuid v\<rparr> else e)"

definition record_log :: "stats_env \<Rightarrow> query_entry \<Rightarrow> stats_collector \<Rightarrow> stats_collector" where
  "record_log v e s =
     (let kept = (if sc_log_capacity s \<le> length (sc_query_log s) then tl (sc_query_log s) else sc_query_log s)
      in s\<lparr>sc_query_log := kept @ [with_id v e]\<rparr>)"

definition send_persisted :: "stats_env \<Rightarrow> query_entry \<Rightarrow> stats_collector \<Rightarrow> stats_collector" where
  "send_persisted v e s = s\<lparr>sc_persisted := map_option (\<lambda>sent. sent @ [with_id v e]) (sc_persisted s)\<rparr>"

definition record_query :: "stats_env \<Rightarrow> query_entry \<Rightarrow> stats_collector \<Rightarrow> stats_collector" where
  "record_query v e s =
     send_persisted v e (record_log v e (record_rule e (record_upstream v e (record_buckets e
       (record_latency v e (record_totals e s))))))"

subsection \<open>Totals across restarts\<close>

text \<open>
  The table of the totals, as SQLite keeps it: signed 64-bit numbers under their names. \<open>value as i64\<close> and
  \<open>v as u64\<close> keep the bits.
\<close>

type_synonym totals_table = "string \<Rightarrow> int option"

definition stored_total :: "totals_table \<Rightarrow> string \<Rightarrow> 64 word" where
  "stored_total t key = (case t key of Some i \<Rightarrow> word_of_int i | None \<Rightarrow> 0)"

definition restore_totals :: "totals_table \<Rightarrow> stats_collector \<Rightarrow> stats_collector" where
  "restore_totals t s =
     s\<lparr>sc_total_queries := stored_total t ''total_queries'', sc_total_blocked := stored_total t ''total_blocked'',
       sc_total_failed := stored_total t ''total_failed'', sc_cache_hits := stored_total t ''cache_hits'',
       sc_hosts_hits := stored_total t ''hosts_hits''\<rparr>"

definition flush_totals :: "stats_collector \<Rightarrow> totals_table \<Rightarrow> totals_table" where
  "flush_totals s t = t(''total_queries'' \<mapsto> sint (sc_total_queries s), ''total_blocked'' \<mapsto> sint (sc_total_blocked s),
     ''total_failed'' \<mapsto> sint (sc_total_failed s), ''cache_hits'' \<mapsto> sint (sc_cache_hits s),
     ''hosts_hits'' \<mapsto> sint (sc_hosts_hits s))"

text \<open>What \<open>run\<close> sets up at the start, from the configured size of the log.\<close>

definition start_stats :: "nat \<Rightarrow> totals_table option \<Rightarrow> stats_collector" where
  "start_stats query_log_size db =
     (let s = new_stats (max query_log_size 1)
      in case db of None \<Rightarrow> s | Some t \<Rightarrow> attach_persistence (restore_totals t s))"

subsection \<open>The listener\<close>

definition answered_entry :: "ip_addr \<Rightarrow> nat \<Rightarrow> nat \<Rightarrow> resolve_meta \<Rightarrow> query_entry" where
  "answered_entry client now latency m =
     \<lparr>qe_id = [], qe_time = now, qe_client = client, qe_domain = rm_domain m, qe_qtype = rm_qtype m,
      qe_upstream = rm_upstream m, qe_original_upstream = rm_original_upstream m, qe_rcode = rm_rcode m,
      qe_latency = latency, qe_upstream_latency = rm_latency m, qe_rule = rm_rule m, qe_cached = rm_cached m,
      qe_blocked = rm_blocked m\<rparr>"

definition failed_entry :: "(16 word \<Rightarrow> string) \<Rightarrow> ip_addr \<Rightarrow> nat \<Rightarrow> nat \<Rightarrow> dns_message \<Rightarrow> query_entry" where
  "failed_entry qtype_name client now latency request =
     \<lparr>qe_id = [], qe_time = now, qe_client = client,
      qe_domain = (case m_queries request of [] \<Rightarrow> [] | (name, _) # _ \<Rightarrow> name),
      qe_qtype = (case m_queries request of [] \<Rightarrow> [] | (_, t) # _ \<Rightarrow> qtype_name t),
      qe_upstream = ''error'', qe_original_upstream = ''error'', qe_rcode = ''SERVFAIL'', qe_latency = latency,
      qe_upstream_latency = None, qe_rule = None, qe_cached = False, qe_blocked = False\<rparr>"

text \<open>The answer to send: none when the query failed.\<close>

definition handle_dns_request :: "'s dns_env \<Rightarrow> stats_env \<Rightarrow> router \<Rightarrow> ip_addr \<Rightarrow> nat \<Rightarrow> nat \<Rightarrow> dns_message
    \<Rightarrow> 's resolver \<times> stats_collector option \<Rightarrow> ('s resolver \<times> stats_collector option) \<times> dns_message option" where
  "handle_dns_request v w r peer now latency request state =
     (case state of (s, stats) \<Rightarrow>
        case resolve_with_meta v r request s of
          (s', Inr (response, m)) \<Rightarrow>
            ((s', map_option (record_query w (answered_entry peer now latency m)) stats), Some response)
        | (s', Inl e) \<Rightarrow>
            ((s', map_option (record_query w (failed_entry (de_qtype_name v) peer now latency request)) stats), None))"

subsection \<open>What the panel gets\<close>

definition snapshot_query_log :: "nat \<Rightarrow> stats_collector \<Rightarrow> query_entry list" where
  "snapshot_query_log limit s = take (min limit (length (sc_query_log s))) (rev (sc_query_log s))"

definition snapshot_upstreams :: "((string \<Rightarrow> upstream_stat option) \<Rightarrow> (string \<times> upstream_stat) list)
    \<Rightarrow> stats_collector \<Rightarrow> (string \<times> upstream_stat) list" where
  "snapshot_upstreams order s = sort_key (\<lambda>(name, u). - uint (ui_queries u)) (order (sc_upstreams s))"

definition snapshot_rules :: "((string \<Rightarrow> 64 word option) \<Rightarrow> (string \<times> 64 word) list)
    \<Rightarrow> stats_collector \<Rightarrow> (string \<times> 64 word) list" where
  "snapshot_rules order s = sort_key (\<lambda>(name, n). - uint n) (order (sc_rules s))"

definition snapshot_clients :: "((ip_addr \<Rightarrow> 64 word option) \<Rightarrow> (ip_addr \<times> 64 word) list) \<Rightarrow> nat
    \<Rightarrow> stats_collector \<Rightarrow> (ip_addr \<times> 64 word) list" where
  "snapshot_clients order limit s = take limit (sort_key (\<lambda>(ip, n). - uint n) (order (sc_clients s)))"

text \<open>
  \<open>GET /api/querylog\<close>: the parameters with their defaults, and the rows. \<open>history\<close> is what the database
  answers to a limit and two filters; without a database the history is not available.
\<close>

record query_log_params =
  qp_limit :: nat
  qp_domain :: "string option"
  qp_client :: "string option"
  qp_history :: bool

text \<open>A missing field has its default; a text that is no value of its type, or a key given twice, is refused.\<close>

definition read_query_log_params :: "(string \<times> string) list \<Rightarrow> query_log_params option" where
  "read_query_log_params ps =
     (if \<not> distinct (map fst ps) then None
      else Option.bind (case map_of ps ''limit'' of None \<Rightarrow> Some 100 | Some t \<Rightarrow> parse_u64 t) (\<lambda>limit.
           Option.bind (case map_of ps ''history'' of
                          None \<Rightarrow> Some False
                        | Some t \<Rightarrow> if t = ''true'' then Some True else if t = ''false'' then Some False else None) (\<lambda>history.
             Some \<lparr>qp_limit = limit, qp_domain = map_of ps ''domain'', qp_client = map_of ps ''client'',
                   qp_history = history\<rparr>)))"

datatype log_error = HistoryFailed string | NoPersistence

definition querylog :: "(nat \<Rightarrow> string option \<Rightarrow> string option \<Rightarrow> string + query_entry list) option
    \<Rightarrow> query_log_params \<Rightarrow> stats_collector \<Rightarrow> log_error + query_entry list" where
  "querylog history p s =
     (if qp_history p then
        (case history of
           None \<Rightarrow> Inl NoPersistence
         | Some q \<Rightarrow> (case q (qp_limit p) (qp_domain p) (qp_client p) of
                        Inl e \<Rightarrow> Inl (HistoryFailed e) | Inr rows \<Rightarrow> Inr rows))
      else Inr (snapshot_query_log (qp_limit p) s))"

end
