(* ===== verification/Statistics_Properties.thy ===== *)
theory Statistics_Properties
  imports Statistics Query_Log Dns_Properties Dashboard_Properties
begin

text \<open>
  What the statistics are: the counters are those of the queries recorded, the log holds the latest of
  them, the averages stay within the latencies, the totals survive a restart. And what they show: an
  upstream that is down, and the log under its filters.
\<close>

subsection \<open>Recording many queries\<close>

definition record_all :: "(stats_env \<times> query_entry) list \<Rightarrow> stats_collector \<Rightarrow> stats_collector" where
  "record_all = fold (\<lambda>(v, e). record_query v e)"

definition count_of :: "(query_entry \<Rightarrow> bool) \<Rightarrow> query_entry list \<Rightarrow> nat" where
  "count_of P es = length (filter P es)"

definition counted :: "(query_entry \<Rightarrow> bool) \<Rightarrow> query_entry list \<Rightarrow> 64 word option" where
  "counted P es = (if list_ex P es then Some (word_of_nat (count_of P es)) else None)"

lemma record_all_snoc: "record_all (ws @ [(v, e)]) s = record_query v e (record_all ws s)"
  by (simp add: record_all_def)

lemma record_all_Nil [simp]: "record_all [] s = s"
  by (simp add: record_all_def)

lemma record_totals_keeps [simp]:
  "sc_latency_ema (record_totals e s) = sc_latency_ema s"
  "sc_by_type (record_totals e s) = sc_by_type s"
  "sc_by_rcode (record_totals e s) = sc_by_rcode s"
  "sc_upstreams (record_totals e s) = sc_upstreams s"
  "sc_rules (record_totals e s) = sc_rules s"
  "sc_clients (record_totals e s) = sc_clients s"
  "sc_query_log (record_totals e s) = sc_query_log s"
  "sc_log_capacity (record_totals e s) = sc_log_capacity s"
  "sc_persisted (record_totals e s) = sc_persisted s"
  by (simp_all add: record_totals_def split: option.splits)

lemma record_latency_keeps [simp]:
  "sc_total_queries (record_latency v e s) = sc_total_queries s"
  "sc_total_blocked (record_latency v e s) = sc_total_blocked s"
  "sc_total_failed (record_latency v e s) = sc_total_failed s"
  "sc_cache_hits (record_latency v e s) = sc_cache_hits s"
  "sc_hosts_hits (record_latency v e s) = sc_hosts_hits s"
  "sc_by_type (record_latency v e s) = sc_by_type s"
  "sc_by_rcode (record_latency v e s) = sc_by_rcode s"
  "sc_upstreams (record_latency v e s) = sc_upstreams s"
  "sc_rules (record_latency v e s) = sc_rules s"
  "sc_clients (record_latency v e s) = sc_clients s"
  "sc_query_log (record_latency v e s) = sc_query_log s"
  "sc_log_capacity (record_latency v e s) = sc_log_capacity s"
  "sc_persisted (record_latency v e s) = sc_persisted s"
  by (simp_all add: record_latency_def split: option.splits)

lemma record_buckets_keeps [simp]:
  "sc_total_queries (record_buckets e s) = sc_total_queries s"
  "sc_total_blocked (record_buckets e s) = sc_total_blocked s"
  "sc_total_failed (record_buckets e s) = sc_total_failed s"
  "sc_cache_hits (record_buckets e s) = sc_cache_hits s"
  "sc_hosts_hits (record_buckets e s) = sc_hosts_hits s"
  "sc_latency_ema (record_buckets e s) = sc_latency_ema s"
  "sc_upstreams (record_buckets e s) = sc_upstreams s"
  "sc_rules (record_buckets e s) = sc_rules s"
  "sc_query_log (record_buckets e s) = sc_query_log s"
  "sc_log_capacity (record_buckets e s) = sc_log_capacity s"
  "sc_persisted (record_buckets e s) = sc_persisted s"
  by (simp_all add: record_buckets_def split: option.splits)

lemma record_upstream_keeps [simp]:
  "sc_total_queries (record_upstream v e s) = sc_total_queries s"
  "sc_total_blocked (record_upstream v e s) = sc_total_blocked s"
  "sc_total_failed (record_upstream v e s) = sc_total_failed s"
  "sc_cache_hits (record_upstream v e s) = sc_cache_hits s"
  "sc_hosts_hits (record_upstream v e s) = sc_hosts_hits s"
  "sc_latency_ema (record_upstream v e s) = sc_latency_ema s"
  "sc_by_type (record_upstream v e s) = sc_by_type s"
  "sc_by_rcode (record_upstream v e s) = sc_by_rcode s"
  "sc_rules (record_upstream v e s) = sc_rules s"
  "sc_clients (record_upstream v e s) = sc_clients s"
  "sc_query_log (record_upstream v e s) = sc_query_log s"
  "sc_log_capacity (record_upstream v e s) = sc_log_capacity s"
  "sc_persisted (record_upstream v e s) = sc_persisted s"
  by (simp_all add: record_upstream_def Let_def split: option.splits)

lemma record_rule_keeps [simp]:
  "sc_total_queries (record_rule e s) = sc_total_queries s"
  "sc_total_blocked (record_rule e s) = sc_total_blocked s"
  "sc_total_failed (record_rule e s) = sc_total_failed s"
  "sc_cache_hits (record_rule e s) = sc_cache_hits s"
  "sc_hosts_hits (record_rule e s) = sc_hosts_hits s"
  "sc_latency_ema (record_rule e s) = sc_latency_ema s"
  "sc_by_type (record_rule e s) = sc_by_type s"
  "sc_by_rcode (record_rule e s) = sc_by_rcode s"
  "sc_upstreams (record_rule e s) = sc_upstreams s"
  "sc_clients (record_rule e s) = sc_clients s"
  "sc_query_log (record_rule e s) = sc_query_log s"
  "sc_log_capacity (record_rule e s) = sc_log_capacity s"
  "sc_persisted (record_rule e s) = sc_persisted s"
  by (simp_all add: record_rule_def split: option.splits)

lemma record_log_keeps [simp]:
  "sc_total_queries (record_log v e s) = sc_total_queries s"
  "sc_total_blocked (record_log v e s) = sc_total_blocked s"
  "sc_total_failed (record_log v e s) = sc_total_failed s"
  "sc_cache_hits (record_log v e s) = sc_cache_hits s"
  "sc_hosts_hits (record_log v e s) = sc_hosts_hits s"
  "sc_latency_ema (record_log v e s) = sc_latency_ema s"
  "sc_by_type (record_log v e s) = sc_by_type s"
  "sc_by_rcode (record_log v e s) = sc_by_rcode s"
  "sc_upstreams (record_log v e s) = sc_upstreams s"
  "sc_rules (record_log v e s) = sc_rules s"
  "sc_clients (record_log v e s) = sc_clients s"
  "sc_log_capacity (record_log v e s) = sc_log_capacity s"
  "sc_persisted (record_log v e s) = sc_persisted s"
  by (simp_all add: record_log_def Let_def split: option.splits)

lemma send_persisted_keeps [simp]:
  "sc_total_queries (send_persisted v e s) = sc_total_queries s"
  "sc_total_blocked (send_persisted v e s) = sc_total_blocked s"
  "sc_total_failed (send_persisted v e s) = sc_total_failed s"
  "sc_cache_hits (send_persisted v e s) = sc_cache_hits s"
  "sc_hosts_hits (send_persisted v e s) = sc_hosts_hits s"
  "sc_latency_ema (send_persisted v e s) = sc_latency_ema s"
  "sc_by_type (send_persisted v e s) = sc_by_type s"
  "sc_by_rcode (send_persisted v e s) = sc_by_rcode s"
  "sc_upstreams (send_persisted v e s) = sc_upstreams s"
  "sc_rules (send_persisted v e s) = sc_rules s"
  "sc_clients (send_persisted v e s) = sc_clients s"
  "sc_query_log (send_persisted v e s) = sc_query_log s"
  "sc_log_capacity (send_persisted v e s) = sc_log_capacity s"
  by (simp_all add: send_persisted_def split: option.splits)

lemma record_steps_set [simp]:
  "sc_total_queries (record_totals e s) = sc_total_queries s + 1"
  "sc_total_blocked (record_totals e s) = sc_total_blocked s + (if qe_blocked e then 1 else 0)"
  "sc_total_failed (record_totals e s) = sc_total_failed s + (if \<not> qe_blocked e \<and> bad_rcode e then 1 else 0)"
  "sc_cache_hits (record_totals e s) = sc_cache_hits s + (if qe_cached e then 1 else 0)"
  "sc_hosts_hits (record_totals e s)
     = sc_hosts_hits s + (if qe_upstream e = ''hosts'' \<or> qe_upstream e = ''dynamic-hosts'' then 1 else 0)"
  "sc_by_type (record_buckets e s) = bump (qe_qtype e) (sc_by_type s)"
  "sc_by_rcode (record_buckets e s) = bump (qe_rcode e) (sc_by_rcode s)"
  "sc_clients (record_buckets e s) = bump (qe_client e) (sc_clients s)"
  by (simp_all add: record_totals_def record_buckets_def)

lemma record_steps_value:
  "sc_rules (record_rule e s) = (case qe_rule e of None \<Rightarrow> sc_rules s | Some r \<Rightarrow> bump r (sc_rules s))"
  "sc_latency_ema (record_latency v e s) = (case qe_upstream_latency e of
     Some lat \<Rightarrow> if qe_blocked e then sc_latency_ema s else update_ema (se_x1000 v lat) (sc_latency_ema s)
   | None \<Rightarrow> sc_latency_ema s)"
  "sc_query_log (record_log v e s) = (if sc_log_capacity s \<le> length (sc_query_log s)
     then tl (sc_query_log s) else sc_query_log s) @ [with_id v e]"
  by (simp_all add: record_rule_def record_latency_def record_log_def Let_def split: option.splits)

lemma record_query_sel:
  "sc_total_queries (record_query v e s) = sc_total_queries s + 1"
  "sc_total_blocked (record_query v e s) = sc_total_blocked s + (if qe_blocked e then 1 else 0)"
  "sc_total_failed (record_query v e s) = sc_total_failed s + (if \<not> qe_blocked e \<and> bad_rcode e then 1 else 0)"
  "sc_cache_hits (record_query v e s) = sc_cache_hits s + (if qe_cached e then 1 else 0)"
  "sc_hosts_hits (record_query v e s)
     = sc_hosts_hits s + (if qe_upstream e = ''hosts'' \<or> qe_upstream e = ''dynamic-hosts'' then 1 else 0)"
  "sc_by_type (record_query v e s) = bump (qe_qtype e) (sc_by_type s)"
  "sc_by_rcode (record_query v e s) = bump (qe_rcode e) (sc_by_rcode s)"
  "sc_clients (record_query v e s) = bump (qe_client e) (sc_clients s)"
  "sc_rules (record_query v e s) = (case qe_rule e of None \<Rightarrow> sc_rules s | Some r \<Rightarrow> bump r (sc_rules s))"
  "sc_log_capacity (record_query v e s) = sc_log_capacity s"
  "sc_query_log (record_query v e s) = (if sc_log_capacity s \<le> length (sc_query_log s)
     then tl (sc_query_log s) else sc_query_log s) @ [with_id v e]"
  "sc_latency_ema (record_query v e s) = (case qe_upstream_latency e of
     Some lat \<Rightarrow> if qe_blocked e then sc_latency_ema s else update_ema (se_x1000 v lat) (sc_latency_ema s)
   | None \<Rightarrow> sc_latency_ema s)"
  by (simp_all add: record_query_def record_steps_value split: option.split)

lemma record_query_upstreams:
  "sc_upstreams (record_query v e s) u =
     (if has_upstream e \<and> u = qe_original_upstream e then
        Some (upstream_record (\<not> qe_blocked e \<and> qe_rcode e = ''NOERROR'') (\<not> qe_blocked e \<and> bad_rcode e)
          (if qe_blocked e then None else map_option (se_micros v) (qe_upstream_latency e))
          (case sc_upstreams s u of None \<Rightarrow> no_upstream_stat | Some x \<Rightarrow> x))
      else sc_upstreams s u)"
  by (simp add: record_query_def record_upstream_def Let_def)

lemma count_of_snoc: "count_of P (es @ [e]) = count_of P es + (if P e then 1 else 0)"
  by (simp add: count_of_def)

lemma counted_Nil [simp]: "counted P [] = None"
  by (simp add: counted_def)

lemma count_of_Nil [simp]: "count_of P [] = 0"
  by (simp add: count_of_def)

lemma count_of_none: "\<not> list_ex P es \<Longrightarrow> count_of P es = 0"
  by (induction es) (auto simp: count_of_def)

lemma counted_snoc: "P e \<Longrightarrow> counted P (es @ [e]) = Some (word_of_nat (count_of P es) + 1)"
  by (simp add: counted_def count_of_snoc add.commute)

lemma counted_value: "(case counted P es of None \<Rightarrow> 0 | Some n \<Rightarrow> n) = word_of_nat (count_of P es)"
  by (simp add: counted_def count_of_none)

lemma counted_skip: "\<not> P e \<Longrightarrow> counted P (es @ [e]) = counted P es"
  by (simp add: counted_def count_of_snoc)

lemma bump_counted:
  assumes "\<And>k. m k = counted (\<lambda>e. f e = k) es"
  shows "bump (f e) m k = counted (\<lambda>e. f e = k) (es @ [e])"
proof (cases "f e = k")
  case True
  then show ?thesis by (simp add: bump_def assms counted_value counted_snoc)
qed (simp add: bump_def assms counted_skip)

definition totals_match :: "query_entry list \<Rightarrow> stats_collector \<Rightarrow> bool" where
  "totals_match es s \<longleftrightarrow>
     sc_total_queries s = word_of_nat (length es)
     \<and> sc_total_blocked s = word_of_nat (count_of qe_blocked es)
     \<and> sc_total_failed s = word_of_nat (count_of (\<lambda>e. \<not> qe_blocked e \<and> bad_rcode e) es)
     \<and> sc_cache_hits s = word_of_nat (count_of qe_cached es)
     \<and> sc_hosts_hits s = word_of_nat (count_of (\<lambda>e. qe_upstream e \<in> {''hosts'', ''dynamic-hosts''}) es)"

definition buckets_match :: "query_entry list \<Rightarrow> stats_collector \<Rightarrow> bool" where
  "buckets_match es s \<longleftrightarrow>
     (\<forall>t. sc_by_type s t = counted (\<lambda>e. qe_qtype e = t) es)
     \<and> (\<forall>c. sc_by_rcode s c = counted (\<lambda>e. qe_rcode e = c) es)
     \<and> (\<forall>i. sc_clients s i = counted (\<lambda>e. qe_client e = i) es)
     \<and> (\<forall>r. sc_rules s r = counted (\<lambda>e. qe_rule e = Some r) es)"

definition attributed :: "string \<Rightarrow> query_entry \<Rightarrow> bool" where
  "attributed u e \<longleftrightarrow> has_upstream e \<and> qe_original_upstream e = u"

definition upstreams_match :: "query_entry list \<Rightarrow> stats_collector \<Rightarrow> bool" where
  "upstreams_match es s \<longleftrightarrow>
     (\<forall>u. map_option ui_queries (sc_upstreams s u) = counted (attributed u) es
      \<and> (case sc_upstreams s u of None \<Rightarrow> True | Some x \<Rightarrow>
           ui_success x = word_of_nat (count_of (\<lambda>e. attributed u e \<and> \<not> qe_blocked e \<and> qe_rcode e = ''NOERROR'') es)
         \<and> ui_failed x = word_of_nat (count_of (\<lambda>e. attributed u e \<and> \<not> qe_blocked e \<and> bad_rcode e) es)))"

lemma totals_step: "totals_match es s \<Longrightarrow> totals_match (es @ [e]) (record_query v e s)"
  by (auto simp: totals_match_def record_query_sel count_of_snoc)

lemma buckets_step:
  assumes "buckets_match es s"
  shows "buckets_match (es @ [e]) (record_query v e s)"
proof -
  have rules: "sc_rules s r = counted (\<lambda>e. qe_rule e = Some r) es" for r
    using assms by (simp add: buckets_match_def)
  have "sc_rules (record_query v e s) r = counted (\<lambda>e. qe_rule e = Some r) (es @ [e])" for r
  proof (cases "qe_rule e = Some r")
    case True
    then show ?thesis by (simp add: record_query_sel bump_def rules counted_value counted_snoc)
  next
    case False
    then show ?thesis
      by (cases "qe_rule e") (simp_all add: record_query_sel bump_def rules counted_skip)
  qed
  then show ?thesis using assms by (simp add: buckets_match_def record_query_sel(6-8) bump_counted)
qed

lemma upstream_record_counts:
  "ui_queries (upstream_record ok bad lat x) = ui_queries x + 1"
  "ui_success (upstream_record ok bad lat x) = ui_success x + (if ok then 1 else 0)"
  "ui_failed (upstream_record ok bad lat x) = ui_failed x + (if \<not> ok \<and> bad then 1 else 0)"
  by (simp_all add: upstream_record_def Let_def split: option.splits)

lemma upstreams_step:
  assumes "upstreams_match es s"
  shows "upstreams_match (es @ [e]) (record_query v e s)"
  unfolding upstreams_match_def
proof (intro allI)
  fix u
  have ih: "map_option ui_queries (sc_upstreams s u) = counted (attributed u) es"
    "case sc_upstreams s u of None \<Rightarrow> True | Some x \<Rightarrow>
       ui_success x = word_of_nat (count_of (\<lambda>e. attributed u e \<and> \<not> qe_blocked e \<and> qe_rcode e = ''NOERROR'') es)
     \<and> ui_failed x = word_of_nat (count_of (\<lambda>e. attributed u e \<and> \<not> qe_blocked e \<and> bad_rcode e) es)"
    using assms by (simp_all add: upstreams_match_def)
  have none: "count_of (\<lambda>e. attributed u e \<and> Q e) es = 0" if "sc_upstreams s u = None" for Q
  proof -
    have "\<not> list_ex (attributed u) es" using ih(1) that by (auto simp: counted_def split: if_splits)
    then show ?thesis by (intro count_of_none) (auto simp: list_ex_iff)
  qed
  show "map_option ui_queries (sc_upstreams (record_query v e s) u) = counted (attributed u) (es @ [e])
      \<and> (case sc_upstreams (record_query v e s) u of None \<Rightarrow> True | Some x \<Rightarrow>
           ui_success x = word_of_nat (count_of (\<lambda>e. attributed u e \<and> \<not> qe_blocked e \<and> qe_rcode e = ''NOERROR'') (es @ [e]))
         \<and> ui_failed x = word_of_nat (count_of (\<lambda>e. attributed u e \<and> \<not> qe_blocked e \<and> bad_rcode e) (es @ [e])))"
  proof (cases "attributed u e")
    case False
    then have "sc_upstreams (record_query v e s) u = sc_upstreams s u"
      by (auto simp: record_query_upstreams attributed_def)
    then show ?thesis using ih False
      by (cases "sc_upstreams s u") (simp_all add: counted_skip count_of_snoc)
  next
    case True
    then have new: "sc_upstreams (record_query v e s) u = Some (upstream_record
        (\<not> qe_blocked e \<and> qe_rcode e = ''NOERROR'') (\<not> qe_blocked e \<and> bad_rcode e)
        (if qe_blocked e then None else map_option (se_micros v) (qe_upstream_latency e))
        (case sc_upstreams s u of None \<Rightarrow> no_upstream_stat | Some x \<Rightarrow> x))"
      by (simp add: record_query_upstreams attributed_def)
    have bad: "bad_rcode e \<Longrightarrow> qe_rcode e \<noteq> ''NOERROR''" by (simp add: bad_rcode_def)
    show ?thesis
    proof (cases "sc_upstreams s u")
      case None
      then show ?thesis using ih(1) True bad none [OF None] none [OF None, of "\<lambda>_. True"]
        by (simp add: new upstream_record_counts no_upstream_stat_def counted_snoc count_of_snoc)
    next
      case (Some x)
      have "ui_queries x = word_of_nat (count_of (attributed u) es)"
        using ih(1) Some counted_value [of "attributed u" es] by (metis option.simps(5,9))
      then show ?thesis using ih(2) Some True bad
        by (simp add: new upstream_record_counts counted_snoc count_of_snoc add.commute)
    qed
  qed
qed


subsection \<open>The log\<close>

definition without_id :: "query_entry \<Rightarrow> query_entry" where
  "without_id e = e\<lparr>qe_id := []\<rparr>"

lemma without_with_id [simp]: "without_id (with_id v e) = without_id e"
  by (simp add: without_id_def with_id_def)

lemma record_all_capacity [simp]: "sc_log_capacity (record_all ws s) = sc_log_capacity s"
  by (induction ws arbitrary: s) (auto simp: record_all_def record_query_sel)

lemma recorded_log:
  "map without_id (sc_query_log (record_all ws (new_stats cap)))
     = drop (length ws - max cap 1) (map (without_id \<circ> snd) ws)"
proof (induction ws rule: rev_induct)
  case Nil
  then show ?case by (simp add: new_stats_def)
next
  case (snoc w ws)
  obtain v e where w: "w = (v, e)" by fastforce
  let ?log = "sc_query_log (record_all ws (new_stats cap))"
  have len: "length ?log = length ws - (length ws - max cap 1)"
    using arg_cong [OF snoc, of length] by simp
  have cap: "sc_log_capacity (new_stats cap) = cap" by (simp add: new_stats_def)
  have "map without_id (if cap \<le> length ?log then tl ?log else ?log)
      = drop (Suc (length ws) - max cap 1) (map (without_id \<circ> snd) ws)"
  proof (cases "cap \<le> length ?log")
    case True
    then have "tl (drop (length ws - max cap 1) (map (without_id \<circ> snd) ws))
        = drop (Suc (length ws) - max cap 1) (map (without_id \<circ> snd) ws)"
      using len by (cases "length ws = 0") (auto simp: tl_drop drop_Suc [symmetric] Suc_diff_le max_def)
    then show ?thesis using True snoc by (simp add: map_tl comp_def)
  next
    case False
    moreover have "length ?log = min (length ws) (max cap 1)" using len by simp
    ultimately have "length ws < max cap 1 \<or> ws = []" by (cases ws) (auto simp: min_def max_def split: if_splits)
    then show ?thesis using False snoc by auto
  qed
  then show ?case by (simp add: w record_all_snoc record_query_sel cap Suc_diff_le comp_def)
qed

text \<open>
  The log is the latest queries, newest first: after any queries the panel is shown as many of them
  as it asks for and the configured size of the log allows (one, if that is 0), and nothing else; only
  the identifiers are made up.
\<close>

theorem log_holds_the_latest_queries:
  "map without_id (snapshot_query_log limit (record_all ws (new_stats cap)))
     = take (min limit (max cap 1)) (rev (map (without_id \<circ> snd) ws))"
proof -
  let ?log = "sc_query_log (record_all ws (new_stats cap))" and ?es = "map (without_id \<circ> snd) ws"
  have "map without_id (snapshot_query_log limit (record_all ws (new_stats cap)))
      = take (min limit (length ?log)) (rev (map without_id ?log))"
    by (simp add: snapshot_query_log_def rev_map take_map)
  moreover have "length ?log = length ws - (length ws - max cap 1)"
    using arg_cong [OF recorded_log, of length] by simp
  moreover have "rev (drop (length ws - max cap 1) ?es) = take (length ws - (length ws - max cap 1)) (rev ?es)"
    by (simp add: rev_drop)
  ultimately have "map without_id (snapshot_query_log limit (record_all ws (new_stats cap)))
      = take (min (min limit (length ws - (length ws - max cap 1))) (length ws - (length ws - max cap 1))) (rev ?es)"
    by (simp add: recorded_log)
  moreover have "take (min (min limit (length ws - (length ws - max cap 1))) (length ws - (length ws - max cap 1))) (rev ?es)
      = take (min limit (max cap 1)) (rev ?es)"
    by (cases "length ws \<le> max cap 1") (simp_all add: min_def take_all_iff)
  ultimately show ?thesis by simp
qed

subsection \<open>The average latency\<close>

definition ema_in_range :: "nat \<Rightarrow> nat \<Rightarrow> 64 word \<Rightarrow> bool" where
  "ema_in_range lo hi w \<longleftrightarrow> lo \<le> unat w + 18 \<and> unat w \<le> hi"

lemma update_ema_range:
  assumes "lo \<le> unat x" "unat x \<le> hi" "9 * hi < 2 ^ 64" "current = 0 \<or> ema_in_range lo hi current"
  shows "ema_in_range lo hi (update_ema x current)"
proof (cases "current = 0")
  case False
  then have c: "lo \<le> unat current + 18" "unat current \<le> hi" using assms(4) by (simp_all add: ema_in_range_def)
  have "unat (current * 9) = unat current * 9"
    using c(2) assms(3) by (simp add: unat_word_ariths)
  moreover have "unat x div 10 + unat current * 9 div 10 < 2 ^ 64"
    using c(2) assms(2,3) by linarith
  ultimately have r: "unat (x div 10 + current * 9 div 10) = unat x div 10 + unat current * 9 div 10"
    by (simp add: unat_word_ariths unat_div)
  have "lo \<le> unat x div 10 + unat current * 9 div 10 + 18" "unat x div 10 + unat current * 9 div 10 \<le> hi"
    using assms(1,2) c by linarith+
  then show ?thesis using False by (simp add: update_ema_def ema_in_range_def r)
qed (use assms(1,2) in \<open>simp add: update_ema_def ema_in_range_def\<close>)

definition measured :: "stats_env \<times> query_entry \<Rightarrow> 64 word option" where
  "measured = (\<lambda>(v, e). if qe_blocked e then None else map_option (se_x1000 v) (qe_upstream_latency e))"

definition sample_stats_env :: stats_env where
  "sample_stats_env = \<lparr>se_x1000 = (\<lambda>l. word_of_nat l * 1000), se_micros = word_of_nat, se_uuid = ''id''\<rparr>"

definition sample_entry :: "string \<Rightarrow> string \<Rightarrow> nat \<Rightarrow> query_entry" where
  "sample_entry upstream rcode latency =
     \<lparr>qe_id = [], qe_time = 0, qe_client = V4 7, qe_domain = ''a.'', qe_qtype = ''A'', qe_upstream = upstream,
      qe_original_upstream = upstream, qe_rcode = rcode, qe_latency = latency, qe_upstream_latency = Some latency,
      qe_rule = None, qe_cached = False, qe_blocked = False\<rparr>"

text \<open>
  The average latency stays between the smallest and the largest latency measured, up to 18 units of
  its 10^-6 milliseconds that the whole-number divisions lose, however many queries there were; queries
  that were blocked or asked no upstream do not move it.
\<close>

theorem average_stays_within_the_latencies:
  assumes "\<And>w x. w \<in> set ws \<Longrightarrow> measured w = Some x \<Longrightarrow> lo \<le> unat x \<and> unat x \<le> hi" and "9 * hi < 2 ^ 64"
  shows "if list_all (\<lambda>w. measured w = None) ws then sc_latency_ema (record_all ws (new_stats cap)) = 0
    else ema_in_range lo hi (sc_latency_ema (record_all ws (new_stats cap)))"
  using assms(1)
proof (induction ws rule: rev_induct)
  case Nil
  then show ?case by (simp add: new_stats_def)
next
  case (snoc w ws)
  obtain v e where w: "w = (v, e)" by fastforce
  let ?s = "record_all ws (new_stats cap)"
  have ih: "if list_all (\<lambda>w. measured w = None) ws then sc_latency_ema ?s = 0 else ema_in_range lo hi (sc_latency_ema ?s)"
    by (rule snoc.IH) (use snoc.prems in auto)
  have step: "sc_latency_ema (record_all (ws @ [w]) (new_stats cap))
      = (case measured w of None \<Rightarrow> sc_latency_ema ?s | Some x \<Rightarrow> update_ema x (sc_latency_ema ?s))"
    by (simp add: w record_all_snoc record_query_sel measured_def split: option.splits)
  show ?case
  proof (cases "measured w")
    case (Some x)
    then have "lo \<le> unat x" "unat x \<le> hi" using snoc.prems [of w x] by simp_all
    then have "ema_in_range lo hi (update_ema x (sc_latency_ema ?s))"
      using ih assms(2) by (intro update_ema_range) (auto split: if_splits)
    then show ?thesis using Some step by simp
  qed (use ih step in simp)
qed

theorem average_stays_within_the_latencies_witness:
  "ema_in_range 7000 9000 (sc_latency_ema (record_all
     [(sample_stats_env, sample_entry ''cn'' ''NOERROR'' 7),
      (sample_stats_env, sample_entry ''cn'' ''NOERROR'' 9)] (new_stats 4)))"
proof -
  have "(7000::nat) \<le> unat x \<and> unat x \<le> 9000"
    if "w \<in> set [(sample_stats_env, sample_entry ''cn'' ''NOERROR'' 7), (sample_stats_env, sample_entry ''cn'' ''NOERROR'' 9)]" "measured w = Some x" for w x
    using that by (auto simp: measured_def sample_entry_def sample_stats_env_def)
  from average_stays_within_the_latencies [where cap = 4 and ws = "[(sample_stats_env, sample_entry ''cn'' ''NOERROR'' 7), (sample_stats_env, sample_entry ''cn'' ''NOERROR'' 9)]", OF this] show ?thesis by (simp add: measured_def sample_entry_def sample_stats_env_def)
qed

subsection \<open>Restarts\<close>

lemma totals_add:
  "sc_total_queries (record_all ws s) = sc_total_queries s + word_of_nat (length ws)"
  "sc_total_blocked (record_all ws s) = sc_total_blocked s + word_of_nat (count_of qe_blocked (map snd ws))"
  "sc_total_failed (record_all ws s)
     = sc_total_failed s + word_of_nat (count_of (\<lambda>e. \<not> qe_blocked e \<and> bad_rcode e) (map snd ws))"
  "sc_cache_hits (record_all ws s) = sc_cache_hits s + word_of_nat (count_of qe_cached (map snd ws))"
  by (induction ws rule: rev_induct) (auto simp: record_all_snoc record_query_sel count_of_snoc)

lemma buckets_all: "buckets_match [] s \<Longrightarrow> buckets_match (map snd ws) (record_all ws s)"
proof (induction ws rule: rev_induct)
  case (snoc w ws)
  then show ?case by (cases w) (simp add: record_all_snoc buckets_step)
qed simp

text \<open>
  The totals go on after a restart where they were when they were last written, for any values; the
  counts by type, code, client and rule start again at nothing, so from then on they are those of the
  new run only.
\<close>

theorem totals_survive_a_restart:
  assumes "s = record_all ws (start_stats n (Some (flush_totals old db)))"
  shows "sc_total_queries s = sc_total_queries old + word_of_nat (length ws)
    \<and> sc_total_blocked s = sc_total_blocked old + word_of_nat (count_of qe_blocked (map snd ws))
    \<and> sc_total_failed s = sc_total_failed old
        + word_of_nat (count_of (\<lambda>e. \<not> qe_blocked e \<and> bad_rcode e) (map snd ws))
    \<and> sc_cache_hits s = sc_cache_hits old + word_of_nat (count_of qe_cached (map snd ws))
    \<and> buckets_match (map snd ws) s"
proof -
  let ?s0 = "start_stats n (Some (flush_totals old db))"
  have "sc_total_queries ?s0 = sc_total_queries old" "sc_total_blocked ?s0 = sc_total_blocked old"
    "sc_total_failed ?s0 = sc_total_failed old" "sc_cache_hits ?s0 = sc_cache_hits old"
    by (simp_all add: start_stats_def attach_persistence_def restore_totals_def flush_totals_def stored_total_def)
  moreover have "buckets_match [] ?s0"
    by (simp add: buckets_match_def start_stats_def attach_persistence_def restore_totals_def new_stats_def)
  ultimately show ?thesis using assms totals_add [of ws ?s0] buckets_all [of ?s0 ws] by simp
qed

theorem totals_survive_a_restart_witness:
  "sc_total_queries (record_all [(sample_stats_env, sample_entry ''cn'' ''NOERROR'' 7)]
       (start_stats 4 (Some (flush_totals ((new_stats 4)\<lparr>sc_total_queries := - 1\<rparr>) Map.empty)))) = 0"
  using totals_survive_a_restart [OF refl, of "[(sample_stats_env, sample_entry ''cn'' ''NOERROR'' 7)]"
      4 "(new_stats 4)\<lparr>sc_total_queries := - 1\<rparr>" Map.empty]
  by simp

subsection \<open>The panel's numbers\<close>

text \<open>The JSON of an upstream's statistics as the page reads it: numbers are doubles.\<close>

definition upstream_json :: "upstream_stat \<Rightarrow> jsval" where
  "upstream_json u =
     JObj [(''queries'', JNum (fl (of_nat (unat (ui_queries u))))), (''success'', JNum (fl (of_nat (unat (ui_success u))))),
       (''failed'', JNum (fl (of_nat (unat (ui_failed u))))),
       (''latency_ema_ms'', JNum (js_div (js_div (fl (of_nat (unat (ui_latency_ema u)))) (Fin 1000)) (Fin 1000))),
       (''last_latency_ms'', JNum (js_div (fl (of_nat (unat (ui_last_latency u)))) (Fin 1000)))]"

lemma count_of_le: "count_of P es \<le> length es"
  by (simp add: count_of_def)

lemma count_of_mono: "(\<And>e. P e \<Longrightarrow> Q e) \<Longrightarrow> count_of P es \<le> count_of Q es"
  by (induction es) (auto simp: count_of_def)

lemma upstreams_all: "upstreams_match (map snd ws) (record_all ws (new_stats cap))"
proof (induction ws rule: rev_induct)
  case Nil
  then show ?case by (simp add: upstreams_match_def new_stats_def)
next
  case (snoc w ws)
  then show ?case by (cases w) (simp add: record_all_snoc upstreams_step)
qed

text \<open>
  The success rates of the overview are percentages: after any queries, fewer than 2^53, the badge
  that the page shows for any upstream the backend reports reads between \<open>0.0%\<close> and
  \<open>100.0%\<close>, and its colour is the one of the decimal shown.
\<close>

theorem success_rates_are_percentages:
  assumes "length ws \<le> 2 ^ 53" "(name, u) \<in> set (snapshot_upstreams order (record_all ws (new_stats cap)))"
    and "set (order (sc_upstreams (record_all ws (new_stats cap))))
      = {(k, x). sc_upstreams (record_all ws (new_stats cap)) k = Some x}"
  shows "\<exists>n \<le> 1000. rate_text (success_rate (upstream_json u)) = fixed1_digits n @ ''%''
    \<and> rate_tone (success_rate (upstream_json u))
        = (if 950 < n then ''green'' else if 800 < n then ''amber'' else ''red'')"
proof -
  let ?s = "record_all ws (new_stats cap)" and ?es = "map snd ws"
  have u: "sc_upstreams ?s name = Some u" using assms(2,3) by (simp add: snapshot_upstreams_def)
  have all: "map_option ui_queries (sc_upstreams ?s name) = counted (attributed name) ?es"
    "ui_success u = word_of_nat (count_of (\<lambda>e. attributed name e \<and> \<not> qe_blocked e \<and> qe_rcode e = ''NOERROR'') ?es)"
    using spec [OF upstreams_all [of ws cap, unfolded upstreams_match_def], of name] u by simp_all
  let ?q = "count_of (attributed name) ?es"
  let ?k = "count_of (\<lambda>e. attributed name e \<and> \<not> qe_blocked e \<and> qe_rcode e = ''NOERROR'') ?es"
  have le: "?k \<le> ?q" "?q \<le> length ws"
    using count_of_le [of "attributed name" ?es] by (auto intro: count_of_mono)
  have q: "ui_queries u = word_of_nat ?q" "list_ex (attributed name) ?es"
    using all(1) u by (auto simp: counted_def split: if_splits)
  have "0 < ?q" using q(2) by (auto simp: count_of_def list_ex_iff filter_empty_conv)
  have nat: "unat (word_of_nat n :: 64 word) = n" if "n \<le> length ws" for n
    using that assms(1) by (simp add: unat_of_nat take_bit_nat_eq_self)
  have "field (upstream_json u) ''queries'' = JNum (Fin (of_nat ?q))"
    using le assms(1) by (simp add: upstream_json_def field_def obj_read_def q(1) nat fl_of_nat)
  moreover have "field (upstream_json u) ''success'' = JNum (Fin (of_nat ?k))"
    using le assms(1) by (simp add: upstream_json_def field_def obj_read_def all(2) nat fl_of_nat)
  ultimately show ?thesis using rate_badge_tone le(1) \<open>0 < ?q\<close> by blast
qed

definition sample_queries :: "(stats_env \<times> query_entry) list" where
  "sample_queries = [(sample_stats_env, sample_entry ''cn'' ''NOERROR'' 7), (sample_stats_env, sample_entry ''cn'' ''SERVFAIL'' 9)]"

lemma sample_upstreams:
  "sc_upstreams (record_all sample_queries (new_stats 4)) = [''cn'' \<mapsto>
     \<lparr>ui_queries = 2, ui_success = 1, ui_failed = 1, ui_latency_ema = 7200, ui_last_latency = 9\<rparr>]"
  by (rule ext) (simp add: sample_queries_def record_all_def record_query_sel record_query_upstreams has_upstream_def
    sample_entry_def sample_stats_env_def new_stats_def upstream_record_def bad_rcode_def no_upstream_stat_def
    update_ema_def Let_def)

theorem success_rates_are_percentages_witness:
  "\<exists>u. (''cn'', u) \<in> set (snapshot_upstreams (\<lambda>m. [(''cn'', the (m ''cn''))]) (record_all sample_queries (new_stats 4)))
     \<and> (\<exists>n \<le> 1000. rate_text (success_rate (upstream_json u)) = fixed1_digits n @ ''%''
         \<and> rate_tone (success_rate (upstream_json u))
             = (if 950 < n then ''green'' else if 800 < n then ''amber'' else ''red''))"
proof -
  have member: "(''cn'', \<lparr>ui_queries = 2, ui_success = 1, ui_failed = 1, ui_latency_ema = 7200, ui_last_latency = 9\<rparr>)
      \<in> set (snapshot_upstreams (\<lambda>m. [(''cn'', the (m ''cn''))]) (record_all sample_queries (new_stats 4)))"
    by (simp add: snapshot_upstreams_def sample_upstreams)
  have order: "set [(''cn'', the (sc_upstreams (record_all sample_queries (new_stats 4)) ''cn''))]
      = {(k, x). sc_upstreams (record_all sample_queries (new_stats 4)) k = Some x}"
    by (auto simp: sample_upstreams split: if_splits)
  have len: "length sample_queries \<le> 2 ^ 53" by (simp add: sample_queries_def)
  show ?thesis
    by (rule exI, rule conjI [OF member], rule success_rates_are_percentages [OF len member order])
qed

text \<open>
  An upstream that is down looks healthy: when the group that decides does not answer, the client
  gets no answer at all, and the failure is booked on an upstream called \<open>error\<close>; the statistics of
  the group itself, and with them its success rate on the overview, stay exactly as they were.
\<close>

theorem dead_upstream_looks_healthy:
  assumes "reaches_rules v r request name qtype s"
    and "first_rule (ro_rules r) (ro_groups r) (normalize_domain name) = Some (u, g)"
    and "\<And>m. de_query v g m = Inl (err m)" and "u \<noteq> ''error''"
    and "handle_dns_request v w r peer now latency request (s, Some st) = ((s', Some st'), answer)"
  shows "answer = None \<and> sc_upstreams st' u = sc_upstreams st u
    \<and> sc_total_failed st' = sc_total_failed st + 1
    \<and> ui_failed (the (sc_upstreams st' ''error''))
        = (case sc_upstreams st ''error'' of None \<Rightarrow> 0 | Some x \<Rightarrow> ui_failed x) + 1"
proof -
  obtain s1 where res: "resolve_with_meta v r request s = resolve_rules v r request name qtype s1"
    using resolve_reaches_rules [OF assms(1)] by blast
  have "resolve_rules v r request name qtype s1 = (s1, Inl (QueryFailed (err request)))"
    by (simp add: resolve_rules_def assms(2,3) query_with_strategy_def split: option.splits)
  then have run: "answer = None" "st' = record_query w (failed_entry (de_qtype_name v) peer now latency request) st"
    using assms(5) res by (auto simp: handle_dns_request_def)
  then show ?thesis using assms(4)
    by (simp add: record_query_sel record_query_upstreams upstream_record_counts failed_entry_def has_upstream_def
      bad_rcode_def no_upstream_stat_def split: option.splits)
qed

definition down_env :: "(nat \<times> (string \<times> cache_entry) list) dns_env" where
  "down_env = (sample_dns_env 0)\<lparr>de_query := \<lambda>g m. Inl ''timed out''\<rparr>"

theorem dead_upstream_looks_healthy_witness:
  "\<exists>st s'. handle_dns_request down_env sample_stats_env sample_dns_router (V4 7) 0 5000 sample_request
       (\<lparr>rs_cache = None, rs_dynamic = sample_hosts\<rparr>, Some (record_all sample_queries (new_stats 4))) = ((s', Some st), None)
     \<and> sc_upstreams st ''cn'' = sc_upstreams (record_all sample_queries (new_stats 4)) ''cn''
     \<and> ui_failed (the (sc_upstreams st ''error'')) = 1"
proof -
  let ?r = sample_dns_router and ?s = "\<lparr>rs_cache = None, rs_dynamic = sample_hosts\<rparr> :: (nat \<times> (string \<times> cache_entry) list) resolver"
    and ?st = "record_all sample_queries (new_stats 4)"
  have reach: "reaches_rules down_env ?r sample_request ''a.'' 1 ?s"
    by (simp add: reaches_rules_def sample_request_def sample_dns_router_def host_lookup_def hosts_table_def sample_hosts_def)
  have rule: "first_rule (ro_rules ?r) (ro_groups ?r) (normalize_domain ''a.'')
      = Some (''cn'', sample_upstream ''udp://223.5.5.5'')"
    by (simp add: sample_normalized sample_dns_router_def matches_normalized_def domain_is_excluded_def sample_drs_def)
  have down: "de_query down_env (sample_upstream ''udp://223.5.5.5'') m = Inl ((\<lambda>_. ''timed out'') m)" for m
    by (simp add: down_env_def)
  obtain s' st' answer where run: "handle_dns_request down_env sample_stats_env ?r (V4 7) 0 5000 sample_request (?s, Some ?st)
      = ((s', st'), answer)" by (metis surj_pair)
  then obtain st where st: "st' = Some st" by (auto simp: handle_dns_request_def split: prod.splits sum.splits)
  have "''cn'' \<noteq> ''error''" by simp
  from dead_upstream_looks_healthy [OF reach rule down this run [unfolded st]]
  have "answer = None \<and> sc_upstreams st ''cn'' = sc_upstreams ?st ''cn'' \<and> ui_failed (the (sc_upstreams st ''error'')) = 1"
    by (simp add: sample_upstreams)
  then show ?thesis using run st by blast
qed

subsection \<open>The log under its filters\<close>

text \<open>The backend's answer to a request of the page, and its rows as JSON; \<open>row\<close> is how one entry is printed.\<close>

definition log_answer :: "(nat \<Rightarrow> string option \<Rightarrow> string option \<Rightarrow> string + query_entry list) option
    \<Rightarrow> stats_collector \<Rightarrow> (query_entry \<Rightarrow> jsval) \<Rightarrow> log_query \<Rightarrow> jsval" where
  "log_answer history s row q =
     (case read_query_log_params (form_decode (drop (length ''/api/querylog?'') (rq_url (api_request (GetQuerylog q))))) of
        None \<Rightarrow> JNull
      | Some p \<Rightarrow> (case querylog history p s of Inl e \<Rightarrow> JNull | Inr rows \<Rightarrow> JArr (map row rows)))"

lemma querylog_decoded:
  "form_decode (drop (length ''/api/querylog?'') (rq_url (api_request (GetQuerylog q))))
     = (''limit'', nat_str (lq_limit q))
       # (if lq_domain q \<noteq> [] then [(''domain'', lq_domain q)] else [])
       @ (if lq_client q \<noteq> [] then [(''client'', lq_client q)] else [])
       @ (if lq_history q then [(''history'', ''true'')] else [])"
proof -
  have "querylog_params q \<noteq> []" by (auto simp: querylog_params_def map_set_def Let_def)
  then show ?thesis by (simp add: form_decode_encode) (simp add: querylog_params_def map_set_def Let_def)
qed

lemma live_log_answer:
  assumes "\<not> lq_history q" "lq_limit q < 2 ^ 64"
  shows "log_answer history s row q = JArr (map row (snapshot_query_log (lq_limit q) s))"
proof -
  have "parse_u64 (nat_str (lq_limit q)) = Some (lq_limit q)"
    using assms(2) by (simp add: parse_u64_def parse_unsigned_nat_str)
  then have "read_query_log_params ((''limit'', nat_str (lq_limit q))
       # (if lq_domain q \<noteq> [] then [(''domain'', lq_domain q)] else [])
       @ (if lq_client q \<noteq> [] then [(''client'', lq_client q)] else []) @ [])
     = Some \<lparr>qp_limit = lq_limit q, qp_domain = (if lq_domain q = [] then None else Some (lq_domain q)),
         qp_client = (if lq_client q = [] then None else Some (lq_client q)), qp_history = False\<rparr>"
    by (simp add: read_query_log_params_def)
  then show ?thesis using assms(1) unfolding log_answer_def querylog_decoded by (simp add: querylog_def)
qed

text \<open>
  C28. The filters of the live log do nothing: whatever the user typed as a domain or a client, once the
  answers are in, the page shows the latest two hundred queries of the backend, the same rows as without
  a filter.
\<close>

theorem live_log_ignores_the_filters:
  assumes "qm_run (answers_in_order (log_answer history s row)) initial_qmachine m" "qm_inflight m = []"
    and "\<not> ql_history (qm_page m)"
  shows "ql_rows (qm_page m) = JArr (map row (snapshot_query_log 200 s))"
proof -
  have "in_step (log_answer history s row) initial_qmachine" by (simp add: in_step_def initial_qmachine_def)
  from in_step_run [OF assms(1) this] have "ql_rows (qm_page m) = log_answer history s row (qlog_query (qm_page m))"
    using assms(2) by (simp add: in_step_def)
  then show ?thesis using assms(3) by (simp add: live_log_answer qlog_query_def)
qed

theorem live_log_ignores_the_filters_witness:
  "\<exists>m. qm_run (answers_in_order (log_answer None (record_all sample_queries (new_stats 4)) (\<lambda>e. JStr (qe_domain e))))
       initial_qmachine m
     \<and> ql_domain (qm_page m) = ''zzz'' \<and> ql_rows (qm_page m) = JArr [JStr ''a.'', JStr ''a.'']"
proof -
  let ?answer = "log_answer None (record_all sample_queries (new_stats 4)) (\<lambda>e. JStr (qe_domain e))"
  let ?q = "\<lparr>lq_limit = 200, lq_domain = ''zzz'', lq_client = [], lq_history = False\<rparr>"
  let ?es = "[RowsAnswer (qlog_query initial_qlog) (Inr (?answer (qlog_query initial_qlog))), TypeDomain ''zzz'',
      RowsAnswer ?q (Inr (?answer ?q))]"
  let ?m = "fold qm_handle ?es initial_qmachine"
  note defs = initial_qmachine_def initial_qlog_def qlog_query_def with_filter_def start_load_def Let_def answers_in_order_def
  have run: "qm_run (answers_in_order ?answer) initial_qmachine ?m"
    by (rule qm_run_steps [OF qm_done]) (simp add: defs)
  have flags: "qm_inflight ?m = []" "\<not> ql_history (qm_page ?m)" "ql_domain (qm_page ?m) = ''zzz''"
    by (simp_all add: defs)
  have "map (\<lambda>e. JStr (qe_domain e)) (snapshot_query_log 200 (record_all sample_queries (new_stats 4)))
      = [JStr ''a.'', JStr ''a.'']"
    by (simp add: snapshot_query_log_def record_all_def sample_queries_def record_query_sel new_stats_def sample_entry_def with_id_def)
  with live_log_ignores_the_filters [OF run flags(1,2)] have "ql_rows (qm_page ?m) = JArr [JStr ''a.'', JStr ''a.'']" by simp
  then show ?thesis using run flags(3) by blast
qed

end
