(* ===== verification/Dhcp_V4.thy ===== *)
theory Dhcp_V4
  imports Dns_Resolver Web_Auth Rust_Text
begin

text \<open>
  The DHCPv4 server: leases and their file (\<open>src/src/dhcp/v4/lease.rs\<close>), the pool of addresses
  (\<open>pool.rs\<close>), and the handling of a packet (\<open>server.rs\<close>).

  A packet is the record of the options the server reads, a reply the record of those it writes; their
  encoding is the business of \<open>dhcproto\<close>. The outside world is the record \<open>pool_env\<close>: the order in which
  the hash map of the leases is walked, whether the lease file can be written, whether an ARP probe
  finds an address free, and the two clocks, seconds of the calendar for leases and nanoseconds for offers.
\<close>

subsection \<open>Leases\<close>

type_synonym mac = "byte list"

record lease =
  le_mac :: mac
  le_ip :: "32 word"
  le_hostname :: "string option"
  le_expires_at :: "64 word"
  le_is_static :: bool

record lease_store =
  ls_leases :: "string \<Rightarrow> lease option"
  ls_file :: "string \<Rightarrow> lease option"

record pool_env =
  pe_iter :: "(string \<Rightarrow> lease option) \<Rightarrow> lease list"
  pe_can_write :: bool
  pe_arp_free :: "32 word \<Rightarrow> bool"
  pe_now :: "64 word"
  pe_instant :: nat

definition is_expired :: "64 word \<Rightarrow> lease \<Rightarrow> bool" where
  "is_expired now l \<longleftrightarrow> \<not> le_is_static l \<and> le_expires_at l \<le> now"

definition mac_key :: "mac \<Rightarrow> string" where
  "mac_key m = join '':'' (map (\<lambda>b. hex_encode [b]) m)"

definition get_by_mac :: "mac \<Rightarrow> lease_store \<Rightarrow> lease option" where
  "get_by_mac m s = ls_leases s (mac_key m)"

definition get_by_ip :: "pool_env \<Rightarrow> 32 word \<Rightarrow> lease_store \<Rightarrow> lease option" where
  "get_by_ip v ip s = find (\<lambda>l. le_ip l = ip) (pe_iter v (ls_leases s))"

text \<open>\<open>insert\<close> and \<open>remove_by_mac\<close> change the table first; the write of the file may fail after that.\<close>

definition flush :: "pool_env \<Rightarrow> lease_store \<Rightarrow> lease_store \<times> bool" where
  "flush v s = (if pe_can_write v then (s\<lparr>ls_file := ls_leases s\<rparr>, True) else (s, False))"

definition insert_lease :: "pool_env \<Rightarrow> lease \<Rightarrow> lease_store \<Rightarrow> lease_store \<times> bool" where
  "insert_lease v l s = flush v (s\<lparr>ls_leases := (ls_leases s)(mac_key (le_mac l) \<mapsto> l)\<rparr>)"

definition remove_by_mac :: "pool_env \<Rightarrow> mac \<Rightarrow> lease_store \<Rightarrow> lease_store \<times> bool" where
  "remove_by_mac v m s = flush v (s\<lparr>ls_leases := (ls_leases s)(mac_key m := None)\<rparr>)"

definition all_active :: "pool_env \<Rightarrow> lease_store \<Rightarrow> lease list" where
  "all_active v s = filter (\<lambda>l. \<not> is_expired (pe_now v) l) (pe_iter v (ls_leases s))"

subsection \<open>The pool\<close>

record address_pool =
  ap_start :: "32 word"
  ap_end :: "32 word"
  ap_offered :: "(32 word \<times> nat) list"
  ap_leases :: lease_store
  ap_lease_secs :: "64 word"
  ap_arp_probe :: bool

definition is_in_range :: "32 word \<Rightarrow> address_pool \<Rightarrow> bool" where
  "is_in_range ip p \<longleftrightarrow> ap_start p \<le> ip \<and> ip \<le> ap_end p"

definition used_in_lease :: "pool_env \<Rightarrow> 32 word \<Rightarrow> lease_store \<Rightarrow> bool" where
  "used_in_lease v ip s = (case get_by_ip v ip s of None \<Rightarrow> False | Some l \<Rightarrow> \<not> is_expired (pe_now v) l)"

definition is_offered :: "32 word \<Rightarrow> address_pool \<Rightarrow> bool" where
  "is_offered ip p = list_ex (\<lambda>(o_ip, t). o_ip = ip) (ap_offered p)"

definition is_free :: "pool_env \<Rightarrow> 32 word \<Rightarrow> address_pool \<Rightarrow> bool" where
  "is_free v ip p \<longleftrightarrow> \<not> used_in_lease v ip (ap_leases p) \<and> \<not> is_offered ip p"

definition expire_offers :: "pool_env \<Rightarrow> address_pool \<Rightarrow> address_pool" where
  "expire_offers v p = p\<lparr>ap_offered := filter (\<lambda>(ip, t). pe_instant v - t < 30 * 10 ^ 9) (ap_offered p)\<rparr>"

text \<open>The addresses \<open>start..=end\<close>.\<close>

definition pool_range :: "address_pool \<Rightarrow> 32 word list" where
  "pool_range p = map word_of_nat [unat (ap_start p)..<Suc (unat (ap_end p))]"

definition scan_pool :: "pool_env \<Rightarrow> address_pool \<Rightarrow> 32 word option" where
  "scan_pool v p = find (\<lambda>ip. is_free v ip p) (pool_range p)"

definition own_lease :: "pool_env \<Rightarrow> mac \<Rightarrow> address_pool \<Rightarrow> 32 word option" where
  "own_lease v m p =
     (case get_by_mac m (ap_leases p) of
        None \<Rightarrow> None
      | Some l \<Rightarrow> if le_is_static l \<or> \<not> is_expired (pe_now v) l then Some (le_ip l) else None)"

definition allocate :: "pool_env \<Rightarrow> mac \<Rightarrow> 32 word option \<Rightarrow> address_pool \<Rightarrow> address_pool \<times> 32 word option" where
  "allocate v m requested p0 =
     (let p = expire_offers v p0
      in (p, case own_lease v m p of
               Some ip \<Rightarrow> Some ip
             | None \<Rightarrow>
                 (case requested of
                    Some ip \<Rightarrow> if is_in_range ip p \<and> is_free v ip p then Some ip else scan_pool v p
                  | None \<Rightarrow> scan_pool v p)))"

definition offer :: "pool_env \<Rightarrow> 32 word \<Rightarrow> address_pool \<Rightarrow> address_pool" where
  "offer v ip p = p\<lparr>ap_offered := ap_offered p @ [(ip, pe_instant v)]\<rparr>"

datatype pool_error = ArpConflict "32 word" | LeaseFileFailed

definition confirm :: "pool_env \<Rightarrow> mac \<Rightarrow> 32 word \<Rightarrow> string option \<Rightarrow> address_pool \<Rightarrow> address_pool \<times> (pool_error + lease)" where
  "confirm v m ip hostname p =
     (if ap_arp_probe p \<and> \<not> pe_arp_free v ip then (p, Inl (ArpConflict ip))
      else let l = \<lparr>le_mac = m, le_ip = ip, le_hostname = hostname,
                    le_expires_at = pe_now v + ap_lease_secs p, le_is_static = False\<rparr>;
               p1 = p\<lparr>ap_offered := filter (\<lambda>(o_ip, t). o_ip \<noteq> ip) (ap_offered p)\<rparr>;
               (s, ok) = insert_lease v l (ap_leases p1)
           in (p1\<lparr>ap_leases := s\<rparr>, if ok then Inr l else Inl LeaseFileFailed))"

definition release :: "pool_env \<Rightarrow> mac \<Rightarrow> address_pool \<Rightarrow> address_pool \<times> (pool_error + lease option)" where
  "release v m p =
     (case get_by_mac m (ap_leases p) of
        None \<Rightarrow> (p, Inr None)
      | Some l \<Rightarrow>
          let (s, ok) = remove_by_mac v m (ap_leases p)
          in (p\<lparr>ap_leases := s\<rparr>, if ok then Inr (Some l) else Inl LeaseFileFailed))"

subsection \<open>Packets\<close>

datatype dhcp_type = Discover | Offer | Request | Decline | Ack | Nak | Release | Inform

record dhcp_packet =
  dp_type :: "dhcp_type option"
  dp_htype :: byte
  dp_xid :: "32 word"
  dp_flags :: "16 word"
  dp_ciaddr :: "32 word"
  dp_giaddr :: "32 word"
  dp_chaddr :: mac
  dp_hostname :: "string option"
  dp_requested :: "32 word option"
  dp_server_id :: "32 word option"

record dhcp_options =
  do_subnet :: "32 word"
  do_router :: "32 word list"
  do_dns :: "32 word list"
  do_lease_time :: "32 word"
  do_renewal :: "32 word"
  do_rebinding :: "32 word"
  do_domain :: "string option"

record dhcp_reply =
  dr_type :: dhcp_type
  dr_htype :: byte
  dr_xid :: "32 word"
  dr_flags :: "16 word"
  dr_giaddr :: "32 word"
  dr_chaddr :: mac
  dr_yiaddr :: "32 word"
  dr_siaddr :: "32 word"
  dr_server_id :: "32 word"
  dr_options :: "dhcp_options option"

text \<open>What \<open>serve\<close> takes from the configuration, once.\<close>

record server_settings =
  ss_server_ip :: "32 word"
  ss_subnet :: "32 word"
  ss_dns :: "32 word list"
  ss_domain :: "string option"
  ss_lease_secs :: "32 word"

definition build_reply :: "server_settings \<Rightarrow> dhcp_packet \<Rightarrow> dhcp_type \<Rightarrow> 32 word \<Rightarrow> dhcp_reply" where
  "build_reply c req t your_ip =
     \<lparr>dr_type = t, dr_htype = dp_htype req, dr_xid = dp_xid req, dr_flags = dp_flags req,
      dr_giaddr = dp_giaddr req, dr_chaddr = dp_chaddr req, dr_yiaddr = your_ip,
      dr_siaddr = ss_server_ip c, dr_server_id = ss_server_ip c,
      dr_options = Some \<lparr>do_subnet = ss_subnet c, do_router = [ss_server_ip c], do_dns = ss_dns c,
        do_lease_time = ss_lease_secs c, do_renewal = ss_lease_secs c div 2,
        do_rebinding = ss_lease_secs c * 7 div 8, do_domain = ss_domain c\<rparr>\<rparr>"

definition build_nak :: "server_settings \<Rightarrow> dhcp_packet \<Rightarrow> dhcp_reply" where
  "build_nak c req =
     \<lparr>dr_type = Nak, dr_htype = dp_htype req, dr_xid = dp_xid req, dr_flags = 0, dr_giaddr = 0,
      dr_chaddr = dp_chaddr req, dr_yiaddr = 0, dr_siaddr = 0, dr_server_id = ss_server_ip c, dr_options = None\<rparr>"

text \<open>Where \<open>send_reply\<close> sends it: the relay agent, the client, or everyone.\<close>

definition reply_target :: "dhcp_packet \<Rightarrow> 32 word \<times> 16 word" where
  "reply_target req =
     (if dp_giaddr req \<noteq> 0 then (dp_giaddr req, 67)
      else if dp_ciaddr req \<noteq> 0 then (dp_ciaddr req, 68)
      else (- 1, 68))"

record dhcp_state =
  ds_pool :: address_pool
  ds_hosts :: dynamic_hosts

type_synonym dhcp_sent = "(dhcp_reply \<times> 32 word \<times> 16 word) option"

definition register_name :: "(string \<Rightarrow> string) \<Rightarrow> lease \<Rightarrow> dynamic_hosts \<Rightarrow> dynamic_hosts" where
  "register_name lower l h =
     (case le_hostname l of None \<Rightarrow> h | Some hn \<Rightarrow> dynamic_insert lower hn (V4 (le_ip l)) h)"

definition handle_discover :: "pool_env \<Rightarrow> server_settings \<Rightarrow> mac \<Rightarrow> dhcp_packet \<Rightarrow> dhcp_state \<Rightarrow> dhcp_state \<times> dhcp_sent" where
  "handle_discover v c m msg s =
     (case allocate v m (dp_requested msg) (ds_pool s) of
        (p, None) \<Rightarrow> (s\<lparr>ds_pool := p\<rparr>, None)
      | (p, Some ip) \<Rightarrow> (s\<lparr>ds_pool := offer v ip p\<rparr>, Some (build_reply c msg Offer ip, reply_target msg)))"

definition handle_request :: "(string \<Rightarrow> string) \<Rightarrow> pool_env \<Rightarrow> server_settings \<Rightarrow> mac \<Rightarrow> dhcp_packet \<Rightarrow> dhcp_state
    \<Rightarrow> dhcp_state \<times> dhcp_sent" where
  "handle_request lower v c m msg s =
     (let requested_ip = (case dp_requested msg of Some ip \<Rightarrow> ip | None \<Rightarrow> dp_ciaddr msg)
      in if dp_server_id msg \<noteq> None \<and> dp_server_id msg \<noteq> Some (ss_server_ip c) then (s, None)
         else case confirm v m requested_ip (dp_hostname msg) (ds_pool s) of
                (p, Inr l) \<Rightarrow>
                  (s\<lparr>ds_pool := p, ds_hosts := register_name lower l (ds_hosts s)\<rparr>,
                   Some (build_reply c msg Ack (le_ip l), reply_target msg))
              | (p, Inl e) \<Rightarrow> (s\<lparr>ds_pool := p\<rparr>, Some (build_nak c msg, reply_target msg)))"

definition handle_release :: "(string \<Rightarrow> string) \<Rightarrow> pool_env \<Rightarrow> mac \<Rightarrow> dhcp_state \<Rightarrow> dhcp_state" where
  "handle_release lower v m s =
     (case release v m (ds_pool s) of
        (p, Inr (Some l)) \<Rightarrow>
          s\<lparr>ds_pool := p, ds_hosts := (case le_hostname l of
              None \<Rightarrow> ds_hosts s | Some hn \<Rightarrow> dynamic_remove lower hn (ds_hosts s))\<rparr>
      | (p, _) \<Rightarrow> s\<lparr>ds_pool := p\<rparr>)"

datatype packet_error = NoMessageType | ShortHardwareAddress

text \<open>A hardware address shorter than six bytes makes the slice panic, which ends the task of the packet.\<close>

definition handle_packet :: "(string \<Rightarrow> string) \<Rightarrow> pool_env \<Rightarrow> server_settings \<Rightarrow> dhcp_packet \<Rightarrow> dhcp_state
    \<Rightarrow> dhcp_state \<times> (packet_error + dhcp_sent)" where
  "handle_packet lower v c msg s =
     (case dp_type msg of
        None \<Rightarrow> (s, Inl NoMessageType)
      | Some t \<Rightarrow>
          if length (dp_chaddr msg) < 6 then (s, Inl ShortHardwareAddress)
          else let m = take 6 (dp_chaddr msg)
               in case t of
                    Discover \<Rightarrow> apsnd Inr (handle_discover v c m msg s)
                  | Request \<Rightarrow> apsnd Inr (handle_request lower v c m msg s)
                  | Release \<Rightarrow> (handle_release lower v m s, Inr None)
                  | Inform \<Rightarrow> (s, Inr (Some (build_reply c msg Ack (dp_ciaddr msg), reply_target msg)))
                  | _ \<Rightarrow> (s, Inr None))"

subsection \<open>Start\<close>

definition hex_value :: "char \<Rightarrow> nat option" where
  "hex_value c =
     (let n = (of_char c :: nat)
      in if 48 \<le> n \<and> n \<le> 57 then Some (n - 48)
         else if 97 \<le> n \<and> n \<le> 102 then Some (n - 87)
         else if 65 \<le> n \<and> n \<le> 70 then Some (n - 55)
         else None)"

text \<open>\<open>u8::from_str_radix(x, 16)\<close> and \<open>parse_mac\<close>.\<close>

definition parse_hex_byte :: "string \<Rightarrow> byte option" where
  "parse_hex_byte s =
     (let digits = (case s of c # cs \<Rightarrow> if c = CHR ''+'' then cs else s | [] \<Rightarrow> [])
      in if digits = [] \<or> list_ex (\<lambda>c. hex_value c = None) digits then None
         else let n = foldl (\<lambda>a d. 16 * a + the (hex_value d)) 0 digits
              in if 255 < n then None else Some (word_of_nat n))"

definition parse_mac :: "string \<Rightarrow> mac option" where
  "parse_mac s =
     (let parts = map parse_hex_byte (split_on CHR '':'' s)
      in if None \<in> set parts \<or> length parts \<noteq> 6 then None else Some (map the parts))"

text \<open>
  \<open>parse_lease_time\<close>: a number of hours, minutes or seconds; the product wraps. The lease time is
  then advertised at 32 bits.
\<close>

definition strip_suffix_char :: "char \<Rightarrow> string \<Rightarrow> string option" where
  "strip_suffix_char c s = (if s \<noteq> [] \<and> last s = c then Some (butlast s) else None)"

definition parse_lease_time :: "string \<Rightarrow> 64 word option" where
  "parse_lease_time text =
     (let s = str_trim text; secs = (\<lambda>t n. map_option (\<lambda>x. word_of_nat x * n) (parse_u64 t))
      in case strip_suffix_char CHR ''h'' s of Some h \<Rightarrow> secs h 3600 | None \<Rightarrow>
        (case strip_suffix_char CHR ''m'' s of Some m \<Rightarrow> secs m 60 | None \<Rightarrow>
        (case strip_suffix_char CHR ''s'' s of Some sec \<Rightarrow> secs sec 1 | None \<Rightarrow> secs s 1)))"

datatype start_error = BadLeaseTime | BadMac string | StaticNotWritten

text \<open>The static leases, entered one after the other; an error leaves the earlier ones entered.\<close>

fun add_static :: "(string \<Rightarrow> string) \<Rightarrow> pool_env \<Rightarrow> static_lease list \<Rightarrow> lease_store \<times> dynamic_hosts
    \<Rightarrow> (lease_store \<times> dynamic_hosts) \<times> start_error option" where
  "add_static lower v [] s = (s, None)"
| "add_static lower v (x # xs) (store, h) =
     (case parse_mac (sl_mac x) of
        None \<Rightarrow> ((store, h), Some (BadMac (sl_mac x)))
      | Some m \<Rightarrow>
          let l = \<lparr>le_mac = m, le_ip = sl_ip x, le_hostname = sl_hostname x, le_expires_at = - 1, le_is_static = True\<rparr>;
              (store', ok) = insert_lease v l store
          in if ok then add_static lower v xs (store', register_name lower l h)
             else ((store', h), Some StaticNotWritten))"

text \<open>
  \<open>serve\<close> up to its loop: \<open>file\<close> is what the lease file holds. The table of the leases outlives the server
  only through the file.
\<close>

definition start_server :: "(string \<Rightarrow> string) \<Rightarrow> pool_env \<Rightarrow> dhcp_v4_config
    \<Rightarrow> (string \<Rightarrow> lease option) \<Rightarrow> dynamic_hosts \<Rightarrow> (dynamic_hosts \<times> start_error) + dhcp_state \<times> server_settings" where
  "start_server lower v c file h0 =
     (case parse_lease_time (v4_lease_time c) of
        None \<Rightarrow> Inl (h0, BadLeaseTime)
      | Some secs \<Rightarrow>
     (case add_static lower v (v4_static_leases c) (\<lparr>ls_leases = file, ls_file = file\<rparr>, h0) of
        ((store, h), Some e) \<Rightarrow> Inl (h, e)
      | ((store, h), None) \<Rightarrow>
          Inr (\<lparr>ds_pool = \<lparr>ap_start = fst (v4_range c), ap_end = snd (v4_range c), ap_offered = [],
                   ap_leases = store, ap_lease_secs = secs, ap_arp_probe = v4_arp_probe c\<rparr>,
                 ds_hosts = fold (register_name lower) (filter (\<lambda>l. \<not> le_is_static l) (all_active v store)) h\<rparr>,
               \<lparr>ss_server_ip = v4_gateway c, ss_subnet = v4_subnet c, ss_dns = v4_dns c,
                ss_domain = v4_domain c, ss_lease_secs = ucast secs\<rparr>)))"

end
