(* ===== verification/Dhcp_Properties.thy ===== *)
theory Dhcp_Properties
  imports Dhcp_V4 Web_Auth_Properties
begin

text \<open>
  What the DHCPv4 server promises about its addresses: what it offers, what it confirms, and what becomes of
  static leases.
\<close>

subsection \<open>Keys of clients\<close>

lemma hex_encode_byte: "hex_encode [b] = hex_encode [c] \<Longrightarrow> b = (c :: byte)"
proof -
  assume "hex_encode [b] = hex_encode [c]"
  then have eq: "lower_hex_digit (unat b div 16) = lower_hex_digit (unat c div 16)"
    "lower_hex_digit (unat b mod 16) = lower_hex_digit (unat c mod 16)"
    by (simp_all add: hex_encode_def)
  have digit: "d = e" if "lower_hex_digit d = lower_hex_digit e" "d < 16" "e < 16" for d e
  proof -
    have "(if d < 10 then 48 + d else 87 + d) = (if e < 10 then 48 + e else 87 + e)"
      using lower_hex_digit_code [OF that(2)] lower_hex_digit_code [OF that(3)] that(1) by metis
    then show ?thesis using that(2,3) by (auto split: if_splits)
  qed
  have "unat b div 16 = unat c div 16" "unat b mod 16 = unat c mod 16"
    using digit [OF eq(1)] digit [OF eq(2)] hex_nibble [of b] hex_nibble [of c] by simp_all
  then have "unat b = unat c" by (metis div_mult_mod_eq)
  then show "b = c" by (simp add: word_unat_eq_iff)
qed

lemma mac_key_inj: "a \<noteq> [] \<Longrightarrow> b \<noteq> [] \<Longrightarrow> mac_key a = mac_key b \<longleftrightarrow> a = b"
proof -
  assume "a \<noteq> []" "b \<noteq> []"
  have free: "\<forall>w \<in> set (map (\<lambda>b. hex_encode [b]) m). CHR '':'' \<notin> set w" for m :: mac
    using token_chars by (fastforce simp: list_all_iff token_char_def)
  have "split_on CHR '':'' (mac_key m) = map (\<lambda>b. hex_encode [b]) m" if "m \<noteq> []" for m
    using split_on_join [OF _ free, of m] that by (simp add: mac_key_def)
  then have "mac_key a = mac_key b \<longleftrightarrow> map (\<lambda>b. hex_encode [b]) a = map (\<lambda>b. hex_encode [b]) b"
    using \<open>a \<noteq> []\<close> \<open>b \<noteq> []\<close> by (metis mac_key_def)
  also have "\<dots> \<longleftrightarrow> a = b"
    by (rule inj_map_eq_map) (auto simp: inj_def dest: hex_encode_byte)
  finally show ?thesis .
qed

subsection \<open>Offers\<close>

lemma find_SomeD: "find P xs = Some x \<Longrightarrow> x \<in> set xs \<and> P x"
  by (induction xs) (auto split: if_splits)

lemma own_lease_expire [simp]: "own_lease v m (expire_offers v p) = own_lease v m p"
  by (simp add: own_lease_def expire_offers_def)

lemma leases_expire [simp]: "ap_leases (expire_offers v p) = ap_leases p"
  by (simp add: expire_offers_def)

lemma in_range_expire [simp]: "is_in_range ip (expire_offers v p) \<longleftrightarrow> is_in_range ip p"
  by (simp add: is_in_range_def expire_offers_def)

lemma in_pool_range: "ip \<in> set (pool_range p) \<longleftrightarrow> is_in_range ip p"
proof
  assume "ip \<in> set (pool_range p)"
  then obtain n where n: "unat (ap_start p) \<le> n" "n \<le> unat (ap_end p)" "ip = word_of_nat n"
    by (auto simp: pool_range_def)
  then have "unat ip = n"
    using unsigned_less [of "ap_end p", where ?'a = nat] by (simp add: unat_of_nat)
  then show "is_in_range ip p" using n by (simp add: is_in_range_def word_le_nat_alt)
next
  assume "is_in_range ip p"
  then have "unat (ap_start p) \<le> unat ip" "unat ip \<le> unat (ap_end p)"
    by (simp_all add: is_in_range_def word_le_nat_alt)
  then have "unat ip \<in> set [unat (ap_start p)..<Suc (unat (ap_end p))]" by auto
  then show "ip \<in> set (pool_range p)"
    unfolding pool_range_def set_map by (intro image_eqI [of _ _ "unat ip"]) simp_all
qed

lemma allocate_cases:
  "snd (allocate v m req p) = Some ip \<Longrightarrow>
     own_lease v m p = Some ip \<or> is_in_range ip p \<and> is_free v ip (expire_offers v p)"
  using in_pool_range [of ip "expire_offers v p"]
  by (auto simp: allocate_def Let_def scan_pool_def dest: find_SomeD split: option.splits if_splits)

text \<open>No two leases for the same address.\<close>

definition apart :: "(string \<Rightarrow> lease option) \<Rightarrow> bool" where
  "apart leases \<longleftrightarrow> (\<forall>k k' l l'. leases k = Some l \<and> leases k' = Some l' \<and> le_ip l = le_ip l' \<longrightarrow> l = l')"

lemma used_iff:
  assumes "set (pe_iter v (ls_leases s)) = ran (ls_leases s)" "apart (ls_leases s)"
  shows "used_in_lease v ip s \<longleftrightarrow> (\<exists>l \<in> ran (ls_leases s). le_ip l = ip \<and> \<not> is_expired (pe_now v) l)"
proof (cases "get_by_ip v ip s")
  case None
  then have "\<forall>l \<in> ran (ls_leases s). le_ip l \<noteq> ip"
    using assms(1) by (auto simp: get_by_ip_def find_None_iff)
  then show ?thesis using None by (auto simp: used_in_lease_def)
next
  case (Some l)
  then have l: "l \<in> ran (ls_leases s)" "le_ip l = ip"
    using assms(1) by (auto simp: get_by_ip_def dest: find_SomeD)
  have "l' = l" if "l' \<in> ran (ls_leases s)" "le_ip l' = ip" for l'
    using that l assms(2) by (auto simp: apart_def ran_def)
  then have "(\<exists>l' \<in> ran (ls_leases s). le_ip l' = ip \<and> \<not> is_expired (pe_now v) l') \<longleftrightarrow> \<not> is_expired (pe_now v) l"
    using l by blast
  then show ?thesis using Some by (simp add: used_in_lease_def)
qed

definition recently_offered :: "pool_env \<Rightarrow> 32 word \<Rightarrow> address_pool \<Rightarrow> bool" where
  "recently_offered v ip p \<longleftrightarrow> (\<exists>t. (ip, t) \<in> set (ap_offered p) \<and> pe_instant v - t < 30 * 10 ^ 9)"

definition leased_out :: "pool_env \<Rightarrow> 32 word \<Rightarrow> address_pool \<Rightarrow> bool" where
  "leased_out v ip p \<longleftrightarrow> (\<exists>l \<in> ran (ls_leases (ap_leases p)). le_ip l = ip \<and> \<not> is_expired (pe_now v) l)"

lemma is_free_iff:
  assumes "set (pe_iter v (ls_leases (ap_leases p))) = ran (ls_leases (ap_leases p))" "apart (ls_leases (ap_leases p))"
  shows "is_free v ip (expire_offers v p) \<longleftrightarrow> \<not> leased_out v ip p \<and> \<not> recently_offered v ip p"
  using used_iff [OF assms]
  by (auto simp: is_free_def expire_offers_def leased_out_def is_offered_def recently_offered_def list_ex_iff)


subsection \<open>Requests\<close>

text \<open>A request that reaches the pool of this server.\<close>

definition asks_for :: "mac \<Rightarrow> 32 word \<Rightarrow> server_settings \<Rightarrow> dhcp_packet \<Rightarrow> bool" where
  "asks_for m ip c msg \<longleftrightarrow> dp_type msg = Some Request \<and> 6 \<le> length (dp_chaddr msg) \<and> take 6 (dp_chaddr msg) = m
     \<and> dp_requested msg = Some ip \<and> (dp_server_id msg = None \<or> dp_server_id msg = Some (ss_server_ip c))"

definition can_confirm :: "pool_env \<Rightarrow> 32 word \<Rightarrow> address_pool \<Rightarrow> bool" where
  "can_confirm v ip p \<longleftrightarrow> pe_can_write v \<and> (ap_arp_probe p \<longrightarrow> pe_arp_free v ip)"

definition dynamic_lease :: "pool_env \<Rightarrow> mac \<Rightarrow> 32 word \<Rightarrow> string option \<Rightarrow> address_pool \<Rightarrow> lease" where
  "dynamic_lease v m ip hn p = \<lparr>le_mac = m, le_ip = ip, le_hostname = hn,
     le_expires_at = pe_now v + ap_lease_secs p, le_is_static = False\<rparr>"

lemma request_confirmed:
  assumes "asks_for m ip c msg" "can_confirm v ip (ds_pool s)"
  shows "snd (handle_packet lower v c msg s) = Inr (Some (build_reply c msg Ack ip, reply_target msg))"
    and "ls_leases (ap_leases (ds_pool (fst (handle_packet lower v c msg s))))
      = (ls_leases (ap_leases (ds_pool s)))(mac_key m \<mapsto> dynamic_lease v m ip (dp_hostname msg) (ds_pool s))"
    and "ap_offered (ds_pool (fst (handle_packet lower v c msg s)))
      = filter (\<lambda>(o_ip, t). o_ip \<noteq> ip) (ap_offered (ds_pool s))"
    and "ap_start (ds_pool (fst (handle_packet lower v c msg s))) = ap_start (ds_pool s)"
    and "ap_end (ds_pool (fst (handle_packet lower v c msg s))) = ap_end (ds_pool s)"
    and "ap_lease_secs (ds_pool (fst (handle_packet lower v c msg s))) = ap_lease_secs (ds_pool s)"
    and "ap_arp_probe (ds_pool (fst (handle_packet lower v c msg s))) = ap_arp_probe (ds_pool s)"
  using assms
  by (auto simp: handle_packet_def handle_request_def confirm_def insert_lease_def flush_def asks_for_def
    can_confirm_def dynamic_lease_def Let_def split: option.splits)

text \<open>
  A request is granted for any address: the pool neither looks whether the address is in its range
  nor whether it is held by someone else. Two clients that ask for the same address one after the other
  both get it, and both leases are in force at the same time.
\<close>

theorem two_clients_get_the_same_address:
  assumes "asks_for a ip c ma" "asks_for b ip c mb" "a \<noteq> b"
    and "can_confirm va ip (ds_pool s)" "can_confirm vb ip (ds_pool s)"
    and "pe_now vb < pe_now va + ap_lease_secs (ds_pool s)" "pe_now vb < pe_now vb + ap_lease_secs (ds_pool s)"
    and "handle_packet lower va c ma s = (s1, ra)" "handle_packet lower vb c mb s1 = (s2, rb)"
  shows "ra = Inr (Some (build_reply c ma Ack ip, reply_target ma))
    \<and> rb = Inr (Some (build_reply c mb Ack ip, reply_target mb))
    \<and> (\<exists>la lb. get_by_mac a (ap_leases (ds_pool s2)) = Some la \<and> get_by_mac b (ap_leases (ds_pool s2)) = Some lb
        \<and> le_ip la = ip \<and> le_ip lb = ip \<and> \<not> is_expired (pe_now vb) la \<and> \<not> is_expired (pe_now vb) lb)"
proof -
  have "a \<noteq> []" "b \<noteq> []" using assms(1,2) by (auto simp: asks_for_def)
  then have keys: "mac_key a \<noteq> mac_key b" using assms(3) by (simp add: mac_key_inj)
  note first = request_confirmed [OF assms(1,4), of lower, unfolded assms(8) fst_conv snd_conv]
  have "can_confirm vb ip (ds_pool s1)" using assms(5) first by (simp add: can_confirm_def)
  note second = request_confirmed [OF assms(2) this, of lower, unfolded assms(9) fst_conv snd_conv]
  show ?thesis
    using first second keys assms(6,7)
    by (simp add: get_by_mac_def dynamic_lease_def is_expired_def not_le)
qed

text \<open>
  A static lease lasts until its owner asks for it once: the confirmation overwrites it with an
  ordinary lease, and when this one has run out the address goes to any other client that wants it.
\<close>

theorem static_lease_becomes_dynamic:
  assumes "get_by_mac m (ap_leases (ds_pool s)) = Some l" "le_is_static l"
    and "asks_for m (le_ip l) c msg" "can_confirm v (le_ip l) (ds_pool s)"
    and "handle_packet lower v c msg s = (s1, r)"
    and "\<And>k l'. ls_leases (ap_leases (ds_pool s)) k = Some l' \<Longrightarrow> le_ip l' = le_ip l \<Longrightarrow> k = mac_key m"
    and "set (pe_iter w (ls_leases (ap_leases (ds_pool s1)))) = ran (ls_leases (ap_leases (ds_pool s1)))"
    and "pe_now v + ap_lease_secs (ds_pool s) \<le> pe_now w"
    and "own_lease w m2 (ds_pool s1) = None" "is_in_range (le_ip l) (ds_pool s)"
  shows "\<not> le_is_static (the (get_by_mac m (ap_leases (ds_pool s1))))
    \<and> snd (allocate w m2 (Some (le_ip l)) (ds_pool s1)) = Some (le_ip l)"
proof -
  note granted = request_confirmed [OF assms(3,4), of lower, unfolded assms(5) fst_conv snd_conv]
  let ?new = "dynamic_lease v m (le_ip l) (dp_hostname msg) (ds_pool s)"
  have "l' = ?new" if "l' \<in> ran (ls_leases (ap_leases (ds_pool s1)))" "le_ip l' = le_ip l" for l'
    using that assms(6) granted(2) by (auto simp: ran_def split: if_splits)
  then have "l' = ?new" if "get_by_ip w (le_ip l) (ap_leases (ds_pool s1)) = Some l'" for l'
    using that assms(7) by (auto simp: get_by_ip_def dest: find_SomeD)
  moreover have "is_expired (pe_now w) ?new" using assms(8) by (simp add: is_expired_def dynamic_lease_def)
  ultimately have "\<not> used_in_lease w (le_ip l) (ap_leases (ds_pool s1))"
    by (auto simp: used_in_lease_def split: option.splits)
  moreover have "\<not> is_offered (le_ip l) (expire_offers w (ds_pool s1))"
    using granted(3) by (auto simp: is_offered_def expire_offers_def list_ex_iff)
  ultimately show ?thesis
    using assms(9,10) granted
    by (simp add: allocate_def is_free_def Let_def get_by_mac_def dynamic_lease_def)
      (simp add: is_in_range_def)
qed

text \<open>
  An old lease hides the holder of its address. The lease table keeps leases that have run out, and the
  look-up by address takes the first entry it meets; when that is a lease that has run out, the address
  is offered to a third client although someone holds it.
\<close>

theorem old_lease_hides_the_holder:
  assumes "pe_iter v (ls_leases (ap_leases p)) = old # others" "le_ip old = ip" "is_expired (pe_now v) old"
    and "holder \<in> set others" "le_ip holder = ip" "\<not> is_expired (pe_now v) holder"
    and "set (old # others) = ran (ls_leases (ap_leases p))"
    and "own_lease v m p = None" "is_in_range ip p" "\<not> recently_offered v ip p"
  shows "leased_out v ip p \<and> snd (allocate v m (Some ip) p) = Some ip"
proof -
  have "\<not> is_offered ip (expire_offers v p)"
    using assms(10) by (auto simp: is_offered_def expire_offers_def recently_offered_def list_ex_iff)
  moreover have "\<not> used_in_lease v ip (ap_leases p)"
    using assms(1-3) by (simp add: used_in_lease_def get_by_ip_def)
  moreover have "leased_out v ip p"
    using assms(4-7) by (auto simp: leased_out_def)
  ultimately show ?thesis
    using assms(8,9) by (simp add: allocate_def is_free_def Let_def)
qed

subsection \<open>An example\<close>

definition client :: "byte \<Rightarrow> mac" where
  "client n = [2, 0, 0, 0, 0, n]"

definition sample_lease :: "byte \<Rightarrow> 64 word \<Rightarrow> bool \<Rightarrow> lease" where
  "sample_lease n expires static = \<lparr>le_mac = client n, le_ip = 10, le_hostname = None, le_expires_at = expires,
     le_is_static = static\<rparr>"

definition sample_pool_env :: "64 word \<Rightarrow> pool_env" where
  "sample_pool_env now = \<lparr>pe_iter = (\<lambda>m. List.map_filter (\<lambda>n. m (mac_key (client n))) [1, 2]),
     pe_can_write = True, pe_arp_free = (\<lambda>_. True), pe_now = now, pe_instant = 0\<rparr>"

definition sample_pool :: "(string \<Rightarrow> lease option) \<Rightarrow> dhcp_state" where
  "sample_pool leases = \<lparr>ds_pool = \<lparr>ap_start = 10, ap_end = 12, ap_offered = [], ap_leases = \<lparr>ls_leases = leases, ls_file = leases\<rparr>,
     ap_lease_secs = 100, ap_arp_probe = False\<rparr>, ds_hosts = \<lparr>dh_entries = (\<lambda>_. None), dh_domain = None\<rparr>\<rparr>"

definition sample_settings :: server_settings where
  "sample_settings = \<lparr>ss_server_ip = 1, ss_subnet = 0xFFFFFF00, ss_dns = [1], ss_domain = None, ss_lease_secs = 100\<rparr>"

definition sample_ask :: "byte \<Rightarrow> dhcp_packet" where
  "sample_ask n = \<lparr>dp_type = Some Request, dp_htype = 1, dp_xid = 7, dp_flags = 0, dp_ciaddr = 0, dp_giaddr = 0,
     dp_chaddr = client n, dp_hostname = None, dp_requested = Some 10, dp_server_id = None\<rparr>"

lemma client_key [simp]: "mac_key (client n) = mac_key (client k) \<longleftrightarrow> n = k"
  by (simp add: mac_key_inj client_def)

lemma sample_pool_fields [simp]:
  "pe_now (sample_pool_env t) = t" "can_confirm (sample_pool_env t) ip p"
  "ap_lease_secs (ds_pool (sample_pool m)) = 100" "ls_leases (ap_leases (ds_pool (sample_pool m))) = m"
  "pe_iter (sample_pool_env t) m = List.map_filter (\<lambda>n. m (mac_key (client n))) [1, 2]"
  by (simp_all add: sample_pool_env_def sample_pool_def can_confirm_def)

lemma sample_asks: "asks_for (client n) 10 sample_settings (sample_ask n)"
  by (simp add: asks_for_def sample_ask_def client_def)

theorem two_clients_get_the_same_address_witness:
  "\<exists>s2 rb. handle_packet id (sample_pool_env 3) sample_settings (sample_ask 2)
       (fst (handle_packet id (sample_pool_env 0) sample_settings (sample_ask 1) (sample_pool (\<lambda>_. None)))) = (s2, rb)
     \<and> le_ip (the (get_by_mac (client 1) (ap_leases (ds_pool s2)))) = 10
     \<and> le_ip (the (get_by_mac (client 2) (ap_leases (ds_pool s2)))) = 10"
proof -
  obtain s1 ra where one: "handle_packet id (sample_pool_env 0) sample_settings (sample_ask 1) (sample_pool (\<lambda>_. None)) = (s1, ra)"
    by fastforce
  obtain s2 rb where two: "handle_packet id (sample_pool_env 3) sample_settings (sample_ask 2) s1 = (s2, rb)"
    by fastforce
  have "client 1 \<noteq> client 2" by (simp add: client_def)
  from two_clients_get_the_same_address [OF sample_asks sample_asks this _ _ _ _ one two] show ?thesis
    using one two by auto
qed

theorem static_lease_becomes_dynamic_witness:
  "\<exists>s1 r. handle_packet id (sample_pool_env 0) sample_settings (sample_ask 1)
       (sample_pool [mac_key (client 1) \<mapsto> sample_lease 1 (- 1) True]) = (s1, r)
     \<and> snd (allocate (sample_pool_env 100) (client 2) (Some 10) (ds_pool s1)) = Some 10"
proof -
  let ?s = "sample_pool [mac_key (client 1) \<mapsto> sample_lease 1 (- 1) True]"
  obtain s1 r where run: "handle_packet id (sample_pool_env 0) sample_settings (sample_ask 1) ?s = (s1, r)"
    by fastforce
  have ip: "le_ip (sample_lease 1 (- 1) True) = 10" by (simp add: sample_lease_def)
  note granted = request_confirmed [OF sample_asks [of 1], where v = "sample_pool_env 0" and s = ?s and lower = id, unfolded run fst_conv snd_conv]
  have leases: "ls_leases (ap_leases (ds_pool s1))
      = [mac_key (client 1) \<mapsto> dynamic_lease (sample_pool_env 0) (client 1) 10 (dp_hostname (sample_ask 1)) (ds_pool ?s)]"
    using granted by simp
  have "\<not> le_is_static (the (get_by_mac (client 1) (ap_leases (ds_pool s1))))
    \<and> snd (allocate (sample_pool_env 100) (client 2) (Some (le_ip (sample_lease 1 (- 1) True))) (ds_pool s1))
      = Some (le_ip (sample_lease 1 (- 1) True))"
  proof (rule static_lease_becomes_dynamic [OF _ _ _ _ run])
    show "get_by_mac (client 1) (ap_leases (ds_pool ?s)) = Some (sample_lease 1 (- 1) True)"
      by (simp add: get_by_mac_def)
    show "set (pe_iter (sample_pool_env 100) (ls_leases (ap_leases (ds_pool s1)))) = ran (ls_leases (ap_leases (ds_pool s1)))"
      by (simp add: leases map_filter_simps)
    show "own_lease (sample_pool_env 100) (client 2) (ds_pool s1) = None"
      by (simp add: own_lease_def get_by_mac_def leases)
    show "k = mac_key (client 1)" if "ls_leases (ap_leases (ds_pool ?s)) k = Some l'" for k l'
      using that by (simp split: if_splits)
  qed (simp_all add: ip sample_asks sample_lease_def is_in_range_def sample_pool_def)
  then show ?thesis using run ip by auto
qed


theorem old_lease_hides_the_holder_witness:
  "snd (allocate (sample_pool_env 60) (client 3) (Some 10) (ds_pool (sample_pool
     [mac_key (client 1) \<mapsto> sample_lease 1 50 False, mac_key (client 2) \<mapsto> sample_lease 2 99 False]))) = Some 10"
proof -
  let ?p = "ds_pool (sample_pool [mac_key (client 1) \<mapsto> sample_lease 1 50 False, mac_key (client 2) \<mapsto> sample_lease 2 99 False])"
  have "leased_out (sample_pool_env 60) 10 ?p \<and> snd (allocate (sample_pool_env 60) (client 3) (Some 10) ?p) = Some 10"
    by (rule old_lease_hides_the_holder [where old = "sample_lease 1 50 False" and others = "[sample_lease 2 99 False]"
          and holder = "sample_lease 2 99 False"])
      (simp_all add: map_filter_simps sample_lease_def is_expired_def own_lease_def get_by_mac_def is_in_range_def
        recently_offered_def insert_commute, simp_all add: sample_pool_def)
  then show ?thesis by blast
qed

end
