(* ===== verification/Dhcp_V6.thy ===== *)
theory Dhcp_V6
  imports Dhcp_V4
begin

text \<open>
  The DHCPv6 server: leases and the pool (\<open>src/src/dhcp/v6/lease.rs\<close>), the handling of a packet
  (\<open>server.rs\<close>). As for DHCPv4, a packet is the record of the options the server reads, a reply the record of
  those it writes; their encoding is the business of \<open>dhcproto\<close>. The world is the record \<open>v6_env\<close>: the order
  in which the hash map of the leases is walked, whether the lease file can be written, the clock.
\<close>

unbundle bit_operations_syntax

subsection \<open>Leases\<close>

type_synonym duid = "byte list"

record v6_lease =
  vl_duid :: duid
  vl_ip :: "128 word"
  vl_hostname :: "string option"
  vl_expires_at :: "64 word"

record v6_lease_store =
  vs_leases :: "string \<Rightarrow> v6_lease option"
  vs_file :: "string \<Rightarrow> v6_lease option"

record v6_env =
  ve_iter :: "(string \<Rightarrow> v6_lease option) \<Rightarrow> v6_lease list"
  ve_can_write :: bool
  ve_now :: "64 word"

definition v6_is_expired :: "64 word \<Rightarrow> v6_lease \<Rightarrow> bool" where
  "v6_is_expired now l \<longleftrightarrow> vl_expires_at l \<le> now"

definition duid_key :: "duid \<Rightarrow> string" where
  "duid_key d = hex_encode d"

definition get_by_duid :: "duid \<Rightarrow> v6_lease_store \<Rightarrow> v6_lease option" where
  "get_by_duid d s = vs_leases s (duid_key d)"

definition v6_get_by_ip :: "v6_env \<Rightarrow> 128 word \<Rightarrow> v6_lease_store \<Rightarrow> v6_lease option" where
  "v6_get_by_ip v ip s = find (\<lambda>l. vl_ip l = ip) (ve_iter v (vs_leases s))"

text \<open>As in the other server, the table changes first and the write of the file may fail after that.\<close>

definition v6_flush :: "v6_env \<Rightarrow> v6_lease_store \<Rightarrow> v6_lease_store \<times> bool" where
  "v6_flush v s = (if ve_can_write v then (s\<lparr>vs_file := vs_leases s\<rparr>, True) else (s, False))"

definition v6_insert_lease :: "v6_env \<Rightarrow> v6_lease \<Rightarrow> v6_lease_store \<Rightarrow> v6_lease_store \<times> bool" where
  "v6_insert_lease v l s = v6_flush v (s\<lparr>vs_leases := (vs_leases s)(duid_key (vl_duid l) \<mapsto> l)\<rparr>)"

definition v6_remove_lease :: "v6_env \<Rightarrow> duid \<Rightarrow> v6_lease_store \<Rightarrow> v6_lease_store \<times> bool" where
  "v6_remove_lease v d s = v6_flush v (s\<lparr>vs_leases := (vs_leases s)(duid_key d := None)\<rparr>)"

definition v6_all_active :: "v6_env \<Rightarrow> v6_lease_store \<Rightarrow> v6_lease list" where
  "v6_all_active v s = filter (\<lambda>l. \<not> v6_is_expired (ve_now v) l) (ve_iter v (vs_leases s))"

subsection \<open>The pool\<close>

record v6_pool =
  vp_prefix :: "128 word"
  vp_prefix_len :: byte
  vp_next_host :: "64 word"
  vp_leases :: v6_lease_store
  vp_lease_secs :: "64 word"

definition new_v6_pool :: "128 word \<Rightarrow> byte \<Rightarrow> 64 word \<Rightarrow> v6_lease_store \<Rightarrow> v6_pool" where
  "new_v6_pool pfx len secs store =
     \<lparr>vp_prefix = pfx, vp_prefix_len = len, vp_next_host = 0x100, vp_leases = store, vp_lease_secs = secs\<rparr>"

text \<open>
  \<open>!((1 << (128 - prefix_len)) - 1)\<close>: in the release profile the subtraction of bytes wraps and the shift takes
  its amount modulo 128.
\<close>

definition v6_mask :: "byte \<Rightarrow> 128 word" where
  "v6_mask len = NOT (push_bit (unat (128 - len) mod 128) 1 - 1)"

definition make_addr :: "v6_pool \<Rightarrow> 64 word \<Rightarrow> 128 word" where
  "make_addr p host = (vp_prefix p AND v6_mask (vp_prefix_len p)) OR ucast host"

definition v6_allocate :: "v6_env \<Rightarrow> duid \<Rightarrow> v6_pool \<Rightarrow> v6_pool \<times> 128 word option" where
  "v6_allocate v d p =
     (case get_by_duid d (vp_leases p) of
        Some l \<Rightarrow>
          if \<not> v6_is_expired (ve_now v) l then (p, Some (vl_ip l))
          else (p\<lparr>vp_next_host := vp_next_host p + 1\<rparr>, Some (make_addr p (vp_next_host p)))
      | None \<Rightarrow> (p\<lparr>vp_next_host := vp_next_host p + 1\<rparr>, Some (make_addr p (vp_next_host p))))"

definition v6_confirm :: "v6_env \<Rightarrow> duid \<Rightarrow> 128 word \<Rightarrow> string option \<Rightarrow> v6_pool \<Rightarrow> v6_pool \<times> v6_lease option" where
  "v6_confirm v d ip hostname p =
     (let l = \<lparr>vl_duid = d, vl_ip = ip, vl_hostname = hostname, vl_expires_at = ve_now v + vp_lease_secs p\<rparr>;
          (s, ok) = v6_insert_lease v l (vp_leases p)
      in (p\<lparr>vp_leases := s\<rparr>, if ok then Some l else None))"

definition v6_release :: "v6_env \<Rightarrow> duid \<Rightarrow> v6_pool \<Rightarrow> v6_pool \<times> bool" where
  "v6_release v d p = (case v6_remove_lease v d (vp_leases p) of (s, ok) \<Rightarrow> (p\<lparr>vp_leases := s\<rparr>, ok))"

subsection \<open>Packets\<close>

datatype v6_msg_type = V6Solicit | V6Request | V6Renew | V6Release | V6InformationRequest | V6Reply | V6Other

text \<open>The address an identity association of the packet asks for, if it has one.\<close>

record v6_packet =
  v6m_peer :: "128 word"
  v6m_type :: v6_msg_type
  v6m_xid :: "byte list"
  v6m_client_id :: "duid option"
  v6m_requested :: "128 word option"

record v6_identity =
  vi_id :: "32 word"
  vi_t1 :: "32 word"
  vi_t2 :: "32 word"
  vi_addr :: "128 word"
  vi_preferred :: "32 word"
  vi_valid :: "32 word"

record v6_reply =
  vr_type :: v6_msg_type
  vr_xid :: "byte list"
  vr_client_id :: "duid option"
  vr_server_id :: duid
  vr_identity :: "v6_identity option"
  vr_dns :: "128 word list option"

definition server_duid :: duid where
  "server_duid = [0x00, 0x03, 0x00, 0x01, 0xde, 0xad, 0xbe, 0xef, 0xca, 0xfe]"

definition build_v6_reply :: "byte list \<Rightarrow> duid option \<Rightarrow> 128 word option \<Rightarrow> 128 word list \<Rightarrow> 32 word \<Rightarrow> v6_reply" where
  "build_v6_reply xid client_id ip dns lease_secs =
     \<lparr>vr_type = V6Reply, vr_xid = xid, vr_client_id = client_id, vr_server_id = server_duid,
      vr_identity = map_option (\<lambda>addr. \<lparr>vi_id = 1, vi_t1 = lease_secs div 2, vi_t2 = lease_secs * 7 div 8,
        vi_addr = addr, vi_preferred = lease_secs, vi_valid = lease_secs\<rparr>) ip,
      vr_dns = (if dns = [] then None else Some dns)\<rparr>"

record v6_settings =
  vt_mode :: dhcp_v6_mode
  vt_dns :: "128 word list"
  vt_lease_secs :: "32 word"

text \<open>There is a pool exactly in stateful mode (\<open>serve\<close>).\<close>

record v6_state =
  v6s_pool :: "v6_pool option"
  v6s_hosts :: dynamic_hosts

type_synonym v6_sent = "(v6_reply \<times> 128 word \<times> 16 word) option"

definition v6_answer :: "v6_settings \<Rightarrow> v6_packet \<Rightarrow> 128 word option \<Rightarrow> 32 word \<Rightarrow> v6_sent" where
  "v6_answer c msg ip secs =
     Some (build_v6_reply (v6m_xid msg) (v6m_client_id msg) ip (vt_dns c) secs, v6m_peer msg, 546)"

definition handle_solicit :: "v6_env \<Rightarrow> v6_settings \<Rightarrow> v6_packet \<Rightarrow> v6_pool \<Rightarrow> duid \<Rightarrow> v6_pool \<times> v6_sent" where
  "handle_solicit v c msg p d =
     (case v6_allocate v d p of
        (p', Some ip) \<Rightarrow> (p', v6_answer c msg (Some ip) (vt_lease_secs c))
      | (p', None) \<Rightarrow> (p', None))"

text \<open>\<open>requested.or(pool.allocate(duid).await)\<close>: the argument is computed whether it is needed or not.\<close>

definition handle_v6_request :: "(string \<Rightarrow> string) \<Rightarrow> v6_env \<Rightarrow> v6_settings \<Rightarrow> v6_packet \<Rightarrow> v6_pool \<Rightarrow> duid \<Rightarrow> dynamic_hosts
    \<Rightarrow> (v6_pool \<times> dynamic_hosts) \<times> v6_sent" where
  "handle_v6_request lower v c msg p d h =
     (case v6_allocate v d p of (p1, own) \<Rightarrow>
        (case (case v6m_requested msg of Some ip \<Rightarrow> Some ip | None \<Rightarrow> own) of
           None \<Rightarrow> ((p1, h), None)
         | Some ip \<Rightarrow>
             (case v6_confirm v d ip None p1 of
                (p2, Some l) \<Rightarrow>
                  ((p2, case vl_hostname l of None \<Rightarrow> h | Some hn \<Rightarrow> dynamic_insert lower hn (V6 (vl_ip l)) h),
                   v6_answer c msg (Some ip) (vt_lease_secs c))
              | (p2, None) \<Rightarrow> ((p2, h), None))))"

datatype v6_error = V6LeaseNotRemoved

definition handle_v6_packet :: "(string \<Rightarrow> string) \<Rightarrow> v6_env \<Rightarrow> v6_settings \<Rightarrow> v6_packet \<Rightarrow> v6_state
    \<Rightarrow> v6_state \<times> (v6_error + v6_sent)" where
  "handle_v6_packet lower v c msg s =
     (if v6m_type msg = V6InformationRequest then (s, Inr (v6_answer c msg None 0))
      else if vt_mode c \<noteq> Stateful then (s, Inr None)
      else case (v6s_pool s, v6m_client_id msg) of
             (Some p, Some d) \<Rightarrow>
               (case v6m_type msg of
                  V6Solicit \<Rightarrow>
                    (case handle_solicit v c msg p d of (p', sent) \<Rightarrow> (s\<lparr>v6s_pool := Some p'\<rparr>, Inr sent))
                | V6Release \<Rightarrow>
                    (case v6_release v d p of (p', ok) \<Rightarrow>
                       (s\<lparr>v6s_pool := Some p'\<rparr>, if ok then Inr None else Inl V6LeaseNotRemoved))
                | t \<Rightarrow>
                    if t = V6Request \<or> t = V6Renew
                    then (case handle_v6_request lower v c msg p d (v6s_hosts s) of ((p', h), sent) \<Rightarrow>
                            (s\<lparr>v6s_pool := Some p', v6s_hosts := h\<rparr>, Inr sent))
                    else (s, Inr None))
           | _ \<Rightarrow> (s, Inr None))"

subsection \<open>Start\<close>

datatype v6_start_error = V6BadLeaseTime | V6BadPrefix

text \<open>\<open>parse_v6_prefix\<close>; \<open>parse_ip6\<close> is the reader of addresses of the standard library.\<close>

definition parse_v6_prefix :: "(string \<Rightarrow> 128 word option) \<Rightarrow> string \<Rightarrow> (128 word \<times> byte) option" where
  "parse_v6_prefix parse_ip6 text =
     (case split_on CHR ''/'' text of
        [a, b] \<Rightarrow>
          (case parse_ip6 a of None \<Rightarrow> None
           | Some ip \<Rightarrow> (case parse_u8 b of None \<Rightarrow> None | Some len \<Rightarrow> Some (ip, word_of_nat len)))
      | _ \<Rightarrow> None)"

text \<open>
  \<open>serve\<close> up to its loop; \<open>file\<close> is what the lease file holds. Without a prefix in the configuration it is
  \<open>fd00::/64\<close>.
\<close>

definition start_v6 :: "(string \<Rightarrow> string) \<Rightarrow> (string \<Rightarrow> 128 word option) \<Rightarrow> v6_env \<Rightarrow> dhcp_v6_config
    \<Rightarrow> (string \<Rightarrow> v6_lease option) \<Rightarrow> dynamic_hosts \<Rightarrow> (dynamic_hosts \<times> v6_start_error) + v6_state \<times> v6_settings" where
  "start_v6 lower parse_ip6 v c file h0 =
     (case parse_lease_time (v6_lease_time c) of
        None \<Rightarrow> Inl (h0, V6BadLeaseTime)
      | Some secs \<Rightarrow>
          let settings = \<lparr>vt_mode = v6_mode c, vt_dns = v6_dns c, vt_lease_secs = ucast secs\<rparr>
          in if v6_mode c \<noteq> Stateful then Inr (\<lparr>v6s_pool = None, v6s_hosts = h0\<rparr>, settings)
             else let store = \<lparr>vs_leases = file, vs_file = file\<rparr>;
                      h = fold (\<lambda>l h. case vl_hostname l of None \<Rightarrow> h
                                        | Some hn \<Rightarrow> dynamic_insert lower hn (V6 (vl_ip l)) h) (v6_all_active v store) h0
                  in case (case v6_prefix c of None \<Rightarrow> Some (0xfd000000000000000000000000000000, 64)
                           | Some t \<Rightarrow> parse_v6_prefix parse_ip6 t) of
                       None \<Rightarrow> Inl (h, V6BadPrefix)
                     | Some (pfx, len) \<Rightarrow>
                         Inr (\<lparr>v6s_pool = Some (new_v6_pool pfx len secs store), v6s_hosts = h\<rparr>, settings))"

end
