(* ===== verification/Dhcp_V6_Properties.thy ===== *)
theory Dhcp_V6_Properties
  imports Dhcp_V6 Dhcp_Properties Event_Runs
begin

text \<open>
  The addresses of the DHCPv6 server: within one run clients that take what they are offered have addresses of
  their own, inside the prefix; a restart forgets which host numbers were given away, and a prefix that is too
  long for the first host number is left.
\<close>

unbundle bit_operations_syntax

subsection \<open>Addresses\<close>

lemma bit_v6_mask:
  assumes "0 < unat len" "unat len \<le> 128" "i < 128"
  shows "bit (v6_mask len) i \<longleftrightarrow> 128 - unat len \<le> i"
proof -
  have "len \<le> 128" using assms(2) by (simp add: word_le_nat_alt)
  then have "unat (128 - len) = 128 - unat len" by (simp add: unat_sub)
  then have "v6_mask len = NOT (mask (128 - unat len))"
    using assms by (simp add: v6_mask_def mask_eq_exp_minus_1 push_bit_eq_mult)
  then show ?thesis using assms by (simp add: bit_not_iff bit_mask_iff linorder_not_less)
qed

lemma bit_make_addr:
  assumes "0 < unat (vp_prefix_len p)" "unat (vp_prefix_len p) \<le> 128" "i < 128"
  shows "bit (make_addr p host) i \<longleftrightarrow>
    (128 - unat (vp_prefix_len p) \<le> i \<and> bit (vp_prefix p) i) \<or> bit host i"
  using assms by (auto simp: make_addr_def bit_or_iff bit_and_iff bit_v6_mask bit_ucast_iff)

text \<open>
  A host number that fits keeps the address inside the prefix and can be read off it.
\<close>

lemma make_addr_inside:
  assumes "0 < unat (vp_prefix_len p)" "unat (vp_prefix_len p) \<le> 128"
    and "unat host < 2 ^ (128 - unat (vp_prefix_len p))"
  shows "drop_bit (128 - unat (vp_prefix_len p)) (make_addr p host)
      = drop_bit (128 - unat (vp_prefix_len p)) (vp_prefix p)"
    and "take_bit (128 - unat (vp_prefix_len p)) (make_addr p host) = ucast host"
proof -
  let ?n = "128 - unat (vp_prefix_len p)"
  have high: "\<not> bit host i" if "?n \<le> i" for i
  proof -
    have "take_bit ?n (unat host) = unat host" using assms(3) by (simp add: take_bit_nat_eq_self)
    then have "bit (unat host) i \<longleftrightarrow> i < ?n \<and> bit (unat host) i" by (metis bit_take_bit_iff)
    then show ?thesis using that by (simp add: bit_unsigned_iff)
  qed
  show "drop_bit ?n (make_addr p host) = drop_bit ?n (vp_prefix p)"
  proof (rule bit_word_eqI)
    fix i
    show "bit (drop_bit ?n (make_addr p host)) i \<longleftrightarrow> bit (drop_bit ?n (vp_prefix p)) i"
      using assms(1,2) high [of "?n + i"] bit_make_addr [of p "?n + i" host]
        bit_imp_le_length [of "make_addr p host" "?n + i"] bit_imp_le_length [of "vp_prefix p" "?n + i"]
      by (auto simp: bit_drop_bit_eq)
  qed
  show "take_bit ?n (make_addr p host) = ucast host"
  proof (rule bit_word_eqI)
    fix i assume "i < LENGTH(128)"
    then show "bit (take_bit ?n (make_addr p host)) i \<longleftrightarrow> bit (ucast host :: 128 word) i"
      using assms(1,2) high [of i] bit_make_addr [of p i host]
      by (cases "?n \<le> i") (auto simp: bit_take_bit_iff bit_ucast_iff not_le)
  qed
qed

lemma host_fits: "len \<le> 64 \<Longrightarrow> unat (h :: 64 word) < 2 ^ (128 - len)"
proof -
  assume "len \<le> 64"
  have "unat h < 2 ^ 64" using unsigned_less [of h] by simp
  also have "(2 :: nat) ^ 64 \<le> 2 ^ (128 - len)" using \<open>len \<le> 64\<close> by (intro power_increasing) auto
  finally show ?thesis .
qed

lemma make_addr_inj:
  assumes "0 < unat (vp_prefix_len p)" "unat (vp_prefix_len p) \<le> 64" "make_addr p h1 = make_addr p h2"
  shows "h1 = h2"
proof -
  have "(ucast h1 :: 128 word) = ucast h2"
    using make_addr_inside(2) [of p h1] make_addr_inside(2) [of p h2] host_fits assms by simp
  then have "unat (ucast h1 :: 128 word) = unat (ucast h2 :: 128 word)" by simp
  then have "unat h1 = unat h2" by (simp add: unat_ucast_up)
  then show ?thesis by (simp add: word_unat_eq_iff)
qed

subsection \<open>One run\<close>

text \<open>
  A client takes what it is offered: a packet that asks for an address asks for the one its lease has. The
  second condition leaves the counter room: fewer than \<open>2 ^ 64\<close> packets.
\<close>

definition takes_offer :: "v6_state \<Rightarrow> v6_env \<times> v6_packet \<Rightarrow> bool" where
  "takes_offer s e = (case e of (v, msg) \<Rightarrow>
     (case v6s_pool s of None \<Rightarrow> True | Some p \<Rightarrow>
        unat (vp_next_host p) < 2 ^ 64 - 1
        \<and> (case v6m_requested msg of None \<Rightarrow> True | Some ip \<Rightarrow>
             (case v6m_client_id msg of None \<Rightarrow> True | Some d \<Rightarrow>
                map_option vl_ip (get_by_duid d (vp_leases p)) = Some ip))))"

definition v6_step :: "(string \<Rightarrow> string) \<Rightarrow> v6_settings \<Rightarrow> v6_env \<times> v6_packet \<Rightarrow> v6_state \<Rightarrow> v6_state" where
  "v6_step lower c e s = fst (handle_v6_packet lower (fst e) c (snd e) s)"

text \<open>Every lease is on a host number the pool has given out, no two leases on the same.\<close>

definition given_out :: "v6_pool \<Rightarrow> 128 word \<Rightarrow> bool" where
  "given_out p ip \<longleftrightarrow> (\<exists>h < vp_next_host p. ip = make_addr p h)"

definition v6_pool_ok :: "v6_pool \<Rightarrow> bool" where
  "v6_pool_ok p \<longleftrightarrow>
     (\<forall>k l. vs_leases (vp_leases p) k = Some l \<longrightarrow> given_out p (vl_ip l))
     \<and> (\<forall>k1 k2 l1 l2. vs_leases (vp_leases p) k1 = Some l1 \<and> vs_leases (vp_leases p) k2 = Some l2
          \<and> vl_ip l1 = vl_ip l2 \<longrightarrow> k1 = k2)"

definition v6_inv :: "128 word \<Rightarrow> byte \<Rightarrow> v6_state \<Rightarrow> bool" where
  "v6_inv pfx len s \<longleftrightarrow> (\<exists>p. v6s_pool s = Some p \<and> vp_prefix p = pfx \<and> vp_prefix_len p = len \<and> v6_pool_ok p)"

text \<open>What \<open>allocate\<close> and \<open>confirm\<close> do to the pool, seen from the invariant.\<close>

lemma v6_allocate_cases:
  assumes "v6_allocate v d p = (p', r)"
  obtains (own) l where "get_by_duid d (vp_leases p) = Some l" "p' = p" "r = Some (vl_ip l)"
  | (fresh) "p' = p\<lparr>vp_next_host := vp_next_host p + 1\<rparr>" "r = Some (make_addr p (vp_next_host p))"
  using assms by (auto simp: v6_allocate_def split: option.splits if_splits)

lemma next_host_grows: "unat h < 2 ^ 64 - 1 \<Longrightarrow> unat (h + 1) = unat h + 1" for h :: "64 word"
  by (simp add: unat_word_ariths)

lemma make_addr_next [simp]: "make_addr (p\<lparr>vp_next_host := n\<rparr>) h = make_addr p h"
  "make_addr (p\<lparr>vp_leases := s\<rparr>) h = make_addr p h"
  by (simp_all add: make_addr_def)

lemma given_out_next:
  assumes "unat (vp_next_host p) < 2 ^ 64 - 1"
  shows "given_out p ip \<Longrightarrow> given_out (p\<lparr>vp_next_host := vp_next_host p + 1\<rparr>) ip"
    and "given_out (p\<lparr>vp_next_host := vp_next_host p + 1\<rparr>) (make_addr p (vp_next_host p))"
proof -
  have "vp_next_host p < vp_next_host p + 1"
    using next_host_grows [OF assms] by (simp add: word_less_nat_alt)
  then show "given_out p ip \<Longrightarrow> given_out (p\<lparr>vp_next_host := vp_next_host p + 1\<rparr>) ip"
    and "given_out (p\<lparr>vp_next_host := vp_next_host p + 1\<rparr>) (make_addr p (vp_next_host p))"
    by (auto simp: given_out_def intro: less_trans)
qed

lemma given_out_leases [simp]: "given_out (p\<lparr>vp_leases := s\<rparr>) ip = given_out p ip"
  by (simp add: given_out_def)

lemma pool_ok_allocate:
  assumes "v6_pool_ok p" "unat (vp_next_host p) < 2 ^ 64 - 1" "v6_allocate v d p = (p', r)"
  shows "v6_pool_ok p'"
  using assms(3)
proof (cases rule: v6_allocate_cases)
  case own
  then show ?thesis using assms(1) by simp
next
  case fresh
  then show ?thesis using assms(1) given_out_next(1) [OF assms(2)] by (auto simp: v6_pool_ok_def)
qed

lemma allocate_keeps:
  assumes "v6_allocate v d p = (p', r)"
  shows "vp_leases p' = vp_leases p" "vp_prefix p' = vp_prefix p" "vp_prefix_len p' = vp_prefix_len p"
  using assms by (cases rule: v6_allocate_cases; simp)+

text \<open>Who may be given an address: only the client itself may have a lease on it.\<close>

definition free_for :: "duid \<Rightarrow> 128 word \<Rightarrow> v6_pool \<Rightarrow> bool" where
  "free_for d ip p \<longleftrightarrow> given_out p ip
     \<and> (\<forall>k l. vs_leases (vp_leases p) k = Some l \<and> vl_ip l = ip \<longrightarrow> k = duid_key d)"

lemma own_lease_free_for:
  "v6_pool_ok p \<Longrightarrow> get_by_duid d (vp_leases p) = Some l \<Longrightarrow> free_for d (vl_ip l) p"
  unfolding v6_pool_ok_def free_for_def get_by_duid_def by blast

lemma allocated_free_for:
  assumes "v6_pool_ok p" "unat (vp_next_host p) < 2 ^ 64 - 1" "v6_allocate v d p = (p', Some ip)"
    and len: "0 < unat (vp_prefix_len p)" "unat (vp_prefix_len p) \<le> 64"
  shows "free_for d ip p'"
  using assms(3)
proof (cases rule: v6_allocate_cases)
  case own
  then show ?thesis using own_lease_free_for [OF assms(1)] by simp
next
  case fresh
  have "vl_ip l \<noteq> make_addr p (vp_next_host p)" if leased: "vs_leases (vp_leases p) k = Some l" for k l
  proof
    assume "vl_ip l = make_addr p (vp_next_host p)"
    moreover obtain h where "h < vp_next_host p" "vl_ip l = make_addr p h"
      using leased assms(1) unfolding v6_pool_ok_def given_out_def by blast
    ultimately show False using make_addr_inj [OF len, of h "vp_next_host p"] by simp
  qed
  then show ?thesis using fresh given_out_next(2) [OF assms(2)] by (auto simp: free_for_def)
qed

lemma confirm_leases:
  "vs_leases (vp_leases (fst (v6_confirm v d ip hn p))) = (vs_leases (vp_leases p))
     (duid_key d \<mapsto> \<lparr>vl_duid = d, vl_ip = ip, vl_hostname = hn, vl_expires_at = ve_now v + vp_lease_secs p\<rparr>)"
  "vp_next_host (fst (v6_confirm v d ip hn p)) = vp_next_host p"
  "vp_prefix (fst (v6_confirm v d ip hn p)) = vp_prefix p"
  "vp_prefix_len (fst (v6_confirm v d ip hn p)) = vp_prefix_len p"
  by (simp_all add: v6_confirm_def v6_insert_lease_def v6_flush_def Let_def)

lemma release_leases:
  "vs_leases (vp_leases (fst (v6_release v d p))) = (vs_leases (vp_leases p))(duid_key d := None)"
  "vp_next_host (fst (v6_release v d p)) = vp_next_host p"
  "vp_prefix (fst (v6_release v d p)) = vp_prefix p"
  "vp_prefix_len (fst (v6_release v d p)) = vp_prefix_len p"
  by (simp_all add: v6_release_def v6_remove_lease_def v6_flush_def Let_def)

lemma given_out_cong:
  "vp_next_host p' = vp_next_host p \<Longrightarrow> vp_prefix p' = vp_prefix p \<Longrightarrow> vp_prefix_len p' = vp_prefix_len p \<Longrightarrow>
    given_out p' ip = given_out p ip"
  by (simp add: given_out_def make_addr_def)

lemma pool_ok_confirm: "v6_pool_ok p \<Longrightarrow> free_for d ip p \<Longrightarrow> v6_pool_ok (fst (v6_confirm v d ip hn p))"
  unfolding v6_pool_ok_def free_for_def confirm_leases
    given_out_cong [OF confirm_leases(2) confirm_leases(3) confirm_leases(4)]
  by (auto split: if_splits)

lemma pool_ok_release: "v6_pool_ok p \<Longrightarrow> v6_pool_ok (fst (v6_release v d p))"
  unfolding v6_pool_ok_def release_leases
    given_out_cong [OF release_leases(2) release_leases(3) release_leases(4)]
  by (auto split: if_splits)

lemma request_pool:
  "v6_allocate v d p = (p1, Some ip') \<Longrightarrow>
    fst (fst (handle_v6_request lower v c msg p d h))
      = fst (v6_confirm v d (case v6m_requested msg of Some ip \<Rightarrow> ip | None \<Rightarrow> ip') None p1)"
  by (auto simp: handle_v6_request_def split: option.splits prod.splits)

lemma allocate_some: "\<exists>p' ip. v6_allocate v d p = (p', Some ip)"
  by (simp add: v6_allocate_def split: option.split)

lemma pool_ok_request:
  assumes ok: "v6_pool_ok p" and room: "unat (vp_next_host p) < 2 ^ 64 - 1"
    and len: "0 < unat (vp_prefix_len p)" "unat (vp_prefix_len p) \<le> 64"
    and asks: "\<forall>ip. v6m_requested msg = Some ip \<longrightarrow> map_option vl_ip (get_by_duid d (vp_leases p)) = Some ip"
  shows "v6_pool_ok (fst (fst (handle_v6_request lower v c msg p d h)))"
proof -
  obtain p1 own where a: "v6_allocate v d p = (p1, Some own)" using allocate_some by blast
  have ok1: "v6_pool_ok p1" using pool_ok_allocate [OF ok room a] .
  have "free_for d (case v6m_requested msg of Some ip \<Rightarrow> ip | None \<Rightarrow> own) p1"
  proof (cases "v6m_requested msg")
    case None
    then show ?thesis using allocated_free_for [OF ok room a len] by simp
  next
    case (Some ip)
    then have "map_option vl_ip (get_by_duid d (vp_leases p1)) = Some ip"
      using asks allocate_keeps(1) [OF a] by simp
    then show ?thesis using Some own_lease_free_for [OF ok1] by auto
  qed
  then show ?thesis unfolding request_pool [OF a] by (rule pool_ok_confirm [OF ok1])
qed

lemma request_keeps:
  "vp_prefix (fst (fst (handle_v6_request lower v c msg p d h))) = vp_prefix p"
  "vp_prefix_len (fst (fst (handle_v6_request lower v c msg p d h))) = vp_prefix_len p"
proof -
  obtain p1 own where a: "v6_allocate v d p = (p1, Some own)" using allocate_some by blast
  show "vp_prefix (fst (fst (handle_v6_request lower v c msg p d h))) = vp_prefix p"
    and "vp_prefix_len (fst (fst (handle_v6_request lower v c msg p d h))) = vp_prefix_len p"
    unfolding request_pool [OF a] confirm_leases using allocate_keeps [OF a] by simp_all
qed

text \<open>The pool after a packet: unchanged, or the pool of the handler the packet has reached.\<close>

lemma step_pool:
  assumes "v6s_pool s = Some p"
  shows "v6s_pool (v6_step lower c (v, msg) s) = Some p
    \<or> (\<exists>d. v6m_client_id msg = Some d
        \<and> (v6s_pool (v6_step lower c (v, msg) s) = Some (fst (v6_allocate v d p))
           \<or> v6s_pool (v6_step lower c (v, msg) s) = Some (fst (v6_release v d p))
           \<or> v6s_pool (v6_step lower c (v, msg) s) = Some (fst (fst (handle_v6_request lower v c msg p d (v6s_hosts s))))))"
  using assms
  by (simp add: v6_step_def handle_v6_packet_def handle_solicit_def split: option.split v6_msg_type.split prod.split)

lemma v6_inv_step:
  assumes inv: "v6_inv pfx len s" and takes: "takes_offer s e" and len: "0 < unat len" "unat len \<le> 64"
  shows "v6_inv pfx len (v6_step lower c e s)"
proof -
  obtain v msg where e: "e = (v, msg)" by fastforce
  obtain p where p: "v6s_pool s = Some p" "vp_prefix p = pfx" "vp_prefix_len p = len" and ok: "v6_pool_ok p"
    using inv unfolding v6_inv_def by blast
  have room: "unat (vp_next_host p) < 2 ^ 64 - 1" using takes p(1) e by (simp add: takes_offer_def)
  consider "v6s_pool (v6_step lower c e s) = Some p"
    | d where "v6s_pool (v6_step lower c e s) = Some (fst (v6_allocate v d p))"
    | d where "v6s_pool (v6_step lower c e s) = Some (fst (v6_release v d p))"
    | d where "v6m_client_id msg = Some d"
        "v6s_pool (v6_step lower c e s) = Some (fst (fst (handle_v6_request lower v c msg p d (v6s_hosts s))))"
    using step_pool [OF p(1), of lower c v msg] e by blast
  then show ?thesis
  proof cases
    case 1
    then show ?thesis using p ok by (simp add: v6_inv_def)
  next
    case (2 d)
    obtain p1 own where a: "v6_allocate v d p = (p1, Some own)" using allocate_some by blast
    show ?thesis using 2 a p pool_ok_allocate [OF ok room a] allocate_keeps [OF a] by (simp add: v6_inv_def)
  next
    case (3 d)
    then show ?thesis using p pool_ok_release [OF ok] by (simp add: v6_inv_def release_leases)
  next
    case (4 d)
    have "v6_pool_ok (fst (fst (handle_v6_request lower v c msg p d (v6s_hosts s))))"
      using takes 4(1) e p(1) len p(3) by (intro pool_ok_request [OF ok room]) (auto simp: takes_offer_def)
    then show ?thesis using 4(2) p by (simp add: v6_inv_def request_keeps)
  qed
qed

definition fresh_v6 :: "128 word \<Rightarrow> byte \<Rightarrow> 64 word \<Rightarrow> dynamic_hosts \<Rightarrow> v6_state" where
  "fresh_v6 pfx len secs h =
     \<lparr>v6s_pool = Some (new_v6_pool pfx len secs \<lparr>vs_leases = Map.empty, vs_file = Map.empty\<rparr>), v6s_hosts = h\<rparr>"

lemma fresh_v6_inv: "v6_inv pfx len (fresh_v6 pfx len secs h)"
  by (simp add: fresh_v6_def v6_inv_def new_v6_pool_def v6_pool_ok_def)

interpretation v6_runs: event_invariant takes_offer "v6_step lower c" "fresh_v6 pfx len secs h"
    "\<lambda>s. 0 < unat len \<and> unat len \<le> 64 \<longrightarrow> v6_inv pfx len s" for lower c pfx len secs h
  by unfold_locales (auto simp: fresh_v6_inv intro: v6_inv_step)

text \<open>What a start of the stateful server comes to: the pool begins at its first host number.\<close>

lemma start_v6_pool:
  assumes "start_v6 lower parse_ip6 v cfg file h = Inr (s0, c)" "v6s_pool s0 = Some p0"
  obtains secs h' where "vt_mode c = Stateful"
    and "(case v6_prefix cfg of None \<Rightarrow> Some (0xfd000000000000000000000000000000, 64)
        | Some t \<Rightarrow> parse_v6_prefix parse_ip6 t) = Some (vp_prefix p0, vp_prefix_len p0)"
    and "p0 = new_v6_pool (vp_prefix p0) (vp_prefix_len p0) secs \<lparr>vs_leases = file, vs_file = file\<rparr>"
    and "s0 = \<lparr>v6s_pool = Some p0, v6s_hosts = h'\<rparr>"
proof -
  define choice where "choice = (case v6_prefix cfg of None \<Rightarrow> Some (0xfd000000000000000000000000000000, 64)
    | Some t \<Rightarrow> parse_v6_prefix parse_ip6 t)"
  obtain secs where secs: "parse_lease_time (v6_lease_time cfg) = Some secs"
    using assms(1) by (cases "parse_lease_time (v6_lease_time cfg)") (simp_all add: start_v6_def)
  have mode: "v6_mode cfg = Stateful"
    using assms by (cases "v6_mode cfg") (auto simp: start_v6_def secs Let_def)
  obtain pfx len where choice: "choice = Some (pfx, len)"
    using assms(1) by (cases choice) (auto simp: start_v6_def secs mode Let_def simp flip: choice_def)
  let ?p = "new_v6_pool pfx len secs \<lparr>vs_leases = file, vs_file = file\<rparr>"
  have "v6s_pool s0 = Some ?p \<and> vt_mode c = Stateful"
    using assms(1) choice by (auto simp: start_v6_def secs mode Let_def simp flip: choice_def)
  then have p0: "p0 = ?p" and mode: "vt_mode c = Stateful" using assms(2) by simp_all
  show ?thesis
  proof (rule that [OF mode])
    show "(case v6_prefix cfg of None \<Rightarrow> Some (0xfd000000000000000000000000000000, 64)
        | Some t \<Rightarrow> parse_v6_prefix parse_ip6 t) = Some (vp_prefix p0, vp_prefix_len p0)"
      using choice unfolding p0 choice_def by (simp add: new_v6_pool_def)
    show "p0 = new_v6_pool (vp_prefix p0) (vp_prefix_len p0) secs \<lparr>vs_leases = file, vs_file = file\<rparr>"
      unfolding p0 by (simp add: new_v6_pool_def)
    show "s0 = \<lparr>v6s_pool = Some p0, v6s_hosts = v6s_hosts s0\<rparr>"
      using assms(2) by (cases s0) simp
  qed
qed

lemma start_v6_fresh:
  assumes "start_v6 lower parse_ip6 v cfg Map.empty h = Inr (s0, c)" "v6s_pool s0 = Some p0"
  obtains secs h' where "s0 = fresh_v6 (vp_prefix p0) (vp_prefix_len p0) secs h'"
  using start_v6_pool [OF assms] that unfolding fresh_v6_def by metis


subsection \<open>Across a restart\<close>

lemma hex_pair: "[lower_hex_digit (unat a div 16), lower_hex_digit (unat a mod 16)]
    = [lower_hex_digit (unat b div 16), lower_hex_digit (unat b mod 16)] \<Longrightarrow> a = (b :: byte)"
  using hex_encode_byte [of a b] by (simp add: hex_encode_def)

lemma hex_encode_inj: "hex_encode a = hex_encode b \<Longrightarrow> a = b"
proof (induction a arbitrary: b)
  case (Cons x a)
  then obtain y c where b: "b = y # c" by (cases b) (auto simp: hex_encode_def)
  then show ?case using Cons hex_pair [of x y] by (simp add: hex_encode_def)
qed (cases b; simp add: hex_encode_def)

lemma duid_key_eq [simp]: "duid_key a = duid_key b \<longleftrightarrow> a = b"
  using hex_encode_inj by (auto simp: duid_key_def)

lemma request_of_stranger:
  assumes "v6s_pool s = Some p" "vt_mode c = Stateful" "v6m_type msg = V6Request" "v6m_client_id msg = Some d"
    and "v6m_requested msg = None" "get_by_duid d (vp_leases p) = None"
  shows "v6s_pool (v6_step lower c (v, msg) s)
    = Some (fst (v6_confirm v d (make_addr p (vp_next_host p)) None (p\<lparr>vp_next_host := vp_next_host p + 1\<rparr>)))"
  using assms
  by (simp add: v6_step_def handle_v6_packet_def handle_v6_request_def v6_allocate_def split: prod.split option.split)

text \<open>
  A restart starts counting again: the first client served after it gets the address the first client
  before it holds, whose lease is in the file, was loaded, and has not expired.
\<close>

theorem restart_gives_out_a_leased_address:
  assumes "start_v6 lower parse_ip6 v cfg Map.empty h = Inr (s0, c)" and "v6s_pool s0 = Some p0" and "ve_can_write v"
    and "v6m_type a = V6Request \<and> v6m_client_id a = Some dA \<and> v6m_requested a = None"
    and "v6s_pool (v6_step lower c (v, a) s0) = Some p1"
    and "start_v6 lower parse_ip6 w cfg (vs_file (vp_leases p1)) h' = Inr (s1, c')" and "v6s_pool s1 = Some p2"
    and "v6m_type b = V6Request \<and> v6m_client_id b = Some dB \<and> v6m_requested b = None"
    and "v6s_pool (v6_step lower c' (w, b) s1) = Some p3"
    and "dA \<noteq> dB" and "ve_now w < ve_now v + vp_lease_secs p0"
  shows "\<exists>la lb. get_by_duid dA (vp_leases p3) = Some la \<and> get_by_duid dB (vp_leases p3) = Some lb
    \<and> vl_ip la = vl_ip lb \<and> \<not> v6_is_expired (ve_now w) la"
proof -
  let ?choice = "case v6_prefix cfg of None \<Rightarrow> Some (0xfd000000000000000000000000000000, 64)
    | Some t \<Rightarrow> parse_v6_prefix parse_ip6 t"
  obtain secs where st: "vt_mode c = Stateful" and c0: "?choice = Some (vp_prefix p0, vp_prefix_len p0)"
    and p0: "p0 = new_v6_pool (vp_prefix p0) (vp_prefix_len p0) secs \<lparr>vs_leases = Map.empty, vs_file = Map.empty\<rparr>"
    using start_v6_pool [OF assms(1,2)] by metis
  obtain secs' where st': "vt_mode c' = Stateful" and c2: "?choice = Some (vp_prefix p2, vp_prefix_len p2)"
    and p2: "p2 = new_v6_pool (vp_prefix p2) (vp_prefix_len p2) secs'
      \<lparr>vs_leases = vs_file (vp_leases p1), vs_file = vs_file (vp_leases p1)\<rparr>"
    using start_v6_pool [OF assms(6,7)] by metis
  have same: "vp_prefix p2 = vp_prefix p0" "vp_prefix_len p2 = vp_prefix_len p0" using c0 c2 by simp_all
  have next0: "vp_next_host p0 = 0x100" "vs_leases (vp_leases p0) = Map.empty" "get_by_duid d (vp_leases p0) = None" for d
    by (subst p0, simp add: new_v6_pool_def get_by_duid_def)+
  define la where "la = \<lparr>vl_duid = dA, vl_ip = make_addr p0 0x100, vl_hostname = None,
    vl_expires_at = ve_now v + vp_lease_secs p0\<rparr>"
  have "p1 = fst (v6_confirm v dA (make_addr p0 0x100) None (p0\<lparr>vp_next_host := 0x101\<rparr>))"
    using request_of_stranger [OF assms(2) st, of a dA lower v] assms(4,5) next0 by simp
  then have "vs_file (vp_leases p1) = [duid_key dA \<mapsto> la]"
    using assms(3) next0 by (simp add: v6_confirm_def v6_insert_lease_def v6_flush_def Let_def la_def)
  then have leases2: "vs_leases (vp_leases p2) = [duid_key dA \<mapsto> la]" and next2: "vp_next_host p2 = 0x100"
    by (subst p2, simp add: new_v6_pool_def)+
  have "get_by_duid dB (vp_leases p2) = None" using leases2 assms(10) by (simp add: get_by_duid_def)
  then have "p3 = fst (v6_confirm w dB (make_addr p2 0x100) None (p2\<lparr>vp_next_host := 0x101\<rparr>))"
    using request_of_stranger [OF assms(7) st', of b dB lower w] assms(8,9) next2 by simp
  moreover have "make_addr p2 0x100 = make_addr p0 0x100" using same by (simp add: make_addr_def)
  ultimately have "vs_leases (vp_leases p3) = [duid_key dA \<mapsto> la, duid_key dB \<mapsto> \<lparr>vl_duid = dB, vl_ip = make_addr p0 0x100,
      vl_hostname = None, vl_expires_at = ve_now w + vp_lease_secs p2\<rparr>]"
    using leases2 by (simp add: confirm_leases)
  then show ?thesis
    using assms(10,11) by (simp add: get_by_duid_def la_def v6_is_expired_def not_le)
qed

subsection \<open>Long prefixes and types of answers\<close>

text \<open>
  The first host number is 256. With a prefix of 120 bits or more it does not fit, and the first address
  given out lies outside the prefix.
\<close>

theorem long_prefixes_are_left:
  assumes "120 \<le> unat len" and "unat len \<le> 128" and "\<not> bit pfx 8"
    and "get_by_duid d store = None"
  shows "\<exists>ip. snd (v6_allocate v d (new_v6_pool pfx len secs store)) = Some ip
    \<and> drop_bit (128 - unat len) ip \<noteq> drop_bit (128 - unat len) pfx"
proof -
  let ?p = "new_v6_pool pfx len secs store"
  let ?ip = "make_addr ?p 0x100"
  have "bit (0x100 :: 64 word) 8" by simp
  then have "bit ?ip 8"
    using bit_make_addr [of ?p 8 "0x100"] assms(1,2) by (simp add: new_v6_pool_def)
  then have "bit (drop_bit (128 - unat len) ?ip) (8 - (128 - unat len))
      \<noteq> bit (drop_bit (128 - unat len) pfx) (8 - (128 - unat len))"
    using assms(1-3) by (simp add: bit_drop_bit_eq)
  moreover have "snd (v6_allocate v d ?p) = Some ?ip"
    using assms(4) by (simp add: v6_allocate_def new_v6_pool_def)
  ultimately show ?thesis by metis
qed

lemma answers_are_replies:
  "v6_answer c msg ip secs = Some (r, to, port) \<Longrightarrow> vr_type r = V6Reply \<and> port = 546"
  "snd (handle_solicit v c msg p d) = Some (r, to, port) \<Longrightarrow> vr_type r = V6Reply \<and> port = 546"
proof -
  show "v6_answer c msg ip secs = Some (r, to, port) \<Longrightarrow> vr_type r = V6Reply \<and> port = 546" for ip secs
    by (auto simp: v6_answer_def build_v6_reply_def)
  then show "snd (handle_solicit v c msg p d) = Some (r, to, port) \<Longrightarrow> vr_type r = V6Reply \<and> port = 546"
    by (simp add: handle_solicit_def split: prod.splits option.splits)
qed

lemma request_answers_are_replies:
  "snd (handle_v6_request lower v c msg p d h) = Some (r, to, port) \<Longrightarrow> vr_type r = V6Reply \<and> port = 546"
proof -
  obtain p1 own where a: "v6_allocate v d p = (p1, Some own)" using allocate_some by blast
  define ip where "ip = (case v6m_requested msg of Some ip \<Rightarrow> ip | None \<Rightarrow> own)"
  have "snd (handle_v6_request lower v c msg p d h)
      \<in> {None, v6_answer c msg (Some ip) (vt_lease_secs c)}"
    by (cases "v6m_requested msg"; cases "snd (v6_confirm v d ip None p1)"; cases "v6_confirm v d ip None p1")
      (simp_all add: handle_v6_request_def a ip_def)
  moreover assume "snd (handle_v6_request lower v c msg p d h) = Some (r, to, port)"
  ultimately have "v6_answer c msg (Some ip) (vt_lease_secs c) = Some (r, to, port)" by auto
  then show "vr_type r = V6Reply \<and> port = 546" by (rule answers_are_replies(1))
qed

text \<open>
  Whatever the packet, the answer is a Reply: a Solicit is not answered by an Advertise, for which a client
  without rapid commit waits.
\<close>

theorem every_v6_answer_is_a_reply:
  assumes "snd (handle_v6_packet lower v c msg s) = Inr (Some (r, to, port))"
  shows "vr_type r = V6Reply \<and> port = 546"
proof -
  consider "v6_answer c msg None 0 = Some (r, to, port)"
    | p d where "snd (handle_solicit v c msg p d) = Some (r, to, port)"
    | p d where "snd (handle_v6_request lower v c msg p d (v6s_hosts s)) = Some (r, to, port)"
    using assms unfolding handle_v6_packet_def
    by (simp add: case_prod_beta split: if_splits option.splits v6_msg_type.splits)
  then show ?thesis
    using answers_are_replies request_answers_are_replies by cases blast+
qed

subsection \<open>At work\<close>

definition sample_v6_config :: dhcp_v6_config where
  "sample_v6_config = \<lparr>v6_enable = True, v6_interface = ''eth0'', v6_mode = Stateful, v6_prefix = None, v6_dns = [],
     v6_domain = None, v6_lease_file = ''leases'', v6_lease_time = ''24h''\<rparr>"

definition sample_v6_env :: "64 word \<Rightarrow> v6_env" where
  "sample_v6_env now = \<lparr>ve_iter = (\<lambda>_. []), ve_can_write = True, ve_now = now\<rparr>"

definition sample_v6_hosts :: dynamic_hosts where
  "sample_v6_hosts = \<lparr>dh_entries = Map.empty, dh_domain = None\<rparr>"

definition sample_v6_request :: "duid \<Rightarrow> v6_packet" where
  "sample_v6_request d = \<lparr>v6m_peer = 0xfe800000000000000000000000000002, v6m_type = V6Request, v6m_xid = [1, 2, 3],
     v6m_client_id = Some d, v6m_requested = None\<rparr>"

definition sample_v6_settings :: v6_settings where
  "sample_v6_settings = \<lparr>vt_mode = Stateful, vt_dns = [], vt_lease_secs = 86400\<rparr>"

definition sample_v6_start :: "(string \<Rightarrow> v6_lease option) \<Rightarrow> v6_state" where
  "sample_v6_start file = \<lparr>v6s_pool = Some (new_v6_pool 0xfd000000000000000000000000000000 64 86400
     \<lparr>vs_leases = file, vs_file = file\<rparr>), v6s_hosts = sample_v6_hosts\<rparr>"

lemma sample_v6_starts:
  "start_v6 (\<lambda>x. x) (\<lambda>_. None) (sample_v6_env now) sample_v6_config file sample_v6_hosts
    = Inr (sample_v6_start file, sample_v6_settings)"
proof -
  have "parse_unsigned_max (2 ^ 64 - 1) (nat_str 24) = Some 24" by (rule parse_unsigned_nat_str) simp
  moreover have "nat_str 24 = ''24''" by code_simp
  moreover have "str_trim ''24h'' = ''24h''" by (rule str_trim_graphic) (simp add: graphic_def)
  ultimately have "parse_lease_time ''24h'' = Some 86400"
    by (simp add: parse_lease_time_def strip_suffix_char_def parse_u64_def Let_def)
  then show ?thesis
    by (simp add: start_v6_def sample_v6_config_def sample_v6_env_def v6_all_active_def sample_v6_start_def
      sample_v6_settings_def Let_def)
qed

lemma sample_v6_step:
  assumes "v6s_pool s = Some p" "get_by_duid d (vp_leases p) = None"
  shows "v6s_pool (v6_step (\<lambda>x. x) sample_v6_settings (sample_v6_env now, sample_v6_request d) s)
    = Some (p\<lparr>vp_next_host := vp_next_host p + 1,
        vp_leases := (let leases = (vs_leases (vp_leases p))(duid_key d \<mapsto> \<lparr>vl_duid = d,
            vl_ip = make_addr p (vp_next_host p), vl_hostname = None, vl_expires_at = now + vp_lease_secs p\<rparr>)
          in \<lparr>vs_leases = leases, vs_file = leases\<rparr>)\<rparr>)"
  using request_of_stranger [OF assms(1) _ _ _ _ assms(2), of sample_v6_settings "sample_v6_request d"
      "\<lambda>x. x" "sample_v6_env now"]
  by (simp add: sample_v6_settings_def sample_v6_request_def sample_v6_env_def v6_confirm_def v6_insert_lease_def
    v6_flush_def Let_def)

lemma only_key: "dom m = {duid_key a} \<Longrightarrow> a \<noteq> b \<Longrightarrow> m (duid_key b) = None"
  by (metis domIff duid_key_eq singletonD)

theorem restart_gives_out_a_leased_address_witness:
  "\<exists>p1 p3 la lb. v6s_pool (v6_step (\<lambda>x. x) sample_v6_settings (sample_v6_env 0, sample_v6_request [1])
        (sample_v6_start Map.empty)) = Some p1
    \<and> v6s_pool (v6_step (\<lambda>x. x) sample_v6_settings (sample_v6_env 60, sample_v6_request [2])
        (sample_v6_start (vs_file (vp_leases p1)))) = Some p3
    \<and> get_by_duid [1] (vp_leases p3) = Some la \<and> get_by_duid [2] (vp_leases p3) = Some lb \<and> vl_ip la = vl_ip lb"
proof -
  define s0 where "s0 = sample_v6_start Map.empty"
  obtain p0 where p0: "v6s_pool s0 = Some p0" "vp_leases p0 = \<lparr>vs_leases = Map.empty, vs_file = Map.empty\<rparr>"
    "vp_lease_secs p0 = 86400"
    by (simp add: s0_def sample_v6_start_def new_v6_pool_def)
  then have "get_by_duid [1] (vp_leases p0) = None" by (simp add: get_by_duid_def)
  from sample_v6_step [OF p0(1) this, of 0] obtain p1 where
    p1: "v6s_pool (v6_step (\<lambda>x. x) sample_v6_settings (sample_v6_env 0, sample_v6_request [1]) s0) = Some p1"
      "dom (vs_file (vp_leases p1)) = {duid_key [1]}"
    using p0(2) by (simp add: Let_def)
  define s1 where "s1 = sample_v6_start (vs_file (vp_leases p1))"
  obtain p2 where p2: "v6s_pool s1 = Some p2" "vs_leases (vp_leases p2) = vs_file (vp_leases p1)"
    by (simp add: s1_def sample_v6_start_def new_v6_pool_def)
  then have "get_by_duid [2] (vp_leases p2) = None" using only_key [OF p1(2)] by (simp add: get_by_duid_def)
  from sample_v6_step [OF p2(1) this, of 60] obtain p3 where
    p3: "v6s_pool (v6_step (\<lambda>x. x) sample_v6_settings (sample_v6_env 60, sample_v6_request [2]) s1) = Some p3"
    by simp
  show ?thesis
    using restart_gives_out_a_leased_address [OF sample_v6_starts [of 0 Map.empty, folded s0_def] p0(1) _ _ p1(1)
        sample_v6_starts [of 60 "vs_file (vp_leases p1)", folded s1_def] p2(1) _ p3, of "[1]" "[2]"] p0(3) p1(1) p3
    unfolding s0_def s1_def by (auto simp: sample_v6_env_def sample_v6_request_def)
qed


end
