(* ===== verification/Router_Advert.thy ===== *)
theory Router_Advert
  imports Dns_Resolver
begin

text \<open>
  Router advertisements: the frames the program sends (\<open>src/src/dhcp/ra/builder.rs\<close>), what it learns from the
  frames of other routers (\<open>listener.rs\<close>), and when it sends (\<open>sender.rs\<close>). Raw sockets, the address of the
  interface and the timers are outside; a packet that arrives is the list of its bytes.
\<close>

unbundle bit_operations_syntax

subsection \<open>Building a frame\<close>

datatype preference = PrefLow | PrefMedium | PrefHigh

fun preference_bits :: "preference \<Rightarrow> byte" where
  "preference_bits PrefLow = 0x18"
| "preference_bits PrefMedium = 0x00"
| "preference_bits PrefHigh = 0x08"

definition preference_from_str :: "string \<Rightarrow> preference" where
  "preference_from_str s = (if s = ''low'' then PrefLow else if s = ''high'' then PrefHigh else PrefMedium)"

record ra_params =
  rp_src_mac :: "byte list"
  rp_src_ip :: "128 word"
  rp_prefixes :: "(128 word \<times> byte) list"
  rp_rdnss :: "128 word list"
  rp_dns_lifetime :: "32 word"
  rp_router_lifetime :: "16 word"
  rp_managed :: bool
  rp_other :: bool
  rp_preference :: preference
  rp_mtu :: "32 word option"

text \<open>\<open>ip.octets()\<close>.\<close>

abbreviation octets :: "128 word \<Rightarrow> byte list" where
  "octets ip \<equiv> be_bytes 16 ip"

definition ra_flags :: "ra_params \<Rightarrow> byte" where
  "ra_flags p = (if rp_managed p then 0x80 else 0) OR (if rp_other p then 0x40 else 0)
     OR preference_bits (rp_preference p)"

definition mtu_option :: "ra_params \<Rightarrow> byte list" where
  "mtu_option p = (case rp_mtu p of None \<Rightarrow> [] | Some mtu \<Rightarrow> [5, 1, 0, 0] @ be_bytes 4 mtu)"

definition prefix_option :: "128 word \<times> byte \<Rightarrow> byte list" where
  "prefix_option x = (case x of (pfx, len) \<Rightarrow>
     [3, 4, len, 0xC0] @ be_bytes 4 (86400 :: 32 word) @ be_bytes 4 (14400 :: 32 word)
       @ [0, 0, 0, 0] @ octets pfx)"

definition rdnss_option :: "ra_params \<Rightarrow> byte list" where
  "rdnss_option p =
     (if rp_rdnss p = [] then []
      else [25, word_of_nat (1 + length (rp_rdnss p)), 0, 0] @ be_bytes 4 (rp_dns_lifetime p)
        @ concat (map (be_bytes 16) (rp_rdnss p)))"

definition build_ra_icmpv6 :: "ra_params \<Rightarrow> byte list" where
  "build_ra_icmpv6 p =
     [134, 0, 0, 0, 64, ra_flags p] @ be_bytes 2 (rp_router_lifetime p)
       @ be_bytes 4 (0 :: 32 word) @ be_bytes 4 (0 :: 32 word)
       @ [1, 1] @ rp_src_mac p
       @ mtu_option p
       @ concat (map prefix_option (rp_prefixes p))
       @ rdnss_option p"

definition all_nodes :: "128 word" where
  "all_nodes = 0xff020000000000000000000000000001"

definition build_eth_header :: "byte list \<Rightarrow> byte list" where
  "build_eth_header src_mac = [0x33, 0x33, 0x00, 0x00, 0x00, 0x01] @ src_mac @ [0x86, 0xdd]"

definition build_ipv6_header :: "128 word \<Rightarrow> 128 word \<Rightarrow> 16 word \<Rightarrow> byte list" where
  "build_ipv6_header src dst payload_len =
     [0x60, 0x00, 0x00, 0x00] @ be_bytes 2 payload_len @ [58, 255] @ octets src @ octets dst"

text \<open>
  The checksum: 16-bit words are added in 32 bits, a last odd byte as the upper half of a word, and what
  overflows 16 bits is added back until nothing is left.
\<close>

fun add_words :: "32 word \<Rightarrow> byte list \<Rightarrow> 32 word" where
  "add_words s (a # b # bs) = add_words (s + ucast (from_be [a, b] :: 16 word)) bs"
| "add_words s [a] = s + push_bit 8 (ucast a)"
| "add_words s [] = s"

lemma carry_smaller:
  assumes "drop_bit 16 s \<noteq> (0 :: 32 word)"
  shows "unat ((s AND 0xffff) + drop_bit 16 s) = unat s mod 65536 + unat s div 65536"
    and "unat ((s AND 0xffff) + drop_bit 16 s) < unat s"
proof -
  have m: "s AND 0xffff = take_bit 16 s"
    using take_bit_eq_mask [of 16 s] by (simp add: mask_eq_exp_minus_1)
  have lt: "unat s < 4294967296" using unsigned_less [of s] by simp
  have d: "unat (drop_bit 16 s) = unat s div 65536"
    by (simp only: unat_drop_bit_eq) (simp add: drop_bit_eq_div)
  have t: "unat (take_bit 16 s) = unat s mod 65536"
    by (simp only: unsigned_take_bit_eq) (simp add: take_bit_eq_mod)
  have "unat s div 65536 < 65536" using lt by simp
  then show eq: "unat ((s AND 0xffff) + drop_bit 16 s) = unat s mod 65536 + unat s div 65536"
    by (simp add: m unat_word_ariths d t)
  have "unat s div 65536 \<noteq> 0" using assms d by (metis unat_eq_0)
  then show "unat ((s AND 0xffff) + drop_bit 16 s) < unat s"
    using div_mult_mod_eq [of "unat s" 65536] unfolding eq by linarith
qed

function fold_carries :: "32 word \<Rightarrow> 32 word" where
  "fold_carries s = (if drop_bit 16 s \<noteq> 0 then fold_carries ((s AND 0xffff) + drop_bit 16 s) else s)"
  by auto
termination by (relation "measure unat") (use carry_smaller(2) in auto)

declare fold_carries.simps [simp del]

definition icmpv6_checksum :: "128 word \<Rightarrow> 128 word \<Rightarrow> byte list \<Rightarrow> 16 word" where
  "icmpv6_checksum src dst icmp =
     NOT (ucast (fold_carries
       (add_words (add_words (add_words 0 (octets src)) (octets dst) + word_of_nat (length icmp) + 58) icmp)))"

definition ra_message :: "ra_params \<Rightarrow> byte list" where
  "ra_message p =
     (let icmp = build_ra_icmpv6 p; checksum = icmpv6_checksum (rp_src_ip p) all_nodes icmp
      in icmp[2 := ucast (drop_bit 8 checksum), 3 := ucast (checksum AND 0xff)])"

definition build_ra_frame :: "ra_params \<Rightarrow> byte list" where
  "build_ra_frame p =
     (let icmp = ra_message p
      in build_eth_header (rp_src_mac p) @ build_ipv6_header (rp_src_ip p) all_nodes (word_of_nat (length icmp)) @ icmp)"

subsection \<open>Learning prefixes\<close>

record learned_prefix =
  lp_prefix :: "128 word"
  lp_prefix_len :: byte
  lp_valid_lifetime :: "32 word"
  lp_preferred_lifetime :: "32 word"

definition is_link_local :: "128 word \<Rightarrow> bool" where
  "is_link_local ip \<longleftrightarrow> octets ip ! 0 = 0xfe \<and> octets ip ! 1 AND 0xc0 = 0x80"

definition is_loopback :: "128 word \<Rightarrow> bool" where
  "is_loopback ip \<longleftrightarrow> ip = 1"

text \<open>The option at offset \<open>i\<close>, when it is a prefix that is neither local nor loopback.\<close>

definition learn_option :: "byte list \<Rightarrow> nat \<Rightarrow> learned_prefix list" where
  "learn_option buf i =
     (let pfx = from_be (subslice (i + 16) 16 buf)
      in if buf ! i = 3 \<and> unat (buf ! (i + 1)) * 8 = 32 \<and> \<not> is_loopback pfx \<and> \<not> is_link_local pfx
         then [\<lparr>lp_prefix = pfx, lp_prefix_len = buf ! (i + 2),
                lp_valid_lifetime = from_be (subslice (i + 4) 4 buf),
                lp_preferred_lifetime = from_be (subslice (i + 8) 4 buf)\<rparr>]
         else [])"

text \<open>\<open>while i + 2 <= n\<close>: options up to one that has no length or leaves the packet.\<close>

function learn_from :: "byte list \<Rightarrow> nat \<Rightarrow> learned_prefix list" where
  "learn_from buf i =
     (if i + 2 \<le> length buf
      then let opt_len = unat (buf ! (i + 1)) * 8
           in if opt_len = 0 \<or> length buf < i + opt_len then []
              else learn_option buf i @ learn_from buf (i + opt_len)
      else [])"
  by auto
termination by (relation "measure (\<lambda>(buf, i). length buf - i)") auto

declare learn_from.simps [simp del]

fun learn_prefix :: "learned_prefix \<Rightarrow> learned_prefix list \<Rightarrow> learned_prefix list" where
  "learn_prefix lp [] = [lp]"
| "learn_prefix lp (x # xs) = (if lp_prefix x = lp_prefix lp then lp # xs else x # learn_prefix lp xs)"

text \<open>One packet; the buffer of \<open>recv_from\<close> has 1500 bytes.\<close>

definition parse_ra :: "byte list \<Rightarrow> learned_prefix list" where
  "parse_ra packet =
     (let buf = take 1500 packet
      in if length buf < 16 \<or> buf ! 0 \<noteq> 134 then [] else learn_from buf 16)"

definition receive_ra :: "byte list \<Rightarrow> learned_prefix list \<Rightarrow> learned_prefix list" where
  "receive_ra packet table = fold learn_prefix (parse_ra packet) table"

subsection \<open>Sending\<close>

definition ra_params_of :: "ra_config \<Rightarrow> byte list \<Rightarrow> 128 word \<Rightarrow> learned_prefix list \<Rightarrow> ra_params" where
  "ra_params_of c mac ip learned =
     \<lparr>rp_src_mac = mac, rp_src_ip = ip,
      rp_prefixes = map (\<lambda>l. (lp_prefix l, lp_prefix_len l)) learned,
      rp_rdnss = ra_rdnss c, rp_dns_lifetime = ucast (ra_dns_lifetime c),
      rp_router_lifetime = ra_router_lifetime c, rp_managed = ra_managed c, rp_other = ra_other c,
      rp_preference = preference_from_str (ra_preference c), rp_mtu = None\<rparr>"

definition send_ra :: "ra_config \<Rightarrow> byte list \<Rightarrow> 128 word \<Rightarrow> learned_prefix list \<Rightarrow> byte list" where
  "send_ra c mac ip learned = build_ra_frame (ra_params_of c mac ip learned)"

text \<open>The frame of \<open>suppress_loop\<close>.\<close>

definition suppress_frame :: "byte list \<Rightarrow> 128 word \<Rightarrow> byte list" where
  "suppress_frame mac ip = build_ra_frame
     \<lparr>rp_src_mac = mac, rp_src_ip = ip, rp_prefixes = [], rp_rdnss = [], rp_dns_lifetime = 0,
      rp_router_lifetime = 0, rp_managed = False, rp_other = False, rp_preference = PrefLow, rp_mtu = None\<rparr>"

text \<open>
  The tasks of \<open>serve\<close> over one table of prefixes: a packet arrives, the timer of the interval ticks, the
  timer of the suppressing task, five seconds, ticks. (That task has a listener of its own, whose table
  nobody reads.) The first frame goes out before the timer is set up; a timer of no length panics, which ends
  the sending task but not the two others. A frame counts as sent when it is given to the socket, which is
  taken to accept it.
\<close>

datatype ra_event = RaPacket "byte list" | RaTick | SuppressTick

definition ra_step :: "ra_config \<Rightarrow> byte list \<Rightarrow> 128 word \<Rightarrow> ra_event \<Rightarrow> learned_prefix list
    \<Rightarrow> learned_prefix list \<times> byte list list" where
  "ra_step c mac ip e table =
     (case e of
        RaPacket packet \<Rightarrow> (receive_ra packet table, [])
      | RaTick \<Rightarrow> (table, if ra_interval c = 0 then [] else [send_ra c mac ip table])
      | SuppressTick \<Rightarrow> (table, if ra_suppress_other_routers c then [suppress_frame mac ip] else []))"

fun ra_run :: "ra_config \<Rightarrow> byte list \<Rightarrow> 128 word \<Rightarrow> ra_event list \<Rightarrow> learned_prefix list
    \<Rightarrow> learned_prefix list \<times> byte list list" where
  "ra_run c mac ip [] table = (table, [])"
| "ra_run c mac ip (e # es) table =
     (case ra_step c mac ip e table of (t, sent) \<Rightarrow> apsnd (append sent) (ra_run c mac ip es t))"

definition serve_ra :: "ra_config \<Rightarrow> byte list \<Rightarrow> 128 word \<Rightarrow> ra_event list \<Rightarrow> learned_prefix list \<times> byte list list" where
  "serve_ra c mac ip es = apsnd (append [send_ra c mac ip []]) (ra_run c mac ip es [])"

subsection \<open>Which services run\<close>

text \<open>\<open>serve_abortable\<close> of \<open>src/src/dhcp/mod.rs\<close>: a service that is configured and enabled is started.\<close>

datatype dhcp_service = ServeV4 dhcp_v4_config | ServeV6 dhcp_v6_config | ServeRa ra_config

definition serve_abortable :: "dhcp_config \<Rightarrow> dhcp_service list" where
  "serve_abortable c =
     (case dh_v4 c of Some x \<Rightarrow> if v4_enable x then [ServeV4 x] else [] | None \<Rightarrow> [])
     @ (case dh_v6 c of Some x \<Rightarrow> if v6_enable x then [ServeV6 x] else [] | None \<Rightarrow> [])
     @ (case dh_ra c of Some x \<Rightarrow> if ra_enable x then [ServeRa x] else [] | None \<Rightarrow> [])"

end
