(* ===== verification/Router_Advert_Properties.thy ===== *)
theory Router_Advert_Properties
  imports Router_Advert Event_Runs
begin

text \<open>
  What the frames are worth to those who receive them: the checksum verifies and the lengths are right; the
  prefixes of a frame are what the program's own listener learns from it; and what the table of prefixes
  does over a run.
\<close>

unbundle bit_operations_syntax

subsection \<open>The checksum\<close>

text \<open>The sum of the 16-bit words of a message, without a bound.\<close>

fun words_total :: "byte list \<Rightarrow> nat" where
  "words_total (a # b # bs) = 256 * unat a + unat b + words_total bs"
| "words_total [a] = 256 * unat a"
| "words_total [] = 0"

lemma unat_byte_less: "unat (b :: byte) < 256"
  using unsigned_less [of b] by simp

lemma unat_from_be_pair: "unat (from_be [a, b] :: 16 word) = 256 * unat (a :: byte) + unat b"
proof -
  have "(from_be [a, b] :: 16 word) = ucast b + ucast a * 256"
    by (simp add: from_be_def word_rcat_def)
  then show ?thesis
    using unat_byte_less [of a] unat_byte_less [of b] by (simp add: unat_word_ariths unat_ucast_up)
qed

lemma words_total_bound: "words_total bs \<le> 65535 * ((length bs + 1) div 2)"
proof (induction bs rule: words_total.induct)
  case (1 a b bs)
  then show ?case using unat_byte_less [of a] unat_byte_less [of b] by simp
next
  case (2 a)
  then show ?case using unat_byte_less [of a] by simp
qed simp

lemma unat_add_words: "unat s + words_total bs < 2 ^ 32 \<Longrightarrow> unat (add_words s bs) = unat s + words_total bs"
proof (induction s bs rule: add_words.induct)
  case (1 s a b bs)
  have "unat (s + ucast (from_be [a, b] :: 16 word)) = unat s + (256 * unat a + unat b)"
    using "1.prems" by (simp add: unat_word_ariths unat_ucast_up unat_from_be_pair)
  then show ?case using 1 by simp
next
  case (2 s a)
  have "unat (push_bit 8 (ucast a :: 32 word)) = 256 * unat a"
    using unat_byte_less [of a] by (simp add: push_bit_eq_mult unat_word_ariths unat_ucast_up)
  then show ?case using 2 by (simp add: unat_word_ariths)
qed simp

lemma fold_carries_spec:
  "unat (fold_carries s) < 65536 \<and> unat (fold_carries s) mod 65535 = unat s mod 65535
    \<and> (fold_carries s = 0 \<longleftrightarrow> s = 0)"
proof (induction s rule: fold_carries.induct)
  case (1 s)
  show ?case
  proof (cases "drop_bit 16 s = 0")
    case True
    then have "unat s div 65536 = 0"
      using unat_drop_bit_eq [of 16 s] drop_bit_eq_div [of 16 "unat s"] by simp
    then show ?thesis using True by (simp add: fold_carries.simps [of s])
  next
    case False
    let ?t = "(s AND 0xffff) + drop_bit 16 s"
    have t: "unat ?t = unat s mod 65536 + unat s div 65536" by (rule carry_smaller(1) [OF False])
    have s: "unat s = 65536 * (unat s div 65536) + unat s mod 65536" by simp
    have "unat s mod 65535 = (65535 * (unat s div 65536) + unat ?t) mod 65535"
      using s unfolding t by (intro arg_cong [where f = "\<lambda>n. n mod 65535"]) linarith
    then have "unat ?t mod 65535 = unat s mod 65535" by simp
    moreover have "?t \<noteq> 0 \<and> s \<noteq> 0"
    proof -
      have "s \<noteq> 0" using False by auto
      moreover have "unat s mod 65536 + unat s div 65536 \<noteq> 0"
        using s \<open>s \<noteq> 0\<close> by (metis add_is_0 mult_0_right unat_eq_0)
      ultimately show ?thesis using t by (metis unat_eq_0)
    qed
    ultimately show ?thesis using 1 False by (simp add: fold_carries.simps [of s])
  qed
qed

text \<open>Filling the checksum into a message whose field for it is zero adds its value to the sum.\<close>

lemma words_total_filled:
  "words_total ((a # b # 0 # 0 # bs)[2 := ucast (drop_bit 8 c), 3 := ucast (c AND 0xff)])
    = words_total (a # b # 0 # 0 # bs) + unat (c :: 16 word)"
proof -
  have "unat (ucast (drop_bit 8 c) :: byte) = unat c div 256"
  proof -
    have "unat c < 65536" using unsigned_less [of c] by simp
    then have "unat c div 256 < 256" by (simp add: div_less_iff_less_mult)
    then show ?thesis
      by (simp only: unsigned_ucast_eq unsigned_take_bit_eq unat_drop_bit_eq) (simp add: drop_bit_eq_div take_bit_eq_mod)
  qed
  moreover have "unat (ucast (c AND 0xff) :: byte) = unat c mod 256"
  proof -
    have "c AND 0xff = take_bit 8 c" using take_bit_eq_mask [of 8 c] by (simp add: mask_eq_exp_minus_1)
    then show ?thesis
      by (simp only: unsigned_ucast_eq unsigned_take_bit_eq) (simp add: take_bit_eq_mod)
  qed
  ultimately show ?thesis by simp
qed

text \<open>The sum the checksum is made of, with its pseudo header.\<close>

definition checked_total :: "128 word \<Rightarrow> 128 word \<Rightarrow> byte list \<Rightarrow> nat" where
  "checked_total src dst icmp =
     words_total (octets src) + words_total (octets dst) + length icmp + 58 + words_total icmp"

lemma checksum_of_total:
  assumes "length icmp < 2 ^ 16"
  obtains s where "icmpv6_checksum src dst icmp = NOT (ucast (fold_carries s))"
    and "unat s = checked_total src dst icmp"
proof -
  have o: "words_total (octets x) \<le> 65535 * 8" for x
    using words_total_bound [of "octets x"] by simp
  have "words_total icmp \<le> 65535 * 32768"
    using words_total_bound [of icmp] assms by simp
  then have b: "checked_total src dst icmp < 2 ^ 32"
    using o [of src] o [of dst] assms by (simp add: checked_total_def)
  let ?h = "add_words (add_words 0 (octets src)) (octets dst)"
  have h: "unat ?h = words_total (octets src) + words_total (octets dst)"
    using o [of src] o [of dst] by (simp add: unat_add_words)
  let ?p = "?h + word_of_nat (length icmp) + 58"
  have p: "unat ?p = words_total (octets src) + words_total (octets dst) + length icmp + 58"
    using h b by (simp add: unat_word_ariths checked_total_def unsigned_of_nat take_bit_eq_mod)
  have "unat (add_words ?p icmp) = checked_total src dst icmp"
    using p b by (simp add: unat_add_words checked_total_def)
  then show ?thesis using that by (simp add: icmpv6_checksum_def)
qed

lemma mod_add_cancel: "(a + b) mod n = b mod n \<Longrightarrow> a mod n = 0" for a b n :: nat
  by (metis add.commute add_diff_cancel_left' le_add1 mod_eq_dvd_iff_nat mod_eq_0_iff_dvd)

lemma unat_all_ones: "unat (- 1 :: 16 word) = 65535"
  by (simp add: unsigned_minus_1_eq_mask mask_eq_exp_minus_1)

lemma unat_not_16: "unat (NOT w) + unat w = 65535" for w :: "16 word"
proof -
  have "unat (- 1 - w) = unat (- 1 :: 16 word) - unat w" by (rule unat_sub) simp
  moreover have "NOT w = - 1 - w" by (simp add: not_eq_complement)
  moreover have "unat w < 65536" using unsigned_less [of w] by simp
  ultimately show ?thesis by (simp add: unat_all_ones)
qed

lemma filled_checksum_verifies:
  fixes src dst bs a b
  defines "icmp \<equiv> a # b # 0 # 0 # bs"
  defines "c \<equiv> icmpv6_checksum src dst icmp"
  assumes "length icmp < 2 ^ 16"
  shows "checked_total src dst (icmp[2 := ucast (drop_bit 8 c), 3 := ucast (c AND 0xff)]) mod 65535 = 0"
proof -
  let ?filled = "icmp[2 := ucast (drop_bit 8 c), 3 := ucast (c AND 0xff)]"
  obtain s where c: "c = NOT (ucast (fold_carries s))" and s: "unat s = checked_total src dst icmp"
    using checksum_of_total [OF assms(3)] unfolding c_def by blast
  let ?f = "unat (fold_carries s)"
  have f: "?f < 65536 \<and> ?f mod 65535 = unat s mod 65535"
    using fold_carries_spec by blast
  then have "unat (ucast (fold_carries s) :: 16 word) = ?f"
    by (simp add: unsigned_ucast_eq unsigned_take_bit_eq take_bit_nat_eq_self)
  then have "unat c + ?f = 65535"
    using unat_not_16 [of "ucast (fold_carries s)"] unfolding c by simp
  moreover have "checked_total src dst ?filled = unat s + unat c"
    using words_total_filled [of a b bs c] unfolding s checked_total_def icmp_def by simp
  ultimately have sum: "checked_total src dst ?filled + ?f = unat s + 65535" by simp
  have "(checked_total src dst ?filled + ?f) mod 65535 = ?f mod 65535" unfolding sum using f by simp
  then show ?thesis by (rule mod_add_cancel)
qed

subsection \<open>Frames\<close>

text \<open>
  What a receiver adds up (RFC 4443, 2.3): the addresses, the length at 32 bits, three zero bytes, the number
  of the protocol, and the message. A sum of 16-bit words is accepted when it is a multiple of 65535.
\<close>

definition pseudo_header :: "128 word \<Rightarrow> 128 word \<Rightarrow> nat \<Rightarrow> byte list" where
  "pseudo_header src dst n = octets src @ octets dst @ be_bytes 4 (word_of_nat n :: 32 word) @ [0, 0, 0, 58]"

definition accepted_checksum :: "128 word \<Rightarrow> 128 word \<Rightarrow> byte list \<Rightarrow> bool" where
  "accepted_checksum src dst icmp \<longleftrightarrow> words_total (pseudo_header src dst (length icmp) @ icmp) mod 65535 = 0"

lemma words_total_append: "even (length xs) \<Longrightarrow> words_total (xs @ ys) = words_total xs + words_total ys"
  by (induction xs rule: words_total.induct) auto

lemma words_total_length:
  assumes "n < 65536"
  shows "words_total (be_bytes 4 (word_of_nat n :: 32 word)) = n"
proof -
  have b: "unat (ucast (drop_bit k (word_of_nat n :: 32 word)) :: byte) = n div 2 ^ k mod 256" for k
    using assms by (simp only: unsigned_ucast_eq unsigned_take_bit_eq unat_drop_bit_eq)
      (simp add: drop_bit_eq_div take_bit_eq_mod unsigned_of_nat)
  have "be_bytes 4 (word_of_nat n :: 32 word)
      = map (\<lambda>k. ucast (drop_bit k (word_of_nat n :: 32 word))) [24, 16, 8, 0]"
    by (simp add: be_bytes_def le_bytes_def eval_nat_numeral upt_rec)
  then show ?thesis
    using assms by (simp add: b del: drop_bit_of_nat drop_bit_0)
qed

lemma checked_total_pseudo:
  "length icmp < 65536 \<Longrightarrow> checked_total src dst icmp = words_total (pseudo_header src dst (length icmp) @ icmp)"
  by (simp add: checked_total_def pseudo_header_def words_total_append words_total_length)

definition ra_body :: "ra_params \<Rightarrow> byte list" where
  "ra_body p = [64, ra_flags p] @ be_bytes 2 (rp_router_lifetime p) @ be_bytes 4 (0 :: 32 word)
     @ be_bytes 4 (0 :: 32 word) @ [1, 1] @ rp_src_mac p @ mtu_option p
     @ concat (map prefix_option (rp_prefixes p)) @ rdnss_option p"

lemma build_ra_icmpv6_body: "build_ra_icmpv6 p = 134 # 0 # 0 # 0 # ra_body p"
  by (simp add: build_ra_icmpv6_def ra_body_def)

lemma ra_message_body: "\<exists>c1 c2. ra_message p = 134 # 0 # c1 # c2 # ra_body p"
  by (simp add: ra_message_def Let_def build_ra_icmpv6_body)

lemma length_ra_message [simp]: "length (ra_message p) = length (build_ra_icmpv6 p)"
  by (simp add: ra_message_def Let_def)

lemma message_accepted:
  assumes "length (build_ra_icmpv6 p) < 2 ^ 16"
  shows "accepted_checksum (rp_src_ip p) all_nodes (ra_message p)"
proof -
  have "checked_total (rp_src_ip p) all_nodes (ra_message p) mod 65535 = 0"
    using filled_checksum_verifies [of 134 0 "ra_body p" "rp_src_ip p" all_nodes] assms
    by (simp add: ra_message_def build_ra_icmpv6_body Let_def)
  then show ?thesis using checked_total_pseudo [of "ra_message p"] assms by (simp add: accepted_checksum_def)
qed

lemma frame_parts:
  assumes "length (rp_src_mac p) = 6"
  shows "take 14 (build_ra_frame p) = build_eth_header (rp_src_mac p)"
    and "subslice 14 40 (build_ra_frame p)
      = build_ipv6_header (rp_src_ip p) all_nodes (word_of_nat (length (ra_message p)))"
    and "drop 54 (build_ra_frame p) = ra_message p"
  using assms by (simp_all add: build_ra_frame_def build_eth_header_def build_ipv6_header_def subslice_def Let_def)

text \<open>
  C40. The frame of an advertisement is well formed for those who receive it: it is addressed to all nodes of
  the link, its IPv6 header carries the length of the message, the hop limit 255 and both addresses, and the
  checksum makes the sum a receiver computes (RFC 4443, over the pseudo header) one that is accepted.
\<close>

theorem sent_advertisements_are_accepted:
  assumes "length (rp_src_mac p) = 6" and "length (build_ra_icmpv6 p) < 2 ^ 16"
  shows "let frame = build_ra_frame p; message = drop 54 frame
         in accepted_checksum (rp_src_ip p) all_nodes message
          \<and> take 6 frame = [0x33, 0x33, 0, 0, 0, 1]
          \<and> unat (from_be (subslice 18 2 frame) :: 16 word) = length message
          \<and> subslice 20 2 frame = [58, 255]
          \<and> from_be (subslice 22 16 frame) = rp_src_ip p
          \<and> from_be (subslice 38 16 frame) = all_nodes"
proof -
  have len: "unat (word_of_nat (length (ra_message p)) :: 16 word) = length (ra_message p)"
    using assms by (simp add: unsigned_of_nat take_bit_nat_eq_self)
  have "length (build_eth_header (rp_src_mac p)) = 14" using assms by (simp add: build_eth_header_def)
  then have at: "subslice (14 + k) n (build_ra_frame p) = subslice k n ([96, 0, 0, 0]
      @ be_bytes 2 (word_of_nat (length (ra_message p)) :: 16 word) @ [58, 255] @ octets (rp_src_ip p)
      @ octets all_nodes @ ra_message p)" for k n
    using subslice_append [of "build_eth_header (rp_src_mac p)" k n]
    by (simp add: build_ra_frame_def build_ipv6_header_def Let_def)
  have "take 6 (build_ra_frame p) = [0x33, 0x33, 0, 0, 0, 1]"
    by (simp add: build_ra_frame_def build_eth_header_def Let_def)
  moreover have "accepted_checksum (rp_src_ip p) all_nodes (ra_message p)"
    using assms by (simp add: message_accepted)
  ultimately show ?thesis
    using at [of 4 2] at [of 6 2] at [of 8 16] at [of 24 16] len assms(1)
    unfolding Let_def by (simp add: frame_parts subslice_def from_be_bytes del: length_drop)
qed

subsection \<open>What the listener learns from a frame\<close>

definition usable_prefix :: "128 word \<times> byte \<Rightarrow> bool" where
  "usable_prefix x \<longleftrightarrow> \<not> is_loopback (fst x) \<and> \<not> is_link_local (fst x)"

definition advertised_prefix :: "128 word \<times> byte \<Rightarrow> learned_prefix" where
  "advertised_prefix x = \<lparr>lp_prefix = fst x, lp_prefix_len = snd x, lp_valid_lifetime = 86400,
     lp_preferred_lifetime = 14400\<rparr>"

lemma learn_none: "length buf < i + 32 \<Longrightarrow> learn_from buf i = []"
  by (induction buf i rule: learn_from.induct) (subst learn_from.simps, auto simp: learn_option_def Let_def)

lemma learn_skip:
  assumes "opt ! 0 \<noteq> 3" and "length opt = unat (opt ! 1) * 8" and "opt \<noteq> []"
  shows "learn_from (xs @ opt @ ys) (length xs) = learn_from ((xs @ opt) @ ys) (length (xs @ opt))"
proof -
  have "2 \<le> length opt" using assms by (cases "unat (opt ! 1)") auto
  then have "(xs @ opt @ ys) ! length xs = opt ! 0" and "(xs @ opt @ ys) ! Suc (length xs) = opt ! 1"
    by (auto simp: nth_append)
  then show ?thesis
    using assms \<open>2 \<le> length opt\<close>
    by (subst learn_from.simps) (simp add: learn_option_def Let_def)
qed

lemma learn_prefix_option:
  "learn_from (xs @ prefix_option x @ ys) (length xs)
    = (if usable_prefix x then [advertised_prefix x] else [])
      @ learn_from ((xs @ prefix_option x) @ ys) (length (xs @ prefix_option x))"
proof -
  have slice: "subslice (length xs + k) n (xs @ prefix_option x @ ys) = subslice k n (prefix_option x @ ys)" for k n
    by (rule subslice_append)
  have nth: "(xs @ prefix_option x @ ys) ! (length xs + k) = (prefix_option x @ ys) ! k" for k
    by (simp add: nth_append)
  have "learn_option (xs @ prefix_option x @ ys) (length xs)
      = (if usable_prefix x then [advertised_prefix x] else [])"
    using nth [of 0] nth [of 1] nth [of 2] slice [of 4 4] slice [of 8 4] slice [of 16 16]
    by (simp add: learn_option_def prefix_option_def usable_prefix_def advertised_prefix_def subslice_def
      from_be_bytes Let_def case_prod_beta)
  then show ?thesis
    using nth [of 1] by (subst learn_from.simps) (simp add: prefix_option_def Let_def case_prod_beta)
qed

lemma learn_prefix_options:
  "learn_from (xs @ concat (map prefix_option ps) @ ys) (length xs)
    = map advertised_prefix (filter usable_prefix ps)
      @ learn_from ((xs @ concat (map prefix_option ps)) @ ys) (length (xs @ concat (map prefix_option ps)))"
proof (induction ps arbitrary: xs)
  case (Cons x ps)
  show ?case
    using learn_prefix_option [of xs x "concat (map prefix_option ps) @ ys"] Cons.IH [of "xs @ prefix_option x"]
    by simp
qed simp

text \<open>The option for DNS servers, whose length is wrong, is the last one: what is read after it is no prefix.\<close>

lemma learn_rdnss:
  assumes "length (rp_rdnss p) \<le> 3"
  shows "learn_from (xs @ rdnss_option p) (length xs) = []"
proof (cases "rp_rdnss p = []")
  case True
  then show ?thesis by (simp add: rdnss_option_def learn_none)
next
  case False
  let ?n = "length (rp_rdnss p)"
  have len: "length (rdnss_option p) = 8 + 16 * ?n"
    using False by (simp add: rdnss_option_def length_concat comp_def sum_list_triv)
  have hd: "rdnss_option p ! 0 = 25" "rdnss_option p ! Suc 0 = word_of_nat (1 + ?n)"
    using False by (simp_all add: rdnss_option_def)
  have u: "unat (word_of_nat (1 + ?n) :: byte) = 1 + ?n"
    using assms by (simp only: unsigned_of_nat) (simp add: take_bit_eq_mod)
  have "learn_from (xs @ rdnss_option p) (length xs + (1 + ?n) * 8) = []"
    using assms by (intro learn_none) (simp add: len)
  then show ?thesis
    using hd u by (subst learn_from.simps) (simp add: nth_append learn_option_def Let_def len)
qed

lemma prefixes_are_learned:
  assumes "length (rp_src_mac p) = 6" and "length (rp_rdnss p) \<le> 3" and "length (build_ra_icmpv6 p) \<le> 1500"
  shows "parse_ra (drop 54 (build_ra_frame p)) = map advertised_prefix (filter usable_prefix (rp_prefixes p))"
proof -
  obtain c1 c2 where m: "ra_message p = 134 # 0 # c1 # c2 # ra_body p" using ra_message_body by blast
  define hdr where "hdr = [134, 0, c1, c2, 64, ra_flags p] @ be_bytes 2 (rp_router_lifetime p)
    @ be_bytes 4 (0 :: 32 word) @ be_bytes 4 (0 :: 32 word)"
  define mac where "mac = [1, 1] @ rp_src_mac p"
  let ?ps = "concat (map prefix_option (rp_prefixes p))" and ?dns = "rdnss_option p"
  have msg: "ra_message p = hdr @ mac @ mtu_option p @ ?ps @ ?dns"
    by (simp add: m ra_body_def hdr_def mac_def)
  have h: "length hdr = 16" by (simp add: hdr_def)
  have mac: "mac ! 0 = 1" "mac ! 1 = 1" "length mac = 8" "mac \<noteq> []" using assms(1) by (simp_all add: mac_def)
  have "length (ra_message p) \<le> 1500" and "16 \<le> length (ra_message p)" and "ra_message p ! 0 = 134"
  proof -
    show "length (ra_message p) \<le> 1500" using assms(3) by simp
    show "16 \<le> length (ra_message p)" unfolding msg using h by simp
    show "ra_message p ! 0 = 134" unfolding m by simp
  qed
  then have "parse_ra (ra_message p) = learn_from (ra_message p) 16"
    by (simp add: parse_ra_def Let_def del: length_ra_message)
  also have "\<dots> = learn_from ((hdr @ mac) @ mtu_option p @ ?ps @ ?dns) (length (hdr @ mac))"
    using learn_skip [of mac hdr "mtu_option p @ ?ps @ ?dns"] mac h by (simp add: msg)
  also have "\<dots> = learn_from ((hdr @ mac @ mtu_option p) @ ?ps @ ?dns) (length (hdr @ mac @ mtu_option p))"
    using learn_skip [of "mtu_option p" "hdr @ mac" "?ps @ ?dns"]
    by (cases "rp_mtu p") (simp_all add: mtu_option_def)
  also have "\<dots> = map advertised_prefix (filter usable_prefix (rp_prefixes p))"
    using learn_prefix_options [of "hdr @ mac @ mtu_option p" "rp_prefixes p" ?dns]
      learn_rdnss [OF assms(2), of "hdr @ mac @ mtu_option p @ ?ps"] by simp
  finally show ?thesis using assms(1) by (simp add: frame_parts)
qed

text \<open>
  C39. What is announced is what is learned: from a frame of its own making, with at most three DNS servers
  and small enough for the buffer, the listener reads back every prefix with its length and both lifetimes,
  in order, except those of the link and of the loopback.
\<close>

theorem advertised_prefixes_are_learned:
  assumes "length (rp_src_mac p) = 6" and "length (rp_rdnss p) \<le> 3" and "length (build_ra_icmpv6 p) \<le> 1500"
  shows "parse_ra (drop 54 (build_ra_frame p)) = map advertised_prefix (filter usable_prefix (rp_prefixes p))"
  using assms by (rule prefixes_are_learned)

subsection \<open>The table of prefixes\<close>

lemma learn_prefix_set: "lp_prefix ` set (learn_prefix l t) = insert (lp_prefix l) (lp_prefix ` set t)"
  by (induction t) auto

lemma learn_prefix_distinct: "distinct (map lp_prefix t) \<Longrightarrow> distinct (map lp_prefix (learn_prefix l t))"
proof (induction t)
  case (Cons x t)
  then show ?case using learn_prefix_set [of l t] by (auto simp flip: set_map)
qed simp

lemma learned_usable: "l \<in> set (parse_ra b) \<Longrightarrow> usable_prefix (lp_prefix l, n)"
proof -
  have "l \<in> set (learn_from buf i) \<Longrightarrow> usable_prefix (lp_prefix l, n)" for buf i
    by (induction buf i rule: learn_from.induct, subst (asm) (2) learn_from.simps)
      (auto simp: learn_option_def usable_prefix_def Let_def split: if_splits)
  then show "l \<in> set (parse_ra b) \<Longrightarrow> usable_prefix (lp_prefix l, n)"
    by (auto simp: parse_ra_def Let_def split: if_splits)
qed

lemma set_learn_prefix: "set (learn_prefix l t) \<subseteq> insert l (set t)"
  by (induction t) auto

definition table_ok :: "learned_prefix list \<Rightarrow> bool" where
  "table_ok t \<longleftrightarrow> distinct (map lp_prefix t) \<and> (\<forall>l \<in> set t. usable_prefix (lp_prefix l, lp_prefix_len l))"

lemma fold_learn_prefix:
  "lp_prefix ` set t \<subseteq> lp_prefix ` set (fold learn_prefix ls t)"
  "(\<forall>l \<in> set ls. usable_prefix (lp_prefix l, lp_prefix_len l)) \<Longrightarrow> table_ok t \<Longrightarrow> table_ok (fold learn_prefix ls t)"
proof (induction ls arbitrary: t)
  case (Cons l ls)
  case 1 show ?case using Cons(1) [of "learn_prefix l t"] learn_prefix_set [of l t] by auto
  case 2
  then have "table_ok (learn_prefix l t)"
    using learn_prefix_distinct [of t l] set_learn_prefix [of l t] unfolding table_ok_def by fastforce
  then show ?case using 2 Cons(2) by simp
qed simp_all

lemma ra_step_table: "fst (ra_step c mac ip e t) = (case e of RaPacket b \<Rightarrow> receive_ra b t | _ \<Rightarrow> t)"
  by (simp add: ra_step_def split: ra_event.split)

lemma ra_run_events:
  "event_run (\<lambda>_ _. True) (\<lambda>e t. fst (ra_step c mac ip e t)) (\<lambda>_ _. True) t es (fst (ra_run c mac ip es t))"
proof -
  have "fst (ra_run c mac ip es t) = fold (\<lambda>e t. fst (ra_step c mac ip e t)) es t"
    by (induction es arbitrary: t) (simp_all add: case_prod_beta)
  moreover have "event_check (\<lambda>_ _. True) h (\<lambda>_ _. True) t es" for h :: "ra_event \<Rightarrow> learned_prefix list \<Rightarrow> learned_prefix list"
    by (induction es arbitrary: t) simp_all
  ultimately show ?thesis using checked_run by metis
qed

interpretation ra_table: event_invariant "\<lambda>_ _. True" "\<lambda>e t. fst (ra_step c mac ip e t)" "[]" table_ok for c mac ip
  by unfold_locales
     (auto simp: table_ok_def [of "[]"] ra_step_table receive_ra_def learned_usable intro: fold_learn_prefix(2)
       split: ra_event.split)

interpretation ra_kept: event_invariant "\<lambda>_ _. True" "\<lambda>e t. fst (ra_step c mac ip e t)" t
    "\<lambda>t'. lp_prefix ` set t \<subseteq> lp_prefix ` set t'" for c mac ip t
  by unfold_locales
     (use fold_learn_prefix(1) in \<open>fastforce simp: ra_step_table receive_ra_def split: ra_event.split\<close>)+

text \<open>
  A prefix, once learned, is announced for ever: whatever arrives later, also an advertisement that
  withdraws the prefix (a valid lifetime of zero), every later frame still gives it a valid lifetime of a day.
  No prefix is entered twice.
\<close>

theorem withdrawn_prefixes_stay_announced:
  assumes "length mac = 6" and "length (ra_rdnss c) \<le> 3"
    and "l \<in> set (fst (ra_run c mac ip before []))"
    and "table = fst (ra_run c mac ip later (fst (ra_run c mac ip before [])))"
    and "length (build_ra_icmpv6 (ra_params_of c mac ip table)) \<le> 1500"
  shows "distinct (map lp_prefix table)
    \<and> (\<exists>a \<in> set (parse_ra (drop 54 (send_ra c mac ip table))).
          lp_prefix a = lp_prefix l \<and> lp_valid_lifetime a = 86400)"
proof -
  let ?early = "fst (ra_run c mac ip before [])"
  have ok: "table_ok table"
    using ra_table.kept_on [OF ra_table.reachable_inv [OF ra_run_events] ra_run_events] assms(4) by simp
  have "lp_prefix ` set ?early \<subseteq> lp_prefix ` set table"
    using ra_kept.reachable_inv [OF ra_run_events, of ?early] assms(4) by simp
  then obtain x where x: "x \<in> set table" "lp_prefix x = lp_prefix l" using assms(3) by fastforce
  have "parse_ra (drop 54 (send_ra c mac ip table))
      = map advertised_prefix (filter usable_prefix (map (\<lambda>l. (lp_prefix l, lp_prefix_len l)) table))"
    using prefixes_are_learned [of "ra_params_of c mac ip table"] assms
    by (simp add: send_ra_def ra_params_of_def)
  then show ?thesis using ok x by (force simp: table_ok_def advertised_prefix_def)
qed

subsection \<open>Two things the frames do not mean to say\<close>

text \<open>
  The option for DNS servers (RFC 8106) gives its length in units of eight bytes; the code counts one unit for
  each address of sixteen. Whatever the servers, the length it gives is too small.
\<close>

theorem dns_servers_option_is_cut:
  assumes "rp_rdnss p \<noteq> []"
  shows "unat (rdnss_option p ! 1) * 8 < length (rdnss_option p)"
proof -
  let ?n = "length (rp_rdnss p)"
  have "length (rdnss_option p) = 8 + 16 * ?n"
    using assms by (simp add: rdnss_option_def length_concat comp_def sum_list_triv)
  moreover have "unat (rdnss_option p ! 1) \<le> 1 + ?n"
  proof -
    have "rdnss_option p ! 1 = word_of_nat (1 + ?n)" using assms by (simp add: rdnss_option_def)
    then show ?thesis by (simp only: unsigned_of_nat) (simp add: take_bit_nat_less_eq_self)
  qed
  ultimately show ?thesis using assms by (cases "rp_rdnss p") auto
qed

text \<open>
  The frame that is to silence other routers comes from the address of this one, with a lifetime of zero: it
  withdraws the default route that this router's own frames announce.
\<close>

lemma frame_lifetime:
  assumes "length (rp_src_mac p) = 6"
  shows "from_be (subslice 22 16 (build_ra_frame p)) = rp_src_ip p
    \<and> from_be (subslice 60 2 (build_ra_frame p)) = rp_router_lifetime p"
proof -
  obtain c1 c2 where "ra_message p = 134 # 0 # c1 # c2 # ra_body p" using ra_message_body by blast
  then show ?thesis
    using assms by (simp add: build_ra_frame_def build_eth_header_def build_ipv6_header_def subslice_def Let_def
      ra_body_def from_be_bytes)
qed

theorem suppression_withdraws_this_router:
  assumes "length mac = 6"
  shows "from_be (subslice 22 16 (suppress_frame mac ip)) = ip
    \<and> from_be (subslice 22 16 (send_ra c mac ip table)) = ip
    \<and> from_be (subslice 60 2 (suppress_frame mac ip)) = (0 :: 16 word)
    \<and> from_be (subslice 60 2 (send_ra c mac ip table)) = ra_router_lifetime c"
  using assms by (simp add: suppress_frame_def send_ra_def frame_lifetime ra_params_of_def)

subsection \<open>At work\<close>

definition sample_advert :: ra_params where
  "sample_advert = \<lparr>rp_src_mac = [2, 0, 0, 0, 0, 1], rp_src_ip = 0xfe800000000000000000000000000001,
     rp_prefixes = [(0x20010db8000000000000000000000000, 64), (0xfe800000000000000000000000000000, 64)],
     rp_rdnss = [0xfd000000000000000000000000000053], rp_dns_lifetime = 1800, rp_router_lifetime = 1800,
     rp_managed = False, rp_other = True, rp_preference = PrefHigh, rp_mtu = Some 1500\<rparr>"

lemmas sample_advert_simps = sample_advert_def build_ra_icmpv6_def mtu_option_def prefix_option_def rdnss_option_def

theorem sent_advertisements_are_accepted_witness:
  "accepted_checksum (rp_src_ip sample_advert) all_nodes (drop 54 (build_ra_frame sample_advert))"
  using sent_advertisements_are_accepted [of sample_advert] by (simp add: sample_advert_simps Let_def)

theorem advertised_prefixes_are_learned_witness:
  "parse_ra (drop 54 (build_ra_frame sample_advert))
    = [\<lparr>lp_prefix = 0x20010db8000000000000000000000000, lp_prefix_len = 64, lp_valid_lifetime = 86400,
        lp_preferred_lifetime = 14400\<rparr>]"
proof -
  have "map advertised_prefix (filter usable_prefix (rp_prefixes sample_advert))
      = [\<lparr>lp_prefix = 0x20010db8000000000000000000000000, lp_prefix_len = 64, lp_valid_lifetime = 86400,
          lp_preferred_lifetime = 14400\<rparr>]"
    by code_simp
  then show ?thesis
    using advertised_prefixes_are_learned [of sample_advert] by (simp add: sample_advert_simps)
qed

text \<open>A router announces a prefix and withdraws it.\<close>

definition router_packet :: "32 word \<Rightarrow> byte list" where
  "router_packet valid = [134, 0, 0, 0, 64, 0, 7, 8] @ replicate 8 0 @ [3, 4, 64, 0xC0] @ be_bytes 4 valid
     @ be_bytes 4 (0 :: 32 word) @ [0, 0, 0, 0] @ octets 0x20010db8000000000000000000000000"

definition sample_ra_config :: ra_config where
  "sample_ra_config = \<lparr>ra_enable = True, ra_interface = ''eth0'', ra_preference = ''high'', ra_interval = 30,
     ra_managed = False, ra_other = True, ra_router_lifetime = 1800, ra_rdnss = [], ra_dns_lifetime = 1800,
     ra_suppress_other_routers = False\<rparr>"

theorem withdrawn_prefixes_stay_announced_witness:
  "\<exists>a \<in> set (parse_ra (drop 54 (send_ra sample_ra_config [2, 0, 0, 0, 0, 1] 0xfe800000000000000000000000000001
      (fst (ra_run sample_ra_config [2, 0, 0, 0, 0, 1] 0xfe800000000000000000000000000001
        [RaPacket (router_packet 3600), RaPacket (router_packet 0)] []))))).
    lp_prefix a = 0x20010db8000000000000000000000000 \<and> lp_valid_lifetime a = 86400"
proof -
  let ?mac = "[2, 0, 0, 0, 0, 1] :: byte list" and ?ip = "0xfe800000000000000000000000000001 :: 128 word"
  let ?l = "\<lambda>v. \<lparr>lp_prefix = 0x20010db8000000000000000000000000, lp_prefix_len = 64, lp_valid_lifetime = v,
    lp_preferred_lifetime = 0\<rparr>"
  have p: "parse_ra (router_packet 3600) = [?l 3600]" "parse_ra (router_packet 0) = [?l 0]"
    by code_simp+
  have one: "fst (ra_run sample_ra_config ?mac ?ip [RaPacket (router_packet 3600)] []) = [?l 3600]"
    by (simp add: ra_step_def receive_ra_def p)
  have two: "fst (ra_run sample_ra_config ?mac ?ip [RaPacket (router_packet 0)] [?l 3600]) = [?l 0]"
    by (simp add: ra_step_def receive_ra_def p)
  have all: "fst (ra_run sample_ra_config ?mac ?ip [RaPacket (router_packet 3600), RaPacket (router_packet 0)] [])
      = [?l 0]"
    by (simp add: ra_step_def receive_ra_def p)
  show ?thesis
    using withdrawn_prefixes_stay_announced
      [of ?mac sample_ra_config "?l 3600" ?ip "[RaPacket (router_packet 3600)]" "[?l 0]" "[RaPacket (router_packet 0)]"]
    unfolding one two all by (simp add: sample_ra_config_def ra_params_of_def sample_advert_simps)
qed

end
